(* ===== verification/Prelude.thy ===== *)
theory Prelude
  imports Main "HOL-Library.Word"
begin

text \<open>
  Shared vocabulary of the development: the widths of the C types, the results a C++ function
  can have (a value, an exception, undefined behaviour, no return), the \<open>errno\<close> values the
  sources name, memory as a partial function of offsets, and the byte encodings of machine
  integers with their round trips.
\<close>

unbundle bit_operations_syntax

section \<open>Types\<close>

type_synonym byte = "8 word"
type_synonym u16 = "16 word"
type_synonym u32 = "32 word"
type_synonym u64 = "64 word"
type_synonym bytes = "byte list"
type_synonym 'a memory = "nat \<Rightarrow> 'a option"

named_theorems mem_simps \<open>reading and writing memory\<close>
named_theorems status_defs \<open>the numeric values of status codes\<close>
named_theorems os_simps \<open>effects of system calls on the model of the operating system\<close>

text \<open>
  The exceptions that the C++ sources throw; \<open>user_exception\<close> is any other exception of the \<open>std\<close> or
  \<open>boost\<close> hierarchies, \<open>foreign_exception\<close> a thrown value outside of them.
\<close>

datatype cxx_exception =
    return_async_exception
  | return_sync_exception
  | forward_async_exception
  | forward_sync_exception
  | invalid_input_exception int
  | assert_exception
  | user_exception
  | foreign_exception

text \<open>
  What a call can do besides returning: throw, access memory outside an allocation or read an
  indeterminate value (\<open>Undefined\<close>), end the process (\<open>Exited\<close>), or wait for an answer of
  the operating system that never comes, or loop forever (\<open>Blocked\<close>).
\<close>

datatype 'a outcome = Ok 'a | Raise cxx_exception | Undefined | Exited int | Blocked

fun bind_outcome :: "'a outcome \<Rightarrow> ('a \<Rightarrow> 'b outcome) \<Rightarrow> 'b outcome" where
  "bind_outcome (Ok x) f = f x"
| "bind_outcome (Raise e) f = Raise e"
| "bind_outcome Undefined f = Undefined"
| "bind_outcome (Exited i) f = Exited i"
| "bind_outcome Blocked f = Blocked"

lemma bind_outcome_eq_Ok:
  "bind_outcome m f = Ok y \<longleftrightarrow> (\<exists>x. m = Ok x \<and> f x = Ok y)"
  by (cases m) auto

lemma bind_outcome_cong [fundef_cong]:
  "m = m' \<Longrightarrow> (\<And>x. m' = Ok x \<Longrightarrow> f x = f' x) \<Longrightarrow> bind_outcome m f = bind_outcome m' f'"
  by (cases m') auto

text \<open>
  A computation over a state: every outcome carries the state that the caller or an exception
  handler goes on with.
\<close>

definition bind_state ::
  "('s \<Rightarrow> 'a outcome \<times> 's) \<Rightarrow> ('a \<Rightarrow> 's \<Rightarrow> 'b outcome \<times> 's) \<Rightarrow> 's \<Rightarrow> 'b outcome \<times> 's" where
  "bind_state m f s =
     (case m s of
        (Ok x, s') \<Rightarrow> f x s'
      | (Raise e, s') \<Rightarrow> (Raise e, s')
      | (Undefined, s') \<Rightarrow> (Undefined, s')
      | (Exited i, s') \<Rightarrow> (Exited i, s')
      | (Blocked, s') \<Rightarrow> (Blocked, s'))"

lemma bind_state_simps [simp]:
  "m s = (Ok x, s') \<Longrightarrow> bind_state m f s = f x s'"
  "m s = (Raise e, s') \<Longrightarrow> bind_state m f s = (Raise e, s')"
  "m s = (Undefined, s') \<Longrightarrow> bind_state m f s = (Undefined, s')"
  "m s = (Exited i, s') \<Longrightarrow> bind_state m f s = (Exited i, s')"
  "m s = (Blocked, s') \<Longrightarrow> bind_state m f s = (Blocked, s')"
  by (simp_all add: bind_state_def)

lemma bind_state_eq_Ok:
  "bind_state m f s = (Ok y, s'') \<longleftrightarrow> (\<exists>x s'. m s = (Ok x, s') \<and> f x s' = (Ok y, s''))"
  by (auto simp: bind_state_def split: prod.splits outcome.splits)

text \<open>The \<open>errno\<close> values that the sources distinguish; every other value is \<open>EOTHER\<close>.\<close>

datatype (plugins only: code) errno =
    EAGAIN | EBADF | EFAULT | EINTR | EINVAL | EIO | EISDIR | EFBIG | ENOSPC | EPIPE | ENOMEM
  | EMFILE | ENFILE | EBUSY | EACCES | EAFNOSUPPORT | ENOBUFS | EPROTONOSUPPORT | EPERM
  | EADDRINUSE | EALREADY | ECONNREFUSED | EINPROGRESS | EISCONN | ENETUNREACH | ENOTSOCK
  | ETIMEDOUT | ECHILD | E2BIG | ELIBBAD | ELOOP | ENAMETOOLONG | ENOENT | ENOEXEC | ENOTDIR
  | ETXTBSY | EOTHER int

text \<open>String literals as bytes, without the terminating NUL.\<close>

definition cstr :: "string \<Rightarrow> bytes" where
  "cstr s = map of_char s"

lemma length_cstr [simp]: "length (cstr s) = length s"
  by (simp add: cstr_def)

section \<open>Memory\<close>

text \<open>
  A block of memory maps offsets to values; \<open>None\<close> is an indeterminate value (fresh from
  \<open>malloc\<close>). \<open>mem_write\<close> is \<open>memcpy\<close> into the block and \<open>mem_read\<close> reads a range, with
  \<open>None\<close> if any cell of it is indeterminate.
\<close>

definition mem_write :: "nat \<Rightarrow> 'a list \<Rightarrow> 'a memory \<Rightarrow> 'a memory" where
  "mem_write off xs m = (\<lambda>j. if off \<le> j \<and> j < off + length xs then Some (xs ! (j - off)) else m j)"

definition mem_read :: "nat \<Rightarrow> nat \<Rightarrow> 'a memory \<Rightarrow> 'a list option" where
  "mem_read off n m = those (map m [off..<off + n])"

text \<open>\<open>memmove\<close> of \<open>n\<close> cells, and \<open>memcpy\<close> between two blocks.\<close>

definition mem_copy :: "'a memory \<Rightarrow> nat \<Rightarrow> nat \<Rightarrow> nat \<Rightarrow> 'a memory \<Rightarrow> 'a memory" where
  "mem_copy src iSrc n iDst dst =
     (\<lambda>j. if iDst \<le> j \<and> j < iDst + n then src (iSrc + (j - iDst)) else dst j)"

lemma those_eq_Some_iff: "those xs = Some ys \<longleftrightarrow> xs = map Some ys"
proof (induction xs arbitrary: ys)
  case Nil
  then show ?case by auto
next
  case (Cons x xs)
  show ?case
  proof (cases ys)
    case Nil
    then show ?thesis by (cases x) auto
  next
    case (Cons y ys')
    then show ?thesis using Cons.IH by (cases x) auto
  qed
qed

lemma mem_read_eq_Some:
  "mem_read off n m = Some xs \<longleftrightarrow> length xs = n \<and> (\<forall>i < n. m (off + i) = Some (xs ! i))"
  unfolding mem_read_def those_eq_Some_iff list_eq_iff_nth_eq by auto

lemma mem_read_0 [simp, mem_simps]: "mem_read off 0 m = Some []"
  by (simp add: mem_read_eq_Some)

lemma mem_write_Nil [simp, mem_simps]: "mem_write off [] m = m"
  by (rule ext) (auto simp: mem_write_def)

lemma mem_read_write_same [simp, mem_simps]:
  "n = length xs \<Longrightarrow> mem_read off n (mem_write off xs m) = Some xs"
  by (simp add: mem_read_eq_Some mem_write_def)

lemma mem_read_cong:
  "(\<And>j. off \<le> j \<Longrightarrow> j < off + n \<Longrightarrow> m j = m' j) \<Longrightarrow> mem_read off n m = mem_read off n m'"
  unfolding mem_read_def by (rule arg_cong [where f = those]) simp

lemma mem_read_write_disjoint [mem_simps]:
  "off + n \<le> off' \<or> off' + length xs \<le> off \<Longrightarrow>
   mem_read off n (mem_write off' xs m) = mem_read off n m"
  by (rule mem_read_cong) (auto simp: mem_write_def)

lemma mem_write_append [mem_simps]:
  "mem_write (off + length xs) ys (mem_write off xs m) = mem_write off (xs @ ys) m"
  by (rule ext) (auto simp: mem_write_def nth_append)

lemma mem_read_append:
  "mem_read off n m = Some xs \<Longrightarrow> mem_read (off + n) k m = Some ys \<Longrightarrow>
   mem_read off (n + k) m = Some (xs @ ys)"
proof (unfold mem_read_eq_Some, safe)
  fix i
  assume xs: "\<forall>i<length xs. m (off + i) = Some (xs ! i)"
    and ys: "\<forall>i<length ys. m (off + length xs + i) = Some (ys ! i)"
    and i: "i < length xs + length ys"
  show "m (off + i) = Some ((xs @ ys) ! i)"
  proof (cases "i < length xs")
    case True
    with xs show ?thesis by (simp add: nth_append)
  next
    case False
    with i have "m (off + length xs + (i - length xs)) = Some (ys ! (i - length xs))"
      using ys by (metis add_diff_inverse_nat nat_add_left_cancel_less)
    with False show ?thesis by (simp add: nth_append)
  qed
qed simp

lemma mem_read_split:
  assumes "mem_read off (n + k) m = Some xs"
  shows "mem_read off n m = Some (take n xs)" and "mem_read (off + n) k m = Some (drop n xs)"
  using assms by (auto simp: mem_read_eq_Some add.assoc)

lemma mem_read_copy:
  "mem_read iDst n (mem_copy src iSrc n iDst dst) = mem_read iSrc n src"
proof -
  have "map (mem_copy src iSrc n iDst dst) [iDst..<iDst + n] = map src [iSrc..<iSrc + n]"
    by (rule nth_equalityI) (auto simp: mem_copy_def)
  then show ?thesis by (simp add: mem_read_def)
qed

lemma mem_read_copy_disjoint:
  "off + k \<le> iDst \<or> iDst + n \<le> off \<Longrightarrow>
   mem_read off k (mem_copy src iSrc n iDst dst) = mem_read off k dst"
  by (rule mem_read_cong) (auto simp: mem_copy_def)

section \<open>Machine integers as bytes\<close>

text \<open>Little-endian (the native order of the modelled platform) on natural numbers.\<close>

fun le_nat :: "bytes \<Rightarrow> nat" where
  "le_nat [] = 0"
| "le_nat (b # bs) = unat b + 256 * le_nat bs"

fun nat_le :: "nat \<Rightarrow> nat \<Rightarrow> bytes" where
  "nat_le 0 v = []"
| "nat_le (Suc k) v = word_of_nat (v mod 256) # nat_le k (v div 256)"

lemma length_nat_le [simp]: "length (nat_le k v) = k"
  by (induction k arbitrary: v) auto

lemma unat_byte: "unat (word_of_nat (v mod 256) :: byte) = v mod 256"
  by (simp add: unat_of_nat take_bit_eq_mod)

lemma le_nat_nat_le: "le_nat (nat_le k v) = v mod 256 ^ k"
proof (induction k arbitrary: v)
  case 0
  then show ?case by simp
next
  case (Suc k)
  have "le_nat (nat_le (Suc k) v) = v mod 256 + 256 * (v div 256 mod 256 ^ k)"
    using Suc by (simp add: unat_byte)
  also have "\<dots> = v mod (256 * 256 ^ k)"
    by (simp add: mod_mult2_eq)
  finally show ?case by simp
qed

lemma unat_byte_less: "unat (b :: byte) < 256"
  using unsigned_less [of b, where ?'a = nat] by simp

lemma le_nat_less: "le_nat bs < 256 ^ length bs"
proof (induction bs)
  case Nil
  then show ?case by simp
next
  case (Cons b bs)
  have "unat b + 256 * le_nat bs < 256 * Suc (le_nat bs)"
    using unat_byte_less [of b] by simp
  also have "\<dots> \<le> 256 * 256 ^ length bs"
    using Cons by (intro mult_le_mono2) simp
  finally show ?case by simp
qed

lemma nat_le_le_nat: "nat_le (length bs) (le_nat bs) = bs"
proof (induction bs)
  case Nil
  then show ?case by simp
next
  case (Cons b bs)
  have "(unat b + 256 * le_nat bs) mod 256 = unat b" "(unat b + 256 * le_nat bs) div 256 = le_nat bs"
    using unat_byte_less [of b] by auto
  with Cons show ?case by simp
qed

definition u32_of :: "bytes \<Rightarrow> u32" where
  "u32_of bs = word_of_nat (le_nat bs)"

definition u32_bytes :: "u32 \<Rightarrow> bytes" where
  "u32_bytes w = nat_le 4 (unat w)"

definition u64_of :: "bytes \<Rightarrow> u64" where
  "u64_of bs = word_of_nat (le_nat bs)"

definition u64_bytes :: "u64 \<Rightarrow> bytes" where
  "u64_bytes w = nat_le 8 (unat w)"

lemma length_u32_bytes [simp]: "length (u32_bytes w) = 4"
  by (simp add: u32_bytes_def)

lemma length_u64_bytes [simp]: "length (u64_bytes w) = 8"
  by (simp add: u64_bytes_def)

lemma u32_of_bytes [simp]: "u32_of (u32_bytes w) = w"
  using unsigned_less [of w, where ?'a = nat] by (simp add: u32_of_def u32_bytes_def le_nat_nat_le)

lemma u64_of_bytes [simp]: "u64_of (u64_bytes w) = w"
  using unsigned_less [of w, where ?'a = nat] by (simp add: u64_of_def u64_bytes_def le_nat_nat_le)

end
