(* ===== verification/State_Machine.thy ===== *)
theory State_Machine
  imports Prelude
begin

text \<open>
  State machines: the states that are reachable by the steps of a relation, and the two contracts that the
  components with a state prove. An invariant holds at the start and is kept by every step; a machine with
  commands has an invariant under which every allowed command is defined, and is a machine with an
  invariant through the steps of its commands.
\<close>

inductive reach :: "('s \<Rightarrow> bool) \<Rightarrow> ('s \<Rightarrow> 's \<Rightarrow> bool) \<Rightarrow> 's \<Rightarrow> bool" for start step where
  start: "start s \<Longrightarrow> reach start step s"
| step: "reach start step s \<Longrightarrow> step s s' \<Longrightarrow> reach start step s'"

locale invariant =
  fixes start :: "'s \<Rightarrow> bool"
    and step :: "'s \<Rightarrow> 's \<Rightarrow> bool"
    and inv :: "'s \<Rightarrow> bool"
  assumes start_inv: "start s \<Longrightarrow> inv s"
    and step_inv: "step s s' \<Longrightarrow> inv s \<Longrightarrow> inv s'"
begin

lemma inv_reach: "reach start step s \<Longrightarrow> inv s"
  by (induction rule: reach.induct) (auto intro: start_inv step_inv)

lemma inv_steps: "step\<^sup>*\<^sup>* s s' \<Longrightarrow> inv s \<Longrightarrow> inv s'"
  by (induction rule: rtranclp_induct) (auto intro: step_inv)

end

definition command_step :: "('c \<Rightarrow> 's \<Rightarrow> bool) \<Rightarrow> ('c \<Rightarrow> 's \<Rightarrow> 's outcome) \<Rightarrow> 's \<Rightarrow> 's \<Rightarrow> bool" where
  "command_step allowed exec s s' \<longleftrightarrow> (\<exists>c. allowed c s \<and> exec c s = Ok s')"

locale command_machine =
  fixes start :: "'s \<Rightarrow> bool"
    and allowed :: "'c \<Rightarrow> 's \<Rightarrow> bool"
    and exec :: "'c \<Rightarrow> 's \<Rightarrow> 's outcome"
    and inv :: "'s \<Rightarrow> bool"
  assumes command_start: "start s \<Longrightarrow> inv s"
    and command_ok: "inv s \<Longrightarrow> allowed c s \<Longrightarrow> \<exists>s'. exec c s = Ok s' \<and> inv s'"
begin

lemma command_inv: "command_step allowed exec s s' \<Longrightarrow> inv s \<Longrightarrow> inv s'"
  unfolding command_step_def using command_ok by fastforce

end

sublocale command_machine \<subseteq> invariant start "command_step allowed exec" inv
  by unfold_locales (fact command_start, fact command_inv)

context command_machine
begin

lemma command_reach:
  assumes "reach start (command_step allowed exec) s"
  shows "inv s \<and> (\<forall>c. allowed c s \<longrightarrow> (\<exists>s'. exec c s = Ok s' \<and> inv s'))"
  using inv_reach [OF assms] command_ok by blast

end

end
