(* ===== verification/Status_Codes.thy ===== *)
theory Status_Codes
  imports Prelude
begin

text \<open>
  The status codes of the three programs: the \<open>enum\<close> of \<^verbatim>\<open>api/c/cloudi.h\<close>, the constants of
  \<open>GEPD::ExitStatus\<close> in \<^verbatim>\<open>port.hpp\<close> and the \<open>enum\<close> of \<open>spawn_status\<close> in
  \<^verbatim>\<open>cloudi_os_spawn.cpp\<close>, with the functions that turn \<open>errno\<close> into a status and
  \<open>spawn_status::string\<close>. A C enumeration is a datatype with one constructor per enumerator
  (the constructors of \<open>GEPD::ExitStatus\<close> and \<open>spawn_status\<close> carry the prefixes \<open>gepd_\<close> and
  \<open>spawn_\<close>) and a function that gives the numbers. The locale \<open>errno_map\<close> is the contract
  that every \<open>errno\<close> translation keeps.
\<close>

section \<open>Enumerations\<close>

datatype (plugins only: code) cloudi_status =
    cloudi_success | cloudi_terminate | cloudi_timeout | cloudi_error_function_parameter
  | cloudi_error_read_underflow | cloudi_error_ei_decode | cloudi_invalid_input
  | cloudi_out_of_memory | cloudi_error_read_EAGAIN | cloudi_error_read_EBADF
  | cloudi_error_read_EFAULT | cloudi_error_read_EINTR | cloudi_error_read_EINVAL
  | cloudi_error_read_EIO | cloudi_error_read_EISDIR | cloudi_error_read_null
  | cloudi_error_read_overflow | cloudi_error_read_unknown | cloudi_error_write_EAGAIN
  | cloudi_error_write_EBADF | cloudi_error_write_EFAULT | cloudi_error_write_EFBIG
  | cloudi_error_write_EINTR | cloudi_error_write_EINVAL | cloudi_error_write_EIO
  | cloudi_error_write_ENOSPC | cloudi_error_write_EPIPE | cloudi_error_write_null
  | cloudi_error_write_overflow | cloudi_error_write_unknown | cloudi_error_ei_encode
  | cloudi_error_poll_EBADF | cloudi_error_poll_EFAULT | cloudi_error_poll_EINTR
  | cloudi_error_poll_EINVAL | cloudi_error_poll_ENOMEM | cloudi_error_poll_ERR
  | cloudi_error_poll_HUP | cloudi_error_poll_NVAL | cloudi_error_poll_unknown

primrec status_value :: "cloudi_status \<Rightarrow> int" where
  "status_value cloudi_success = 0"
| "status_value cloudi_terminate = 110"
| "status_value cloudi_timeout = 7"
| "status_value cloudi_error_function_parameter = 8"
| "status_value cloudi_error_read_underflow = 9"
| "status_value cloudi_error_ei_decode = 10"
| "status_value cloudi_invalid_input = 11"
| "status_value cloudi_out_of_memory = 12"
| "status_value cloudi_error_read_EAGAIN = 81"
| "status_value cloudi_error_read_EBADF = 82"
| "status_value cloudi_error_read_EFAULT = 83"
| "status_value cloudi_error_read_EINTR = 84"
| "status_value cloudi_error_read_EINVAL = 85"
| "status_value cloudi_error_read_EIO = 86"
| "status_value cloudi_error_read_EISDIR = 87"
| "status_value cloudi_error_read_null = 88"
| "status_value cloudi_error_read_overflow = 89"
| "status_value cloudi_error_read_unknown = 90"
| "status_value cloudi_error_write_EAGAIN = 91"
| "status_value cloudi_error_write_EBADF = 92"
| "status_value cloudi_error_write_EFAULT = 93"
| "status_value cloudi_error_write_EFBIG = 94"
| "status_value cloudi_error_write_EINTR = 95"
| "status_value cloudi_error_write_EINVAL = 96"
| "status_value cloudi_error_write_EIO = 97"
| "status_value cloudi_error_write_ENOSPC = 98"
| "status_value cloudi_error_write_EPIPE = 99"
| "status_value cloudi_error_write_null = 100"
| "status_value cloudi_error_write_overflow = 101"
| "status_value cloudi_error_write_unknown = 102"
| "status_value cloudi_error_ei_encode = 103"
| "status_value cloudi_error_poll_EBADF = 104"
| "status_value cloudi_error_poll_EFAULT = 105"
| "status_value cloudi_error_poll_EINTR = 106"
| "status_value cloudi_error_poll_EINVAL = 107"
| "status_value cloudi_error_poll_ENOMEM = 108"
| "status_value cloudi_error_poll_ERR = 109"
| "status_value cloudi_error_poll_HUP = 110"
| "status_value cloudi_error_poll_NVAL = 111"
| "status_value cloudi_error_poll_unknown = 112"

datatype (plugins only: code) exit_status =
    gepd_success | gepd_ready | gepd_timeout | gepd_erlang_exit | gepd_read_EAGAIN
  | gepd_read_EBADF | gepd_read_EFAULT | gepd_read_EINTR | gepd_read_EINVAL | gepd_read_EIO
  | gepd_read_EISDIR | gepd_read_null | gepd_read_overflow | gepd_read_unknown
  | gepd_write_EAGAIN | gepd_write_EBADF | gepd_write_EFAULT | gepd_write_EFBIG
  | gepd_write_EINTR | gepd_write_EINVAL | gepd_write_EIO | gepd_write_ENOSPC | gepd_write_EPIPE
  | gepd_write_null | gepd_write_overflow | gepd_write_unknown | gepd_ei_encode_error
  | gepd_poll_EBADF | gepd_poll_EFAULT | gepd_poll_EINTR | gepd_poll_EINVAL | gepd_poll_ENOMEM
  | gepd_poll_ERR | gepd_poll_HUP | gepd_poll_NVAL | gepd_poll_unknown | gepd_pipe_EFAULT
  | gepd_pipe_EINVAL | gepd_pipe_EMFILE | gepd_pipe_ENFILE | gepd_pipe_unknown | gepd_dup_EBADF
  | gepd_dup_EBUSY | gepd_dup_EINTR | gepd_dup_EINVAL | gepd_dup_EMFILE | gepd_dup_unknown
  | gepd_close_EBADF | gepd_close_EINTR | gepd_close_EIO | gepd_close_unknown

primrec exit_value :: "exit_status \<Rightarrow> int" where
  "exit_value gepd_success = 0"
| "exit_value gepd_ready = 78"
| "exit_value gepd_timeout = 79"
| "exit_value gepd_erlang_exit = 80"
| "exit_value gepd_read_EAGAIN = 81"
| "exit_value gepd_read_EBADF = 82"
| "exit_value gepd_read_EFAULT = 83"
| "exit_value gepd_read_EINTR = 84"
| "exit_value gepd_read_EINVAL = 85"
| "exit_value gepd_read_EIO = 86"
| "exit_value gepd_read_EISDIR = 87"
| "exit_value gepd_read_null = 88"
| "exit_value gepd_read_overflow = 89"
| "exit_value gepd_read_unknown = 90"
| "exit_value gepd_write_EAGAIN = 91"
| "exit_value gepd_write_EBADF = 92"
| "exit_value gepd_write_EFAULT = 93"
| "exit_value gepd_write_EFBIG = 94"
| "exit_value gepd_write_EINTR = 95"
| "exit_value gepd_write_EINVAL = 96"
| "exit_value gepd_write_EIO = 97"
| "exit_value gepd_write_ENOSPC = 98"
| "exit_value gepd_write_EPIPE = 99"
| "exit_value gepd_write_null = 100"
| "exit_value gepd_write_overflow = 101"
| "exit_value gepd_write_unknown = 102"
| "exit_value gepd_ei_encode_error = 103"
| "exit_value gepd_poll_EBADF = 104"
| "exit_value gepd_poll_EFAULT = 105"
| "exit_value gepd_poll_EINTR = 106"
| "exit_value gepd_poll_EINVAL = 107"
| "exit_value gepd_poll_ENOMEM = 108"
| "exit_value gepd_poll_ERR = 109"
| "exit_value gepd_poll_HUP = 110"
| "exit_value gepd_poll_NVAL = 111"
| "exit_value gepd_poll_unknown = 112"
| "exit_value gepd_pipe_EFAULT = 113"
| "exit_value gepd_pipe_EINVAL = 114"
| "exit_value gepd_pipe_EMFILE = 115"
| "exit_value gepd_pipe_ENFILE = 116"
| "exit_value gepd_pipe_unknown = 117"
| "exit_value gepd_dup_EBADF = 118"
| "exit_value gepd_dup_EBUSY = 119"
| "exit_value gepd_dup_EINTR = 120"
| "exit_value gepd_dup_EINVAL = 121"
| "exit_value gepd_dup_EMFILE = 122"
| "exit_value gepd_dup_unknown = 123"
| "exit_value gepd_close_EBADF = 124"
| "exit_value gepd_close_EINTR = 125"
| "exit_value gepd_close_EIO = 126"
| "exit_value gepd_close_unknown = 127"

definition gepd_min :: int where
  "gepd_min = 78"

definition gepd_errors_min :: int where
  "gepd_errors_min = 80"

definition gepd_errors_max :: int where
  "gepd_errors_max = gepd_errors_min + 48"

definition gepd_error_HUP :: exit_status where
  "gepd_error_HUP = gepd_poll_HUP"

datatype (plugins only:) spawn_status =
    spawn_success | spawn_invalid_input | spawn_out_of_memory | spawn_pipe_EFAULT
  | spawn_pipe_EINVAL | spawn_pipe_EMFILE | spawn_pipe_ENFILE | spawn_pipe_unknown
  | spawn_fork_EAGAIN | spawn_fork_ENOMEM | spawn_fork_unknown | spawn_socket_EACCES
  | spawn_socket_EAFNOSUPPORT | spawn_socket_EINVAL | spawn_socket_EMFILE | spawn_socket_ENFILE
  | spawn_socket_ENOBUFS | spawn_socket_ENOMEM | spawn_socket_EPROTONOSUPPORT
  | spawn_socket_unknown | spawn_dup_EBADF | spawn_dup_EBUSY | spawn_dup_EINTR
  | spawn_dup_EINVAL | spawn_dup_EMFILE | spawn_dup_unknown | spawn_close_EBADF
  | spawn_close_EINTR | spawn_close_EIO | spawn_close_unknown | spawn_waitpid_ECHILD
  | spawn_waitpid_EINTR | spawn_waitpid_EINVAL | spawn_waitpid_unknown | spawn_connect_EACCES
  | spawn_connect_EPERM | spawn_connect_EADDRINUSE | spawn_connect_EAFNOSUPPORT
  | spawn_connect_EAGAIN | spawn_connect_EALREADY | spawn_connect_EBADF
  | spawn_connect_ECONNREFUSED | spawn_connect_EFAULT | spawn_connect_EINPROGRESS
  | spawn_connect_EINTR | spawn_connect_EISCONN | spawn_connect_ENETUNREACH
  | spawn_connect_ENOTSOCK | spawn_connect_ETIMEDOUT | spawn_connect_unknown | spawn_exec_E2BIG
  | spawn_exec_EACCES | spawn_exec_EFAULT | spawn_exec_EINVAL | spawn_exec_EIO
  | spawn_exec_EISDIR | spawn_exec_ELIBBAD | spawn_exec_ELOOP | spawn_exec_EMFILE
  | spawn_exec_ENAMETOOLONG | spawn_exec_ENFILE | spawn_exec_ENOENT | spawn_exec_ENOEXEC
  | spawn_exec_ENOMEM | spawn_exec_ENOTDIR | spawn_exec_EPERM | spawn_exec_ETXTBSY
  | spawn_exec_unknown | spawn_last_value

primrec spawn_value :: "spawn_status \<Rightarrow> int" where
  "spawn_value spawn_success = 0"
| "spawn_value spawn_invalid_input = 11"
| "spawn_value spawn_out_of_memory = 12"
| "spawn_value spawn_pipe_EFAULT = 13"
| "spawn_value spawn_pipe_EINVAL = 14"
| "spawn_value spawn_pipe_EMFILE = 15"
| "spawn_value spawn_pipe_ENFILE = 16"
| "spawn_value spawn_pipe_unknown = 17"
| "spawn_value spawn_fork_EAGAIN = 18"
| "spawn_value spawn_fork_ENOMEM = 19"
| "spawn_value spawn_fork_unknown = 20"
| "spawn_value spawn_socket_EACCES = 21"
| "spawn_value spawn_socket_EAFNOSUPPORT = 22"
| "spawn_value spawn_socket_EINVAL = 23"
| "spawn_value spawn_socket_EMFILE = 24"
| "spawn_value spawn_socket_ENFILE = 25"
| "spawn_value spawn_socket_ENOBUFS = 26"
| "spawn_value spawn_socket_ENOMEM = 27"
| "spawn_value spawn_socket_EPROTONOSUPPORT = 28"
| "spawn_value spawn_socket_unknown = 29"
| "spawn_value spawn_dup_EBADF = 30"
| "spawn_value spawn_dup_EBUSY = 31"
| "spawn_value spawn_dup_EINTR = 32"
| "spawn_value spawn_dup_EINVAL = 33"
| "spawn_value spawn_dup_EMFILE = 34"
| "spawn_value spawn_dup_unknown = 35"
| "spawn_value spawn_close_EBADF = 36"
| "spawn_value spawn_close_EINTR = 37"
| "spawn_value spawn_close_EIO = 38"
| "spawn_value spawn_close_unknown = 39"
| "spawn_value spawn_waitpid_ECHILD = 40"
| "spawn_value spawn_waitpid_EINTR = 41"
| "spawn_value spawn_waitpid_EINVAL = 42"
| "spawn_value spawn_waitpid_unknown = 43"
| "spawn_value spawn_connect_EACCES = 44"
| "spawn_value spawn_connect_EPERM = 45"
| "spawn_value spawn_connect_EADDRINUSE = 46"
| "spawn_value spawn_connect_EAFNOSUPPORT = 47"
| "spawn_value spawn_connect_EAGAIN = 48"
| "spawn_value spawn_connect_EALREADY = 49"
| "spawn_value spawn_connect_EBADF = 50"
| "spawn_value spawn_connect_ECONNREFUSED = 51"
| "spawn_value spawn_connect_EFAULT = 52"
| "spawn_value spawn_connect_EINPROGRESS = 53"
| "spawn_value spawn_connect_EINTR = 54"
| "spawn_value spawn_connect_EISCONN = 55"
| "spawn_value spawn_connect_ENETUNREACH = 56"
| "spawn_value spawn_connect_ENOTSOCK = 57"
| "spawn_value spawn_connect_ETIMEDOUT = 58"
| "spawn_value spawn_connect_unknown = 59"
| "spawn_value spawn_exec_E2BIG = 60"
| "spawn_value spawn_exec_EACCES = 61"
| "spawn_value spawn_exec_EFAULT = 62"
| "spawn_value spawn_exec_EINVAL = 63"
| "spawn_value spawn_exec_EIO = 64"
| "spawn_value spawn_exec_EISDIR = 65"
| "spawn_value spawn_exec_ELIBBAD = 66"
| "spawn_value spawn_exec_ELOOP = 67"
| "spawn_value spawn_exec_EMFILE = 68"
| "spawn_value spawn_exec_ENAMETOOLONG = 69"
| "spawn_value spawn_exec_ENFILE = 70"
| "spawn_value spawn_exec_ENOENT = 71"
| "spawn_value spawn_exec_ENOEXEC = 72"
| "spawn_value spawn_exec_ENOMEM = 73"
| "spawn_value spawn_exec_ENOTDIR = 74"
| "spawn_value spawn_exec_EPERM = 75"
| "spawn_value spawn_exec_ETXTBSY = 76"
| "spawn_value spawn_exec_unknown = 77"
| "spawn_value spawn_last_value = 78"

text \<open>
  \<open>spawn_status::string\<close>: the \<open>switch\<close> over the status of a terminated process, in the order of
  the source. \<open>None\<close> is the null pointer of the \<open>default\<close> label.
\<close>

definition spawn_strings :: "(int \<times> string) list" where
  "spawn_strings =
    [(spawn_value spawn_invalid_input, ''invalid_input''),
     (spawn_value spawn_out_of_memory, ''out_of_memory''),
     (spawn_value spawn_pipe_EFAULT, ''pipe_EFAULT''),
     (spawn_value spawn_pipe_EINVAL, ''pipe_EINVAL''),
     (spawn_value spawn_pipe_EMFILE, ''pipe_EMFILE''),
     (spawn_value spawn_pipe_ENFILE, ''pipe_ENFILE''),
     (spawn_value spawn_pipe_unknown, ''pipe_unknown''),
     (spawn_value spawn_fork_EAGAIN, ''fork_EAGAIN''),
     (spawn_value spawn_fork_ENOMEM, ''fork_ENOMEM''),
     (spawn_value spawn_fork_unknown, ''fork_unknown''),
     (spawn_value spawn_socket_EACCES, ''socket_EACCES''),
     (spawn_value spawn_socket_EAFNOSUPPORT, ''socket_EAFNOSUPPORT''),
     (spawn_value spawn_socket_EINVAL, ''socket_EINVAL''),
     (spawn_value spawn_socket_EMFILE, ''socket_EMFILE''),
     (spawn_value spawn_socket_ENFILE, ''socket_ENFILE''),
     (spawn_value spawn_socket_ENOBUFS, ''socket_ENOBUFS''),
     (spawn_value spawn_socket_ENOMEM, ''socket_ENOMEM''),
     (spawn_value spawn_socket_EPROTONOSUPPORT, ''socket_EPROTONOSUPPORT''),
     (spawn_value spawn_socket_unknown, ''socket_unknown''),
     (spawn_value spawn_dup_EBADF, ''dup_EBADF''),
     (spawn_value spawn_dup_EBUSY, ''dup_EBUSY''),
     (spawn_value spawn_dup_EINTR, ''dup_EINTR''),
     (spawn_value spawn_dup_EINVAL, ''dup_EINVAL''),
     (spawn_value spawn_dup_EMFILE, ''dup_EMFILE''),
     (spawn_value spawn_dup_unknown, ''dup_unknown''),
     (spawn_value spawn_close_EBADF, ''close_EBADF''),
     (spawn_value spawn_close_EINTR, ''close_EINTR''),
     (spawn_value spawn_close_EIO, ''close_EIO''),
     (spawn_value spawn_close_unknown, ''close_unknown''),
     (spawn_value spawn_waitpid_ECHILD, ''waitpid_ECHILD''),
     (spawn_value spawn_waitpid_EINTR, ''waitpid_EINTR''),
     (spawn_value spawn_waitpid_EINVAL, ''waitpid_EINVAL''),
     (spawn_value spawn_waitpid_unknown, ''waitpid_unknown''),
     (spawn_value spawn_connect_EACCES, ''connect_EACCES''),
     (spawn_value spawn_connect_EPERM, ''connect_EPERM''),
     (spawn_value spawn_connect_EADDRINUSE, ''connect_EADDRINUSE''),
     (spawn_value spawn_connect_EAFNOSUPPORT, ''connect_EAFNOSUPPORT''),
     (spawn_value spawn_connect_EAGAIN, ''connect_EAGAIN''),
     (spawn_value spawn_connect_EALREADY, ''connect_EALREADY''),
     (spawn_value spawn_connect_EBADF, ''connect_EBADF''),
     (spawn_value spawn_connect_ECONNREFUSED, ''connect_ECONNREFUSED''),
     (spawn_value spawn_connect_EFAULT, ''connect_EFAULT''),
     (spawn_value spawn_connect_EINPROGRESS, ''connect_EINPROGRESS''),
     (spawn_value spawn_connect_EINTR, ''connect_EINTR''),
     (spawn_value spawn_connect_EISCONN, ''connect_EISCONN''),
     (spawn_value spawn_connect_ENETUNREACH, ''connect_ENETUNREACH''),
     (spawn_value spawn_connect_ENOTSOCK, ''connect_ENOTSOCK''),
     (spawn_value spawn_connect_ETIMEDOUT, ''connect_ETIMEDOUT''),
     (spawn_value spawn_connect_unknown, ''connect_unknown''),
     (spawn_value spawn_exec_E2BIG, ''exec_E2BIG''),
     (spawn_value spawn_exec_EACCES, ''exec_EACCES''),
     (spawn_value spawn_exec_EFAULT, ''exec_EFAULT''),
     (spawn_value spawn_exec_EINVAL, ''exec_EINVAL''),
     (spawn_value spawn_exec_EIO, ''exec_EIO''),
     (spawn_value spawn_exec_EISDIR, ''exec_EISDIR''),
     (spawn_value spawn_exec_ELIBBAD, ''exec_ELIBBAD''),
     (spawn_value spawn_exec_ELOOP, ''exec_ELOOP''),
     (spawn_value spawn_exec_EMFILE, ''exec_EMFILE''),
     (spawn_value spawn_exec_ENAMETOOLONG, ''exec_ENAMETOOLONG''),
     (spawn_value spawn_exec_ENFILE, ''exec_ENFILE''),
     (spawn_value spawn_exec_ENOENT, ''exec_ENOENT''),
     (spawn_value spawn_exec_ENOEXEC, ''exec_ENOEXEC''),
     (spawn_value spawn_exec_ENOMEM, ''exec_ENOMEM''),
     (spawn_value spawn_exec_ENOTDIR, ''exec_ENOTDIR''),
     (spawn_value spawn_exec_EPERM, ''exec_EPERM''),
     (spawn_value spawn_exec_ETXTBSY, ''exec_ETXTBSY''),
     (spawn_value spawn_exec_unknown, ''exec_unknown'')]"

definition gepd_strings :: "(int \<times> string) list" where
  "gepd_strings =
    [(exit_value gepd_read_EAGAIN, ''read_EAGAIN''),
     (exit_value gepd_read_EBADF, ''read_EBADF''),
     (exit_value gepd_read_EFAULT, ''read_EFAULT''),
     (exit_value gepd_read_EINTR, ''read_EINTR''),
     (exit_value gepd_read_EINVAL, ''read_EINVAL''),
     (exit_value gepd_read_EIO, ''read_EIO''),
     (exit_value gepd_read_EISDIR, ''read_EISDIR''),
     (exit_value gepd_read_null, ''read_null''),
     (exit_value gepd_read_overflow, ''read_overflow''),
     (exit_value gepd_read_unknown, ''read_unknown''),
     (exit_value gepd_write_EAGAIN, ''write_EAGAIN''),
     (exit_value gepd_write_EBADF, ''write_EBADF''),
     (exit_value gepd_write_EFAULT, ''write_EFAULT''),
     (exit_value gepd_write_EFBIG, ''write_EFBIG''),
     (exit_value gepd_write_EINTR, ''write_EINTR''),
     (exit_value gepd_write_EINVAL, ''write_EINVAL''),
     (exit_value gepd_write_EIO, ''write_EIO''),
     (exit_value gepd_write_ENOSPC, ''write_ENOSPC''),
     (exit_value gepd_write_EPIPE, ''write_EPIPE''),
     (exit_value gepd_write_null, ''write_null''),
     (exit_value gepd_write_overflow, ''write_overflow''),
     (exit_value gepd_write_unknown, ''write_unknown''),
     (exit_value gepd_ei_encode_error, ''ei_encode_error''),
     (exit_value gepd_poll_EBADF, ''poll_EBADF''),
     (exit_value gepd_poll_EFAULT, ''poll_EFAULT''),
     (exit_value gepd_poll_EINTR, ''poll_EINTR''),
     (exit_value gepd_poll_EINVAL, ''poll_EINVAL''),
     (exit_value gepd_poll_ENOMEM, ''poll_ENOMEM''),
     (exit_value gepd_poll_ERR, ''poll_ERR''),
     (exit_value gepd_poll_HUP, ''poll_HUP''),
     (exit_value gepd_poll_NVAL, ''poll_NVAL''),
     (exit_value gepd_poll_unknown, ''poll_unknown''),
     (exit_value gepd_pipe_EFAULT, ''pipe_EFAULT''),
     (exit_value gepd_pipe_EINVAL, ''pipe_EINVAL''),
     (exit_value gepd_pipe_EMFILE, ''pipe_EMFILE''),
     (exit_value gepd_pipe_ENFILE, ''pipe_ENFILE''),
     (exit_value gepd_pipe_unknown, ''pipe_unknown''),
     (exit_value gepd_dup_EBADF, ''dup_EBADF''),
     (exit_value gepd_dup_EBUSY, ''dup_EBUSY''),
     (exit_value gepd_dup_EINTR, ''dup_EINTR''),
     (exit_value gepd_dup_EINVAL, ''dup_EINVAL''),
     (exit_value gepd_dup_EMFILE, ''dup_EMFILE''),
     (exit_value gepd_dup_unknown, ''dup_unknown''),
     (exit_value gepd_close_EBADF, ''close_EBADF''),
     (exit_value gepd_close_EINTR, ''close_EINTR''),
     (exit_value gepd_close_EIO, ''close_EIO''),
     (exit_value gepd_close_unknown, ''close_unknown'')]"

definition signal_strings :: "(int \<times> string) list" where
  "signal_strings =
    [(129, ''SIGHUP''),
     (130, ''SIGINT''),
     (131, ''SIGQUIT''),
     (132, ''SIGILL''),
     (133, ''SIGTRAP''),
     (134, ''SIGABRT''),
     (135, ''SIGBUS/SIGEMT''),
     (136, ''SIGFPE''),
     (137, ''SIGKILL''),
     (138, ''SIGUSR1/SIGBUS''),
     (139, ''SIGSEGV''),
     (140, ''SIGUSR2/SIGSYS''),
     (141, ''SIGPIPE''),
     (142, ''SIGALRM''),
     (143, ''SIGTERM''),
     (144, ''SIGUSR1/SIGURG''),
     (145, ''SIGUSR2/SIGCHLD/SIGSTOP''),
     (146, ''SIGCHLD/SIGCONT/SIGTSTP''),
     (147, ''SIGCONT/SIGSTOP/SIGPWR''),
     (148, ''SIGCHLD/SIGTSTP/SIGWINCH''),
     (149, ''SIGTTIN/SIGURG''),
     (150, ''SIGTTOU/SIGIO''),
     (151, ''SIGSTOP/SIGURG/SIGIO''),
     (152, ''SIGTSTP/SIGXCPU''),
     (153, ''SIGCONT/SIGXFSZ''),
     (154, ''SIGTTIN/SIGVTALRM''),
     (155, ''SIGTTOU/SIGPROF''),
     (156, ''SIGVTALRM/SIGWINCH''),
     (157, ''SIGPROF/SIGIO/SIGPWR''),
     (158, ''SIGUSR1/SIGXCPU/SIGPWR''),
     (159, ''SIGUSR2/SIGXFSZ/SIGSYS'')]"

definition spawn_status_string :: "int \<Rightarrow> string option" where
  "spawn_status_string status =
     map_of (spawn_strings @ gepd_strings @ signal_strings) status"

section \<open>Translating \<open>errno\<close>\<close>

definition cloudi_errno_read :: "errno \<Rightarrow> cloudi_status" where
  "cloudi_errno_read e =
     (case e of
        EAGAIN \<Rightarrow> cloudi_error_read_EAGAIN
      | EBADF \<Rightarrow> cloudi_error_read_EBADF
      | EFAULT \<Rightarrow> cloudi_error_read_EFAULT
      | EINTR \<Rightarrow> cloudi_error_read_EINTR
      | EINVAL \<Rightarrow> cloudi_error_read_EINVAL
      | EIO \<Rightarrow> cloudi_error_read_EIO
      | EISDIR \<Rightarrow> cloudi_error_read_EISDIR
      | _ \<Rightarrow> cloudi_error_read_unknown)"

definition cloudi_errno_write :: "errno \<Rightarrow> cloudi_status" where
  "cloudi_errno_write e =
     (case e of
        EAGAIN \<Rightarrow> cloudi_error_write_EAGAIN
      | EBADF \<Rightarrow> cloudi_error_write_EBADF
      | EFAULT \<Rightarrow> cloudi_error_write_EFAULT
      | EFBIG \<Rightarrow> cloudi_error_write_EFBIG
      | EINTR \<Rightarrow> cloudi_error_write_EINTR
      | EINVAL \<Rightarrow> cloudi_error_write_EINVAL
      | EIO \<Rightarrow> cloudi_error_write_EIO
      | ENOSPC \<Rightarrow> cloudi_error_write_ENOSPC
      | EPIPE \<Rightarrow> cloudi_error_write_EPIPE
      | _ \<Rightarrow> cloudi_error_write_unknown)"

definition cloudi_errno_poll :: "errno \<Rightarrow> cloudi_status" where
  "cloudi_errno_poll e =
     (case e of
        EBADF \<Rightarrow> cloudi_error_poll_EBADF
      | EFAULT \<Rightarrow> cloudi_error_poll_EFAULT
      | EINTR \<Rightarrow> cloudi_error_poll_EINTR
      | EINVAL \<Rightarrow> cloudi_error_poll_EINVAL
      | ENOMEM \<Rightarrow> cloudi_error_poll_ENOMEM
      | _ \<Rightarrow> cloudi_error_poll_unknown)"

definition gepd_errno_read :: "errno \<Rightarrow> exit_status" where
  "gepd_errno_read e =
     (case e of
        EAGAIN \<Rightarrow> gepd_read_EAGAIN
      | EBADF \<Rightarrow> gepd_read_EBADF
      | EFAULT \<Rightarrow> gepd_read_EFAULT
      | EINTR \<Rightarrow> gepd_read_EINTR
      | EINVAL \<Rightarrow> gepd_read_EINVAL
      | EIO \<Rightarrow> gepd_read_EIO
      | EISDIR \<Rightarrow> gepd_read_EISDIR
      | _ \<Rightarrow> gepd_read_unknown)"

definition gepd_errno_write :: "errno \<Rightarrow> exit_status" where
  "gepd_errno_write e =
     (case e of
        EAGAIN \<Rightarrow> gepd_write_EAGAIN
      | EBADF \<Rightarrow> gepd_write_EBADF
      | EFAULT \<Rightarrow> gepd_write_EFAULT
      | EFBIG \<Rightarrow> gepd_write_EFBIG
      | EINTR \<Rightarrow> gepd_write_EINTR
      | EINVAL \<Rightarrow> gepd_write_EINVAL
      | EIO \<Rightarrow> gepd_write_EIO
      | ENOSPC \<Rightarrow> gepd_write_ENOSPC
      | EPIPE \<Rightarrow> gepd_write_EPIPE
      | _ \<Rightarrow> gepd_write_unknown)"

definition gepd_errno_poll :: "errno \<Rightarrow> exit_status" where
  "gepd_errno_poll e =
     (case e of
        EBADF \<Rightarrow> gepd_poll_EBADF
      | EFAULT \<Rightarrow> gepd_poll_EFAULT
      | EINTR \<Rightarrow> gepd_poll_EINTR
      | EINVAL \<Rightarrow> gepd_poll_EINVAL
      | ENOMEM \<Rightarrow> gepd_poll_ENOMEM
      | _ \<Rightarrow> gepd_poll_unknown)"

definition gepd_errno_pipe :: "errno \<Rightarrow> exit_status" where
  "gepd_errno_pipe e =
     (case e of
        EFAULT \<Rightarrow> gepd_pipe_EFAULT
      | EINVAL \<Rightarrow> gepd_pipe_EINVAL
      | EMFILE \<Rightarrow> gepd_pipe_EMFILE
      | ENFILE \<Rightarrow> gepd_pipe_ENFILE
      | _ \<Rightarrow> gepd_pipe_unknown)"

definition gepd_errno_dup :: "errno \<Rightarrow> exit_status" where
  "gepd_errno_dup e =
     (case e of
        EBADF \<Rightarrow> gepd_dup_EBADF
      | EBUSY \<Rightarrow> gepd_dup_EBUSY
      | EINTR \<Rightarrow> gepd_dup_EINTR
      | EINVAL \<Rightarrow> gepd_dup_EINVAL
      | EMFILE \<Rightarrow> gepd_dup_EMFILE
      | _ \<Rightarrow> gepd_dup_unknown)"

definition gepd_errno_close :: "errno \<Rightarrow> exit_status" where
  "gepd_errno_close e =
     (case e of
        EBADF \<Rightarrow> gepd_close_EBADF
      | EINTR \<Rightarrow> gepd_close_EINTR
      | EIO \<Rightarrow> gepd_close_EIO
      | _ \<Rightarrow> gepd_close_unknown)"

definition spawn_errno_pipe :: "errno \<Rightarrow> spawn_status" where
  "spawn_errno_pipe e =
     (case e of
        EFAULT \<Rightarrow> spawn_pipe_EFAULT
      | EINVAL \<Rightarrow> spawn_pipe_EINVAL
      | EMFILE \<Rightarrow> spawn_pipe_EMFILE
      | ENFILE \<Rightarrow> spawn_pipe_ENFILE
      | _ \<Rightarrow> spawn_pipe_unknown)"

definition spawn_errno_fork :: "errno \<Rightarrow> spawn_status" where
  "spawn_errno_fork e =
     (case e of
        EAGAIN \<Rightarrow> spawn_fork_EAGAIN
      | ENOMEM \<Rightarrow> spawn_fork_ENOMEM
      | _ \<Rightarrow> spawn_fork_unknown)"

definition spawn_errno_socket :: "errno \<Rightarrow> spawn_status" where
  "spawn_errno_socket e =
     (case e of
        EACCES \<Rightarrow> spawn_socket_EACCES
      | EAFNOSUPPORT \<Rightarrow> spawn_socket_EAFNOSUPPORT
      | EINVAL \<Rightarrow> spawn_socket_EINVAL
      | EMFILE \<Rightarrow> spawn_socket_EMFILE
      | ENFILE \<Rightarrow> spawn_socket_ENFILE
      | ENOBUFS \<Rightarrow> spawn_socket_ENOBUFS
      | ENOMEM \<Rightarrow> spawn_socket_ENOMEM
      | EPROTONOSUPPORT \<Rightarrow> spawn_socket_EPROTONOSUPPORT
      | _ \<Rightarrow> spawn_socket_unknown)"

definition spawn_errno_dup :: "errno \<Rightarrow> spawn_status" where
  "spawn_errno_dup e =
     (case e of
        EBADF \<Rightarrow> spawn_dup_EBADF
      | EBUSY \<Rightarrow> spawn_dup_EBUSY
      | EINTR \<Rightarrow> spawn_dup_EINTR
      | EINVAL \<Rightarrow> spawn_dup_EINVAL
      | EMFILE \<Rightarrow> spawn_dup_EMFILE
      | _ \<Rightarrow> spawn_dup_unknown)"

definition spawn_errno_close :: "errno \<Rightarrow> spawn_status" where
  "spawn_errno_close e =
     (case e of
        EBADF \<Rightarrow> spawn_close_EBADF
      | EINTR \<Rightarrow> spawn_close_EINTR
      | EIO \<Rightarrow> spawn_close_EIO
      | _ \<Rightarrow> spawn_close_unknown)"

definition spawn_errno_connect :: "errno \<Rightarrow> spawn_status" where
  "spawn_errno_connect e =
     (case e of
        EACCES \<Rightarrow> spawn_connect_EACCES
      | EPERM \<Rightarrow> spawn_connect_EPERM
      | EADDRINUSE \<Rightarrow> spawn_connect_EADDRINUSE
      | EAFNOSUPPORT \<Rightarrow> spawn_connect_EAFNOSUPPORT
      | EAGAIN \<Rightarrow> spawn_connect_EAGAIN
      | EALREADY \<Rightarrow> spawn_connect_EALREADY
      | EBADF \<Rightarrow> spawn_connect_EBADF
      | ECONNREFUSED \<Rightarrow> spawn_connect_ECONNREFUSED
      | EFAULT \<Rightarrow> spawn_connect_EFAULT
      | EINPROGRESS \<Rightarrow> spawn_connect_EINPROGRESS
      | EINTR \<Rightarrow> spawn_connect_EINTR
      | EISCONN \<Rightarrow> spawn_connect_EISCONN
      | ENETUNREACH \<Rightarrow> spawn_connect_ENETUNREACH
      | ENOTSOCK \<Rightarrow> spawn_connect_ENOTSOCK
      | ETIMEDOUT \<Rightarrow> spawn_connect_ETIMEDOUT
      | _ \<Rightarrow> spawn_connect_unknown)"

definition spawn_errno_exec :: "errno \<Rightarrow> spawn_status" where
  "spawn_errno_exec e =
     (case e of
        E2BIG \<Rightarrow> spawn_exec_E2BIG
      | EACCES \<Rightarrow> spawn_exec_EACCES
      | EFAULT \<Rightarrow> spawn_exec_EFAULT
      | EINVAL \<Rightarrow> spawn_exec_EINVAL
      | EIO \<Rightarrow> spawn_exec_EIO
      | EISDIR \<Rightarrow> spawn_exec_EISDIR
      | ELIBBAD \<Rightarrow> spawn_exec_ELIBBAD
      | ELOOP \<Rightarrow> spawn_exec_ELOOP
      | EMFILE \<Rightarrow> spawn_exec_EMFILE
      | ENAMETOOLONG \<Rightarrow> spawn_exec_ENAMETOOLONG
      | ENFILE \<Rightarrow> spawn_exec_ENFILE
      | ENOENT \<Rightarrow> spawn_exec_ENOENT
      | ENOEXEC \<Rightarrow> spawn_exec_ENOEXEC
      | ENOMEM \<Rightarrow> spawn_exec_ENOMEM
      | ENOTDIR \<Rightarrow> spawn_exec_ENOTDIR
      | EPERM \<Rightarrow> spawn_exec_EPERM
      | ETXTBSY \<Rightarrow> spawn_exec_ETXTBSY
      | _ \<Rightarrow> spawn_exec_unknown)"

definition spawn_errno_write :: "errno \<Rightarrow> exit_status" where
  "spawn_errno_write e =
     (case e of
        EAGAIN \<Rightarrow> gepd_write_EAGAIN
      | EBADF \<Rightarrow> gepd_write_EBADF
      | EFAULT \<Rightarrow> gepd_write_EFAULT
      | EFBIG \<Rightarrow> gepd_write_EFBIG
      | EINTR \<Rightarrow> gepd_write_EINTR
      | EINVAL \<Rightarrow> gepd_write_EINVAL
      | EIO \<Rightarrow> gepd_write_EIO
      | ENOSPC \<Rightarrow> gepd_write_ENOSPC
      | EPIPE \<Rightarrow> gepd_write_EPIPE
      | _ \<Rightarrow> gepd_write_unknown)"

lemmas errno_defs [status_defs] =
  cloudi_errno_read_def
  cloudi_errno_write_def
  cloudi_errno_poll_def
  gepd_errno_read_def
  gepd_errno_write_def
  gepd_errno_poll_def
  gepd_errno_pipe_def
  gepd_errno_dup_def
  gepd_errno_close_def
  spawn_errno_pipe_def
  spawn_errno_fork_def
  spawn_errno_socket_def
  spawn_errno_dup_def
  spawn_errno_close_def
  spawn_errno_connect_def
  spawn_errno_exec_def
  spawn_errno_write_def

lemmas string_defs [status_defs] = spawn_strings_def gepd_strings_def signal_strings_def

section \<open>The contract of an \<open>errno\<close> translation\<close>

text \<open>
  The caller of a translation relies on three things: a status tells the listed \<open>errno\<close> values
  apart, every other value gives the one \<open>unknown\<close> status, and no status is mistaken for success.
\<close>

locale errno_map =
  fixes conv :: "errno \<Rightarrow> 'st"
    and val :: "'st \<Rightarrow> int"
    and known :: "errno list"
    and unknown :: 'st
  assumes default: "e \<notin> set known \<Longrightarrow> conv e = unknown"
    and apart: "distinct (val unknown # map (\<lambda>e. val (conv e)) known)"
    and nonzero: "0 \<notin> set (val unknown # map (\<lambda>e. val (conv e)) known)"
begin

lemma conv_nonzero: "val (conv e) \<noteq> 0"
proof (cases "e \<in> set known")
  case True
  with nonzero show ?thesis by (metis (no_types, lifting) image_eqI list.set_intros(2) list.set_map)
next
  case False
  with nonzero default show ?thesis by force
qed

lemma conv_known_iff: "e \<in> set known \<Longrightarrow> val (conv e') = val (conv e) \<longleftrightarrow> e' = e"
  using apart default by (cases "e' \<in> set known") (auto simp: distinct_map dest: inj_onD)

lemma conv_unknown_iff: "val (conv e) = val unknown \<longleftrightarrow> e \<notin> set known"
proof (cases "e \<in> set known")
  case True
  then have "val (conv e) \<in> set (map (\<lambda>e. val (conv e)) known)" by simp
  with True apart show ?thesis by (metis distinct.simps(2))
next
  case False
  with default show ?thesis by simp
qed

lemma conv_eq_iff:
  "val (conv e) = val (conv e') \<longleftrightarrow> e = e' \<or> e \<notin> set known \<and> e' \<notin> set known"
  using conv_known_iff conv_unknown_iff by metis

end

interpretation cloudi_errno_read_map: errno_map cloudi_errno_read status_value
  "[EAGAIN, EBADF, EFAULT, EINTR, EINVAL, EIO, EISDIR]" cloudi_error_read_unknown
  by (unfold_locales, case_tac e) (simp_all add: cloudi_errno_read_def)

interpretation cloudi_errno_write_map: errno_map cloudi_errno_write status_value
  "[EAGAIN, EBADF, EFAULT, EFBIG, EINTR, EINVAL, EIO, ENOSPC, EPIPE]" cloudi_error_write_unknown
  by (unfold_locales, case_tac e) (simp_all add: cloudi_errno_write_def)

interpretation cloudi_errno_poll_map: errno_map cloudi_errno_poll status_value
  "[EBADF, EFAULT, EINTR, EINVAL, ENOMEM]" cloudi_error_poll_unknown
  by (unfold_locales, case_tac e) (simp_all add: cloudi_errno_poll_def)

interpretation gepd_errno_read_map: errno_map gepd_errno_read exit_value
  "[EAGAIN, EBADF, EFAULT, EINTR, EINVAL, EIO, EISDIR]" gepd_read_unknown
  by (unfold_locales, case_tac e) (simp_all add: gepd_errno_read_def)

interpretation gepd_errno_write_map: errno_map gepd_errno_write exit_value
  "[EAGAIN, EBADF, EFAULT, EFBIG, EINTR, EINVAL, EIO, ENOSPC, EPIPE]" gepd_write_unknown
  by (unfold_locales, case_tac e) (simp_all add: gepd_errno_write_def)

interpretation gepd_errno_poll_map: errno_map gepd_errno_poll exit_value
  "[EBADF, EFAULT, EINTR, EINVAL, ENOMEM]" gepd_poll_unknown
  by (unfold_locales, case_tac e) (simp_all add: gepd_errno_poll_def)

interpretation gepd_errno_pipe_map: errno_map gepd_errno_pipe exit_value
  "[EFAULT, EINVAL, EMFILE, ENFILE]" gepd_pipe_unknown
  by (unfold_locales, case_tac e) (simp_all add: gepd_errno_pipe_def)

interpretation gepd_errno_dup_map: errno_map gepd_errno_dup exit_value
  "[EBADF, EBUSY, EINTR, EINVAL, EMFILE]" gepd_dup_unknown
  by (unfold_locales, case_tac e) (simp_all add: gepd_errno_dup_def)

interpretation gepd_errno_close_map: errno_map gepd_errno_close exit_value
  "[EBADF, EINTR, EIO]" gepd_close_unknown
  by (unfold_locales, case_tac e) (simp_all add: gepd_errno_close_def)

interpretation spawn_errno_pipe_map: errno_map spawn_errno_pipe spawn_value
  "[EFAULT, EINVAL, EMFILE, ENFILE]" spawn_pipe_unknown
  by (unfold_locales, case_tac e) (simp_all add: spawn_errno_pipe_def)

interpretation spawn_errno_fork_map: errno_map spawn_errno_fork spawn_value
  "[EAGAIN, ENOMEM]" spawn_fork_unknown
  by (unfold_locales, case_tac e) (simp_all add: spawn_errno_fork_def)

interpretation spawn_errno_socket_map: errno_map spawn_errno_socket spawn_value
  "[EACCES, EAFNOSUPPORT, EINVAL, EMFILE, ENFILE, ENOBUFS, ENOMEM, EPROTONOSUPPORT]" spawn_socket_unknown
  by (unfold_locales, case_tac e) (simp_all add: spawn_errno_socket_def)

interpretation spawn_errno_dup_map: errno_map spawn_errno_dup spawn_value
  "[EBADF, EBUSY, EINTR, EINVAL, EMFILE]" spawn_dup_unknown
  by (unfold_locales, case_tac e) (simp_all add: spawn_errno_dup_def)

interpretation spawn_errno_close_map: errno_map spawn_errno_close spawn_value
  "[EBADF, EINTR, EIO]" spawn_close_unknown
  by (unfold_locales, case_tac e) (simp_all add: spawn_errno_close_def)

interpretation spawn_errno_connect_map: errno_map spawn_errno_connect spawn_value
  "[EACCES, EPERM, EADDRINUSE, EAFNOSUPPORT, EAGAIN, EALREADY, EBADF, ECONNREFUSED, EFAULT, EINPROGRESS, EINTR, EISCONN, ENETUNREACH, ENOTSOCK, ETIMEDOUT]" spawn_connect_unknown
  by (unfold_locales, case_tac e) (simp_all add: spawn_errno_connect_def)

interpretation spawn_errno_exec_map: errno_map spawn_errno_exec spawn_value
  "[E2BIG, EACCES, EFAULT, EINVAL, EIO, EISDIR, ELIBBAD, ELOOP, EMFILE, ENAMETOOLONG, ENFILE, ENOENT, ENOEXEC, ENOMEM, ENOTDIR, EPERM, ETXTBSY]" spawn_exec_unknown
  by (unfold_locales, case_tac e) (simp_all add: spawn_errno_exec_def)

interpretation spawn_errno_write_map: errno_map spawn_errno_write exit_value
  "[EAGAIN, EBADF, EFAULT, EFBIG, EINTR, EINVAL, EIO, ENOSPC, EPIPE]" gepd_write_unknown
  by (unfold_locales, case_tac e) (simp_all add: spawn_errno_write_def)

section \<open>Statuses across the programs\<close>

lemma spawn_strings_keys:
  "map fst (spawn_strings @ gepd_strings @ signal_strings) = [11..77] @ [81..127] @ [129..159]"
  by (simp add: status_defs upto_rec_numeral)

lemma spawn_status_string_dom:
  "spawn_status_string status \<noteq> None \<longleftrightarrow>
     11 \<le> status \<and> status \<le> 77 \<or> 81 \<le> status \<and> status \<le> 127 \<or> 129 \<le> status \<and> status \<le> 159"
proof -
  have "spawn_status_string status \<noteq> None
      \<longleftrightarrow> status \<in> set (map fst (spawn_strings @ gepd_strings @ signal_strings))"
    unfolding spawn_status_string_def by (metis list.set_map map_of_eq_None_iff)
  then show ?thesis
    by (simp only: spawn_strings_keys set_append set_upto Un_iff atLeastAtMost_iff)
qed

lemma distinct_spawn_strings: "distinct (map fst (spawn_strings @ gepd_strings @ signal_strings))"
  unfolding spawn_strings_keys
  by (simp only: distinct_append distinct_upto set_append set_upto) auto

lemma spawn_errno_ranges:
  "11 \<le> spawn_value (spawn_errno_pipe e) \<and> spawn_value (spawn_errno_pipe e) \<le> 77"
  "11 \<le> spawn_value (spawn_errno_fork e) \<and> spawn_value (spawn_errno_fork e) \<le> 77"
  "11 \<le> spawn_value (spawn_errno_socket e) \<and> spawn_value (spawn_errno_socket e) \<le> 77"
  "11 \<le> spawn_value (spawn_errno_dup e) \<and> spawn_value (spawn_errno_dup e) \<le> 77"
  "11 \<le> spawn_value (spawn_errno_close e) \<and> spawn_value (spawn_errno_close e) \<le> 77"
  "11 \<le> spawn_value (spawn_errno_connect e) \<and> spawn_value (spawn_errno_connect e) \<le> 77"
  "11 \<le> spawn_value (spawn_errno_exec e) \<and> spawn_value (spawn_errno_exec e) \<le> 77"
  by (cases e; simp add: errno_defs)+

section \<open>Properties\<close>

text \<open>
  C36: The three programs report an I/O error under one number: for every \<open>errno\<close>, the statuses
  of the C API, of the port and of the spawn program for a failed \<open>read\<close>, \<open>write\<close> or \<open>poll\<close> have
  the same value, the value of \<open>cloudi_terminate\<close> is that of the port's \<open>error_HUP\<close>, and the API's
  \<open>invalid_input\<close> and \<open>out_of_memory\<close> are those of the spawn program, as the comments of the
  API's \<open>enum\<close> promise.
\<close>

theorem status_codes_agree:
  "status_value (cloudi_errno_read e) = exit_value (gepd_errno_read e)
   \<and> status_value (cloudi_errno_write e) = exit_value (gepd_errno_write e)
   \<and> status_value (cloudi_errno_poll e) = exit_value (gepd_errno_poll e)
   \<and> exit_value (spawn_errno_write e) = exit_value (gepd_errno_write e)
   \<and> status_value cloudi_terminate = exit_value gepd_error_HUP
   \<and> status_value cloudi_invalid_input = spawn_value spawn_invalid_input
   \<and> status_value cloudi_out_of_memory = spawn_value spawn_out_of_memory"
  by (cases e) (simp_all add: errno_defs gepd_error_HUP_def)

text \<open>
  \<open>spawn_status::string\<close> names exactly the statuses 11 to 77 (spawn), 81 to 127 (port errors
  after \<open>erlang_exit\<close>) and 129 to 159 (signals), no status has two labels in the \<open>switch\<close>, and
  every status that an \<open>errno\<close> translation of the spawn program can produce has a name.
\<close>

theorem spawn_status_string_total:
  "(spawn_status_string status \<noteq> None \<longleftrightarrow> status \<in> {11..77} \<union> {81..127} \<union> {129..159})
   \<and> distinct (map fst (spawn_strings @ gepd_strings @ signal_strings))
   \<and> (\<forall>tr. tr \<in> {spawn_errno_pipe, spawn_errno_fork, spawn_errno_socket, spawn_errno_dup,
        spawn_errno_close, spawn_errno_connect, spawn_errno_exec}
      \<longrightarrow> spawn_status_string (spawn_value (tr e)) \<noteq> None)"
  unfolding spawn_status_string_dom using distinct_spawn_strings spawn_errno_ranges [of e] by auto

text \<open>Two labels that the theorem above covers.\<close>

theorem spawn_status_string_total_witness:
  "spawn_status_string 11 \<noteq> None
   \<and> spawn_status_string (spawn_value (spawn_errno_exec ENOENT)) \<noteq> None"
  using spawn_status_string_total [of 11 ENOENT] by simp

end
