(* ===== verification/Realloc_Ptr.thy ===== *)
theory Realloc_Ptr
  imports Prelude
begin

text \<open>
  The growable array \<open>realloc_ptr\<close> of \<^verbatim>\<open>realloc_ptr.hpp\<close> (the same file serves the C API and
  the port). Sizes are \<open>size_t\<close> values: natural numbers with the wrap-around at \<open>2 ^ 64\<close>
  written out. \<open>m_alloc\<close> is not a member of the class: it is the number of elements that the
  block behind \<open>m_p\<close> really has, so that an access outside the block is \<open>Undefined\<close> even
  where \<open>m_size\<close> says otherwise. The argument \<open>ok\<close> of the operations that call \<open>realloc\<close> is the
  allocator's answer. \<open>sz\<close> is \<open>sizeof(T)\<close>.
\<close>

section \<open>Model\<close>

record 'a realloc_ptr =
  m_initialSize :: nat
  m_size :: nat
  m_maxSize :: nat
  m_p :: "'a memory"
  m_alloc :: nat

fun count_bits :: "nat \<Rightarrow> nat" where
  "count_bits div2 = (if div2 > 1 then Suc (count_bits (div2 div 2)) else 0)"

declare count_bits.simps [simp del]

text \<open>
  The expression \<open>(1 << bits)\<close> is a shift of an \<open>int\<close>: the 32-bit result is converted to
  \<open>size_t\<close> with its sign, and a shift by 32 or more is undefined.
\<close>

definition int_shift_one :: "nat \<Rightarrow> u64 option" where
  "int_shift_one bits =
     (if bits < 32 then Some (scast (push_bit bits (1 :: u32))) else None)"

definition greater_pow2 :: "nat \<Rightarrow> nat \<Rightarrow> nat option" where
  "greater_pow2 sz n =
     (let totalSize = n * sz mod 2 ^ 64
      in case int_shift_one (count_bits totalSize) of
           None \<Rightarrow> None
         | Some value \<Rightarrow>
             if unat value = totalSize then Some (unat value)
             else Some (unat (push_bit 1 value)))"

definition realloc_ptr_new :: "nat \<Rightarrow> nat \<Rightarrow> nat \<Rightarrow> 'a realloc_ptr option" where
  "realloc_ptr_new sz initialSize maxSize =
     (case greater_pow2 sz initialSize of
        None \<Rightarrow> None
      | Some i \<Rightarrow>
         (case greater_pow2 sz maxSize of
            None \<Rightarrow> None
          | Some mx \<Rightarrow>
             Some \<lparr>m_initialSize = i, m_size = i, m_maxSize = mx,
                   m_p = (\<lambda>_. None), m_alloc = i\<rparr>))"

text \<open>\<open>release\<close> hands the block to the caller and allocates a fresh one of the initial size.\<close>

definition rp_release :: "'a realloc_ptr \<Rightarrow> 'a memory \<times> 'a realloc_ptr" where
  "rp_release p = (m_p p, p\<lparr>m_p := (\<lambda>_. None), m_alloc := m_initialSize p\<rparr>)"

text \<open>\<open>operator []\<close>, as a read and as the target of an assignment.\<close>

definition rp_at :: "'a realloc_ptr \<Rightarrow> nat \<Rightarrow> 'a outcome" where
  "rp_at p i =
     (if i < m_size p then
        (if i < m_alloc p then (case m_p p i of Some x \<Rightarrow> Ok x | None \<Rightarrow> Undefined)
         else Undefined)
      else Raise assert_exception)"

definition rp_assign :: "'a realloc_ptr \<Rightarrow> nat \<Rightarrow> 'a \<Rightarrow> 'a realloc_ptr outcome" where
  "rp_assign p i x =
     (if i < m_size p then
        (if i < m_alloc p then Ok (p\<lparr>m_p := (m_p p)(i \<mapsto> x)\<rparr>) else Undefined)
      else Raise assert_exception)"

text \<open>Access through the pointer that \<open>get\<close> returns: no check by the class.\<close>

definition rp_put :: "nat \<Rightarrow> 'a list \<Rightarrow> 'a realloc_ptr \<Rightarrow> 'a realloc_ptr outcome" where
  "rp_put off xs p =
     (if off + length xs \<le> m_alloc p then Ok (p\<lparr>m_p := mem_write off xs (m_p p)\<rparr>)
      else Undefined)"

definition rp_get :: "nat \<Rightarrow> nat \<Rightarrow> 'a realloc_ptr \<Rightarrow> 'a list outcome" where
  "rp_get off n p =
     (if off + n \<le> m_alloc p then
        (case mem_read off n (m_p p) of Some xs \<Rightarrow> Ok xs | None \<Rightarrow> Undefined)
      else Undefined)"

text \<open>\<open>realloc\<close> to a new size: the common prefix is kept, the rest is indeterminate.\<close>

definition rp_realloc :: "nat \<Rightarrow> 'a realloc_ptr \<Rightarrow> 'a realloc_ptr" where
  "rp_realloc newSize p =
     p\<lparr>m_p := (\<lambda>j. if j < m_alloc p \<and> j < newSize then m_p p j else None),
       m_size := newSize, m_alloc := newSize\<rparr>"

definition rp_grow :: "bool \<Rightarrow> 'a realloc_ptr \<Rightarrow> bool \<times> 'a realloc_ptr" where
  "rp_grow ok p =
     (let newSize = m_size p * 2 mod 2 ^ 64
      in if newSize > m_maxSize p then (False, p)
         else if \<not> ok then (False, p)
         else (True, rp_realloc newSize p))"

text \<open>The loop of \<open>reserve\<close>: \<open>None\<close> if it never ends.\<close>

partial_function (option) reserve_loop :: "nat \<Rightarrow> nat \<Rightarrow> nat option" where
  "reserve_loop sz newSize =
     (if sz \<ge> newSize then reserve_loop sz (newSize * 2 mod 2 ^ 64) else Some newSize)"

definition rp_reserve :: "bool \<Rightarrow> nat \<Rightarrow> 'a realloc_ptr \<Rightarrow> (bool \<times> 'a realloc_ptr) option" where
  "rp_reserve ok sz p =
     (if sz < m_size p then Some (True, p)
      else if sz > m_maxSize p then Some (False, p)
      else
        (case reserve_loop sz (m_size p) of
           None \<Rightarrow> None
         | Some newSize \<Rightarrow>
             if \<not> ok then Some (False, p)
             else Some (True, rp_realloc newSize p)))"

text \<open>
  The copies between two arrays; the source is another object (the class asserts it). A
  range outside the source's block is undefined, a \<open>reserve\<close> that does not end is \<open>Blocked\<close>.
\<close>

definition rp_copy4 :: "bool \<Rightarrow> 'a realloc_ptr \<Rightarrow> nat \<Rightarrow> nat \<Rightarrow> nat \<Rightarrow> 'a realloc_ptr
    \<Rightarrow> (bool \<times> 'a realloc_ptr) outcome" where
  "rp_copy4 ok src iSrc nSrc iDst p =
     (case rp_reserve ok ((iDst + nSrc) mod 2 ^ 64) p of
        None \<Rightarrow> Blocked
      | Some (False, p') \<Rightarrow> Ok (False, p')
      | Some (True, p') \<Rightarrow>
          if iSrc + nSrc \<le> m_alloc src \<and> iDst + nSrc \<le> m_alloc p'
          then Ok (True, p'\<lparr>m_p := mem_copy (m_p src) iSrc nSrc iDst (m_p p')\<rparr>)
          else Undefined)"

definition rp_copy3 :: "bool \<Rightarrow> 'a realloc_ptr \<Rightarrow> nat \<Rightarrow> nat \<Rightarrow> 'a realloc_ptr
    \<Rightarrow> (bool \<times> 'a realloc_ptr) outcome" where
  "rp_copy3 ok src nSrc iDst p = rp_copy4 ok src 0 nSrc iDst p"

definition rp_copy :: "bool \<Rightarrow> 'a realloc_ptr \<Rightarrow> nat \<Rightarrow> 'a realloc_ptr
    \<Rightarrow> (bool \<times> 'a realloc_ptr) outcome" where
  "rp_copy ok src iDst p = rp_copy4 ok src 0 (m_size src) iDst p"

definition rp_move :: "bool \<Rightarrow> nat \<Rightarrow> nat \<Rightarrow> nat \<Rightarrow> 'a realloc_ptr
    \<Rightarrow> (bool \<times> 'a realloc_ptr) outcome" where
  "rp_move ok iSrc nSrc iDst p =
     (case rp_reserve ok ((iDst + nSrc) mod 2 ^ 64) p of
        None \<Rightarrow> Blocked
      | Some (False, p') \<Rightarrow> Ok (False, p')
      | Some (True, p') \<Rightarrow>
          if iSrc + nSrc \<le> m_alloc p' \<and> iDst + nSrc \<le> m_alloc p'
          then Ok (True, p'\<lparr>m_p := mem_copy (m_p p') iSrc nSrc iDst (m_p p')\<rparr>)
          else Undefined)"

section \<open>Sizes are powers of two\<close>

lemma count_bits_bounds: "0 < n \<Longrightarrow> 2 ^ count_bits n \<le> n \<and> n < 2 * 2 ^ count_bits n"
proof (induction n rule: count_bits.induct)
  case (1 n)
  show ?case
  proof (cases "n > 1")
    case True
    with 1 have "2 ^ count_bits (n div 2) \<le> n div 2 \<and> n div 2 < 2 * 2 ^ count_bits (n div 2)"
      by simp
    with True show ?thesis by (subst (1 2) count_bits.simps) auto
  next
    case False
    with 1 show ?thesis by (simp add: count_bits.simps)
  qed
qed

lemma int_shift_one_small:
  assumes "b < 31"
  shows "\<exists>v. int_shift_one b = Some v \<and> unat v = 2 ^ b \<and> unat (push_bit 1 v) = 2 * 2 ^ b"
proof -
  have v: "scast (push_bit b (1 :: u32)) = push_bit b (1 :: u64)"
    using assms by (intro bit_word_eqI) (auto simp: bit_simps)
  have u: "unat (push_bit k (1 :: u64)) = 2 ^ k" if "k < 64" for k
  proof -
    have "(2 :: nat) ^ k < 2 ^ 64" using that by (intro power_strict_increasing) auto
    moreover have "unat (push_bit k (1 :: u64)) = take_bit 64 (push_bit k (1 :: nat))"
      by (simp del: push_bit_of_1 add: unsigned_push_bit_eq)
    ultimately show ?thesis by (simp add: take_bit_eq_mod)
  qed
  have "push_bit 1 (push_bit b (1 :: u64)) = push_bit (Suc b) 1" by simp
  with assms v u [of b] u [of "Suc b"] show ?thesis
    by (simp add: int_shift_one_def mult.commute)
qed

definition is_pow2 :: "nat \<Rightarrow> bool" where
  "is_pow2 n \<longleftrightarrow> (\<exists>k. n = 2 ^ k)"

lemma greater_pow2_least:
  assumes "0 < n * sz" and "n * sz < 2 ^ 31"
  shows "\<exists>p. greater_pow2 sz n = Some p \<and> is_pow2 p \<and> n * sz \<le> p \<and> p < 2 * (n * sz)"
proof -
  let ?t = "n * sz" and ?b = "count_bits (n * sz)"
  have b: "2 ^ ?b \<le> ?t" "?t < 2 * 2 ^ ?b" using count_bits_bounds [OF assms(1)] by auto
  have "(2 :: nat) ^ ?b < 2 ^ 31" using b(1) assms(2) by linarith
  then have "?b < 31" by (simp only: power_strict_increasing_iff)
  then obtain v where v: "int_shift_one ?b = Some v" "unat v = 2 ^ ?b"
      "unat (push_bit 1 v) = 2 * 2 ^ ?b"
    using int_shift_one_small by blast
  have "?t mod 2 ^ 64 = ?t" using assms(2) by simp
  with v b show ?thesis
    by (cases "2 ^ ?b = ?t") (auto simp: greater_pow2_def Let_def is_pow2_def intro: exI [of _ "Suc ?b"] exI [of _ ?b])
qed

section \<open>The loop of reserve\<close>

lemma reserve_loop_pow2:
  "k \<le> 63 \<Longrightarrow> sz < 2 ^ 63 \<Longrightarrow>
   \<exists>m. k \<le> m \<and> m \<le> 63 \<and> reserve_loop sz (2 ^ k) = Some (2 ^ m) \<and> sz < 2 ^ m
       \<and> (m = k \<or> 2 ^ m \<le> 2 * sz)"
proof (induction "63 - k" arbitrary: k)
  case 0
  then have "k = 63" by simp
  with 0 show ?case by (intro exI [of _ 63]) (simp add: reserve_loop.simps)
next
  case (Suc d)
  show ?case
  proof (cases "sz < 2 ^ k")
    case True
    then show ?thesis by (intro exI [of _ k]) (use Suc.prems in \<open>simp add: reserve_loop.simps\<close>)
  next
    case False
    have k: "Suc k \<le> 63" "d = 63 - Suc k" using Suc.hyps(2) by simp_all
    have "(2 :: nat) ^ Suc k < 2 ^ 64" using k by (intro power_strict_increasing) auto
    then have w: "2 ^ k * 2 mod 2 ^ 64 = (2 :: nat) ^ Suc k" by simp
    obtain m where m: "Suc k \<le> m" "m \<le> 63" "reserve_loop sz (2 ^ Suc k) = Some (2 ^ m)"
      "sz < 2 ^ m" "m = Suc k \<or> 2 ^ m \<le> 2 * sz"
      using Suc.hyps(1) [OF k(2) k(1) Suc.prems(2)] by blast
    have "reserve_loop sz (2 ^ k) = Some (2 ^ m)"
      using False m(3) w by (subst reserve_loop.simps) simp
    with m False show ?thesis by (intro exI [of _ m]) auto
  qed
qed

section \<open>Well-formed arrays\<close>

text \<open>
  The invariant: the block has the size the object believes it has, a power of two that is at
  least the initial size and at most twice the maximum (\<open>reserve\<close> of exactly the maximum doubles
  past it), and cells outside the block hold nothing.
\<close>

definition rp_wf :: "'a realloc_ptr \<Rightarrow> bool" where
  "rp_wf p \<longleftrightarrow>
     m_alloc p = m_size p \<and> is_pow2 (m_size p) \<and> is_pow2 (m_initialSize p)
     \<and> m_initialSize p \<le> m_size p \<and> m_size p \<le> 2 * m_maxSize p \<and> m_size p \<le> 2 ^ 63
     \<and> (\<forall>j \<ge> m_alloc p. m_p p j = None)"

text \<open>What a call of \<open>grow\<close> or \<open>reserve\<close> may change: only the size, upwards, keeping the cells.\<close>

definition rp_extends :: "'a realloc_ptr \<Rightarrow> 'a realloc_ptr \<Rightarrow> bool" where
  "rp_extends p q \<longleftrightarrow>
     m_initialSize q = m_initialSize p \<and> m_maxSize q = m_maxSize p \<and> m_size p \<le> m_size q
     \<and> (\<forall>j < m_size p. m_p q j = m_p p j)"

lemma rp_extends_refl [simp]: "rp_extends p p"
  by (simp add: rp_extends_def)

lemma rp_extends_trans: "rp_extends p q \<Longrightarrow> rp_extends q r \<Longrightarrow> rp_extends p r"
  by (auto simp: rp_extends_def)

lemma rp_realloc_extends:
  "rp_wf p \<Longrightarrow> m_size p \<le> n \<Longrightarrow> rp_extends p (rp_realloc n p)"
  by (simp add: rp_extends_def rp_realloc_def rp_wf_def)

lemma rp_realloc_wf:
  "rp_wf p \<Longrightarrow> m_size p \<le> n \<Longrightarrow> is_pow2 n \<Longrightarrow> n \<le> 2 * m_maxSize p \<Longrightarrow> n \<le> 2 ^ 63 \<Longrightarrow>
   rp_wf (rp_realloc n p)"
  by (auto simp: rp_wf_def rp_realloc_def)

lemma pow2_le_63: "is_pow2 n \<Longrightarrow> n \<le> 2 ^ 63 \<Longrightarrow> \<exists>k \<le> 63. n = 2 ^ k"
proof -
  assume "is_pow2 n" "n \<le> 2 ^ 63"
  then obtain k where k: "n = 2 ^ k" by (auto simp: is_pow2_def)
  with \<open>n \<le> 2 ^ 63\<close> have "(2 :: nat) ^ k \<le> 2 ^ 63" by simp
  then have "k \<le> 63" by (simp only: power_increasing_iff)
  with k show ?thesis by blast
qed

lemma reserve_loop_wf:
  assumes "rp_wf p" and "m_size p \<le> n" and "n < 2 ^ 63"
  obtains m where "reserve_loop n (m_size p) = Some m" "is_pow2 m" "n < m" "m_size p \<le> m"
    "m \<le> 2 ^ 63" "m \<le> 2 * n"
proof -
  obtain k where k: "k \<le> 63" "m_size p = 2 ^ k"
    using assms(1) pow2_le_63 by (auto simp: rp_wf_def)
  obtain m where m: "k \<le> m" "m \<le> 63" "reserve_loop n (2 ^ k) = Some (2 ^ m)" "n < 2 ^ m"
    "m = k \<or> 2 ^ m \<le> 2 * n"
    using reserve_loop_pow2 [OF k(1) assms(3)] by blast
  have "(2 :: nat) ^ m \<le> 2 ^ 63" "(2 :: nat) ^ k \<le> 2 ^ m"
    using m(1,2) by (simp_all only: power_increasing_iff)
  moreover have "2 ^ m \<le> 2 * n" using m(4,5) k(2) assms(2) by auto
  ultimately show ?thesis
    using m k that [of "2 ^ m"] by (auto simp: is_pow2_def)
qed

lemma rp_reserve_cases:
  assumes "rp_wf p" and "n < 2 ^ 63"
  shows "\<exists>r q. rp_reserve ok n p = Some (r, q) \<and> rp_wf q \<and> rp_extends p q
    \<and> (r \<longrightarrow> n < m_size q) \<and> (\<not> r \<longrightarrow> q = p)
    \<and> (r \<longleftrightarrow> n < m_size p \<or> (n \<le> m_maxSize p \<and> ok))"
proof (cases "n < m_size p \<or> n > m_maxSize p")
  case True
  then show ?thesis using assms by (auto simp: rp_reserve_def)
next
  case False
  then have n: "m_size p \<le> n" "n \<le> m_maxSize p" by auto
  obtain m where "reserve_loop n (m_size p) = Some m" "is_pow2 m" "n < m" "m_size p \<le> m"
    "m \<le> 2 ^ 63" "m \<le> 2 * n"
    using reserve_loop_wf [OF assms(1) n(1) assms(2)] .
  moreover from this n have "rp_wf (rp_realloc m p)" "rp_extends p (rp_realloc m p)"
    using assms(1) by (auto intro: rp_realloc_wf rp_realloc_extends)
  moreover have "m_size (rp_realloc m p) = m" by (simp add: rp_realloc_def)
  ultimately show ?thesis using n assms(1) by (auto simp: rp_reserve_def)
qed

lemma rp_reserve_true:
  "rp_wf p \<Longrightarrow> n < 2 ^ 63 \<Longrightarrow> rp_reserve ok n p = Some (True, q) \<Longrightarrow>
   rp_wf q \<and> rp_extends p q \<and> n < m_size q"
  using rp_reserve_cases [of p n ok] by auto

lemma rp_reserve_false:
  "rp_wf p \<Longrightarrow> n < 2 ^ 63 \<Longrightarrow> rp_reserve ok n p = Some (False, q) \<Longrightarrow> q = p"
  using rp_reserve_cases [of p n ok] by auto

lemma rp_grow_wf:
  assumes "rp_wf p" and "m_size p < 2 ^ 63"
  shows "rp_wf (snd (rp_grow ok p)) \<and> rp_extends p (snd (rp_grow ok p))"
proof -
  obtain k where k: "k \<le> 63" "m_size p = 2 ^ k"
    using assms(1) pow2_le_63 by (auto simp: rp_wf_def)
  with assms(2) have "Suc k \<le> 63" by (cases "k = 63") auto
  then have "(2 :: nat) ^ Suc k \<le> 2 ^ 63" by (simp only: power_increasing_iff)
  then have n: "m_size p * 2 mod 2 ^ 64 = 2 ^ Suc k" "(2 :: nat) ^ Suc k \<le> 2 ^ 63"
    using k by auto
  have "is_pow2 (2 ^ Suc k)" "m_size p \<le> 2 ^ Suc k" using k(2) 
    by (auto simp: is_pow2_def intro: exI [of _ "Suc k"])
  with n assms(1) show ?thesis
    by (auto simp: rp_grow_def Let_def simp del: power_Suc intro!: rp_realloc_wf rp_realloc_extends)
qed

section \<open>Contents\<close>

lemma rp_put_ok:
  "rp_wf p \<Longrightarrow> off + length xs \<le> m_size p \<Longrightarrow>
   rp_put off xs p = Ok (p\<lparr>m_p := mem_write off xs (m_p p)\<rparr>)"
  by (simp add: rp_put_def rp_wf_def)

lemma rp_wf_put: "rp_wf p \<Longrightarrow> rp_put off xs p = Ok q \<Longrightarrow> rp_wf q \<and> m_size q = m_size p"
  by (auto simp: rp_put_def rp_wf_def mem_write_def split: if_splits)

lemma rp_wf_mem_copy:
  "rp_wf p \<Longrightarrow> iDst + n \<le> m_size p \<Longrightarrow> rp_wf (p\<lparr>m_p := mem_copy src iSrc n iDst (m_p p)\<rparr>)"
  by (auto simp: rp_wf_def mem_copy_def)

lemma mem_read_prefix:
  "rp_extends p q \<Longrightarrow> off + n \<le> m_size p \<Longrightarrow> mem_read off n (m_p q) = mem_read off n (m_p p)"
  by (rule mem_read_cong) (simp add: rp_extends_def)

lemma rp_copy4_spec:
  assumes "rp_wf p" and "rp_wf src" and "iDst + nSrc < 2 ^ 63" and "iSrc + nSrc \<le> m_size src"
  shows "\<exists>r q. rp_copy4 ok src iSrc nSrc iDst p = Ok (r, q) \<and> rp_wf q
    \<and> (r \<longrightarrow> mem_read iDst nSrc (m_p q) = mem_read iSrc nSrc (m_p src)
           \<and> mem_read 0 (min iDst (m_size p)) (m_p q) = mem_read 0 (min iDst (m_size p)) (m_p p))
    \<and> (\<not> r \<longrightarrow> q = p)"
proof -
  obtain r q where q: "rp_reserve ok (iDst + nSrc) p = Some (r, q)" "rp_wf q" "rp_extends p q"
    "r \<longrightarrow> iDst + nSrc < m_size q" "\<not> r \<longrightarrow> q = p"
    using rp_reserve_cases [OF assms(1,3)] by blast
  have "mem_read 0 (min iDst (m_size p)) (mem_copy (m_p src) iSrc nSrc iDst (m_p q))
      = mem_read 0 (min iDst (m_size p)) (m_p p)"
    using q(3) by (simp add: mem_read_copy_disjoint mem_read_prefix)
  with q assms show ?thesis
    by (cases r) (auto simp: rp_copy4_def rp_wf_mem_copy mem_read_copy rp_wf_def [of src] rp_wf_def [of q])
qed

lemma rp_move_spec:
  assumes "rp_wf p" and "iDst + nSrc < 2 ^ 63" and "iSrc + nSrc \<le> m_size p"
  shows "\<exists>r q. rp_move ok iSrc nSrc iDst p = Ok (r, q) \<and> rp_wf q
    \<and> (r \<longrightarrow> mem_read iDst nSrc (m_p q) = mem_read iSrc nSrc (m_p p))
    \<and> (\<not> r \<longrightarrow> q = p)"
proof -
  obtain r q where q: "rp_reserve ok (iDst + nSrc) p = Some (r, q)" "rp_wf q" "rp_extends p q"
    "r \<longrightarrow> iDst + nSrc < m_size q" "\<not> r \<longrightarrow> q = p"
    using rp_reserve_cases [OF assms(1,2)] by blast
  have "m_size p \<le> m_size q" using q(3) by (simp add: rp_extends_def)
  moreover have "mem_read iSrc nSrc (m_p q) = mem_read iSrc nSrc (m_p p)"
    using q(3) assms(3) by (rule mem_read_prefix)
  ultimately show ?thesis using q assms
    by (cases r) (auto simp: rp_move_def rp_wf_mem_copy mem_read_copy rp_wf_def [of q])
qed

section \<open>The interface the clients use\<close>

text \<open>
  The send and receive paths rely on this much of a growable array: \<open>reserve\<close> ends, on success
  there is room for the requested number of elements and one more, the old contents stay, and
  writing inside the capacity succeeds. The client's lemma is proved once: whatever is written
  after a successful \<open>reserve\<close>, up to the reserved size, is inside the block.
\<close>

locale growable =
  fixes wf :: "'b \<Rightarrow> bool"
    and cap :: "'b \<Rightarrow> nat"
    and cells :: "'b \<Rightarrow> 'a memory"
    and resv :: "bool \<Rightarrow> nat \<Rightarrow> 'b \<Rightarrow> (bool \<times> 'b) option"
    and put :: "nat \<Rightarrow> 'a list \<Rightarrow> 'b \<Rightarrow> 'b outcome"
  assumes resv_total: "wf b \<Longrightarrow> n < 2 ^ 63 \<Longrightarrow> \<exists>r b'. resv ok n b = Some (r, b')"
    and resv_true: "wf b \<Longrightarrow> n < 2 ^ 63 \<Longrightarrow> resv ok n b = Some (True, b') \<Longrightarrow>
      wf b' \<and> n < cap b' \<and> cap b \<le> cap b' \<and> (\<forall>j < cap b. cells b' j = cells b j)"
    and resv_false: "wf b \<Longrightarrow> n < 2 ^ 63 \<Longrightarrow> resv ok n b = Some (False, b') \<Longrightarrow> b' = b"
    and put_ok: "wf b \<Longrightarrow> off + length xs \<le> cap b \<Longrightarrow>
      \<exists>b'. put off xs b = Ok b' \<and> wf b' \<and> cap b' = cap b \<and> cells b' = mem_write off xs (cells b)"
    and put_bad: "wf b \<Longrightarrow> cap b < off + length xs \<Longrightarrow> put off xs b = Undefined"
begin

lemma put_defined_iff: "wf b \<Longrightarrow> put off xs b \<noteq> Undefined \<longleftrightarrow> off + length xs \<le> cap b"
  using put_ok [of b off xs] put_bad [of b off xs] by (metis leI outcome.distinct(3))

lemma put_cells: "wf b \<Longrightarrow> put off xs b = Ok b' \<Longrightarrow>
  wf b' \<and> cap b' = cap b \<and> off + length xs \<le> cap b \<and> cells b' = mem_write off xs (cells b)"
  using put_ok [of b off xs] put_defined_iff [of b off xs] by auto

lemma reserve_then_put:
  assumes "wf b" and "n < 2 ^ 63" and "resv ok n b = Some (True, b')" and "off + length xs \<le> Suc n"
  shows "\<exists>b''. put off xs b' = Ok b'' \<and> wf b'' \<and> mem_read off (length xs) (cells b'') = Some xs"
proof -
  have "wf b'" "n < cap b'" using resv_true [OF assms(1-3)] by auto
  with assms(4) obtain b'' where "put off xs b' = Ok b''" "wf b''"
    "cells b'' = mem_write off xs (cells b')"
    using put_ok [of b' off xs] by auto
  then show ?thesis by auto
qed

lemma reserve_keeps:
  assumes "wf b" and "n < 2 ^ 63" and "resv ok n b = Some (r, b')" and "off + k \<le> cap b"
  shows "wf b' \<and> mem_read off k (cells b') = mem_read off k (cells b)"
proof (cases r)
  case True
  with assms resv_true [of b n ok b'] show ?thesis by (auto intro: mem_read_cong)
next
  case False
  with assms resv_false [of b n ok b'] show ?thesis by auto
qed

end

interpretation rp: growable rp_wf m_size m_p rp_reserve rp_put
proof (unfold_locales, goal_cases)
  case (1 b n ok)
  then show ?case using rp_reserve_cases [of b n ok] by blast
next
  case (2 b n ok b')
  then show ?case using rp_reserve_true [of b n ok b'] by (auto simp: rp_extends_def)
next
  case (3 b n ok b')
  then show ?case by (rule rp_reserve_false)
next
  case (4 b off xs)
  then show ?case using rp_put_ok [of b off xs] rp_wf_put by fastforce
next
  case (5 b off xs)
  then show ?case by (simp add: rp_put_def rp_wf_def)
qed

section \<open>Properties\<close>

lemma realloc_ptr_new_Some:
  "realloc_ptr_new sz i mx = Some p \<longleftrightarrow>
   (\<exists>a b. greater_pow2 sz i = Some a \<and> greater_pow2 sz mx = Some b
     \<and> p = \<lparr>m_initialSize = a, m_size = a, m_maxSize = b, m_p = (\<lambda>_. None), m_alloc = a\<rparr>)"
  by (auto simp: realloc_ptr_new_def split: option.splits)

lemma greater_pow2_32768: "greater_pow2 1 32768 = Some 32768"
  by (simp add: greater_pow2_def count_bits.simps int_shift_one_def)

lemma greater_pow2_max_buffersize: "greater_pow2 1 2147483648 = Some 18446744069414584320"
  by (simp add: greater_pow2_def count_bits.simps int_shift_one_def)

lemma is_pow2_32768 [simp]: "is_pow2 32768"
  unfolding is_pow2_def by (rule exI [of _ 15]) simp

text \<open>
  For byte counts below 2 GB (and an initial size of at most the maximum) the constructor of
  \<open>realloc_ptr\<close> builds a well-formed array whose size is the least power of two that is at least
  \<open>initialSize * sizeof(T)\<close>.
\<close>

theorem realloc_ptr_new_wf:
  assumes "0 < i * sz" and "i \<le> mx" and "mx * sz < 2 ^ 31"
  shows "\<exists>p. realloc_ptr_new sz i mx = Some (p :: 'a realloc_ptr) \<and> rp_wf p
    \<and> i * sz \<le> m_size p \<and> m_size p < 2 * (i * sz)
    \<and> mx * sz \<le> m_maxSize p \<and> m_maxSize p < 2 * (mx * sz)"
proof -
  have le: "i * sz \<le> mx * sz" using assms(2) by simp
  with assms have i: "i * sz < 2 ^ 31" and mx: "0 < mx * sz" by linarith+
  obtain a where a: "greater_pow2 sz i = Some a" "is_pow2 a" "i * sz \<le> a" "a < 2 * (i * sz)"
    using greater_pow2_least [OF assms(1) i] by blast
  obtain b where b: "greater_pow2 sz mx = Some b" "is_pow2 b" "mx * sz \<le> b" "b < 2 * (mx * sz)"
    using greater_pow2_least [OF mx assms(3)] by blast
  have "a \<le> 2 * b" using a b le by linarith
  moreover have "a \<le> 2 ^ 63" using a(4) i by simp
  ultimately show ?thesis using a b
    by (auto simp: realloc_ptr_new_Some rp_wf_def)
qed

theorem realloc_ptr_new_wf_witness:
  "\<exists>p. realloc_ptr_new 1 32768 4194304 = Some (p :: byte realloc_ptr) \<and> rp_wf p
    \<and> 32768 \<le> m_size p \<and> m_size p < 65536 \<and> 4194304 \<le> m_maxSize p \<and> m_maxSize p < 8388608"
  using realloc_ptr_new_wf [of 32768 1 4194304] by simp

text \<open>
  On a well-formed array and a size below \<open>2 ^ 63\<close>, \<open>reserve\<close> ends. It returns true exactly
  if the size already fits or the allocator delivers a size within the maximum; then the array
  has room for more than \<open>n\<close> elements, its old contents are kept and it stays well-formed.
  Otherwise the array is unchanged.
\<close>

theorem rp_reserve_spec:
  assumes "rp_wf p" and "n < 2 ^ 63"
  shows "\<exists>r q. rp_reserve ok n p = Some (r, q)
    \<and> (r \<longleftrightarrow> n < m_size p \<or> (n \<le> m_maxSize p \<and> ok))
    \<and> (r \<longrightarrow> rp_wf q \<and> n < m_size q \<and> (\<forall>j < m_size p. m_p q j = m_p p j))
    \<and> (\<not> r \<longrightarrow> q = p)"
  using rp_reserve_cases [OF assms, of ok] by (auto simp: rp_extends_def)

definition sample_array :: "byte realloc_ptr" where
  "sample_array = \<lparr>m_initialSize = 32768, m_size = 32768, m_maxSize = 65536,
     m_p = (\<lambda>_. None)(0 \<mapsto> 7), m_alloc = 32768\<rparr>"

lemma sample_array_wf: "rp_wf sample_array"
  by (simp add: rp_wf_def sample_array_def)

theorem rp_reserve_spec_witness:
  "\<exists>q. rp_reserve True 40000 sample_array = Some (True, q) \<and> rp_wf q \<and> 40000 < m_size q
    \<and> m_p q 0 = Some 7"
  using rp_reserve_spec [OF sample_array_wf, of 40000 True] by (auto simp: sample_array_def)

text \<open>
  \<open>reserve\<close> does not keep the array within its maximum: asked for exactly the maximum
  size (a power of two not yet reached) it doubles past it and succeeds with twice the maximum.
\<close>

theorem rp_reserve_overshoot:
  assumes "rp_wf p" and "m_size p \<le> m_maxSize p" and "is_pow2 (m_maxSize p)"
    and "m_maxSize p < 2 ^ 63"
  shows "\<exists>q. rp_reserve True (m_maxSize p) p = Some (True, q) \<and> m_size q = 2 * m_maxSize p"
proof -
  obtain m where m: "reserve_loop (m_maxSize p) (m_size p) = Some m" "is_pow2 m"
    "m_maxSize p < m" "m \<le> 2 * m_maxSize p"
    using reserve_loop_wf [OF assms(1,2,4)] by blast
  obtain a b where ab: "m_maxSize p = 2 ^ a" "m = 2 ^ b"
    using assms(3) m(2) by (auto simp: is_pow2_def)
  with m(3) have "(2 :: nat) ^ a < 2 ^ b" by simp
  then have "Suc a \<le> b" by (simp only: power_strict_increasing_iff)
  then have "(2 :: nat) ^ Suc a \<le> 2 ^ b" by (simp only: power_increasing_iff)
  with m(4) ab have "m = 2 * m_maxSize p" by simp
  with m(1) assms(2) show ?thesis by (auto simp: rp_reserve_def rp_realloc_def)
qed

theorem rp_reserve_overshoot_witness:
  "\<exists>q. rp_reserve True 65536 sample_array = Some (True, q) \<and> m_size q = 131072"
proof -
  have "is_pow2 65536" unfolding is_pow2_def by (rule exI [of _ 16]) simp
  then show ?thesis
    using rp_reserve_overshoot [OF sample_array_wf] by (simp add: sample_array_def)
qed

text \<open>
  \<open>CLOUDI_MAX_BUFFERSIZE\<close> (\<open>2 ^ 31\<close>) is not enforced: the shift in \<open>greater_pow2\<close> overflows
  the \<open>int\<close>, the maximum of every message buffer of the API becomes \<open>2 ^ 64 - 2 ^ 32\<close>, and
  \<open>reserve\<close> succeeds on every size (below \<open>2 ^ 63\<close>) that the allocator delivers.
\<close>

theorem max_buffersize_not_enforced:
  "\<exists>p. realloc_ptr_new 1 32768 2147483648 = Some (p :: byte realloc_ptr) \<and> rp_wf p
     \<and> m_maxSize p = 2 ^ 64 - 2 ^ 32
     \<and> (\<forall>n < 2 ^ 63. \<exists>q. rp_reserve True n p = Some (True, q))"
proof -
  let ?p = "\<lparr>m_initialSize = 32768, m_size = 32768, m_maxSize = 18446744069414584320,
    m_p = (\<lambda>_. None), m_alloc = 32768\<rparr> :: byte realloc_ptr"
  have wf: "rp_wf ?p" by (simp add: rp_wf_def)
  have "\<exists>q. rp_reserve True n ?p = Some (True, q)" if "n < 2 ^ 63" for n
    using rp_reserve_cases [OF wf that, of True] that by auto
  moreover have "realloc_ptr_new 1 32768 2147483648 = Some ?p"
    by (simp add: realloc_ptr_new_Some greater_pow2_32768 [simplified]
      greater_pow2_max_buffersize [simplified])
  ultimately show ?thesis using wf by (intro exI [of _ ?p]) simp
qed

theorem max_buffersize_not_enforced_witness:
  "\<exists>p q. realloc_ptr_new 1 32768 2147483648 = Some (p :: byte realloc_ptr)
     \<and> rp_reserve True 4294967295 p = Some (True, q)"
proof -
  obtain p :: "byte realloc_ptr" where "realloc_ptr_new 1 32768 2147483648 = Some p"
    "\<forall>n < 2 ^ 63. \<exists>q. rp_reserve True n p = Some (True, q)"
    using max_buffersize_not_enforced by blast
  moreover have "(4294967295 :: nat) < 2 ^ 63" by simp
  ultimately show ?thesis by blast
qed

text \<open>
  \<open>release\<close> leaves \<open>m_size\<close> as it was although the new block has only the initial size:
  after an array has grown, the index \<open>m_initialSize\<close> passes the check of \<open>operator []\<close> and the
  access is outside the block.
\<close>

theorem rp_release_stale_size:
  assumes "rp_wf p" and "m_initialSize p < m_size p"
  shows "rp_at (snd (rp_release p)) (m_initialSize p) = Undefined"
  using assms by (simp add: rp_release_def rp_at_def)

theorem rp_release_stale_size_witness:
  "rp_at (snd (rp_release (rp_realloc 65536 sample_array))) 32768 = Undefined"
proof -
  have "is_pow2 65536" unfolding is_pow2_def by (rule exI [of _ 16]) simp
  then have "rp_wf (rp_realloc 65536 sample_array)"
    by (intro rp_realloc_wf sample_array_wf) (simp_all add: sample_array_def)
  then show ?thesis
    using rp_release_stale_size [of "rp_realloc 65536 sample_array"]
    by (simp add: rp_realloc_def sample_array_def)
qed

end
