(* ===== verification/Os_Io.thy ===== *)
theory Os_Io
  imports Status_Codes Realloc_Ptr
begin

text \<open>
  The operating system as the programs see it, and the exact reads and writes that the API
  (\<^verbatim>\<open>api/c/cloudi.cpp\<close>) and the port (\<^verbatim>\<open>port.cpp\<close>) build on it. The environment's behaviour is
  data: a queue of answers for each kind of call. A call takes the next answer; with no answer
  left it never returns (\<open>Blocked\<close>). A theorem about all queues is a theorem about every behaviour
  of the environment.
\<close>

section \<open>System calls\<close>

text \<open>
  \<open>Rd_data []\<close> is end of file. On a stream a \<open>read\<close> that takes less than a chunk leaves the
  rest for the next one; on a datagram socket (\<open>dgram\<close>) the rest is lost. \<open>Wr_count k\<close> accepts at
  most \<open>k\<close> bytes. \<open>Poll_events\<close> lists the \<open>revents\<close> of the polled descriptors. \<open>clock\<close> holds
  the times, in nanoseconds, that successive calls of \<open>clock_gettime\<close> return, and \<open>allocs\<close> the
  answers of \<open>realloc\<close> (success when the list is used up).
\<close>

datatype rd_answer = Rd_data bytes | Rd_error errno
datatype wr_answer = Wr_count nat | Wr_error errno
datatype poll_answer = Poll_events "nat list" | Poll_error errno

text \<open>
  The Python interpreter that a process may embed, as far as the API's binding for Python changes it:
  whether the thread holds the interpreter lock, whether its state is saved in the object of the
  binding, the references to functions that the binding owns, and those it changed without the lock.
  No system call changes any of it.
\<close>

record interpreter =
  py_gil :: bool
  py_saved :: bool
  py_refs :: "nat list"
  py_unlocked :: "nat list"

definition no_interpreter :: interpreter where
  "no_interpreter = \<lparr>py_gil = False, py_saved = False, py_refs = [], py_unlocked = []\<rparr>"

record os =
  rd :: "int \<Rightarrow> rd_answer list"
  dgram :: "int \<Rightarrow> bool"
  wr :: "wr_answer list"
  polls :: "poll_answer list"
  clock :: "int list"
  allocs :: "bool list"
  written :: "(int \<times> bytes) list"
  py :: interpreter

text \<open>The answers still to come on one descriptor.\<close>

definition set_rd :: "int \<Rightarrow> rd_answer list \<Rightarrow> os \<Rightarrow> os" where
  "set_rd fd as w = w\<lparr>rd := (rd w)(fd := as)\<rparr>"

lemma set_rd_simps [simp, os_simps]:
  "rd (set_rd fd as w) fd = as"
  "fd' \<noteq> fd \<Longrightarrow> rd (set_rd fd as w) fd' = rd w fd'"
  "dgram (set_rd fd as w) = dgram w"
  "wr (set_rd fd as w) = wr w"
  "polls (set_rd fd as w) = polls w"
  "clock (set_rd fd as w) = clock w"
  "allocs (set_rd fd as w) = allocs w"
  "written (set_rd fd as w) = written w"
  "py (set_rd fd as w) = py w"
  "set_rd fd bs (set_rd fd as w) = set_rd fd bs w"
  "set_rd fd (rd w fd) w = w"
  by (simp_all add: set_rd_def)

definition c_read :: "int \<Rightarrow> nat \<Rightarrow> os \<Rightarrow> (errno + bytes) outcome \<times> os" where
  "c_read fd n w =
     (case rd w fd of
        [] \<Rightarrow> (Blocked, w)
      | Rd_error e # as \<Rightarrow> (Ok (Inl e), set_rd fd as w)
      | Rd_data bs # as \<Rightarrow>
          (Ok (Inr (take n bs)),
           set_rd fd (if length bs \<le> n \<or> dgram w fd then as else Rd_data (drop n bs) # as) w))"

definition c_write :: "int \<Rightarrow> bytes \<Rightarrow> os \<Rightarrow> (errno + nat) outcome \<times> os" where
  "c_write fd bs w =
     (case wr w of
        [] \<Rightarrow> (Blocked, w)
      | Wr_error e # as \<Rightarrow> (Ok (Inl e), w\<lparr>wr := as\<rparr>)
      | Wr_count k # as \<Rightarrow>
          (Ok (Inr (min k (length bs))), w\<lparr>wr := as, written := written w @ [(fd, take k bs)]\<rparr>))"

definition c_poll :: "nat \<Rightarrow> os \<Rightarrow> (errno + nat list) outcome \<times> os" where
  "c_poll nfds w =
     (case polls w of
        [] \<Rightarrow> (Blocked, w)
      | Poll_error e # as \<Rightarrow> (Ok (Inl e), w\<lparr>polls := as\<rparr>)
      | Poll_events rs # as \<Rightarrow>
          (Ok (Inr (take nfds (rs @ replicate nfds 0))), w\<lparr>polls := as\<rparr>))"

text \<open>The result of \<open>poll\<close>: the number of descriptors with events.\<close>

definition poll_count :: "nat list \<Rightarrow> nat" where
  "poll_count rs = length (filter (\<lambda>r. r \<noteq> 0) rs)"

definition c_clock :: "os \<Rightarrow> int outcome \<times> os" where
  "c_clock w = (case clock w of [] \<Rightarrow> (Blocked, w) | t # ts \<Rightarrow> (Ok t, w\<lparr>clock := ts\<rparr>))"

definition c_reserve :: "nat \<Rightarrow> 'a realloc_ptr \<Rightarrow> os \<Rightarrow> (bool \<times> 'a realloc_ptr) outcome \<times> os" where
  "c_reserve n p w =
     (let ok = (case allocs w of [] \<Rightarrow> True | b # _ \<Rightarrow> b);
          w' = (if m_size p \<le> n \<and> n \<le> m_maxSize p then w\<lparr>allocs := tl (allocs w)\<rparr> else w)
      in case rp_reserve ok n p of None \<Rightarrow> (Blocked, w') | Some r \<Rightarrow> (Ok r, w'))"

text \<open>The bytes a descriptor has received.\<close>

definition sent :: "os \<Rightarrow> int \<Rightarrow> bytes" where
  "sent w fd = concat (map snd (filter (\<lambda>x. fst x = fd) (written w)))"

text \<open>The bytes that arrive on a stream before an error or the end of file.\<close>

fun stream :: "rd_answer list \<Rightarrow> bytes" where
  "stream (Rd_data bs # as) = (if bs = [] then [] else bs @ stream as)"
| "stream _ = []"

section \<open>Exact reads and writes\<close>

text \<open>
  The loop of \<open>read_exact\<close>: \<open>err\<close> translates \<open>errno\<close>, \<open>acc\<close> holds the bytes stored so far (its
  length is \<open>total\<close>). The two programs have the same loop with their own statuses.
\<close>

function read_loop :: "(errno \<Rightarrow> 'st) \<Rightarrow> 'st \<Rightarrow> 'st \<Rightarrow> 'st \<Rightarrow> int \<Rightarrow> nat \<Rightarrow> bytes \<Rightarrow> os
    \<Rightarrow> ('st \<times> bytes) outcome \<times> os" where
  "read_loop err null overflow success fd len acc w =
     (if length acc < len then
        (case c_read fd (len - length acc) w of
           (Ok (Inl e), w') \<Rightarrow> (Ok (err e, acc), w')
         | (Ok (Inr bs), w') \<Rightarrow>
             if bs = [] then (Ok (null, acc), w')
             else read_loop err null overflow success fd len (acc @ bs) w'
         | (_, w') \<Rightarrow> (Blocked, w'))
      else if length acc > len then (Ok (overflow, acc), w)
      else (Ok (success, acc), w))"
  by pat_completeness auto
termination
  by (relation "measure (\<lambda>(err, null, overflow, success, fd, len, acc, w). len - length acc)")
    (auto simp: diff_less_mono2)

declare read_loop.simps [simp del]

text \<open>The loop of \<open>write_exact\<close> over the \<open>length\<close> bytes \<open>bs\<close> of the message.\<close>

function write_loop :: "(errno \<Rightarrow> 'st) \<Rightarrow> 'st \<Rightarrow> 'st \<Rightarrow> 'st \<Rightarrow> int \<Rightarrow> bytes \<Rightarrow> nat \<Rightarrow> os
    \<Rightarrow> 'st outcome \<times> os" where
  "write_loop err null overflow success fd bs tot w =
     (if tot < length bs then
        (case c_write fd (drop tot bs) w of
           (Ok (Inl e), w') \<Rightarrow> (Ok (err e), w')
         | (Ok (Inr k), w') \<Rightarrow>
             if k = 0 then (Ok null, w')
             else write_loop err null overflow success fd bs (tot + k) w'
         | (_, w') \<Rightarrow> (Blocked, w'))
      else if tot > length bs then (Ok overflow, w)
      else (Ok success, w))"
  by pat_completeness auto
termination
  by (relation "measure (\<lambda>(err, null, overflow, success, fd, bs, tot, w). length bs - tot)") auto

declare write_loop.simps [simp del]

section \<open>Reading\<close>

lemma c_read_chunk:
  assumes "\<not> dgram w fd" and "0 < n" and "stream (rd w fd) \<noteq> []"
  shows "\<exists>bs as. c_read fd n w = (Ok (Inr bs), set_rd fd as w) \<and> bs \<noteq> []
    \<and> length bs \<le> n \<and> stream (rd w fd) = bs @ stream as"
proof -
  obtain bs as where q: "rd w fd = Rd_data bs # as" "bs \<noteq> []"
    using assms(3) by (cases "rd w fd" rule: stream.cases) (auto split: if_splits)
  then have s: "stream (rd w fd) = bs @ stream as" by simp
  show ?thesis
  proof (cases "length bs \<le> n")
    case True
    with q s show ?thesis by (auto simp: c_read_def)
  next
    case False
    with q s assms show ?thesis
      by (intro exI [of _ "take n bs"] exI [of _ "Rd_data (drop n bs) # as"]) (auto simp: c_read_def)
  qed
qed

lemma read_loop_stream:
  assumes "\<not> dgram w fd" and "length acc \<le> len" and "len - length acc \<le> length (stream (rd w fd))"
  shows "\<exists>as. read_loop err null overflow success fd len acc w
      = (Ok (success, acc @ take (len - length acc) (stream (rd w fd))), set_rd fd as w)
    \<and> stream as = drop (len - length acc) (stream (rd w fd))"
  using assms
proof (induction err null overflow success fd len acc w rule: read_loop.induct)
  case (1 err null overflow success fd len acc w)
  show ?case
  proof (cases "length acc < len")
    case False
    with 1 have "length acc = len" by simp
    then show ?thesis
      by (intro exI [of _ "rd w fd"]) (simp add: read_loop.simps [of _ _ _ _ _ _ acc])
  next
    case True
    with "1.prems" obtain bs as where c: "c_read fd (len - length acc) w
        = (Ok (Inr bs), set_rd fd as w)" "bs \<noteq> []" "length bs \<le> len - length acc"
        "stream (rd w fd) = bs @ stream as"
      using c_read_chunk [of w fd "len - length acc"] by (metis diff_is_0_eq length_0_conv not_le zero_less_diff)
    let ?w = "set_rd fd as w"
    have pre: "\<not> dgram ?w fd" "length (acc @ bs) \<le> len"
        "len - length (acc @ bs) \<le> length (stream (rd ?w fd))"
      using "1.prems" c True by auto
    obtain as' where "read_loop err null overflow success fd len (acc @ bs) ?w
        = (Ok (success, (acc @ bs) @ take (len - length (acc @ bs)) (stream as)), set_rd fd as' w)"
        "stream as' = drop (len - length (acc @ bs)) (stream as)"
      using "1.IH" [OF True c(1)[symmetric] refl refl c(2) pre] by auto
    with True c show ?thesis
      by (intro exI [of _ as']) (simp add: read_loop.simps [of _ _ _ _ _ _ acc])
  qed
qed

lemma read_loop_length:
  assumes "read_loop err null overflow success fd len acc w = (Ok (st, bs), w')" and "length acc \<le> len"
  shows "length bs \<le> len \<and> (length bs = len \<longrightarrow> st = success)
    \<and> (length bs < len \<longrightarrow> st = null \<or> (\<exists>e. st = err e)) \<and> take (length acc) bs = acc"
  using assms
proof (induction err null overflow success fd len acc w rule: read_loop.induct)
  case (1 err null overflow success fd len acc w)
  show ?case
  proof (cases "length acc < len")
    case False
    with 1 show ?thesis by (auto simp: read_loop.simps [of _ _ _ _ _ _ acc])
  next
    case True
    have le: "length cs \<le> n" if "c_read fd n w = (Ok (Inr cs), v)" for cs n v
      using that by (auto simp: c_read_def split: list.splits rd_answer.splits)
    show ?thesis
    proof (cases "c_read fd (len - length acc) w")
      case (Pair r v)
      show ?thesis
      proof (cases "\<exists>cs. r = Ok (Inr cs) \<and> cs \<noteq> []")
        case False
        with Pair "1.prems" True show ?thesis
          by (auto simp: read_loop.simps [of _ _ _ _ _ _ acc] split: outcome.splits sum.splits if_splits)
      next
        case cs: True
        then obtain cs where cs: "c_read fd (len - length acc) w = (Ok (Inr cs), v)" "cs \<noteq> []"
          using Pair by auto
        with le have l: "length (acc @ cs) \<le> len" using True by fastforce
        have "read_loop err null overflow success fd len (acc @ cs) v = (Ok (st, bs), w')"
          using "1.prems"(1) cs True by (simp add: read_loop.simps [of _ _ _ _ _ _ acc])
        from "1.IH" [OF True cs(1)[symmetric] refl refl cs(2) this l] show ?thesis
          by (metis append_eq_conv_conj append_take_drop_id length_append take_add take_take min.absorb1 le_add1)
      qed
    qed
  qed
qed

section \<open>Writing\<close>

lemma sent_write:
  "sent (w\<lparr>wr := as, written := written w @ [(fd, bs)]\<rparr>) fd' = sent w fd' @ (if fd' = fd then bs else [])"
  by (simp add: sent_def)

lemma sent_cong: "written w = written w' \<Longrightarrow> sent w = sent w'"
  by (simp add: sent_def fun_eq_iff)

lemma write_loop_sent:
  assumes "write_loop err null overflow success fd bs tot w = (Ok st, w')" and "tot \<le> length bs"
  shows "\<exists>k as ws. tot \<le> k \<and> k \<le> length bs \<and> w' = w\<lparr>wr := as, written := ws\<rparr>
    \<and> sent w' fd = sent w fd @ take (k - tot) (drop tot bs)
    \<and> (\<forall>fd'. fd' \<noteq> fd \<longrightarrow> sent w' fd' = sent w fd')
    \<and> (if k = length bs then st = success else st = null \<or> (\<exists>e. st = err e))"
  using assms
proof (induction err null overflow success fd bs tot w rule: write_loop.induct)
  case (1 err null overflow success fd bs tot w)
  note unf = write_loop.simps [of _ _ _ _ _ _ tot]
  show ?case
  proof (cases "tot < length bs")
    case False
    with 1 show ?thesis
      by (intro exI [of _ tot] exI [of _ "wr w"] exI [of _ "written w"]) (auto simp: unf)
  next
    case True
    show ?thesis
    proof (cases "wr w")
      case Nil
      with 1 True show ?thesis by (simp add: unf c_write_def)
    next
      case (Cons a as)
      show ?thesis
      proof (cases a)
        case (Wr_error e)
        with Cons 1 True show ?thesis
          by (intro exI [of _ tot] exI [of _ as] exI [of _ "written w"])
            (auto simp: unf c_write_def sent_def)
      next
        case (Wr_count k)
        let ?v = "w\<lparr>wr := as, written := written w @ [(fd, take k (drop tot bs))]\<rparr>"
        let ?k = "min k (length bs - tot)"
        have c: "c_write fd (drop tot bs) w = (Ok (Inr ?k), ?v)"
          using Cons Wr_count by (simp add: c_write_def)
        show ?thesis
        proof (cases "?k = 0")
          case True
          then have "k = 0" using \<open>tot < length bs\<close> by auto
          with c "1.prems" \<open>tot < length bs\<close> show ?thesis
            by (intro exI [of _ tot] exI [of _ as] exI [of _ "written ?v"])
              (auto simp: unf sent_def)
        next
          case False
          have r: "write_loop err null overflow success fd bs (tot + ?k) ?v = (Ok st, w')"
            using "1.prems"(1) c True False by (simp add: unf)
          have le: "tot + ?k \<le> length bs" using True by auto
          obtain m as' ws where m: "tot + ?k \<le> m" "m \<le> length bs"
            "w' = ?v\<lparr>wr := as', written := ws\<rparr>"
            "sent w' fd = sent ?v fd @ take (m - (tot + ?k)) (drop (tot + ?k) bs)"
            "\<forall>fd'. fd' \<noteq> fd \<longrightarrow> sent w' fd' = sent ?v fd'"
            "if m = length bs then st = success else st = null \<or> (\<exists>e. st = err e)"
            using "1.IH" [OF True c[symmetric] refl refl False r le] by blast
          have "take k (drop tot bs) = take ?k (drop tot bs)"
            by (cases "k \<le> length bs - tot") auto
          moreover have "take (m - tot) (drop tot bs)
              = take ?k (drop tot bs) @ take (m - (tot + ?k)) (drop (tot + ?k) bs)"
            using take_add [of ?k "m - (tot + ?k)" "drop tot bs"] m(1) by (simp add: add.commute)
          ultimately have "sent w' fd = sent w fd @ take (m - tot) (drop tot bs)"
            using m(4) by (simp add: sent_write)
          with m show ?thesis
            by (intro exI [of _ m] exI [of _ as'] exI [of _ ws]) (auto simp: sent_write)
        qed
      qed
    qed
  qed
qed

text \<open>The descriptor accepts \<open>n\<close> more bytes, in any number of steps.\<close>

fun accepts :: "wr_answer list \<Rightarrow> nat \<Rightarrow> bool" where
  "accepts as 0 = True"
| "accepts (Wr_count k # as) n = (0 < k \<and> accepts as (n - k))"
| "accepts _ n = False"

lemma write_loop_accepts:
  assumes "accepts (wr w) (length bs - tot)" and "tot \<le> length bs"
  shows "\<exists>w'. write_loop err null overflow success fd bs tot w = (Ok success, w')"
  using assms
proof (induction err null overflow success fd bs tot w rule: write_loop.induct)
  case (1 err null overflow success fd bs tot w)
  note unf = write_loop.simps [of _ _ _ _ _ _ tot]
  show ?case
  proof (cases "tot < length bs")
    case False
    with 1 show ?thesis by (subst write_loop.simps) simp
  next
    case True
    then obtain d where d: "length bs - tot = Suc d" by (metis Suc_diff_Suc)
    with "1.prems"(1) obtain k as where w: "wr w = Wr_count k # as" "0 < k" "accepts as (Suc d - k)"
      by (cases "(wr w, Suc d)" rule: accepts.cases) auto
    define kk where "kk = min k (length bs - tot)"
    let ?v = "w\<lparr>wr := as, written := written w @ [(fd, take k (drop tot bs))]\<rparr>"
    have c: "c_write fd (drop tot bs) w = (Ok (Inr kk), ?v)" using w by (simp add: c_write_def kk_def)
    have k: "kk \<noteq> 0" "tot + kk \<le> length bs" "length bs - (tot + kk) = Suc d - k"
      using w(2) True d by (auto simp: kk_def)
    then have "accepts (wr ?v) (length bs - (tot + kk))" using w(3) by simp
    from "1.IH" [OF True c[symmetric] refl refl k(1) this k(2)] True c k(1) show ?thesis
      by (simp add: unf)
  qed
qed

section \<open>Frames\<close>

text \<open>The 4-byte big-endian length in front of a message, as the sources shift and mask it.\<close>

definition be32_of :: "byte \<Rightarrow> byte \<Rightarrow> byte \<Rightarrow> byte \<Rightarrow> u32" where
  "be32_of b0 b1 b2 b3 =
     push_bit 24 (ucast b0) OR push_bit 16 (ucast b1) OR push_bit 8 (ucast b2) OR ucast b3"

definition be32_bytes :: "u32 \<Rightarrow> bytes" where
  "be32_bytes len =
     [ucast (drop_bit 24 (len AND 0xff000000)), ucast (drop_bit 16 (len AND 0x00ff0000)),
      ucast (drop_bit 8 (len AND 0x0000ff00)), ucast (len AND 0x000000ff)]"

lemma length_be32_bytes [simp]: "length (be32_bytes w) = 4"
  by (simp add: be32_bytes_def)

lemma be32_mask: "(0xff000000 :: u32) = push_bit 24 (mask 8)" "(0x00ff0000 :: u32) = push_bit 16 (mask 8)"
  "(0x0000ff00 :: u32) = push_bit 8 (mask 8)" "(0x000000ff :: u32) = mask 8"
  by (simp_all add: mask_eq_exp_minus_1)

lemma be32_round_trip:
  "be32_bytes w = [b0, b1, b2, b3] \<Longrightarrow> be32_of b0 b1 b2 b3 = w"
proof (rule bit_word_eqI)
  fix n
  assume "be32_bytes w = [b0, b1, b2, b3]" and "n < LENGTH(32)"
  then have b: "b0 = ucast (drop_bit 24 (w AND push_bit 24 (mask 8)))"
      "b1 = ucast (drop_bit 16 (w AND push_bit 16 (mask 8)))"
      "b2 = ucast (drop_bit 8 (w AND push_bit 8 (mask 8)))" "b3 = ucast (w AND mask 8)" and n: "n < 32"
    by (simp_all only: be32_bytes_def be32_mask list.inject) simp_all
  consider "n < 8" | "8 \<le> n" "n < 16" | "16 \<le> n" "n < 24" | "24 \<le> n" by linarith
  then show "bit (be32_of b0 b1 b2 b3) n \<longleftrightarrow> bit w n"
    by cases (use n in \<open>auto simp: b be32_of_def bit_simps simp del: push_bit_mask_eq\<close>)
qed

text \<open>
  What a reader of frames relies on: an exact read delivers the next \<open>n\<close> bytes of the stream if
  they arrive, however they are cut into chunks, and a successful read has the length asked for.
  The client, reading the length and then the body, gets the body of the frame and leaves the
  stream at the next one.
\<close>

locale framed_reader =
  fixes rdx :: "int \<Rightarrow> nat \<Rightarrow> os \<Rightarrow> ('st \<times> bytes) outcome \<times> os"
    and ok :: 'st
  assumes rdx_stream: "\<not> dgram w fd \<Longrightarrow> n \<le> length (stream (rd w fd)) \<Longrightarrow>
      \<exists>as. rdx fd n w = (Ok (ok, take n (stream (rd w fd))), set_rd fd as w)
        \<and> stream as = drop n (stream (rd w fd))"
    and rdx_length: "rdx fd n w = (Ok (ok, bs), w') \<Longrightarrow> length bs = n"
begin

lemma read_frame:
  assumes "\<not> dgram w fd" and "stream (rd w fd) = be32_bytes len @ body @ rest"
    and "length body = unat len"
  shows "\<exists>b0 b1 b2 b3 as1 as2. rdx fd 4 w = (Ok (ok, [b0, b1, b2, b3]), set_rd fd as1 w)
    \<and> be32_of b0 b1 b2 b3 = len \<and> stream as1 = body @ rest
    \<and> rdx fd (unat len) (set_rd fd as1 w) = (Ok (ok, body), set_rd fd as2 w) \<and> stream as2 = rest"
proof -
  obtain as1 where r1: "rdx fd 4 w = (Ok (ok, be32_bytes len), set_rd fd as1 w)"
      "stream as1 = body @ rest"
    using rdx_stream [OF assms(1), of 4] assms(2) by auto
  obtain b0 b1 b2 b3 where b: "be32_bytes len = [b0, b1, b2, b3]"
    by (simp add: be32_bytes_def)
  obtain as2 where "rdx fd (unat len) (set_rd fd as1 w) = (Ok (ok, body), set_rd fd as2 w)"
      "stream as2 = rest"
    using rdx_stream [of "set_rd fd as1 w" fd "unat len"] assms(1,3) r1(2) by auto
  with r1 b be32_round_trip [OF b] show ?thesis by auto
qed

end

lemma framed_reader_read_loop:
  assumes "null \<noteq> success" and "\<And>e. err e \<noteq> success"
  shows "framed_reader (\<lambda>fd n. read_loop err null overflow success fd n []) success"
proof
  fix w :: os and fd n
  assume "\<not> dgram w fd" "n \<le> length (stream (rd w fd))"
  then show "\<exists>as. read_loop err null overflow success fd n [] w
      = (Ok (success, take n (stream (rd w fd))), set_rd fd as w) \<and> stream as = drop n (stream (rd w fd))"
    using read_loop_stream [of w fd "[]" n err null overflow success] by auto
next
  fix fd n bs and w w' :: os
  assume "read_loop err null overflow success fd n [] w = (Ok (success, bs), w')"
  from read_loop_length [OF this] assms show "length bs = n" by fastforce
qed

end
