(* ===== verification/Api_Io.thy ===== *)
theory Api_Io
  imports Os_Io
begin

text \<open>
  The input and output of the C API (\<^verbatim>\<open>api/c/cloudi.cpp\<close>): \<open>data_ready\<close>, \<open>read_exact\<close>, \<open>read_all\<close>
  and \<open>write_exact\<close>. A buffer is the \<open>realloc_ptr\<close> of its component; the functions return it
  together with the status, since they store through its pointer.
\<close>

section \<open>Model\<close>

definition data_ready :: "int \<Rightarrow> os \<Rightarrow> (cloudi_status \<times> bool) outcome \<times> os" where
  "data_ready fd w =
     (case c_poll 1 w of
        (Ok (Inl e), w') \<Rightarrow> (Ok (cloudi_errno_poll e, True), w')
      | (Ok (Inr rs), w') \<Rightarrow> (Ok (cloudi_success, poll_count rs = 1), w')
      | (_, w') \<Rightarrow> (Blocked, w'))"

definition read_exact :: "int \<Rightarrow> nat \<Rightarrow> os \<Rightarrow> (cloudi_status \<times> bytes) outcome \<times> os" where
  "read_exact fd len w =
     read_loop cloudi_errno_read cloudi_error_read_null cloudi_error_read_overflow cloudi_success
       fd len [] w"

text \<open>
  The branch of \<open>read_all\<close> with a header: the length, room for the message, the message. What an
  exact read has stored before it failed is in the buffer too.
\<close>

definition read_all_header :: "int \<Rightarrow> byte realloc_ptr \<Rightarrow> os
    \<Rightarrow> (cloudi_status \<times> byte realloc_ptr \<times> nat) outcome \<times> os" where
  "read_all_header fd buf w =
     (case read_exact fd 4 w of
        (Ok (status, header), w1) \<Rightarrow>
          if status \<noteq> cloudi_success then (Ok (status, buf, 0), w1)
          else
            (let len = unat (be32_of (header ! 0) (header ! 1) (header ! 2) (header ! 3))
             in case c_reserve len buf w1 of
                  (Ok (False, buf'), w2) \<Rightarrow> (Ok (cloudi_out_of_memory, buf', 0), w2)
                | (Ok (True, buf'), w2) \<Rightarrow>
                    (case read_exact fd len w2 of
                       (Ok (status, body), w3) \<Rightarrow>
                         (case rp_put 0 body buf' of
                            Ok buf'' \<Rightarrow> (Ok (status, buf'', len), w3)
                          | _ \<Rightarrow> (Undefined, w3))
                     | (_, w3) \<Rightarrow> (Blocked, w3))
                | (_, w2) \<Rightarrow> (Blocked, w2))
      | (_, w1) \<Rightarrow> (Blocked, w1))"

text \<open>
  The branch without a header reads as long as a full buffer comes (or nothing has come yet) and
  more data is ready. \<open>tot\<close> is a \<open>uint32_t\<close>. \<open>static_cast<signed>(buffer_size)\<close> is negative from
  \<open>2 ^ 31\<close> on, so it never equals a number of bytes there.
\<close>

function read_all_loop :: "int \<Rightarrow> nat \<Rightarrow> byte realloc_ptr \<Rightarrow> nat \<Rightarrow> os
    \<Rightarrow> (cloudi_status \<times> byte realloc_ptr \<times> nat) outcome \<times> os" where
  "read_all_loop fd buffer_size buf tot w =
     (case c_reserve ((tot + buffer_size) mod 2 ^ 32) buf w of
        (Ok (False, buf'), w1) \<Rightarrow> (Ok (cloudi_out_of_memory, buf', tot), w1)
      | (Ok (True, buf'), w1) \<Rightarrow>
          if \<not> tot < m_size buf' then (Raise assert_exception, w1)
          else
            (case c_read fd buffer_size w1 of
               (Ok (Inl e), w2) \<Rightarrow> (Ok (cloudi_errno_read e, buf', tot), w2)
             | (Ok (Inr bs), w2) \<Rightarrow>
                 (case rp_put tot bs buf' of
                    Ok buf'' \<Rightarrow>
                      (let tot' = (tot + length bs) mod 2 ^ 32;
                           ready = (length bs = buffer_size \<and> buffer_size < 2 ^ 31)
                                   \<or> (bs = [] \<and> tot' = 0)
                       in if \<not> ready then (Ok (cloudi_success, buf'', tot'), w2)
                          else
                            (case data_ready fd w2 of
                               (Ok (status, ready'), w3) \<Rightarrow>
                                 if status \<noteq> cloudi_success then (Ok (status, buf'', tot'), w3)
                                 else if ready' then read_all_loop fd buffer_size buf'' tot' w3
                                 else (Ok (cloudi_success, buf'', tot'), w3)
                             | (_, w3) \<Rightarrow> (Blocked, w3)))
                  | _ \<Rightarrow> (Undefined, w2))
             | (_, w2) \<Rightarrow> (Blocked, w2))
      | (_, w1) \<Rightarrow> (Blocked, w1))"
  by pat_completeness auto

lemma c_reserve_polls: "c_reserve n p w = (r, w') \<Longrightarrow> polls w' = polls w"
  by (auto simp: c_reserve_def Let_def split: option.splits if_splits)

lemma c_read_polls: "c_read fd n w = (r, w') \<Longrightarrow> polls w' = polls w"
  by (auto simp: c_read_def split: list.splits rd_answer.splits)

lemma data_ready_polls: "data_ready fd w = (Ok r, w') \<Longrightarrow> length (polls w') < length (polls w)"
  by (auto simp: data_ready_def c_poll_def split: list.splits poll_answer.splits)

termination read_all_loop
proof (relation "measure (\<lambda>(fd, buffer_size, buf, tot, w). length (polls w))", goal_cases)
  case 1
  show ?case by simp
next
  case (2 fd buffer_size buf tot w)
  then show ?case
    by (metis (no_types, lifting) c_read_polls c_reserve_polls data_ready_polls case_prod_conv in_measure)
qed

declare read_all_loop.simps [simp del]

definition read_all :: "int \<Rightarrow> bool \<Rightarrow> byte realloc_ptr \<Rightarrow> nat \<Rightarrow> os
    \<Rightarrow> (cloudi_status \<times> byte realloc_ptr \<times> nat) outcome \<times> os" where
  "read_all fd use_header buf buffer_size w =
     (if use_header then read_all_header fd buf w else read_all_loop fd buffer_size buf 0 w)"

text \<open>
  \<open>write_exact\<close> stores the big-endian length of the body in the first four bytes (the length
  \<open>- 4\<close> is unsigned) and writes the \<open>len\<close> bytes of the buffer.
\<close>

definition write_exact :: "int \<Rightarrow> bool \<Rightarrow> byte realloc_ptr \<Rightarrow> nat \<Rightarrow> os
    \<Rightarrow> (cloudi_status \<times> byte realloc_ptr) outcome \<times> os" where
  "write_exact fd use_header buf len w =
     (case (if use_header then rp_put 0 (be32_bytes (word_of_nat len - 4)) buf else Ok buf) of
        Ok buf' \<Rightarrow>
          (case rp_get 0 len buf' of
             Ok bs \<Rightarrow>
               (case write_loop cloudi_errno_write cloudi_error_write_null
                       cloudi_error_write_overflow cloudi_success fd bs 0 w of
                  (Ok status, w') \<Rightarrow> (Ok (status, buf'), w')
                | (_, w') \<Rightarrow> (Blocked, w'))
           | _ \<Rightarrow> (Undefined, w))
      | _ \<Rightarrow> (Undefined, w))"

interpretation api_reader: framed_reader read_exact cloudi_success
proof -
  have "cloudi_errno_read e \<noteq> cloudi_success" for e
    using cloudi_errno_read_map.conv_nonzero [of e] by (metis status_value.simps(1))
  then have "framed_reader (\<lambda>fd n. read_loop cloudi_errno_read cloudi_error_read_null
      cloudi_error_read_overflow cloudi_success fd n []) cloudi_success"
    by (intro framed_reader_read_loop) auto
  then show "framed_reader read_exact cloudi_success"
    by (simp add: read_exact_def [abs_def])
qed

section \<open>Facts\<close>

text \<open>The allocator delivers what \<open>reserve\<close> asks for next.\<close>

definition alloc_ok :: "os \<Rightarrow> bool" where
  "alloc_ok w \<longleftrightarrow> (case allocs w of [] \<Rightarrow> True | b # _ \<Rightarrow> b)"

definition can_reserve :: "nat \<Rightarrow> 'a realloc_ptr \<Rightarrow> os \<Rightarrow> bool" where
  "can_reserve n p w \<longleftrightarrow> n < m_size p \<or> (n \<le> m_maxSize p \<and> alloc_ok w)"

lemma c_reserve_cases:
  assumes "rp_wf p" and "n < 2 ^ 63"
  shows "\<exists>r q as. c_reserve n p w = (Ok (r, q), w\<lparr>allocs := as\<rparr>) \<and> rp_wf q
    \<and> (r \<longleftrightarrow> can_reserve n p w) \<and> (r \<longrightarrow> n < m_size q) \<and> (\<not> r \<longrightarrow> q = p) \<and> rp_extends p q"
proof -
  obtain r q where "rp_reserve (alloc_ok w) n p = Some (r, q)" "rp_wf q" "rp_extends p q"
    "r \<longrightarrow> n < m_size q" "\<not> r \<longrightarrow> q = p" "r \<longleftrightarrow> n < m_size p \<or> (n \<le> m_maxSize p \<and> alloc_ok w)"
    using rp_reserve_cases [OF assms, of "alloc_ok w"] by blast
  moreover define as where
    "as = (if m_size p \<le> n \<and> n \<le> m_maxSize p then tl (allocs w) else allocs w)"
  ultimately have "c_reserve n p w = (Ok (r, q), w\<lparr>allocs := as\<rparr>)"
    by (simp add: c_reserve_def alloc_ok_def)
  with \<open>rp_wf q\<close> \<open>rp_extends p q\<close> \<open>r \<longrightarrow> n < m_size q\<close> \<open>\<not> r \<longrightarrow> q = p\<close>
    \<open>r \<longleftrightarrow> n < m_size p \<or> (n \<le> m_maxSize p \<and> alloc_ok w)\<close>
  show ?thesis unfolding can_reserve_def by blast
qed

lemma stream_allocs [simp]: "stream (rd (w\<lparr>allocs := as\<rparr>) fd) = stream (rd w fd)"
  by simp

lemma set_rd_allocs: "(set_rd fd as w)\<lparr>allocs := bs\<rparr> = set_rd fd as (w\<lparr>allocs := bs\<rparr>)"
  by (simp add: set_rd_def)

lemma unat_u32_63: "unat (len :: u32) < 2 ^ 63"
proof -
  have "unat len < 2 ^ 32" using unsigned_less [of len, where ?'a = nat] by simp
  then show ?thesis by simp
qed

lemma read_all_header_frame:
  assumes "rp_wf buf" and "\<not> dgram w fd" and "stream (rd w fd) = be32_bytes len @ body @ rest"
    and "length body = unat len"
  shows "if can_reserve (unat len) buf w
    then \<exists>buf' w'. read_all_header fd buf w = (Ok (cloudi_success, buf', unat len), w') \<and> rp_wf buf'
      \<and> unat len < m_size buf' \<and> mem_read 0 (unat len) (m_p buf') = Some body
      \<and> stream (rd w' fd) = rest \<and> written w' = written w
    else \<exists>w'. read_all_header fd buf w = (Ok (cloudi_out_of_memory, buf, 0), w')"
proof -
  obtain b0 b1 b2 b3 as1 as2 where h: "read_exact fd 4 w = (Ok (cloudi_success, [b0, b1, b2, b3]), set_rd fd as1 w)"
      "be32_of b0 b1 b2 b3 = len" "stream as1 = body @ rest"
    using api_reader.read_frame [OF assms(2-4)] by blast
  let ?w = "set_rd fd as1 w"
  obtain r q bs where q: "c_reserve (unat len) buf ?w = (Ok (r, q), ?w\<lparr>allocs := bs\<rparr>)" "rp_wf q"
      "r \<longleftrightarrow> can_reserve (unat len) buf ?w" "r \<longrightarrow> unat len < m_size q" "\<not> r \<longrightarrow> q = buf"
    using c_reserve_cases [OF assms(1) unat_u32_63, of len ?w] by blast
  have cr: "can_reserve (unat len) buf ?w \<longleftrightarrow> can_reserve (unat len) buf w"
    by (simp add: can_reserve_def alloc_ok_def)
  show ?thesis
  proof (cases r)
    case False
    with q cr h show ?thesis by (auto simp: read_all_header_def)
  next
    case True
    let ?v = "?w\<lparr>allocs := bs\<rparr>"
    obtain as3 where b: "read_exact fd (unat len) ?v = (Ok (cloudi_success, body), set_rd fd as3 ?v)"
        "stream as3 = rest"
      using api_reader.rdx_stream [of ?v fd "unat len"] assms(2,4) h(3) by auto
    obtain q' where q': "rp_put 0 body q = Ok q'" "rp_wf q'" "m_size q' = m_size q" "m_p q' = mem_write 0 body (m_p q)"
      using rp.put_ok [OF q(2), of 0 body] q(4) True assms(4) by auto
    show ?thesis
      using q cr h b q' True assms(4) by (simp add: read_all_header_def)
  qed
qed

lemma cloudi_errno_write_not_success [simp]: "cloudi_errno_write e \<noteq> cloudi_success"
  using cloudi_errno_write_map.conv_nonzero [of e] by (metis status_value.simps(1))

lemma cloudi_errno_read_not_success [simp]: "cloudi_errno_read e \<noteq> cloudi_success"
  using cloudi_errno_read_map.conv_nonzero [of e] by (metis status_value.simps(1))

lemma cloudi_errno_poll_not_success [simp]: "cloudi_errno_poll e \<noteq> cloudi_success"
  using cloudi_errno_poll_map.conv_nonzero [of e] by (metis status_value.simps(1))

lemmas errno_not_success_sym [simp] =
  cloudi_errno_write_not_success [symmetric] cloudi_errno_read_not_success [symmetric]
  cloudi_errno_poll_not_success [symmetric]

text \<open>The bytes that \<open>write_exact\<close> sends: the message, with its header filled in.\<close>

definition wire :: "bool \<Rightarrow> bytes \<Rightarrow> bytes" where
  "wire use_header body =
     (if use_header then be32_bytes (word_of_nat (length body)) @ body else body)"

definition header_size :: "bool \<Rightarrow> nat" where
  "header_size use_header = (if use_header then 4 else 0)"

lemma length_wire: "length (wire use_header body) = header_size use_header + length body"
  by (simp add: wire_def header_size_def)

lemma word_of_nat_minus_4: "(word_of_nat (4 + n) :: u32) - 4 = word_of_nat n"
  by simp

lemma write_exact_message:
  assumes "rp_wf buf" and "header_size h + length body \<le> m_size buf"
    and "mem_read (header_size h) (length body) (m_p buf) = Some body"
  shows "\<exists>buf'. rp_wf buf' \<and> m_size buf' = m_size buf
    \<and> write_exact fd h buf (header_size h + length body) w
      = (case write_loop cloudi_errno_write cloudi_error_write_null cloudi_error_write_overflow
                cloudi_success fd (wire h body) 0 w of
           (Ok status, w') \<Rightarrow> (Ok (status, buf'), w') | (_, w') \<Rightarrow> (Blocked, w'))"
proof (cases h)
  case False
  with assms show ?thesis
    by (intro exI [of _ buf]) (auto simp: write_exact_def rp_get_def rp_wf_def wire_def header_size_def)
next
  case True
  let ?hdr = "be32_bytes (word_of_nat (length body))"
  obtain q where q: "rp_put 0 ?hdr buf = Ok q" "rp_wf q" "m_size q = m_size buf"
      "m_p q = mem_write 0 ?hdr (m_p buf)"
    using rp.put_ok [OF assms(1), of 0 ?hdr] assms(2) True by (auto simp: header_size_def)
  have "mem_read 0 4 (m_p q) = Some ?hdr" "mem_read 4 (length body) (m_p q) = Some body"
    using q(4) assms(3) True by (simp_all add: mem_read_write_disjoint header_size_def)
  then have "mem_read 0 (4 + length body) (m_p q) = Some (?hdr @ body)"
    using mem_read_append [of 0 4 "m_p q" ?hdr "length body" body] by simp
  then have "rp_get 0 (4 + length body) q = Ok (?hdr @ body)"
    using assms(2) q(2,3) True by (simp add: rp_get_def rp_wf_def header_size_def)
  with q True show ?thesis
    by (intro exI [of _ q]) (simp add: write_exact_def wire_def header_size_def word_of_nat_minus_4)
qed

text \<open>A write that ends has sent a prefix of the message, all of it exactly on success.\<close>

lemma write_exact_sent:
  assumes "rp_wf buf" and "header_size h + length body \<le> m_size buf"
    and "mem_read (header_size h) (length body) (m_p buf) = Some body"
    and "write_exact fd h buf (header_size h + length body) w = (Ok (status, buf'), w')"
  shows "\<exists>k as ws. sent w' fd = sent w fd @ take k (wire h body) \<and> k \<le> length (wire h body)
    \<and> (status = cloudi_success \<longleftrightarrow> k = length (wire h body))
    \<and> (\<forall>fd'. fd' \<noteq> fd \<longrightarrow> sent w' fd' = sent w fd')
    \<and> w' = w\<lparr>wr := as, written := ws\<rparr> \<and> rp_wf buf' \<and> m_size buf' = m_size buf"
proof -
  obtain q where q: "rp_wf q" "m_size q = m_size buf"
    "write_exact fd h buf (header_size h + length body) w
      = (case write_loop cloudi_errno_write cloudi_error_write_null cloudi_error_write_overflow
                cloudi_success fd (wire h body) 0 w of
           (Ok status, w') \<Rightarrow> (Ok (status, q), w') | (_, w') \<Rightarrow> (Blocked, w'))"
    using write_exact_message [OF assms(1-3)] by blast
  with assms(4) have l: "write_loop cloudi_errno_write cloudi_error_write_null
      cloudi_error_write_overflow cloudi_success fd (wire h body) 0 w = (Ok status, w')" "buf' = q"
    by (auto split: prod.splits outcome.splits)
  obtain k as ws where k: "k \<le> length (wire h body)" "w' = w\<lparr>wr := as, written := ws\<rparr>"
      "sent w' fd = sent w fd @ take k (wire h body)"
      "\<forall>fd'. fd' \<noteq> fd \<longrightarrow> sent w' fd' = sent w fd'"
      "if k = length (wire h body) then status = cloudi_success
       else status = cloudi_error_write_null \<or> (\<exists>e. status = cloudi_errno_write e)"
    using write_loop_sent [OF l(1)] by auto
  have "status = cloudi_success \<longleftrightarrow> k = length (wire h body)"
    using k(5) by (auto split: if_splits)
  with k(1-4) q(1,2) l(2) show ?thesis by blast
qed

lemma write_exact_outcomes:
  assumes "rp_wf buf" and "header_size h + length body \<le> m_size buf"
    and "mem_read (header_size h) (length body) (m_p buf) = Some body"
  shows "(\<exists>status buf' w'. write_exact fd h buf (header_size h + length body) w = (Ok (status, buf'), w'))
    \<or> (\<exists>w'. write_exact fd h buf (header_size h + length body) w = (Blocked, w'))"
proof -
  obtain q where q: "write_exact fd h buf (header_size h + length body) w
      = (case write_loop cloudi_errno_write cloudi_error_write_null cloudi_error_write_overflow
                cloudi_success fd (wire h body) 0 w of
           (Ok status, w') \<Rightarrow> (Ok (status, q), w') | (_, w') \<Rightarrow> (Blocked, w'))"
    using write_exact_message [OF assms, of fd w] by blast
  show ?thesis unfolding q by (simp split: prod.splits outcome.splits)
qed

lemma write_exact_accepts:
  assumes "rp_wf buf" and "header_size h + length body \<le> m_size buf"
    and "mem_read (header_size h) (length body) (m_p buf) = Some body"
    and "accepts (wr w) (header_size h + length body)"
  shows "\<exists>buf' w'. write_exact fd h buf (header_size h + length body) w
      = (Ok (cloudi_success, buf'), w') \<and> rp_wf buf'"
  using write_exact_message [OF assms(1-3), of fd w]
    write_loop_accepts [of w "wire h body" 0 cloudi_errno_write cloudi_error_write_null
      cloudi_error_write_overflow cloudi_success fd] assms(4)
  by (auto simp: length_wire)

section \<open>Properties\<close>

text \<open>
  C1: Framing is a round trip: whatever body an API instance sends with a header, in however
  many partial writes, an instance that reads those bytes from a stream, in however many chunks
  and with anything after them, ends with exactly that body in its receive buffer and its length
  as the total (provided its allocator delivers), and leaves the stream at the next frame.
\<close>

theorem frame_round_trip:
  assumes "rp_wf sbuf" and "4 + length body \<le> m_size sbuf" and "length body < 2 ^ 32"
    and "mem_read 4 (length body) (m_p sbuf) = Some body"
    and "write_exact fd True sbuf (4 + length body) w = (Ok (cloudi_success, sbuf'), w')"
    and "sent w fd = []"
    and "rp_wf rbuf" and "\<not> dgram v fd'" and "stream (rd v fd') = sent w' fd @ rest"
    and "can_reserve (length body) rbuf v"
  shows "\<exists>rbuf' v'. read_all fd' True rbuf bsize v = (Ok (cloudi_success, rbuf', length body), v')
    \<and> mem_read 0 (length body) (m_p rbuf') = Some body \<and> stream (rd v' fd') = rest"
proof -
  have "sent w' fd = wire True body"
    using write_exact_sent [of sbuf True body fd w cloudi_success sbuf' w'] assms(1-6)
    by (auto simp: header_size_def)
  with assms(9) have "stream (rd v fd') = be32_bytes (word_of_nat (length body)) @ body @ rest"
    by (simp add: wire_def)
  moreover have l: "length body = unat (word_of_nat (length body) :: u32)"
    using assms(3) by (simp add: unat_of_nat take_bit_eq_mod)
  ultimately show ?thesis
    using read_all_header_frame [OF assms(7,8), of "word_of_nat (length body)" body rest] assms(10)
    by (auto simp: read_all_def simp flip: l)
qed

definition io_idle :: os where
  "io_idle = \<lparr>rd = (\<lambda>_. []), dgram = (\<lambda>_. False), wr = [], polls = [], clock = [], allocs = [],
     written = [], py = no_interpreter\<rparr>"

definition io_send_buf :: "byte realloc_ptr" where
  "io_send_buf = \<lparr>m_initialSize = 8, m_size = 8, m_maxSize = 64,
     m_p = mem_write 4 [72, 105] (\<lambda>_. None), m_alloc = 8\<rparr>"

lemma io_send_buf_wf: "rp_wf io_send_buf"
proof -
  have "is_pow2 8" unfolding is_pow2_def by (rule exI [of _ 3]) simp
  then show ?thesis by (simp add: rp_wf_def io_send_buf_def mem_write_def)
qed

theorem frame_round_trip_witness:
  "\<exists>rbuf' v'. read_all 3 True io_send_buf 0
       (io_idle\<lparr>rd := (\<lambda>_. [Rd_data [0], Rd_data [0, 0, 2, 72], Rd_data [105, 9]])\<rparr>)
     = (Ok (cloudi_success, rbuf', 2), v')
   \<and> mem_read 0 2 (m_p rbuf') = Some [72, 105] \<and> stream (rd v' 3) = [9]"
proof -
  let ?w = "io_idle\<lparr>wr := [Wr_count 1, Wr_count 9]\<rparr>"
  obtain b w' where e: "write_exact 3 True io_send_buf 6 ?w = (Ok (cloudi_success, b), w')"
    using write_exact_accepts [OF io_send_buf_wf, of True "[72, 105]" ?w 3]
    by (auto simp: header_size_def io_send_buf_def numeral_eq_Suc)
  then have "sent w' 3 = [0, 0, 0, 2, 72, 105]"
    using write_exact_sent [OF io_send_buf_wf, of True "[72, 105]" 3 ?w cloudi_success b w']
    by (auto simp: header_size_def io_send_buf_def wire_def be32_bytes_def sent_def io_idle_def)
  with e show ?thesis
    using frame_round_trip [OF io_send_buf_wf, of "[72, 105]" 3 ?w b w' io_send_buf
        "io_idle\<lparr>rd := (\<lambda>_. [Rd_data [0], Rd_data [0, 0, 2, 72], Rd_data [105, 9]])\<rparr>" 3 "[9]" 0]
    by (simp add: io_send_buf_wf [unfolded io_send_buf_def] can_reserve_def io_send_buf_def sent_def
      io_idle_def flip: numeral_2_eq_2)
qed

text \<open>
  Writing is all or nothing only on success: a \<open>write_exact\<close> of a message in a well-formed
  buffer that returns has sent a prefix of the framed message on its descriptor and nothing on any
  other, and the status is \<open>cloudi_success\<close> exactly if the prefix is the whole message.
\<close>

theorem write_exact_prefix:
  assumes "rp_wf buf" and "header_size h + length body \<le> m_size buf"
    and "mem_read (header_size h) (length body) (m_p buf) = Some body"
    and "write_exact fd h buf (header_size h + length body) w = (Ok (status, buf'), w')"
  shows "\<exists>k \<le> length (wire h body). sent w' fd = sent w fd @ take k (wire h body)
    \<and> (\<forall>fd'. fd' \<noteq> fd \<longrightarrow> sent w' fd' = sent w fd')
    \<and> (status = cloudi_success \<longleftrightarrow> k = length (wire h body))"
  using write_exact_sent [OF assms] by blast

theorem write_exact_prefix_witness:
  "\<exists>k \<le> 6. sent (snd (write_exact 3 True io_send_buf 6 (io_idle\<lparr>wr := [Wr_count 5, Wr_error EPIPE]\<rparr>))) 3
     = take k [0, 0, 0, 2, 72, 105] \<and> k \<noteq> 6"
proof -
  let ?w = "io_idle\<lparr>wr := [Wr_count 5, Wr_error EPIPE]\<rparr>"
  have "\<exists>b w'. write_exact 3 True io_send_buf 6 ?w = (Ok (cloudi_error_write_EPIPE, b), w')"
    by (simp add: write_exact_def io_send_buf_def io_idle_def rp_put_def rp_get_def be32_bytes_def
      mem_read_def mem_write_def upt_rec write_loop.simps c_write_def cloudi_errno_write_def)
  then obtain b w' where e: "write_exact 3 True io_send_buf 6 ?w = (Ok (cloudi_error_write_EPIPE, b), w')"
    by blast
  have pre: "header_size True + length [72 :: byte, 105] \<le> m_size io_send_buf"
    "mem_read (header_size True) (length [72 :: byte, 105]) (m_p io_send_buf) = Some [72, 105]"
    by (simp_all add: header_size_def io_send_buf_def)
  have e': "write_exact 3 True io_send_buf (header_size True + length [72 :: byte, 105]) ?w
      = (Ok (cloudi_error_write_EPIPE, b), w')"
    using e by (simp add: header_size_def)
  have wire: "wire True [72, 105] = [0, 0, 0, 2, 72, 105]" by (simp add: wire_def be32_bytes_def)
  have len: "length [0 :: byte, 0, 0, 2, 72, 105] = 6" by simp
  obtain k where "k \<le> 6" "sent w' 3 = sent ?w 3 @ take k [0, 0, 0, 2, 72, 105]" "k \<noteq> 6"
    using write_exact_prefix [OF io_send_buf_wf pre e'] unfolding wire len by blast
  with e show ?thesis by (auto simp: sent_def io_idle_def)
qed

end
