(* ===== verification/Lookup.thy ===== *)
theory Lookup
  imports Prelude
begin

text \<open>
  The callback table of an API instance (\<open>callback_function\<close> and \<open>callback_function_lookup\<close> of
  \<^verbatim>\<open>api/c/cloudi.cpp\<close>): a hash table from patterns to queues of callbacks. A pattern
  subscribed several times has its callbacks called in turn. The interface, stated as the locale
  \<open>callback_table\<close>, describes a table by the list of callbacks that each pattern still has to
  call.
\<close>

section \<open>Model\<close>

text \<open>
  A callback is a C function, identified by its address, a C++ function object
  (\<open>callback_function_generic\<close>), or the object \<open>callback_null_response\<close>, which does nothing.
\<close>

datatype callback_function =
    callback_function_c nat
  | callback_function_object nat
  | callback_null_response

text \<open>\<open>m_size\<close> of the queue is kept by the class beside the list; it is a \<open>size_t\<close>.\<close>

record callback_function_queue =
  m_queue :: "callback_function list"
  q_size :: nat

definition queue_new :: "callback_function \<Rightarrow> callback_function_queue" where
  "queue_new f = \<lparr>m_queue = [f], q_size = 1\<rparr>"

definition queue_push_back :: "callback_function \<Rightarrow> callback_function_queue \<Rightarrow> callback_function_queue" where
  "queue_push_back f q = \<lparr>m_queue = m_queue q @ [f], q_size = (q_size q + 1) mod 2 ^ 64\<rparr>"

text \<open>\<open>pop_front\<close> and \<open>front\<close> of an empty \<open>std::list\<close> are undefined.\<close>

definition queue_pop_front :: "callback_function_queue \<Rightarrow> callback_function_queue outcome" where
  "queue_pop_front q =
     (case m_queue q of
        [] \<Rightarrow> Undefined
      | _ # fs \<Rightarrow>
          if q_size q > 0 then Ok \<lparr>m_queue = fs, q_size = q_size q - 1\<rparr>
          else Raise assert_exception)"

definition queue_empty :: "callback_function_queue \<Rightarrow> bool" where
  "queue_empty q \<longleftrightarrow> q_size q = 0"

definition queue_cycle :: "callback_function_queue
    \<Rightarrow> (callback_function \<times> callback_function_queue) outcome" where
  "queue_cycle q =
     (case m_queue q of
        [] \<Rightarrow> Undefined
      | f # fs \<Rightarrow>
          if q_size q = 1 then Ok (f, q)
          else Ok (last (fs @ [f]), q\<lparr>m_queue := fs @ [f]\<rparr>))"

type_synonym lookup_t = "bytes \<rightharpoonup> callback_function_queue"

definition lookup_insert :: "bytes \<Rightarrow> callback_function \<Rightarrow> lookup_t \<Rightarrow> lookup_t" where
  "lookup_insert pattern f m_lookup =
     (case m_lookup pattern of
        None \<Rightarrow> m_lookup(pattern \<mapsto> queue_new f)
      | Some q \<Rightarrow> m_lookup(pattern \<mapsto> queue_push_back f q))"

definition lookup_remove :: "bytes \<Rightarrow> lookup_t \<Rightarrow> (bool \<times> lookup_t) outcome" where
  "lookup_remove pattern m_lookup =
     (case m_lookup pattern of
        None \<Rightarrow> Ok (False, m_lookup)
      | Some q \<Rightarrow>
          bind_outcome (queue_pop_front q) (\<lambda>q'.
            Ok (True, if queue_empty q' then m_lookup(pattern := None)
                      else m_lookup(pattern \<mapsto> q'))))"

definition lookup_find :: "bytes \<Rightarrow> lookup_t \<Rightarrow> (callback_function \<times> lookup_t) outcome" where
  "lookup_find pattern m_lookup =
     (case m_lookup pattern of
        None \<Rightarrow> Ok (callback_null_response, m_lookup)
      | Some q \<Rightarrow>
          bind_outcome (queue_cycle q) (\<lambda>(f, q'). Ok (f, m_lookup(pattern \<mapsto> q'))))"

section \<open>Well-formed tables\<close>

text \<open>
  The counter of every queue is the length of its list and no queue is empty. The bound on the
  number of subscriptions keeps the counter from wrapping.
\<close>

definition queue_wf :: "callback_function_queue \<Rightarrow> bool" where
  "queue_wf q \<longleftrightarrow> m_queue q \<noteq> [] \<and> q_size q = length (m_queue q)"

definition lookup_wf :: "lookup_t \<Rightarrow> bool" where
  "lookup_wf t \<longleftrightarrow> (\<forall>p q. t p = Some q \<longrightarrow> queue_wf q)"

definition subscribed :: "lookup_t \<Rightarrow> bytes \<Rightarrow> callback_function list" where
  "subscribed t p = (case t p of None \<Rightarrow> [] | Some q \<Rightarrow> m_queue q)"

lemma lookup_wf_empty [simp]: "lookup_wf (\<lambda>_. None)"
  by (simp add: lookup_wf_def)

lemma lookup_wf_at: "lookup_wf t \<Longrightarrow> t p = Some q \<Longrightarrow> m_queue q \<noteq> [] \<and> q_size q = length (m_queue q)"
  by (auto simp: lookup_wf_def queue_wf_def)

lemma lookup_wf_upd: "lookup_wf t \<Longrightarrow> queue_wf q \<Longrightarrow> lookup_wf (t(p \<mapsto> q))"
  by (simp add: lookup_wf_def)

lemma lookup_insert_wf:
  assumes "lookup_wf t" and "length (subscribed t p) < 2 ^ 64 - 1"
  shows "lookup_wf (lookup_insert p f t)"
proof (cases "t p")
  case None
  then show ?thesis
    using assms by (auto simp: lookup_insert_def queue_new_def queue_wf_def intro!: lookup_wf_upd)
next
  case (Some q)
  with assms lookup_wf_at [OF assms(1) Some] have "queue_wf (queue_push_back f q)"
    by (simp add: queue_push_back_def queue_wf_def subscribed_def)
  with Some assms show ?thesis by (auto simp: lookup_insert_def intro!: lookup_wf_upd)
qed

lemma lookup_insert_subscribed:
  "subscribed (lookup_insert p f t) = (subscribed t)(p := subscribed t p @ [f])"
  by (auto simp: lookup_insert_def subscribed_def queue_new_def queue_push_back_def
    split: option.splits)

lemma lookup_remove_cases:
  assumes "lookup_wf t"
  shows "\<exists>t'. lookup_remove p t = Ok (subscribed t p \<noteq> [], t') \<and> lookup_wf t'
    \<and> subscribed t' = (subscribed t)(p := tl (subscribed t p))"
proof (cases "t p")
  case None
  with assms show ?thesis by (auto simp: lookup_remove_def subscribed_def)
next
  case (Some q)
  then obtain f fs where q: "m_queue q = f # fs" "q_size q = Suc (length fs)"
    using lookup_wf_at [OF assms] by (cases "m_queue q") fastforce+
  show ?thesis
  proof (cases fs)
    case Nil
    with Some q assms show ?thesis
      by (auto simp: lookup_remove_def queue_pop_front_def queue_empty_def subscribed_def lookup_wf_def)
  next
    case (Cons g gs)
    with Some q assms show ?thesis
      by (auto simp: lookup_remove_def queue_pop_front_def queue_empty_def subscribed_def
        queue_wf_def intro!: lookup_wf_upd)
  qed
qed

lemma lookup_find_cases:
  assumes "lookup_wf t"
  shows "\<exists>t'. lookup_find p t
      = Ok (if subscribed t p = [] then callback_null_response else hd (subscribed t p), t') \<and> lookup_wf t'
    \<and> subscribed t' = (subscribed t)(p := rotate1 (subscribed t p))"
proof (cases "t p")
  case None
  with assms show ?thesis by (auto simp: lookup_find_def subscribed_def)
next
  case (Some q)
  then obtain f fs where q: "m_queue q = f # fs" "q_size q = Suc (length fs)"
    using lookup_wf_at [OF assms] by (cases "m_queue q") fastforce+
  show ?thesis
  proof (cases "fs = []")
    case True
    then have "lookup_find p t = Ok (f, t(p \<mapsto> q))"
      using Some q by (simp add: lookup_find_def queue_cycle_def)
    moreover have "t(p \<mapsto> q) = t" using Some by auto
    ultimately show ?thesis using Some q True assms by (auto simp: subscribed_def)
  next
    case False
    with Some q assms show ?thesis
      by (auto simp: lookup_find_def queue_cycle_def subscribed_def queue_wf_def intro!: lookup_wf_upd)
  qed
qed

section \<open>Interface\<close>

text \<open>
  What the API relies on when it subscribes, counts, removes and dispatches: the table behaves
  like a list of callbacks for each pattern. The client's lemma: as many dispatches as there are
  subscriptions call every callback once, in order of subscription, and leave the table as it was.
\<close>

locale callback_table =
  fixes wf :: "'t \<Rightarrow> bool"
    and callbacks :: "'t \<Rightarrow> bytes \<Rightarrow> 'f list"
    and ins :: "bytes \<Rightarrow> 'f \<Rightarrow> 't \<Rightarrow> 't"
    and rem :: "bytes \<Rightarrow> 't \<Rightarrow> (bool \<times> 't) outcome"
    and fnd :: "bytes \<Rightarrow> 't \<Rightarrow> ('f \<times> 't) outcome"
    and none :: 'f
  assumes ins_wf: "wf t \<Longrightarrow> length (callbacks t p) < 2 ^ 64 - 1 \<Longrightarrow> wf (ins p f t)"
    and ins_callbacks: "callbacks (ins p f t) = (callbacks t)(p := callbacks t p @ [f])"
    and rem_ok: "wf t \<Longrightarrow> \<exists>t'. rem p t = Ok (callbacks t p \<noteq> [], t') \<and> wf t'
        \<and> callbacks t' = (callbacks t)(p := tl (callbacks t p))"
    and fnd_ok: "wf t \<Longrightarrow> \<exists>t'. fnd p t = Ok (if callbacks t p = [] then none else hd (callbacks t p), t')
        \<and> wf t' \<and> callbacks t' = (callbacks t)(p := rotate1 (callbacks t p))"
begin

fun dispatch :: "nat \<Rightarrow> bytes \<Rightarrow> 't \<Rightarrow> ('f list \<times> 't) outcome" where
  "dispatch 0 p t = Ok ([], t)"
| "dispatch (Suc k) p t =
     bind_outcome (fnd p t) (\<lambda>(f, t'). bind_outcome (dispatch k p t') (\<lambda>(fs, t''). Ok (f # fs, t'')))"

lemma dispatch_rotates:
  assumes "wf t" and "callbacks t p = xs @ ys"
  shows "\<exists>t'. dispatch (length xs) p t = Ok (xs, t') \<and> wf t'
    \<and> callbacks t' = (callbacks t)(p := ys @ xs)"
  using assms
proof (induction xs arbitrary: t ys)
  case Nil
  then show ?case by (auto simp: fun_upd_idem)
next
  case (Cons x xs)
  obtain t1 where t1: "fnd p t = Ok (x, t1)" "wf t1" "callbacks t1 = (callbacks t)(p := xs @ ys @ [x])"
    using fnd_ok [OF Cons.prems(1), of p] Cons.prems(2) by auto
  with Cons.IH [of t1 "ys @ [x]"] obtain t2 where "dispatch (length xs) p t1 = Ok (xs, t2)" "wf t2"
      "callbacks t2 = (callbacks t1)(p := (ys @ [x]) @ xs)"
    by (metis append_assoc fun_upd_same)
  with t1 show ?case by (simp del: fun_upd_apply)
qed

lemma dispatch_round:
  assumes "wf t"
  shows "\<exists>t'. dispatch (length (callbacks t p)) p t = Ok (callbacks t p, t') \<and> wf t'
    \<and> callbacks t' = callbacks t"
  using dispatch_rotates [OF assms, of p "callbacks t p" "[]"] by (auto simp: fun_upd_idem)

lemma insert_then_remove_other:
  assumes "wf t" and "length (callbacks t p) < 2 ^ 64 - 1" and "q \<noteq> p"
  shows "\<exists>t'. rem q (ins p f t) = Ok (callbacks t q \<noteq> [], t') \<and> callbacks t' p = callbacks t p @ [f]"
  using rem_ok [OF ins_wf [OF assms(1,2)], of q f] assms(3) by (auto simp: ins_callbacks)

end

interpretation tbl: callback_table lookup_wf subscribed lookup_insert lookup_remove lookup_find
    callback_null_response
  by unfold_locales
    (use lookup_insert_wf lookup_insert_subscribed lookup_remove_cases lookup_find_cases in blast)+

section \<open>Properties\<close>

text \<open>The callbacks that \<open>k\<close> successive dispatches of a pattern find.\<close>

fun find_many :: "nat \<Rightarrow> bytes \<Rightarrow> lookup_t \<Rightarrow> (callback_function list \<times> lookup_t) outcome" where
  "find_many 0 p t = Ok ([], t)"
| "find_many (Suc k) p t =
     bind_outcome (lookup_find p t) (\<lambda>(f, t').
       bind_outcome (find_many k p t') (\<lambda>(fs, t''). Ok (f # fs, t'')))"

lemma find_many_dispatch: "find_many k p t = tbl.dispatch k p t"
  by (induction k arbitrary: t) (auto simp: fun_eq_iff intro!: arg_cong2 [where f = bind_outcome])

fun insert_all :: "bytes \<Rightarrow> callback_function list \<Rightarrow> lookup_t \<Rightarrow> lookup_t" where
  "insert_all p [] t = t"
| "insert_all p (f # fs) t = insert_all p fs (lookup_insert p f t)"

lemma insert_all_spec:
  assumes "lookup_wf t" and "length (subscribed t p) + length fs < 2 ^ 64"
  shows "lookup_wf (insert_all p fs t) \<and> subscribed (insert_all p fs t) = (subscribed t)(p := subscribed t p @ fs)"
  using assms
proof (induction fs arbitrary: t)
  case Nil
  then show ?case by (simp add: fun_upd_idem)
next
  case (Cons f fs)
  from Cons.prems have "lookup_wf (lookup_insert p f t)" by (intro tbl.ins_wf) auto
  with Cons.IH [of "lookup_insert p f t"] Cons.prems show ?case
    by (simp add: tbl.ins_callbacks fun_eq_iff)
qed

text \<open>
  C9: Requests for a pattern subscribed with several callbacks go round robin: after subscribing
  \<open>fs\<close> (fewer than \<open>2 ^ 64\<close>) on a pattern that had none, \<open>length fs + k\<close> dispatches call
  the callbacks in order of subscription and start over (for \<open>k\<close> up to a second full round), and no
  other pattern's callbacks change.
\<close>

theorem callbacks_round_robin:
  assumes "lookup_wf t" and "subscribed t p = []" and "length fs < 2 ^ 64"
  shows "\<exists>t'. find_many (length fs) p (insert_all p fs t) = Ok (fs, t')
    \<and> (\<forall>k \<le> length fs. \<exists>t''. find_many k p t' = Ok (take k fs, t'')
        \<and> subscribed t'' = (subscribed t)(p := drop k fs @ take k fs))"
proof -
  let ?t = "insert_all p fs t"
  have t: "lookup_wf ?t" "subscribed ?t = (subscribed t)(p := fs)"
    using insert_all_spec [OF assms(1), of p fs] assms(2,3) by auto
  then obtain t' where t': "find_many (length fs) p ?t = Ok (fs, t')" "lookup_wf t'"
      "subscribed t' = subscribed ?t"
    using tbl.dispatch_round [of ?t p] by (auto simp: find_many_dispatch)
  have "\<exists>t''. find_many k p t' = Ok (take k fs, t'')
      \<and> subscribed t'' = (subscribed t)(p := drop k fs @ take k fs)" if "k \<le> length fs" for k
    using tbl.dispatch_rotates [OF t'(2), of p "take k fs" "drop k fs"] t t'(3) that
    by (auto simp: find_many_dispatch min_absorb2)
  with t'(1) show ?thesis by blast
qed

definition sample_callbacks :: "callback_function list" where
  "sample_callbacks = [callback_function_c 7, callback_function_c 8]"

theorem callbacks_round_robin_witness:
  "\<exists>t'. find_many 2 [47] (insert_all [47] sample_callbacks (\<lambda>_. None)) = Ok (sample_callbacks, t')
    \<and> (\<exists>t''. find_many 1 [47] t' = Ok ([callback_function_c 7], t''))"
proof -
  have len: "length sample_callbacks = 2" and one: "take 1 sample_callbacks = [callback_function_c 7]"
    by (simp_all add: sample_callbacks_def)
  obtain t' where t': "find_many 2 [47] (insert_all [47] sample_callbacks (\<lambda>_. None)) = Ok (sample_callbacks, t')"
      "\<forall>k \<le> 2. \<exists>t''. find_many k [47] t' = Ok (take k sample_callbacks, t'')
        \<and> subscribed t'' = (subscribed (\<lambda>_. None))([47] := drop k sample_callbacks @ take k sample_callbacks)"
    using callbacks_round_robin [of "\<lambda>_. None" "[47]" sample_callbacks]
    unfolding len by (auto simp: subscribed_def simp del: find_many.simps)
  from t'(2) one have "\<exists>t''. find_many 1 [47] t' = Ok ([callback_function_c 7], t'')"
    by (metis one_le_numeral)
  with t'(1) show ?thesis by blast
qed

text \<open>
  The table never reaches an undefined operation: from a well-formed table removing and
  finding any pattern return, keep the table well-formed and touch only that pattern. A removal
  reports whether the pattern was subscribed and drops the callback whose turn is next; a pattern
  with no subscription is dispatched to the null response.
\<close>

theorem lookup_total:
  assumes "lookup_wf t"
  shows "(\<exists>t'. lookup_remove p t = Ok (subscribed t p \<noteq> [], t') \<and> lookup_wf t'
      \<and> subscribed t' = (subscribed t)(p := tl (subscribed t p)))
    \<and> (\<exists>t'. lookup_find p t = Ok (hd (subscribed t p @ [callback_null_response]), t') \<and> lookup_wf t'
      \<and> subscribed t' = (subscribed t)(p := rotate1 (subscribed t p)))"
  using tbl.rem_ok [OF assms, of p] tbl.fnd_ok [OF assms, of p] by (auto simp: hd_append)

theorem lookup_total_witness:
  "(\<exists>t'. lookup_remove [47] (lookup_insert [47] (callback_function_c 7) (\<lambda>_. None)) = Ok (True, t')
      \<and> subscribed t' = (\<lambda>_. []))
   \<and> lookup_wf (lookup_insert [47] (callback_function_c 7) (\<lambda>_. None))"
proof -
  let ?t = "lookup_insert [47] (callback_function_c 7) (\<lambda>_. None)"
  have wf: "lookup_wf ?t" by (rule tbl.ins_wf) (simp_all add: subscribed_def)
  have s: "subscribed ?t = (\<lambda>_. [])([47] := [callback_function_c 7])"
    by (auto simp: tbl.ins_callbacks subscribed_def fun_eq_iff)
  show ?thesis using lookup_total [OF wf, of "[47]"] wf unfolding s by auto
qed

end
