(* ===== verification/Ei.thy ===== *)
theory Ei
  imports Api_Io
begin

text \<open>
  The Erlang interface library \<open>ei\<close>, which is not part of the repository, as the sources use it:
  the function \<open>ei :: ei_term \<Rightarrow> bytes option\<close> is a parameter of every definition that encodes
  (\<open>None\<close> is a nonzero result of \<open>ei_encode_...\<close>), and \<open>ei_bounded\<close> states the sizes that the
  documentation of the external term format gives. The encoder \<open>ei_format\<close> follows that
  documentation and shows that the hypothesis can hold.

  \<open>emit\<close> is the sequence of \<open>ei_encode_...\<close> and \<open>reserve\<close> calls that every outgoing message of the
  API is: the encoders write through the pointer of the send buffer at \<open>index\<close>, an \<open>int\<close>.
\<close>

section \<open>Model\<close>

datatype ei_term =
    ei_version
  | ei_tuple_header nat
  | ei_atom bytes
  | ei_string bytes
  | ei_binary bytes
  | ei_ulong nat
  | ei_long int
  | ei_char byte
  | ei_boolean bool
  | ei_ulonglong nat
  | ei_longlong int
  | ei_double bytes

type_synonym ei_encoder = "ei_term \<Rightarrow> bytes option"

text \<open>
  \<open>Copy_pid r pid\<close> is the tail of a returned or forwarded message: the process identifier without
  its version, copied through \<open>&(buffer[index])\<close>. \<open>r\<close> is what \<open>ei_decode_version\<close> answers for
  \<open>pid\<close>: the index after the version, or \<open>None\<close> for an error. An empty \<open>pid\<close> is read out of
  bounds, and \<open>pid_size - pid_index\<close> is a signed number, negative when the version is longer than
  the identifier.
\<close>

datatype emit_step = Encode ei_term | Reserve nat | Copy_pid "nat option" bytes

fun emit :: "ei_encoder \<Rightarrow> emit_step list \<Rightarrow> nat \<Rightarrow> byte realloc_ptr \<Rightarrow> os
    \<Rightarrow> (cloudi_status \<times> nat \<times> byte realloc_ptr) outcome \<times> os" where
  "emit ei [] index buf w = (Ok (cloudi_success, index, buf), w)"
| "emit ei (Encode t # ss) index buf w =
     (case ei t of
        None \<Rightarrow> (Ok (cloudi_error_ei_encode, index, buf), w)
      | Some bs \<Rightarrow>
          if 2 ^ 31 \<le> index + length bs then (Undefined, w)
          else
            (case rp_put index bs buf of
               Ok buf' \<Rightarrow> emit ei ss (index + length bs) buf' w
             | _ \<Rightarrow> (Undefined, w)))"
| "emit ei (Reserve extra # ss) index buf w =
     (case c_reserve ((index + extra) mod 2 ^ 64) buf w of
        (Ok (True, buf'), w') \<Rightarrow> emit ei ss index buf' w'
      | (Ok (False, buf'), w') \<Rightarrow> (Ok (cloudi_error_write_overflow, index, buf'), w')
      | (_, w') \<Rightarrow> (Blocked, w'))"
| "emit ei (Copy_pid r pid # ss) index buf w =
     (if pid = [] then (Undefined, w)
      else
        (case r of
           None \<Rightarrow> (Ok (cloudi_error_ei_decode, index, buf), w)
         | Some pid_index \<Rightarrow>
             if length pid < pid_index \<or> 2 ^ 31 \<le> index + (length pid - pid_index) then (Undefined, w)
             else if \<not> index < m_size buf then (Raise assert_exception, w)
             else
               (case rp_put index (drop pid_index pid) buf of
                  Ok buf' \<Rightarrow> emit ei ss (index + (length pid - pid_index)) buf' w
                | _ \<Rightarrow> (Undefined, w))))"

section \<open>What a sequence of steps writes\<close>

fun encode :: "ei_encoder \<Rightarrow> emit_step list \<Rightarrow> bytes option" where
  "encode ei [] = Some []"
| "encode ei (Encode t # ss) =
     (case ei t of
        None \<Rightarrow> None
      | Some bs \<Rightarrow> (case encode ei ss of None \<Rightarrow> None | Some cs \<Rightarrow> Some (bs @ cs)))"
| "encode ei (Reserve n # ss) = encode ei ss"
| "encode ei (Copy_pid r pid # ss) =
     (case r of
        None \<Rightarrow> None
      | Some k \<Rightarrow> (case encode ei ss of None \<Rightarrow> None | Some cs \<Rightarrow> Some (drop k pid @ cs)))"

text \<open>
  The steps stay inside a block of \<open>cap\<close> bytes that grows at every successful reservation, and
  \<open>index\<close> stays an \<open>int\<close>.
\<close>

fun fits :: "ei_encoder \<Rightarrow> emit_step list \<Rightarrow> nat \<Rightarrow> nat \<Rightarrow> bool" where
  "fits ei [] index cap = True"
| "fits ei (Encode t # ss) index cap =
     (case ei t of
        None \<Rightarrow> True
      | Some bs \<Rightarrow>
          index + length bs \<le> cap \<and> index + length bs < 2 ^ 31 \<and> fits ei ss (index + length bs) cap)"
| "fits ei (Reserve n # ss) index cap =
     (index + n < 2 ^ 63 \<and> fits ei ss index (max cap (Suc (index + n))))"
| "fits ei (Copy_pid r pid # ss) index cap =
     (pid \<noteq> [] \<and>
      (case r of
         None \<Rightarrow> True
       | Some k \<Rightarrow>
           k \<le> length pid \<and> index < cap \<and> index + (length pid - k) \<le> cap
           \<and> index + (length pid - k) < 2 ^ 31 \<and> fits ei ss (index + (length pid - k)) cap))"

lemma fits_mono: "fits ei ss index cap \<Longrightarrow> cap \<le> cap' \<Longrightarrow> fits ei ss index cap'"
proof (induction ei ss index cap arbitrary: cap' rule: fits.induct)
  case (3 ei n ss index cap)
  then show ?case by (metis fits.simps(3) max.mono order_refl)
qed (auto split: option.splits)

definition emit_status :: "cloudi_status \<Rightarrow> bool" where
  "emit_status st \<longleftrightarrow>
     st \<in> {cloudi_success, cloudi_error_ei_encode, cloudi_error_write_overflow, cloudi_error_ei_decode}"

text \<open>
  What a sequence of steps leaves: the system as it was but for the allocator, a well-formed buffer
  that has not shrunk, everything before \<open>index\<close> unchanged and, on success, the encoding \<open>enc\<close> from
  \<open>index\<close> on.
\<close>

definition emit_result :: "bytes option \<Rightarrow> nat \<Rightarrow> byte realloc_ptr \<Rightarrow> os
    \<Rightarrow> (cloudi_status \<times> nat \<times> byte realloc_ptr) outcome \<times> os \<Rightarrow> bool" where
  "emit_result enc index buf w r \<longleftrightarrow>
     (\<exists>st index' buf' as. r = (Ok (st, index', buf'), w\<lparr>allocs := as\<rparr>)
       \<and> rp_wf buf' \<and> m_size buf \<le> m_size buf' \<and> m_maxSize buf' = m_maxSize buf \<and> emit_status st
       \<and> (\<forall>j < index. m_p buf' j = m_p buf j)
       \<and> (st = cloudi_success \<longrightarrow>
            (\<exists>body. enc = Some body \<and> index' = index + length body
               \<and> index' \<le> m_size buf' \<and> mem_read index (length body) (m_p buf') = Some body)))"

lemma emit_result_stop:
  "rp_wf buf \<Longrightarrow> emit_status st \<Longrightarrow> st \<noteq> cloudi_success \<Longrightarrow> emit_result enc index buf w (Ok (st, index', buf), w\<lparr>allocs := as\<rparr>)"
  by (auto simp: emit_result_def)

lemma emit_result_put:
  assumes "rp_wf buf" and "index + length bs \<le> m_size buf"
    and IH: "\<And>q. rp_put index bs buf = Ok q \<Longrightarrow> rp_wf q \<Longrightarrow> m_size q = m_size buf \<Longrightarrow>
      emit_result enc (index + length bs) q w (r q)"
  shows "\<exists>q. rp_put index bs buf = Ok q \<and> emit_result (map_option ((@) bs) enc) index buf w (r q)"
proof -
  obtain q where q: "rp_put index bs buf = Ok q" "rp_wf q" "m_size q = m_size buf"
      "m_p q = mem_write index bs (m_p buf)" "m_maxSize q = m_maxSize buf"
    using rp_put_ok [OF assms(1,2)] rp_wf_put [OF assms(1)] by simp
  obtain st index' buf' as where r: "r q = (Ok (st, index', buf'), w\<lparr>allocs := as\<rparr>)"
      "rp_wf buf'" "m_size q \<le> m_size buf'" "m_maxSize buf' = m_maxSize q" "emit_status st"
      "\<forall>j < index + length bs. m_p buf' j = m_p q j"
      "st = cloudi_success \<longrightarrow>
         (\<exists>body. enc = Some body \<and> index' = index + length bs + length body
            \<and> index' \<le> m_size buf' \<and> mem_read (index + length bs) (length body) (m_p buf') = Some body)"
    using IH [OF q(1-3)] unfolding emit_result_def by blast
  have "mem_read index (length bs) (m_p buf') = mem_read index (length bs) (m_p q)"
    using r(6) by (intro mem_read_cong) auto
  then have own: "mem_read index (length bs) (m_p buf') = Some bs" using q(4) by simp
  have "\<forall>j < index. m_p buf' j = m_p buf j"
    using r(6) q(4) by (auto simp: mem_write_def)
  moreover have "st = cloudi_success \<longrightarrow>
       (\<exists>body. map_option ((@) bs) enc = Some body \<and> index' = index + length body
          \<and> index' \<le> m_size buf' \<and> mem_read index (length body) (m_p buf') = Some body)"
    using r(7) mem_read_append [OF own] by auto
  ultimately have "emit_result (map_option ((@) bs) enc) index buf w (r q)"
    unfolding emit_result_def using r(1-5) q(3,5) by metis
  with q(1) show ?thesis by blast
qed

lemma emit_result_reserve:
  assumes "emit_result enc index q (w\<lparr>allocs := as\<rparr>) r" and "rp_extends buf q" and "index \<le> m_size buf"
  shows "emit_result enc index buf w r"
proof -
  have "m_size buf \<le> m_size q" "m_maxSize q = m_maxSize buf" "\<forall>j < index. m_p q j = m_p buf j"
    using assms(2,3) by (auto simp: rp_extends_def)
  with assms(1) show ?thesis
    unfolding emit_result_def by (smt (verit) dual_order.trans os.surjective os.update_convs(6))
qed

lemma encode_prepend:
  "encode ei (Encode t # ss) = (case ei t of None \<Rightarrow> None | Some bs \<Rightarrow> map_option ((@) bs) (encode ei ss))"
  "encode ei (Copy_pid r pid # ss)
     = (case r of None \<Rightarrow> None | Some k \<Rightarrow> map_option ((@) (drop k pid)) (encode ei ss))"
  by (auto split: option.splits)

lemma emit_fits:
  assumes "rp_wf buf" and "fits ei ss index (m_size buf)" and "index \<le> m_size buf"
  shows "emit_result (encode ei ss) index buf w (emit ei ss index buf w)"
  using assms
proof (induction ei ss index buf w rule: emit.induct)
  case (1 ei index buf w)
  show ?case
    unfolding emit_result_def
    by (intro exI [of _ cloudi_success] exI [of _ index] exI [of _ buf] exI [of _ "allocs w"])
      (use 1 in \<open>simp add: emit_status_def\<close>)
next
  case (2 ei t ss index buf w)
  show ?case
  proof (cases "ei t")
    case None
    with emit_result_stop [OF "2.prems"(1), of cloudi_error_ei_encode _ index w index "allocs w"] show ?thesis
      by (simp add: emit_status_def)
  next
    case (Some bs)
    with "2.prems" have f: "index + length bs \<le> m_size buf" "\<not> 2 ^ 31 \<le> index + length bs"
        "fits ei ss (index + length bs) (m_size buf)"
      by auto
    have "\<exists>q. rp_put index bs buf = Ok q \<and> emit_result (map_option ((@) bs) (encode ei ss)) index buf w
        (emit ei ss (index + length bs) q w)"
    proof (rule emit_result_put [OF "2.prems"(1) f(1)])
      fix q
      assume "rp_put index bs buf = Ok q" "rp_wf q" "m_size q = m_size buf"
      with "2.IH" [OF Some f(2), of q] f(1,3)
      show "emit_result (encode ei ss) (index + length bs) q w (emit ei ss (index + length bs) q w)"
        by simp
    qed
    then obtain q where "rp_put index bs buf = Ok q" "emit_result (map_option ((@) bs) (encode ei ss)) index buf w
        (emit ei ss (index + length bs) q w)"
      by blast
    with Some f(2) show ?thesis by (simp add: encode_prepend del: encode.simps)
  qed
next
  case (3 ei extra ss index buf w)
  then have n: "index + extra < 2 ^ 63" "(index + extra) mod 2 ^ 64 = index + extra" by auto
  obtain r q as where q: "c_reserve (index + extra) buf w = (Ok (r, q), w\<lparr>allocs := as\<rparr>)" "rp_wf q"
      "r \<longrightarrow> index + extra < m_size q" "\<not> r \<longrightarrow> q = buf" "rp_extends buf q"
    using c_reserve_cases [OF "3.prems"(1) n(1), of w] by blast
  show ?case
  proof (cases r)
    case False
    with q n emit_result_stop [OF "3.prems"(1), of cloudi_error_write_overflow _ index w index as] show ?thesis
      by (simp add: emit_status_def)
  next
    case True
    have le: "m_size buf \<le> m_size q" using q(5) by (simp add: rp_extends_def)
    have "fits ei ss index (max (m_size buf) (Suc (index + extra)))" using "3.prems"(2) by simp
    then have f: "fits ei ss index (m_size q)"
      by (rule fits_mono) (use q(3) True le in auto)
    have c: "c_reserve ((index + extra) mod 2 ^ 64) buf w = (Ok (True, q), w\<lparr>allocs := as\<rparr>)"
      using q(1) True n(2) by simp
    have i: "index \<le> m_size q" using le "3.prems"(3) by simp
    from emit_result_reserve [OF "3.IH" [OF c[symmetric] refl refl refl q(2) f i] q(5) "3.prems"(3)] c
    show ?thesis by simp
  qed
next
  case (4 ei r pid ss index buf w)
  show ?case
  proof (cases r)
    case None
    with emit_result_stop [OF "4.prems"(1), of cloudi_error_ei_decode _ index w index "allocs w"] "4.prems"(2)
    show ?thesis by (simp add: emit_status_def)
  next
    case (Some k)
    let ?bs = "drop k pid"
    have f: "pid \<noteq> []" "\<not> (length pid < k \<or> 2 ^ 31 \<le> index + (length pid - k))" "\<not> \<not> index < m_size buf"
        "index + length ?bs \<le> m_size buf" "fits ei ss (index + length ?bs) (m_size buf)"
      using "4.prems" Some by auto
    have "\<exists>q. rp_put index ?bs buf = Ok q \<and> emit_result (map_option ((@) ?bs) (encode ei ss)) index buf w
        (emit ei ss (index + length ?bs) q w)"
    proof (rule emit_result_put [OF "4.prems"(1) f(4)])
      fix q
      assume "rp_put index ?bs buf = Ok q" "rp_wf q" "m_size q = m_size buf"
      with "4.IH" [OF f(1) Some f(2,3), of q] f(4,5)
      show "emit_result (encode ei ss) (index + length ?bs) q w (emit ei ss (index + length ?bs) q w)"
        by simp
    qed
    then obtain q where "rp_put index ?bs buf = Ok q" "emit_result (map_option ((@) ?bs) (encode ei ss)) index buf w
        (emit ei ss (index + length ?bs) q w)"
      by blast
    moreover have "k \<le> length pid" "\<not> 2 ^ 31 \<le> index + length pid - k" using f(2) by auto
    ultimately show ?thesis using Some f(1,3) by (simp add: encode_prepend del: encode.simps)
  qed
qed

text \<open>All reservations are within the limit of the buffer.\<close>

fun reserves_ok :: "ei_encoder \<Rightarrow> emit_step list \<Rightarrow> nat \<Rightarrow> nat \<Rightarrow> bool" where
  "reserves_ok ei [] index mx = True"
| "reserves_ok ei (Encode t # ss) index mx =
     (case ei t of None \<Rightarrow> False | Some bs \<Rightarrow> reserves_ok ei ss (index + length bs) mx)"
| "reserves_ok ei (Reserve n # ss) index mx = (index + n \<le> mx \<and> reserves_ok ei ss index mx)"
| "reserves_ok ei (Copy_pid r pid # ss) index mx =
     (case r of None \<Rightarrow> False | Some k \<Rightarrow> reserves_ok ei ss (index + (length pid - k)) mx)"

lemma emit_success:
  assumes "rp_wf buf" and "fits ei ss index (m_size buf)" and "reserves_ok ei ss index (m_maxSize buf)"
    and "allocs w = []"
  shows "\<exists>index' buf'. emit ei ss index buf w = (Ok (cloudi_success, index', buf'), w)"
  using assms
proof (induction ei ss index buf w rule: emit.induct)
  case (2 ei t ss index buf w)
  then obtain bs where t: "ei t = Some bs" by (auto split: option.splits)
  with "2.prems" have f: "index + length bs \<le> m_size buf" "\<not> 2 ^ 31 \<le> index + length bs" by auto
  obtain q where q: "rp_put index bs buf = Ok q" "rp_wf q" "m_size q = m_size buf" "m_maxSize q = m_maxSize buf"
    using rp_put_ok [OF "2.prems"(1) f(1)] rp_wf_put [OF "2.prems"(1)] by simp
  with "2.IH" [OF t f(2) q(1,2)] "2.prems" t f show ?case by auto
next
  case (3 ei extra ss index buf w)
  then have n: "index + extra < 2 ^ 63" "(index + extra) mod 2 ^ 64 = index + extra" by auto
  obtain q where q: "rp_reserve True (index + extra) buf = Some (True, q)" "rp_wf q" "rp_extends buf q"
      "index + extra < m_size q"
    using rp_reserve_cases [OF "3.prems"(1) n(1), of True] "3.prems"(3) by auto
  have "w\<lparr>allocs := []\<rparr> = w" using "3.prems"(4) by simp
  then have c: "c_reserve ((index + extra) mod 2 ^ 64) buf w = (Ok (True, q), w)"
    using q(1) n(2) "3.prems"(4) by (simp add: c_reserve_def)
  have "fits ei ss index (max (m_size buf) (Suc (index + extra)))" using "3.prems"(2) by simp
  then have "fits ei ss index (m_size q)"
    by (rule fits_mono) (use q(3,4) in \<open>auto simp: rp_extends_def\<close>)
  with "3.IH" [OF c[symmetric] refl refl refl q(2)] "3.prems"(3,4) q(3) c show ?case by (simp add: rp_extends_def)
next
  case (4 ei r pid ss index buf w)
  then obtain k where r: "r = Some k" by (auto split: option.splits)
  let ?bs = "drop k pid"
  have f: "pid \<noteq> []" "\<not> (length pid < k \<or> 2 ^ 31 \<le> index + (length pid - k))" "\<not> \<not> index < m_size buf"
      "index + length ?bs \<le> m_size buf"
    using "4.prems" r by auto
  obtain q where q: "rp_put index ?bs buf = Ok q" "rp_wf q" "m_size q = m_size buf" "m_maxSize q = m_maxSize buf"
    using rp_put_ok [OF "4.prems"(1) f(4)] rp_wf_put [OF "4.prems"(1)] by simp
  have "k \<le> length pid" "\<not> 2 ^ 31 \<le> index + length pid - k" using f(2) by auto
  with "4.IH" [OF f(1) r f(2,3) q(1,2)] "4.prems" r f(1,3) q show ?case by simp
qed simp

section \<open>The documented sizes\<close>

fun ei_bound :: "ei_term \<Rightarrow> nat" where
  "ei_bound ei_version = 1"
| "ei_bound (ei_tuple_header n) = (if n \<le> 255 then 2 else 5)"
| "ei_bound (ei_atom s) = 3 + length s"
| "ei_bound (ei_string s) = (if length s \<le> 65535 then 3 + length s else 6 + 2 * length s)"
| "ei_bound (ei_binary b) = 5 + length b"
| "ei_bound (ei_ulong n) = 11"
| "ei_bound (ei_long i) = 11"
| "ei_bound (ei_char c) = 2"
| "ei_bound (ei_boolean b) = 8"
| "ei_bound (ei_ulonglong n) = 11"
| "ei_bound (ei_longlong i) = 11"
| "ei_bound (ei_double d) = 9"

definition ei_bounded :: "ei_encoder \<Rightarrow> bool" where
  "ei_bounded ei \<longleftrightarrow> (\<forall>t bs. ei t = Some bs \<longrightarrow> length bs \<le> ei_bound t)"

text \<open>The same bounds for a list of steps, and a check of the bounds alone.\<close>

fun fits_bound :: "emit_step list \<Rightarrow> nat \<Rightarrow> nat \<Rightarrow> bool" where
  "fits_bound [] index cap = True"
| "fits_bound (Encode t # ss) index cap =
     (index + ei_bound t \<le> cap \<and> index + ei_bound t < 2 ^ 31 \<and> fits_bound ss (index + ei_bound t) cap)"
| "fits_bound (Reserve n # ss) index cap =
     (index + n < 2 ^ 63 \<and> fits_bound ss index (max cap (Suc (index + n))))"
| "fits_bound (Copy_pid r pid # ss) index cap =
     (pid \<noteq> [] \<and> (case r of None \<Rightarrow> True | Some k \<Rightarrow> k \<le> length pid)
      \<and> index + length pid \<le> cap \<and> index + length pid < 2 ^ 31 \<and> fits_bound ss (index + length pid) cap)"

lemma fits_bound_fits:
  "fits_bound ss index cap \<Longrightarrow> ei_bounded ei \<Longrightarrow> index' \<le> index \<Longrightarrow> cap + index' \<le> cap' + index \<Longrightarrow>
   fits ei ss index' cap'"
proof (induction ss index cap arbitrary: index' cap' rule: fits_bound.induct)
  case (2 t ss index cap)
  show ?case
  proof (cases "ei t")
    case (Some bs)
    then have "length bs \<le> ei_bound t" using "2.prems"(2) by (simp add: ei_bounded_def)
    with 2 Some show ?thesis by auto
  qed simp
next
  case (3 n ss index cap)
  then show ?case by (auto intro!: "3.IH")
next
  case (4 r pid ss index cap)
  show ?case
  proof (cases r)
    case (Some k)
    from 4 have l: "0 < length pid" "index + length pid \<le> cap" "index + length pid < 2 ^ 31" by simp_all
    then have "index' < cap'" "index' + (length pid - k) \<le> cap'" "index' + (length pid - k) < 2 ^ 31"
      using 4(4,5) by linarith+
    with 4 Some show ?thesis by (auto intro!: "4.IH")
  qed (use 4 in simp)
qed simp

section \<open>The external term format\<close>

text \<open>
  The format that \<open>ei\<close> documents: small tuples, atoms, strings (as lists of small integers past
  65535 characters), binaries, integers and floats (a double is given by its eight bytes).
\<close>

definition be16 :: "nat \<Rightarrow> bytes" where
  "be16 n = [word_of_nat (n div 256), word_of_nat n]"

definition be32 :: "nat \<Rightarrow> bytes" where
  "be32 n = be32_bytes (word_of_nat n)"

fun ei_format :: ei_encoder where
  "ei_format ei_version = Some [131]"
| "ei_format (ei_tuple_header n) = Some (if n \<le> 255 then [104, word_of_nat n] else 105 # be32 n)"
| "ei_format (ei_atom s) = (if length s \<le> 255 then Some (100 # be16 (length s) @ s) else None)"
| "ei_format (ei_string s) =
     Some (if s = [] then [106]
           else if length s \<le> 65535 then 107 # be16 (length s) @ s
           else 108 # be32 (length s) @ concat (map (\<lambda>c. [97, c]) s) @ [106])"
| "ei_format (ei_binary b) = Some (109 # be32 (length b) @ b)"
| "ei_format (ei_ulong n) =
     Some (if n < 256 then [97, word_of_nat n]
           else if n < 2 ^ 27 then 98 # be32 n
           else [110, 8, 0] @ nat_le 8 n)"
| "ei_format (ei_long i) =
     Some (if 0 \<le> i \<and> i < 256 then [97, word_of_int i]
           else if - (2 ^ 27) \<le> i \<and> i < 2 ^ 27 then 98 # be32_bytes (word_of_int i)
           else [110, 8, if i < 0 then 1 else 0] @ nat_le 8 (nat \<bar>i\<bar>))"
| "ei_format (ei_char c) = Some [97, c]"
| "ei_format (ei_boolean b) = Some (100 # (if b then [0, 4] @ cstr ''true'' else [0, 5] @ cstr ''false''))"
| "ei_format (ei_ulonglong n) = Some ([110, 8, 0] @ nat_le 8 n)"
| "ei_format (ei_longlong i) = Some ([110, 8, if i < 0 then 1 else 0] @ nat_le 8 (nat \<bar>i\<bar>))"
| "ei_format (ei_double d) = Some (70 # take 8 d)"

lemma length_be16 [simp]: "length (be16 n) = 2" and length_be32 [simp]: "length (be32 n) = 4"
  by (simp_all add: be16_def be32_def)

lemma length_list_format: "length (concat (map (\<lambda>c. [97 :: byte, c]) s)) = 2 * length s"
  by (induction s) auto

lemma ei_format_bounded: "ei_bounded ei_format"
proof -
  have "ei_format t = Some bs \<Longrightarrow> length bs \<le> ei_bound t" for t bs
    by (cases t) (auto simp: length_list_format split: if_splits)
  then show ?thesis by (simp add: ei_bounded_def)
qed

end
