(* ===== verification/Api_Send.thy ===== *)
theory Api_Send
  imports Ei Lookup
begin

text \<open>
  The state of an API instance (\<open>cloudi_instance_t\<close> of \<^verbatim>\<open>api/c/cloudi.h\<close>) and the calls of
  \<^verbatim>\<open>api/c/cloudi.cpp\<close> that send a message without waiting for an answer: subscribing and
  unsubscribing, returning and forwarding a request, the notices \<open>polling\<close> and \<open>keepalive\<close>, and the
  shutdown request. A call is a function of the instance and the operating system that returns both
  updated with its outcome, so that what an exception leaves behind is part of the model.
\<close>

section \<open>Model\<close>

text \<open>
  Integers are words of their C width. A pointer into the receive buffer is an offset, the null
  pointer is \<open>None\<close>; \<open>prefix\<close> is the block allocated for it. \<open>poll_timer\<close> is the start time of the
  timer in nanoseconds.
\<close>

record cloudi_instance_t =
  state :: nat
  fd_in :: int
  fd_out :: int
  use_header :: bool
  initialization_complete :: bool
  terminate :: bool
  buffer_size :: u32
  lookup :: lookup_t
  buffer_send :: "byte realloc_ptr"
  buffer_recv :: "byte realloc_ptr"
  buffer_recv_index :: u32
  buffer_call :: "byte realloc_ptr"
  poll_timer :: int
  process_index :: u32
  process_count :: u32
  process_count_max :: u32
  process_count_min :: u32
  prefix :: "bytes option"
  timeout_initialize :: u32
  timeout_async :: u32
  timeout_sync :: u32
  timeout_terminate :: u32
  priority_default :: "8 word"
  response_info :: "nat option"
  response_info_size :: u32
  response :: "nat option"
  response_size :: u32
  trans_id :: "nat option"
  trans_id_count :: u32
  subscribe_count :: u32

type_synonym api = "cloudi_instance_t \<times> os"
type_synonym 'a call = "api \<Rightarrow> 'a outcome \<times> api"

definition CLOUDI_ASYNC :: int where
  "CLOUDI_ASYNC = 1"

definition CLOUDI_SYNC :: int where
  "CLOUDI_SYNC = -1"

text \<open>\<open>write_exact\<close> of the first \<open>index\<close> bytes of the send buffer.\<close>

definition flush_send :: "nat \<Rightarrow> cloudi_status call" where
  "flush_send index = (\<lambda>(p, w).
     case write_exact (fd_out p) (use_header p) (buffer_send p) index w of
       (Ok (status, buf), w') \<Rightarrow> (Ok status, (p\<lparr>buffer_send := buf\<rparr>, w'))
     | (Undefined, w') \<Rightarrow> (Undefined, (p, w'))
     | (_, w') \<Rightarrow> (Blocked, (p, w')))"

text \<open>The encoding part of a request, from \<open>index\<close> 0 or, with a header, 4.\<close>

definition emit_send :: "ei_encoder \<Rightarrow> emit_step list \<Rightarrow> (cloudi_status \<times> nat) call" where
  "emit_send ei steps = (\<lambda>(p, w).
     case emit ei steps (header_size (use_header p)) (buffer_send p) w of
       (Ok (status, index, buf), w') \<Rightarrow> (Ok (status, index), (p\<lparr>buffer_send := buf\<rparr>, w'))
     | (Raise e, w') \<Rightarrow> (Raise e, (p, w'))
     | (Undefined, w') \<Rightarrow> (Undefined, (p, w'))
     | (_, w') \<Rightarrow> (Blocked, (p, w')))"

definition send_message :: "ei_encoder \<Rightarrow> emit_step list \<Rightarrow> cloudi_status call" where
  "send_message ei steps =
     bind_state (emit_send ei steps) (\<lambda>(status, index).
       if status \<noteq> cloudi_success then Pair (Ok status) else flush_send index)"

text \<open>\<open>std::string(p->prefix)\<close>: undefined for a null pointer or a block without a NUL.\<close>

definition prefix_string :: "cloudi_instance_t \<Rightarrow> bytes outcome" where
  "prefix_string p =
     (case prefix p of
        None \<Rightarrow> Undefined
      | Some block \<Rightarrow> if 0 \<in> set block then Ok (takeWhile (\<lambda>c. c \<noteq> 0) block) else Undefined)"

text \<open>
  The table is updated before the message is sent, and stays so if sending fails. \<open>pattern\<close> is the
  C string without its NUL.
\<close>

definition cloudi_subscribe_impl :: "ei_encoder \<Rightarrow> bytes \<Rightarrow> callback_function \<Rightarrow> cloudi_status call" where
  "cloudi_subscribe_impl ei pattern f = (\<lambda>(p, w).
     case prefix_string p of
       Ok pre \<Rightarrow>
         send_message ei
           [Encode ei_version, Encode (ei_tuple_header 2), Encode (ei_atom (cstr ''subscribe'')),
            Reserve (length pattern + 128), Encode (ei_string pattern)]
           (p\<lparr>lookup := lookup_insert (pre @ pattern) f (lookup p)\<rparr>, w)
     | _ \<Rightarrow> (Undefined, (p, w)))"

definition cloudi_subscribe :: "ei_encoder \<Rightarrow> bytes \<Rightarrow> nat \<Rightarrow> cloudi_status call" where
  "cloudi_subscribe ei pattern f = cloudi_subscribe_impl ei pattern (callback_function_c f)"

definition cloudi_unsubscribe :: "ei_encoder \<Rightarrow> bytes \<Rightarrow> cloudi_status call" where
  "cloudi_unsubscribe ei pattern = (\<lambda>(p, w).
     case prefix_string p of
       Ok pre \<Rightarrow>
         (case lookup_remove (pre @ pattern) (lookup p) of
            Ok (True, t) \<Rightarrow>
              send_message ei
                [Encode ei_version, Encode (ei_tuple_header 2), Encode (ei_atom (cstr ''unsubscribe'')),
                 Reserve (length pattern + 128), Encode (ei_string pattern)]
                (p\<lparr>lookup := t\<rparr>, w)
          | Ok (False, t) \<Rightarrow> (Ok cloudi_error_function_parameter, (p\<lparr>lookup := t\<rparr>, w))
          | Raise e \<Rightarrow> (Raise e, (p, w))
          | _ \<Rightarrow> (Undefined, (p, w)))
     | _ \<Rightarrow> (Undefined, (p, w)))"

text \<open>
  \<open>trans_id\<close> points to 16 bytes, given as a list of that length. \<open>dv\<close> is \<open>ei_decode_version\<close>.
\<close>

definition forward_steps :: "string \<Rightarrow> bytes \<Rightarrow> bytes \<Rightarrow> bytes \<Rightarrow> u32 \<Rightarrow> 8 word \<Rightarrow> bytes \<Rightarrow> emit_step list" where
  "forward_steps command name request_info request timeout priority tid =
     [Encode ei_version, Encode (ei_tuple_header 8), Encode (ei_atom (cstr command)),
      Reserve (length name + length request_info + length request + 128),
      Encode (ei_string name), Encode (ei_binary request_info), Encode (ei_binary request),
      Encode (ei_ulong (unat timeout)), Encode (ei_long (sint priority)), Encode (ei_binary tid)]"

definition cloudi_forward_impl :: "ei_encoder \<Rightarrow> (bytes \<Rightarrow> nat option) \<Rightarrow> string \<Rightarrow> bytes \<Rightarrow> bytes \<Rightarrow> bytes
    \<Rightarrow> u32 \<Rightarrow> 8 word \<Rightarrow> bytes \<Rightarrow> bytes \<Rightarrow> cloudi_status call" where
  "cloudi_forward_impl ei dv command name request_info request timeout priority tid pid =
     send_message ei
       (forward_steps command name request_info request timeout priority tid @ [Copy_pid (dv pid) pid])"

text \<open>A successful return or forward leaves the callback by an exception.\<close>

definition throw_on_success :: "cxx_exception \<Rightarrow> cloudi_status call \<Rightarrow> cloudi_status call" where
  "throw_on_success e m =
     bind_state m (\<lambda>result. if result = cloudi_success then Pair (Raise e) else Pair (Ok result))"

definition cloudi_forward_async :: "ei_encoder \<Rightarrow> (bytes \<Rightarrow> nat option) \<Rightarrow> bytes \<Rightarrow> bytes \<Rightarrow> bytes
    \<Rightarrow> u32 \<Rightarrow> 8 word \<Rightarrow> bytes \<Rightarrow> bytes \<Rightarrow> cloudi_status call" where
  "cloudi_forward_async ei dv name request_info request timeout priority tid pid =
     throw_on_success forward_async_exception
       (cloudi_forward_impl ei dv ''forward_async'' name request_info request timeout priority tid pid)"

definition cloudi_forward_sync :: "ei_encoder \<Rightarrow> (bytes \<Rightarrow> nat option) \<Rightarrow> bytes \<Rightarrow> bytes \<Rightarrow> bytes
    \<Rightarrow> u32 \<Rightarrow> 8 word \<Rightarrow> bytes \<Rightarrow> bytes \<Rightarrow> cloudi_status call" where
  "cloudi_forward_sync ei dv name request_info request timeout priority tid pid =
     throw_on_success forward_sync_exception
       (cloudi_forward_impl ei dv ''forward_sync'' name request_info request timeout priority tid pid)"

definition cloudi_forward :: "ei_encoder \<Rightarrow> (bytes \<Rightarrow> nat option) \<Rightarrow> int \<Rightarrow> bytes \<Rightarrow> bytes \<Rightarrow> bytes
    \<Rightarrow> u32 \<Rightarrow> 8 word \<Rightarrow> bytes \<Rightarrow> bytes \<Rightarrow> cloudi_status call" where
  "cloudi_forward ei dv request_type name request_info request timeout priority tid pid =
     (if request_type = CLOUDI_ASYNC then
        throw_on_success forward_async_exception
          (cloudi_forward_impl ei dv ''forward_async'' name request_info request timeout priority tid pid)
      else if request_type = CLOUDI_SYNC then
        throw_on_success forward_sync_exception
          (cloudi_forward_impl ei dv ''forward_sync'' name request_info request timeout priority tid pid)
      else Pair (Ok cloudi_error_function_parameter))"

definition return_steps :: "string \<Rightarrow> bytes \<Rightarrow> bytes \<Rightarrow> bytes \<Rightarrow> bytes \<Rightarrow> u32 \<Rightarrow> bytes \<Rightarrow> emit_step list" where
  "return_steps command name pattern resp_info resp timeout tid =
     [Encode ei_version, Encode (ei_tuple_header 8), Encode (ei_atom (cstr command)),
      Reserve (length name + length pattern + length resp_info + length resp + 128),
      Encode (ei_string name), Encode (ei_string pattern), Encode (ei_binary resp_info),
      Encode (ei_binary resp), Encode (ei_ulong (unat timeout)), Encode (ei_binary tid)]"

definition cloudi_return_impl :: "ei_encoder \<Rightarrow> (bytes \<Rightarrow> nat option) \<Rightarrow> string \<Rightarrow> bytes \<Rightarrow> bytes \<Rightarrow> bytes \<Rightarrow> bytes
    \<Rightarrow> u32 \<Rightarrow> bytes \<Rightarrow> bytes \<Rightarrow> cloudi_status call" where
  "cloudi_return_impl ei dv command name pattern resp_info resp timeout tid pid =
     send_message ei
       (return_steps command name pattern resp_info resp timeout tid @ [Copy_pid (dv pid) pid])"

definition cloudi_return_async :: "ei_encoder \<Rightarrow> (bytes \<Rightarrow> nat option) \<Rightarrow> bytes \<Rightarrow> bytes \<Rightarrow> bytes \<Rightarrow> bytes
    \<Rightarrow> u32 \<Rightarrow> bytes \<Rightarrow> bytes \<Rightarrow> cloudi_status call" where
  "cloudi_return_async ei dv name pattern resp_info resp timeout tid pid =
     throw_on_success return_async_exception
       (cloudi_return_impl ei dv ''return_async'' name pattern resp_info resp timeout tid pid)"

definition cloudi_return_sync :: "ei_encoder \<Rightarrow> (bytes \<Rightarrow> nat option) \<Rightarrow> bytes \<Rightarrow> bytes \<Rightarrow> bytes \<Rightarrow> bytes
    \<Rightarrow> u32 \<Rightarrow> bytes \<Rightarrow> bytes \<Rightarrow> cloudi_status call" where
  "cloudi_return_sync ei dv name pattern resp_info resp timeout tid pid =
     throw_on_success return_sync_exception
       (cloudi_return_impl ei dv ''return_sync'' name pattern resp_info resp timeout tid pid)"

definition cloudi_return :: "ei_encoder \<Rightarrow> (bytes \<Rightarrow> nat option) \<Rightarrow> int \<Rightarrow> bytes \<Rightarrow> bytes \<Rightarrow> bytes \<Rightarrow> bytes
    \<Rightarrow> u32 \<Rightarrow> bytes \<Rightarrow> bytes \<Rightarrow> cloudi_status call" where
  "cloudi_return ei dv request_type name pattern resp_info resp timeout tid pid =
     (if request_type = CLOUDI_ASYNC then
        throw_on_success return_async_exception
          (cloudi_return_impl ei dv ''return_async'' name pattern resp_info resp timeout tid pid)
      else if request_type = CLOUDI_SYNC then
        throw_on_success return_sync_exception
          (cloudi_return_impl ei dv ''return_sync'' name pattern resp_info resp timeout tid pid)
      else Pair (Ok cloudi_error_function_parameter))"

definition polling :: "ei_encoder \<Rightarrow> cloudi_status call" where
  "polling ei = (\<lambda>(p, w).
     if initialization_complete p then (Raise assert_exception, (p, w))
     else send_message ei [Encode ei_version, Encode (ei_atom (cstr ''polling''))] (p, w))"

definition keepalive :: "ei_encoder \<Rightarrow> cloudi_status call" where
  "keepalive ei = send_message ei [Encode ei_version, Encode (ei_atom (cstr ''keepalive''))]"

text \<open>The reason is a null pointer (\<open>None\<close>) or a string. Nothing is reserved for it.\<close>

definition cloudi_shutdown :: "ei_encoder \<Rightarrow> bytes option \<Rightarrow> cloudi_status call" where
  "cloudi_shutdown ei reason =
     send_message ei
       [Encode ei_version, Encode (ei_tuple_header 2), Encode (ei_atom (cstr ''shutdown'')),
        Encode (ei_string (case reason of None \<Rightarrow> [] | Some r \<Rightarrow> r))]"

section \<open>Facts\<close>

text \<open>What every call keeps of the send buffer: at least its initial size.\<close>

definition send_wf :: "cloudi_instance_t \<Rightarrow> bool" where
  "send_wf p \<longleftrightarrow> rp_wf (buffer_send p) \<and> 32768 \<le> m_size (buffer_send p)"

text \<open>
  What a message leaves behind: only the send buffer of the instance changes, only the output
  descriptor is written, by a prefix of the framed message, all of it exactly on success.
\<close>

definition sends :: "ei_encoder \<Rightarrow> emit_step list \<Rightarrow> api \<Rightarrow> cloudi_status \<Rightarrow> api \<Rightarrow> bool" where
  "sends ei steps s status s' \<longleftrightarrow>
     (case (s, s') of ((p, w), (p', w')) \<Rightarrow>
        (\<exists>buf as ws wt. p' = p\<lparr>buffer_send := buf\<rparr> \<and> send_wf p' \<and> w' = w\<lparr>allocs := as, wr := ws, written := wt\<rparr>)
        \<and> (\<forall>fd. fd \<noteq> fd_out p \<longrightarrow> sent w' fd = sent w fd)
        \<and> (\<exists>k. sent w' (fd_out p)
              = sent w (fd_out p) @ take k (case encode ei steps of None \<Rightarrow> [] | Some body \<Rightarrow> wire (use_header p) body)
            \<and> (status \<noteq> cloudi_success \<longrightarrow> k = 0 \<or>
                 (\<exists>body. encode ei steps = Some body \<and> k < length (wire (use_header p) body))))
        \<and> (status = cloudi_success \<longrightarrow>
             (\<exists>body. encode ei steps = Some body
                \<and> sent w' (fd_out p) = sent w (fd_out p) @ wire (use_header p) body)))"

lemma header_size_le: "header_size h \<le> 4"
  by (simp add: header_size_def)

lemma emit_send_cases:
  assumes "send_wf p" and "fits ei steps (header_size (use_header p)) (m_size (buffer_send p))"
  obtains st index buf as where
    "emit_send ei steps (p, w) = (Ok (st, index), (p\<lparr>buffer_send := buf\<rparr>, w\<lparr>allocs := as\<rparr>))"
    "send_wf (p\<lparr>buffer_send := buf\<rparr>)" "emit_status st"
    "st = cloudi_success \<longrightarrow> (\<exists>body. encode ei steps = Some body
       \<and> index = header_size (use_header p) + length body \<and> index \<le> m_size buf
       \<and> mem_read (header_size (use_header p)) (length body) (m_p buf) = Some body)"
proof -
  have "header_size (use_header p) \<le> m_size (buffer_send p)"
    using assms(1) header_size_le [of "use_header p"] by (simp add: send_wf_def)
  from emit_fits [OF _ assms(2) this, of w] assms(1) obtain st index buf as where
    "emit ei steps (header_size (use_header p)) (buffer_send p) w = (Ok (st, index, buf), w\<lparr>allocs := as\<rparr>)"
    "rp_wf buf" "m_size (buffer_send p) \<le> m_size buf" "emit_status st"
    "st = cloudi_success \<longrightarrow> (\<exists>body. encode ei steps = Some body
       \<and> index = header_size (use_header p) + length body \<and> index \<le> m_size buf
       \<and> mem_read (header_size (use_header p)) (length body) (m_p buf) = Some body)"
    by (auto simp: send_wf_def emit_result_def)
  with assms(1) that [of st index buf as] show ?thesis
    by (simp add: emit_send_def send_wf_def)
qed

lemma send_message_cases:
  assumes "send_wf p" and "fits ei steps (header_size (use_header p)) (m_size (buffer_send p))"
  obtains (returns) status s' where "send_message ei steps (p, w) = (Ok status, s')" "sends ei steps (p, w) status s'"
  | (blocks) s' where "send_message ei steps (p, w) = (Blocked, s')"
proof -
  obtain st index buf as where e:
    "emit_send ei steps (p, w) = (Ok (st, index), (p\<lparr>buffer_send := buf\<rparr>, w\<lparr>allocs := as\<rparr>))"
    "send_wf (p\<lparr>buffer_send := buf\<rparr>)" "emit_status st"
    "st = cloudi_success \<longrightarrow> (\<exists>body. encode ei steps = Some body
       \<and> index = header_size (use_header p) + length body \<and> index \<le> m_size buf
       \<and> mem_read (header_size (use_header p)) (length body) (m_p buf) = Some body)"
    using emit_send_cases [OF assms] .
  show thesis
  proof (cases "st = cloudi_success")
    case False
    have "sends ei steps (p, w) st (p\<lparr>buffer_send := buf\<rparr>, w\<lparr>allocs := as\<rparr>)"
      using False e(2) unfolding sends_def sent_def prod.case
      by (intro conjI exI [of _ buf] exI [of _ as] exI [of _ "wr w"] exI [of _ "written w"] exI [of _ 0]) simp_all
    with False e(1) show ?thesis by (intro returns) (auto simp: send_message_def)
  next
    case True
    then obtain body where b: "encode ei steps = Some body" "index = header_size (use_header p) + length body"
        "index \<le> m_size buf" "mem_read (header_size (use_header p)) (length body) (m_p buf) = Some body"
      using e(4) by blast
    let ?w = "w\<lparr>allocs := as\<rparr>"
    have wf: "rp_wf buf" "header_size (use_header p) + length body \<le> m_size buf"
      using e(2) b(2,3) by (simp_all add: send_wf_def)
    have m: "send_message ei steps (p, w) = flush_send index (p\<lparr>buffer_send := buf\<rparr>, ?w)"
      using e(1) True by (simp add: send_message_def)
    consider (wrote) status buf' w' where "write_exact (fd_out p) (use_header p) buf index ?w = (Ok (status, buf'), w')"
      | (stuck) w' where "write_exact (fd_out p) (use_header p) buf index ?w = (Blocked, w')"
      using write_exact_outcomes [OF wf b(4), of "fd_out p" ?w] b(2) by auto
    then show ?thesis
    proof cases
      case wrote
      obtain k ws wt where k: "sent w' (fd_out p) = sent ?w (fd_out p) @ take k (wire (use_header p) body)"
          "k \<le> length (wire (use_header p) body)" "status = cloudi_success \<longleftrightarrow> k = length (wire (use_header p) body)"
          "\<forall>fd. fd \<noteq> fd_out p \<longrightarrow> sent w' fd = sent ?w fd" "w' = ?w\<lparr>wr := ws, written := wt\<rparr>"
          "rp_wf buf'" "m_size buf' = m_size buf"
        using write_exact_sent [OF wf b(4) wrote [unfolded b(2)]] by blast
      have "\<exists>buf as ws wt. p\<lparr>buffer_send := buf'\<rparr> = p\<lparr>buffer_send := buf\<rparr> \<and> send_wf (p\<lparr>buffer_send := buf'\<rparr>)
          \<and> w' = w\<lparr>allocs := as, wr := ws, written := wt\<rparr>"
        by (intro exI [of _ buf'] exI [of _ as] exI [of _ ws] exI [of _ wt])
          (use k(5-7) e(2) in \<open>simp add: send_wf_def\<close>)
      moreover have "sent ?w = sent w" by (simp add: sent_def fun_eq_iff)
      ultimately have "sends ei steps (p, w) status (p\<lparr>buffer_send := buf'\<rparr>, w')"
        using k(1-4) b(1) unfolding sends_def prod.case
        by (intro conjI exI [of _ k] impI) (auto simp: le_neq_implies_less)
      with m wrote show ?thesis by (intro returns) (simp_all add: flush_send_def)
    next
      case stuck
      with m show ?thesis by (intro blocks) (auto simp: flush_send_def)
    qed
  qed
qed

text \<open>A message that fits is delivered if the allocator and the descriptor do their part.\<close>

lemma send_message_delivers:
  assumes "send_wf p" and "fits ei steps (header_size (use_header p)) (m_size (buffer_send p))"
    and "reserves_ok ei steps (header_size (use_header p)) (m_maxSize (buffer_send p))" and "allocs w = []"
    and "encode ei steps = Some body" and "accepts (wr w) (header_size (use_header p) + length body)"
  shows "\<exists>s'. send_message ei steps (p, w) = (Ok cloudi_success, s') \<and> sends ei steps (p, w) cloudi_success s'"
proof -
  obtain index buf where e: "emit ei steps (header_size (use_header p)) (buffer_send p) w = (Ok (cloudi_success, index, buf), w)"
    using emit_success [OF _ assms(2-4)] assms(1) by (auto simp: send_wf_def)
  have "header_size (use_header p) \<le> m_size (buffer_send p)"
    using assms(1) header_size_le [of "use_header p"] by (simp add: send_wf_def)
  from emit_fits [OF _ assms(2) this, of w] assms(1,5) e have b: "rp_wf buf" "index = header_size (use_header p) + length body"
      "header_size (use_header p) + length body \<le> m_size buf"
      "mem_read (header_size (use_header p)) (length body) (m_p buf) = Some body"
    by (auto simp: emit_result_def send_wf_def)
  obtain buf' w' where "write_exact (fd_out p) (use_header p) buf index w = (Ok (cloudi_success, buf'), w')"
    using write_exact_accepts [OF b(1,3,4) assms(6)] b(2) by blast
  with e have "\<exists>s'. send_message ei steps (p, w) = (Ok cloudi_success, s')"
    by (simp add: send_message_def emit_send_def flush_send_def)
  moreover from assms(1,2) have "sends ei steps (p, w) st s'" if "send_message ei steps (p, w) = (Ok st, s')" for st s'
    using that by (cases rule: send_message_cases [of p ei steps w]) auto
  ultimately show ?thesis by blast
qed

lemma throw_on_success_simps:
  "m s = (Ok st, s') \<Longrightarrow> throw_on_success e m s = (if st = cloudi_success then (Raise e, s') else (Ok st, s'))"
  "m s = (Blocked, s') \<Longrightarrow> throw_on_success e m s = (Blocked, s')"
  "m s = (Undefined, s') \<Longrightarrow> throw_on_success e m s = (Undefined, s')"
  by (simp_all add: throw_on_success_def)

lemma throw_on_success_cases:
  assumes "send_wf p" and "fits ei steps (header_size (use_header p)) (m_size (buffer_send p))"
  obtains (thrown) s' where "throw_on_success e (send_message ei steps) (p, w) = (Raise e, s')"
      "sends ei steps (p, w) cloudi_success s'"
  | (failed) status s' where "throw_on_success e (send_message ei steps) (p, w) = (Ok status, s')"
      "status \<noteq> cloudi_success" "sends ei steps (p, w) status s'"
  | (blocks) s' where "throw_on_success e (send_message ei steps) (p, w) = (Blocked, s')"
  by (rule send_message_cases [OF assms, of w]) (metis throw_on_success_simps(1,2))+

text \<open>
  The arguments for which the reservation of a returned or forwarded message is enough: strings that
  \<open>ei\<close> encodes as strings, and a process identifier of at most 73 bytes.
\<close>

definition pid_ok :: "(bytes \<Rightarrow> nat option) \<Rightarrow> bytes \<Rightarrow> bool" where
  "pid_ok dv pid \<longleftrightarrow> pid \<noteq> [] \<and> length pid \<le> 73 \<and> (case dv pid of None \<Rightarrow> True | Some k \<Rightarrow> k \<le> length pid)"

lemma return_fits:
  assumes "send_wf p" and "ei_bounded ei" and "command \<in> {''return_async'', ''return_sync''}"
    and "length name \<le> 65535" and "length pattern \<le> 65535" and "length resp_info + length resp < 2 ^ 30"
    and "length tid = 16" and "pid_ok dv pid"
  shows "fits ei (return_steps command name pattern resp_info resp timeout tid @ [Copy_pid (dv pid) pid])
    (header_size (use_header p)) (m_size (buffer_send p))"
proof (rule fits_bound_fits [OF _ assms(2) order_refl order_refl])
  show "fits_bound (return_steps command name pattern resp_info resp timeout tid @ [Copy_pid (dv pid) pid])
    (header_size (use_header p)) (m_size (buffer_send p))"
    using assms header_size_le [of "use_header p"] by (auto simp: return_steps_def pid_ok_def send_wf_def)
qed

lemma forward_fits:
  assumes "send_wf p" and "ei_bounded ei" and "command \<in> {''forward_async'', ''forward_sync''}"
    and "length name \<le> 65535" and "length request_info + length request < 2 ^ 30"
    and "length tid = 16" and "pid_ok dv pid"
  shows "fits ei (forward_steps command name request_info request timeout priority tid @ [Copy_pid (dv pid) pid])
    (header_size (use_header p)) (m_size (buffer_send p))"
proof (rule fits_bound_fits [OF _ assms(2) order_refl order_refl])
  show "fits_bound (forward_steps command name request_info request timeout priority tid @ [Copy_pid (dv pid) pid])
    (header_size (use_header p)) (m_size (buffer_send p))"
    using assms header_size_le [of "use_header p"] by (auto simp: forward_steps_def pid_ok_def send_wf_def)
qed

lemma subscribe_fits:
  assumes "send_wf p" and "ei_bounded ei" and "length command \<le> 255" and "length pattern \<le> 65535"
  shows "fits ei [Encode ei_version, Encode (ei_tuple_header 2), Encode (ei_atom (cstr command)),
      Reserve (length pattern + 128), Encode (ei_string pattern)]
    (header_size (use_header p)) (m_size (buffer_send p))"
  by (rule fits_bound_fits [OF _ assms(2) order_refl order_refl])
    (use assms header_size_le [of "use_header p"] in \<open>auto simp: send_wf_def\<close>)

lemma notice_fits:
  assumes "send_wf p" and "ei_bounded ei" and "length command \<le> 255"
  shows "fits ei [Encode ei_version, Encode (ei_atom (cstr command))]
    (header_size (use_header p)) (m_size (buffer_send p))"
  by (rule fits_bound_fits [OF _ assms(2) order_refl order_refl])
    (use assms header_size_le [of "use_header p"] in \<open>auto simp: send_wf_def\<close>)

section \<open>Properties\<close>

text \<open>
  A response leaves the callback by an exception exactly if all of it was sent. For an
  instance with a well-formed send buffer, an encoder within the documented sizes, strings that are
  encoded as strings and a process identifier of at most 73 bytes, \<open>cloudi_return\<close> stays inside the
  send buffer and either throws the exception of its request type after the whole framed
  \<open>return_async\<close> or \<open>return_sync\<close> message went out, or returns an error status after a proper prefix,
  or waits for the descriptor; it never returns success. An unknown request type is an error that
  sends nothing.
\<close>

theorem cloudi_return_outcomes:
  assumes "send_wf p" and "ei_bounded ei" and "length name \<le> 65535" and "length pattern \<le> 65535"
    and "length resp_info + length resp < 2 ^ 30" and "length tid = 16" and "pid_ok dv pid"
    and "r = cloudi_return ei dv request_type name pattern resp_info resp timeout tid pid (p, w)"
  shows "if request_type = CLOUDI_ASYNC \<or> request_type = CLOUDI_SYNC then
      (\<exists>steps e. (steps, e) =
           (if request_type = CLOUDI_ASYNC then
              (return_steps ''return_async'' name pattern resp_info resp timeout tid @ [Copy_pid (dv pid) pid],
               return_async_exception)
            else
              (return_steps ''return_sync'' name pattern resp_info resp timeout tid @ [Copy_pid (dv pid) pid],
               return_sync_exception))
         \<and> ((\<exists>s'. r = (Raise e, s') \<and> sends ei steps (p, w) cloudi_success s')
          \<or> (\<exists>status s'. r = (Ok status, s') \<and> status \<noteq> cloudi_success \<and> sends ei steps (p, w) status s')
          \<or> (\<exists>s'. r = (Blocked, s'))))
    else r = (Ok cloudi_error_function_parameter, (p, w))"
proof -
  let ?st = "\<lambda>c. return_steps c name pattern resp_info resp timeout tid @ [Copy_pid (dv pid) pid]"
  have f: "fits ei (?st c) (header_size (use_header p)) (m_size (buffer_send p))"
    if "c \<in> {''return_async'', ''return_sync''}" for c
    using return_fits [OF assms(1,2) that assms(3-7)] .
  have "(\<exists>s'. t = (Raise e, s') \<and> sends ei (?st c) (p, w) cloudi_success s')
      \<or> (\<exists>status s'. t = (Ok status, s') \<and> status \<noteq> cloudi_success \<and> sends ei (?st c) (p, w) status s')
      \<or> (\<exists>s'. t = (Blocked, s'))"
    if "c \<in> {''return_async'', ''return_sync''}" "t = throw_on_success e (send_message ei (?st c)) (p, w)" for c e t
    using throw_on_success_cases [OF assms(1) f [OF that(1)], of e w] unfolding that(2) by metis
  then show ?thesis
    unfolding assms(8) cloudi_return_def cloudi_return_impl_def by auto
qed

text \<open>A fresh instance as \<open>cloudi_initialize\<close> sets it up, with a prefix.\<close>

definition sample_buffer :: "byte realloc_ptr" where
  "sample_buffer = \<lparr>m_initialSize = 32768, m_size = 32768, m_maxSize = 18446744069414584320,
     m_p = (\<lambda>_. None), m_alloc = 32768\<rparr>"

definition sample_instance :: cloudi_instance_t where
  "sample_instance = \<lparr>state = 0, fd_in = 3, fd_out = 3, use_header = True,
     initialization_complete = False, terminate = False, buffer_size = 65536, lookup = (\<lambda>_. None),
     buffer_send = sample_buffer, buffer_recv = sample_buffer, buffer_recv_index = 0,
     buffer_call = sample_buffer, poll_timer = 0, process_index = 0, process_count = 1,
     process_count_max = 1, process_count_min = 1, prefix = Some (cstr ''/p/'' @ [0]),
     timeout_initialize = 5000, timeout_async = 5000, timeout_sync = 5000, timeout_terminate = 1000,
     priority_default = 0, response_info = None, response_info_size = 0, response = None,
     response_size = 0, trans_id = None, trans_id_count = 0, subscribe_count = 0\<rparr>"

lemma sample_buffer_wf: "rp_wf sample_buffer"
  by (simp add: rp_wf_def sample_buffer_def)

lemma sample_send_wf: "send_wf sample_instance"
  using sample_buffer_wf by (simp add: send_wf_def sample_instance_def sample_buffer_def)

text \<open>\<open>ei_decode_version\<close> on a term that starts with the version byte.\<close>

definition ei_version_format :: "bytes \<Rightarrow> nat option" where
  "ei_version_format bs = (case bs of [] \<Rightarrow> None | b # _ \<Rightarrow> if b = 131 then Some 1 else None)"

theorem cloudi_return_outcomes_witness:
  "\<exists>r. r = cloudi_return ei_format ei_version_format CLOUDI_SYNC (cstr ''/a'') (cstr ''/a'') [] [7] 5
        (replicate 16 0) [131, 97, 1] (sample_instance, io_idle\<lparr>wr := [Wr_count 99]\<rparr>)
     \<and> (\<forall>s'. r \<noteq> (Ok cloudi_success, s')) \<and> fst r \<noteq> Undefined \<and> fst r \<noteq> Raise return_async_exception"
  using cloudi_return_outcomes [OF sample_send_wf ei_format_bounded, of "cstr ''/a''" "cstr ''/a''" "[]" "[7]"
      "replicate 16 0" ei_version_format "[131, 97, 1]" _ CLOUDI_SYNC 5 "io_idle\<lparr>wr := [Wr_count 99]\<rparr>", OF _ _ _ _ _ refl]
  by (auto simp: CLOUDI_SYNC_def CLOUDI_ASYNC_def pid_ok_def ei_version_format_def)

text \<open>
  Subscribing registers first and tells the service afterwards: with a well-formed table, the
  callback is appended to the callbacks of the prefixed pattern whether or not the message is sent,
  no other pattern changes, and success means that the whole \<open>subscribe\<close> message with the pattern
  without the prefix went out.
\<close>

theorem cloudi_subscribe_registers:
  assumes "send_wf p" and "ei_bounded ei" and "length pattern \<le> 65535"
    and "prefix p = Some (pre @ 0 # rest)" and "0 \<notin> set pre"
  shows "(\<exists>status s'. cloudi_subscribe ei pattern f (p, w) = (Ok status, s')
        \<and> subscribed (lookup (fst s'))
            = (subscribed (lookup p))(pre @ pattern := subscribed (lookup p) (pre @ pattern) @ [callback_function_c f])
        \<and> (status = cloudi_success \<longrightarrow>
             (\<exists>body. encode ei [Encode ei_version, Encode (ei_tuple_header 2),
                  Encode (ei_atom (cstr ''subscribe'')), Encode (ei_string pattern)] = Some body
                \<and> sent (snd s') (fd_out p) = sent w (fd_out p) @ wire (use_header p) body)))
    \<or> (\<exists>s'. cloudi_subscribe ei pattern f (p, w) = (Blocked, s'))"
proof -
  let ?st = "[Encode ei_version, Encode (ei_tuple_header 2), Encode (ei_atom (cstr ''subscribe'')),
            Reserve (length pattern + 128), Encode (ei_string pattern)]"
  let ?p = "p\<lparr>lookup := lookup_insert (pre @ pattern) (callback_function_c f) (lookup p)\<rparr>"
  have pre: "prefix_string p = Ok pre"
    using assms(4,5) by (auto simp: prefix_string_def takeWhile_append)
  then have c: "cloudi_subscribe ei pattern f (p, w) = send_message ei ?st (?p, w)"
    by (simp add: cloudi_subscribe_def cloudi_subscribe_impl_def)
  have wf: "send_wf ?p" "fits ei ?st (header_size (use_header ?p)) (m_size (buffer_send ?p))"
    using assms(1-3) subscribe_fits [of ?p ei "''subscribe''" pattern] by (simp_all add: send_wf_def)
  from wf show ?thesis
  proof (cases rule: send_message_cases [of ?p ei ?st w])
    case (returns status s')
    then show ?thesis unfolding c sends_def
      by (intro disjI1 exI [of _ status] exI [of _ s']) (auto simp: tbl.ins_callbacks split: prod.splits option.splits)
  next
    case (blocks s')
    then show ?thesis unfolding c by blast
  qed
qed

theorem cloudi_subscribe_registers_witness:
  "\<exists>status s'. cloudi_subscribe ei_format (cstr ''x'') 7 (sample_instance, io_idle\<lparr>wr := [Wr_error EPIPE]\<rparr>) = (Ok status, s')
     \<and> subscribed (lookup (fst s')) (cstr ''/p/x'') = [callback_function_c 7] \<or>
   (\<exists>s'. cloudi_subscribe ei_format (cstr ''x'') 7 (sample_instance, io_idle\<lparr>wr := [Wr_error EPIPE]\<rparr>) = (Blocked, s'))"
proof -
  have s: "subscribed (lookup sample_instance) = (\<lambda>_. [])"
    by (simp add: sample_instance_def subscribed_def fun_eq_iff)
  have "prefix sample_instance = Some (cstr ''/p/'' @ 0 # [])" by (simp add: sample_instance_def)
  from cloudi_subscribe_registers [OF sample_send_wf ei_format_bounded _ this, of "cstr ''x''" 7 "io_idle\<lparr>wr := [Wr_error EPIPE]\<rparr>"]
  show ?thesis unfolding s by (auto simp: cstr_def)
qed



text \<open>
  \<open>cloudi_shutdown\<close> reserves nothing for its reason: with a send buffer of \<open>n\<close> bytes a reason
  of up to \<open>n - 21\<close> and 65535 characters is sent inside the buffer (with at least its initial
  size), and one of at least \<open>n\<close> characters is always written past the end.
\<close>

theorem cloudi_shutdown_reason:
  assumes "send_wf p" and "length reason \<le> 65535"
  shows "(length reason + 21 \<le> m_size (buffer_send p) \<longrightarrow>
      (\<forall>ei. ei_bounded ei \<longrightarrow> fst (cloudi_shutdown ei (Some reason) (p, w)) \<noteq> Undefined))
    \<and> (m_size (buffer_send p) \<le> length reason \<longrightarrow>
      fst (cloudi_shutdown ei_format (Some reason) (p, w)) = Undefined)"
proof (intro conjI impI allI)
  fix ei
  assume a: "length reason + 21 \<le> m_size (buffer_send p)" "ei_bounded ei"
  let ?st = "[Encode ei_version, Encode (ei_tuple_header 2), Encode (ei_atom (cstr ''shutdown'')),
    Encode (ei_string reason)]"
  have "fits ei ?st (header_size (use_header p)) (m_size (buffer_send p))"
    by (rule fits_bound_fits [OF _ a(2) order_refl order_refl])
      (use assms a(1) header_size_le [of "use_header p"] in \<open>auto simp: send_wf_def\<close>)
  then show "fst (cloudi_shutdown ei (Some reason) (p, w)) \<noteq> Undefined"
    by (cases rule: send_message_cases [OF assms(1), of ei ?st w]) (simp_all add: cloudi_shutdown_def)
next
  assume "m_size (buffer_send p) \<le> length reason"
  moreover have "m_alloc (buffer_send p) = m_size (buffer_send p)" "32768 \<le> m_size (buffer_send p)"
    using assms(1) by (simp_all add: send_wf_def rp_wf_def)
  ultimately have "emit ei_format [Encode ei_version, Encode (ei_tuple_header 2), Encode (ei_atom (cstr ''shutdown'')),
      Encode (ei_string reason)] (header_size (use_header p)) (buffer_send p) w = (Undefined, w)"
    using assms(2) header_size_le [of "use_header p"] by (auto simp: rp_put_def)
  then show "fst (cloudi_shutdown ei_format (Some reason) (p, w)) = Undefined"
    by (simp add: cloudi_shutdown_def send_message_def emit_send_def)
qed

theorem cloudi_shutdown_reason_witness:
  "fst (cloudi_shutdown ei_format (Some (replicate 40000 65)) (sample_instance, io_idle)) = Undefined
   \<and> fst (cloudi_shutdown ei_format (Some (replicate 10 65)) (sample_instance, io_idle)) \<noteq> Undefined"
proof -
  have n: "m_size (buffer_send sample_instance) = 32768" by (simp add: sample_instance_def sample_buffer_def)
  show ?thesis
    using cloudi_shutdown_reason [OF sample_send_wf, of "replicate 40000 65" io_idle]
      cloudi_shutdown_reason [OF sample_send_wf, of "replicate 10 65" io_idle] ei_format_bounded
    unfolding n length_replicate by auto
qed

end
