(* ===== verification/Buffers.thy ===== *)
theory Buffers
  imports Realloc_Ptr
begin

text \<open>
  Bytes and C strings at an offset of a buffer, shared by the theories that decode messages.
\<close>

section \<open>C strings\<close>

text \<open>A C string at an offset: up to the first NUL, undefined if there is none in the block.\<close>

fun cstr_scan :: "nat \<Rightarrow> nat \<Rightarrow> byte memory \<Rightarrow> bytes outcome" where
  "cstr_scan 0 off m = Undefined"
| "cstr_scan (Suc n) off m =
     (case m off of
        None \<Rightarrow> Undefined
      | Some c \<Rightarrow> if c = 0 then Ok [] else bind_outcome (cstr_scan n (Suc off) m) (\<lambda>cs. Ok (c # cs)))"

definition rp_cstr :: "nat \<Rightarrow> byte realloc_ptr \<Rightarrow> bytes outcome" where
  "rp_cstr off buf = cstr_scan (m_alloc buf - off) off (m_p buf)"

section \<open>Bytes in a buffer\<close>

definition holds :: "byte realloc_ptr \<Rightarrow> nat \<Rightarrow> bytes \<Rightarrow> bool" where
  "holds buf off bs \<longleftrightarrow>
     rp_wf buf \<and> off + length bs \<le> m_size buf \<and> mem_read off (length bs) (m_p buf) = Some bs"

lemma holds_append: "holds buf off (xs @ ys) \<longleftrightarrow> holds buf off xs \<and> holds buf (off + length xs) ys"
proof
  assume "holds buf off (xs @ ys)"
  then show "holds buf off xs \<and> holds buf (off + length xs) ys"
    using mem_read_split [of off "length xs" "length ys" "m_p buf" "xs @ ys"] by (auto simp: holds_def)
next
  assume "holds buf off xs \<and> holds buf (off + length xs) ys"
  then show "holds buf off (xs @ ys)"
    using mem_read_append [of off "length xs" "m_p buf" xs "length ys" ys] by (auto simp: holds_def)
qed

lemma holds_Cons: "xs \<noteq> [] \<Longrightarrow> holds buf off (x # xs) \<longleftrightarrow> holds buf off [x] \<and> holds buf (off + 1) xs"
  using holds_append [of buf off "[x]" xs] by simp

lemma holds_Cons_append: "holds buf off (x # xs @ ys) \<longleftrightarrow> holds buf off [x] \<and> holds buf (off + 1) (xs @ ys)"
  using holds_append [of buf off "[x]" "xs @ ys"] by simp

lemma u32_bytes_not_Nil [simp]: "u32_bytes v \<noteq> []"
  by (metis length_u32_bytes list.size(3) zero_neq_numeral)

lemma holds_concat:
  "holds buf off (concat ts) \<Longrightarrow> \<forall>t \<in> set ts. length t = n \<Longrightarrow> k < length ts \<Longrightarrow> holds buf (off + n * k) (ts ! k)"
proof (induction ts arbitrary: off k)
  case (Cons t ts)
  then have t: "holds buf off t" "holds buf (off + n) (concat ts)" by (auto simp: holds_append)
  show ?case
  proof (cases k)
    case (Suc j)
    with Cons.IH [OF t(2), of j] Cons.prems(2,3) show ?thesis by (simp add: ac_simps)
  qed (use t in simp)
qed simp

lemma holds_get: "holds buf off bs \<Longrightarrow> rp_get off (length bs) buf = Ok bs"
  by (simp add: holds_def rp_get_def rp_wf_def)

lemma cstr_holds:
  assumes "holds buf off (s @ [0])" and "0 \<notin> set s"
  shows "rp_cstr off buf = Ok s"
proof -
  have "cstr_scan n off m = Ok s" if "mem_read off (length (s @ [0])) m = Some (s @ [0])" "length s < n" for n m
    using that assms(2)
  proof (induction s arbitrary: n off)
    case Nil
    then show ?case by (cases n) (auto simp: mem_read_eq_Some)
  next
    case (Cons c s)
    then obtain k where n: "n = Suc k" by (cases n) auto
    have "m off = Some c" using Cons.prems(1) by (auto simp: mem_read_eq_Some)
    moreover have "mem_read (Suc off) (length (s @ [0])) m = Some (s @ [0])"
      using mem_read_split(2) [of off 1 "length (s @ [0])" m "c # s @ [0]"] Cons.prems(1) by simp
    ultimately show ?case using Cons.IH [of "Suc off" k] Cons.prems(2,3) n by auto
  qed
  then show ?thesis using assms(1) by (auto simp: holds_def rp_cstr_def rp_wf_def)
qed

end
