(* ===== verification/Api_Poll.thy ===== *)
theory Api_Poll
  imports Api_Send Buffers
begin

text \<open>
  Receiving messages (\<^verbatim>\<open>api/c/cloudi.cpp\<close>, from \<open>callback\<close> to \<open>cloudi_poll\<close>): decoding a frame
  from the receive buffer, the events that may follow a message in its frame, the dispatch of a
  request to its callback, and the loop of \<open>poll_request\<close>.

  The user's callbacks are a parameter \<open>run\<close>: what the code behind a callback does to the instance
  and the system, and whether it returns or throws. It gets the request as pointers into the call
  buffer, as the C function does. Every load asserts, as \<open>operator []\<close> does, that its first byte is
  inside the buffer, and is undefined if any byte is outside the block or was never written.
\<close>

section \<open>Messages\<close>

definition MESSAGE_INIT :: u32 where "MESSAGE_INIT = 1"
definition MESSAGE_SEND_ASYNC :: u32 where "MESSAGE_SEND_ASYNC = 2"
definition MESSAGE_SEND_SYNC :: u32 where "MESSAGE_SEND_SYNC = 3"
definition MESSAGE_RECV_ASYNC :: u32 where "MESSAGE_RECV_ASYNC = 4"
definition MESSAGE_RETURN_ASYNC :: u32 where "MESSAGE_RETURN_ASYNC = 5"
definition MESSAGE_RETURN_SYNC :: u32 where "MESSAGE_RETURN_SYNC = 6"
definition MESSAGE_RETURNS_ASYNC :: u32 where "MESSAGE_RETURNS_ASYNC = 7"
definition MESSAGE_KEEPALIVE :: u32 where "MESSAGE_KEEPALIVE = 8"
definition MESSAGE_REINIT :: u32 where "MESSAGE_REINIT = 9"
definition MESSAGE_SUBSCRIBE_COUNT :: u32 where "MESSAGE_SUBSCRIBE_COUNT = 10"
definition MESSAGE_TERM :: u32 where "MESSAGE_TERM = 11"

lemmas message_defs = MESSAGE_INIT_def MESSAGE_SEND_ASYNC_def MESSAGE_SEND_SYNC_def
  MESSAGE_RECV_ASYNC_def MESSAGE_RETURN_ASYNC_def MESSAGE_RETURN_SYNC_def
  MESSAGE_RETURNS_ASYNC_def MESSAGE_KEEPALIVE_def MESSAGE_REINIT_def
  MESSAGE_SUBSCRIBE_COUNT_def MESSAGE_TERM_def

section \<open>Loads\<close>

definition addr_at :: "byte realloc_ptr \<Rightarrow> u32 \<Rightarrow> nat outcome" where
  "addr_at buf index = (if unat index < m_size buf then Ok (unat index) else Raise assert_exception)"

definition store_incoming_uint32 :: "byte realloc_ptr \<Rightarrow> u32 \<Rightarrow> (u32 \<times> u32) outcome" where
  "store_incoming_uint32 buf index =
     bind_outcome (addr_at buf index) (\<lambda>a.
     bind_outcome (rp_get a 4 buf) (\<lambda>bs.
     Ok (u32_of bs, index + 4)))"

definition store_incoming_int8 :: "byte realloc_ptr \<Rightarrow> u32 \<Rightarrow> (8 word \<times> u32) outcome" where
  "store_incoming_int8 buf index =
     bind_outcome (addr_at buf index) (\<lambda>a.
     bind_outcome (rp_get a 1 buf) (\<lambda>bs.
     Ok (hd bs, index + 1)))"

definition store_incoming_binary :: "byte realloc_ptr \<Rightarrow> u32 \<Rightarrow> (bytes \<times> u32) outcome" where
  "store_incoming_binary buf index =
     bind_outcome (store_incoming_uint32 buf index) (\<lambda>(size, index).
     bind_outcome (addr_at buf index) (\<lambda>a.
     bind_outcome (rp_get a (unat size) buf) (\<lambda>bs.
     Ok (bs, index + size))))"

text \<open>Loads from the receive buffer into a member of the instance; the result is the new index.\<close>

definition recv_uint32 :: "(u32 \<Rightarrow> cloudi_instance_t \<Rightarrow> cloudi_instance_t) \<Rightarrow> u32 \<Rightarrow> u32 call" where
  "recv_uint32 upd index = (\<lambda>(p, w).
     case store_incoming_uint32 (buffer_recv p) index of
       Ok (v, index') \<Rightarrow> (Ok index', (upd v p, w))
     | Raise e \<Rightarrow> (Raise e, (p, w))
     | _ \<Rightarrow> (Undefined, (p, w)))"

definition recv_int8 :: "(8 word \<Rightarrow> cloudi_instance_t \<Rightarrow> cloudi_instance_t) \<Rightarrow> u32 \<Rightarrow> u32 call" where
  "recv_int8 upd index = (\<lambda>(p, w).
     case store_incoming_int8 (buffer_recv p) index of
       Ok (v, index') \<Rightarrow> (Ok index', (upd v p, w))
     | Raise e \<Rightarrow> (Raise e, (p, w))
     | _ \<Rightarrow> (Undefined, (p, w)))"

definition recv_binary :: "(bytes \<Rightarrow> cloudi_instance_t \<Rightarrow> cloudi_instance_t) \<Rightarrow> u32 \<Rightarrow> u32 call" where
  "recv_binary upd index = (\<lambda>(p, w).
     case store_incoming_binary (buffer_recv p) index of
       Ok (v, index') \<Rightarrow> (Ok index', (upd v p, w))
     | Raise e \<Rightarrow> (Raise e, (p, w))
     | _ \<Rightarrow> (Undefined, (p, w)))"

text \<open>\<open>&buffer_recv[index]\<close> stored in a member.\<close>

definition recv_addr :: "(nat \<Rightarrow> cloudi_instance_t \<Rightarrow> cloudi_instance_t) \<Rightarrow> u32 \<Rightarrow> unit call" where
  "recv_addr upd index = (\<lambda>(p, w).
     case addr_at (buffer_recv p) index of
       Ok a \<Rightarrow> (Ok (), (upd a p, w))
     | Raise e \<Rightarrow> (Raise e, (p, w))
     | _ \<Rightarrow> (Undefined, (p, w)))"

section \<open>Events\<close>

text \<open>
  One turn of the loop of \<open>handle_events\<close>. The function returns \<open>false\<close> with a result
  (\<open>Ev_stop\<close>), \<open>true\<close> (\<open>Ev_done\<close>), or goes on with the next command and index.
\<close>

datatype event_next = Ev_stop cloudi_status | Ev_done | Ev_more u32 u32

definition next_event :: "u32 \<Rightarrow> event_next call" where
  "next_event index = (\<lambda>(p, w).
     if index > buffer_recv_index p then (Ok (Ev_stop cloudi_error_read_underflow), (p, w))
     else if index = buffer_recv_index p then (Ok Ev_done, (p, w))
     else
       (case store_incoming_uint32 (buffer_recv p) index of
          Ok (command, index') \<Rightarrow> (Ok (Ev_more command index'), (p, w))
        | Raise e \<Rightarrow> (Raise e, (p, w))
        | _ \<Rightarrow> (Undefined, (p, w))))"

definition recv_reinit :: "u32 \<Rightarrow> u32 call" where
  "recv_reinit index =
     bind_state (recv_uint32 (\<lambda>v p. p\<lparr>process_count := v\<rparr>) index) (\<lambda>index.
     bind_state (recv_uint32 (\<lambda>v p. p\<lparr>timeout_async := v\<rparr>) index) (\<lambda>index.
     bind_state (recv_uint32 (\<lambda>v p. p\<lparr>timeout_sync := v\<rparr>) index) (\<lambda>index.
     recv_int8 (\<lambda>v p. p\<lparr>priority_default := v\<rparr>) index)))"

definition handle_event :: "ei_encoder \<Rightarrow> bool \<Rightarrow> u32 \<Rightarrow> u32 \<Rightarrow> event_next call" where
  "handle_event ei external command index =
     (if command = MESSAGE_TERM then
        (\<lambda>(p, w). (Ok (Ev_stop (if external then cloudi_success else cloudi_terminate)),
                   (p\<lparr>terminate := True\<rparr>, w)))
      else if command = MESSAGE_REINIT then bind_state (recv_reinit index) next_event
      else if command = MESSAGE_KEEPALIVE then
        bind_state (keepalive ei) (\<lambda>result.
          if result \<noteq> cloudi_success then Pair (Ok (Ev_stop result)) else next_event index)
      else Pair (Ok (Ev_stop cloudi_error_read_underflow)))"

text \<open>
  The loop: \<open>None\<close> if it never ends (the 32-bit index may wrap around in a frame of nearly 4 GB).
  The value is the result of a \<open>false\<close> return, or \<open>None\<close> for \<open>true\<close>.
\<close>

partial_function (option) events_loop :: "ei_encoder \<Rightarrow> bool \<Rightarrow> u32 \<Rightarrow> u32 \<Rightarrow> api
    \<Rightarrow> (cloudi_status option outcome \<times> api) option" where
  "events_loop ei external command index s =
     (case handle_event ei external command index s of
        (Ok r, s') \<Rightarrow>
          (case r of
             Ev_stop result \<Rightarrow> Some (Ok (Some result), s')
           | Ev_done \<Rightarrow> Some (Ok None, s')
           | Ev_more command' index' \<Rightarrow> events_loop ei external command' index' s')
      | (Raise e, s') \<Rightarrow> Some (Raise e, s')
      | (Undefined, s') \<Rightarrow> Some (Undefined, s')
      | (Exited i, s') \<Rightarrow> Some (Exited i, s')
      | (Blocked, s') \<Rightarrow> Some (Blocked, s'))"

definition run_events :: "ei_encoder \<Rightarrow> bool \<Rightarrow> u32 \<Rightarrow> u32 \<Rightarrow> cloudi_status option call" where
  "run_events ei external command index s =
     (case events_loop ei external command index s of None \<Rightarrow> (Blocked, s) | Some r \<Rightarrow> r)"

definition handle_events :: "ei_encoder \<Rightarrow> bool \<Rightarrow> u32 \<Rightarrow> u32 \<Rightarrow> cloudi_status option call" where
  "handle_events ei external index command =
     (if command = 0 then
        (\<lambda>(p, w).
           if index > buffer_recv_index p then (Ok (Some cloudi_error_read_underflow), (p, w))
           else
             (case store_incoming_uint32 (buffer_recv p) index of
                Ok (command, index') \<Rightarrow> run_events ei external command index' (p, w)
              | Raise e \<Rightarrow> (Raise e, (p, w))
              | _ \<Rightarrow> (Undefined, (p, w))))
      else run_events ei external command index)"

section \<open>Requests\<close>

text \<open>A request as \<open>poll_request\<close> passes it on: offsets into the call buffer, and sizes.\<close>

record request =
  rq_name :: nat
  rq_pattern :: nat
  rq_request_info :: nat
  rq_request_info_size :: u32
  rq_request :: nat
  rq_request_size :: u32
  rq_timeout :: u32
  rq_priority :: "8 word"
  rq_trans_id :: nat
  rq_pid :: nat
  rq_pid_size :: u32

type_synonym runner = "callback_function \<Rightarrow> int \<Rightarrow> request \<Rightarrow> unit call"

definition parse_request :: "byte realloc_ptr \<Rightarrow> u32 \<Rightarrow> (request \<times> u32) outcome" where
  "parse_request buf index =
     bind_outcome (store_incoming_uint32 buf index) (\<lambda>(name_size, index).
     bind_outcome (addr_at buf index) (\<lambda>name.
     bind_outcome (store_incoming_uint32 buf (index + name_size)) (\<lambda>(pattern_size, index).
     bind_outcome (addr_at buf index) (\<lambda>pattern.
     bind_outcome (store_incoming_uint32 buf (index + pattern_size)) (\<lambda>(request_info_size, index).
     bind_outcome (addr_at buf index) (\<lambda>request_info.
     bind_outcome (store_incoming_uint32 buf (index + (request_info_size + 1))) (\<lambda>(request_size, index).
     bind_outcome (addr_at buf index) (\<lambda>request.
     bind_outcome (store_incoming_uint32 buf (index + (request_size + 1))) (\<lambda>(request_timeout, index).
     bind_outcome (store_incoming_int8 buf index) (\<lambda>(priority, index).
     bind_outcome (addr_at buf index) (\<lambda>tid.
     bind_outcome (store_incoming_uint32 buf (index + 16)) (\<lambda>(pid_size, index).
     bind_outcome (addr_at buf index) (\<lambda>pid.
     Ok (\<lparr>rq_name = name, rq_pattern = pattern, rq_request_info = request_info,
           rq_request_info_size = request_info_size, rq_request = request,
           rq_request_size = request_size, rq_timeout = request_timeout, rq_priority = priority,
           rq_trans_id = tid, rq_pid = pid, rq_pid_size = pid_size\<rparr>, index + pid_size))))))))))))))"

definition call_function :: "runner \<Rightarrow> callback_function \<Rightarrow> int \<Rightarrow> request \<Rightarrow> unit call" where
  "call_function run f request_type rq =
     (if f = callback_null_response then Pair (Ok ()) else run f request_type rq)"

text \<open>
  The null response after a callback that returned or failed: \<open>cloudi_return\<close> with the strings and
  the identifiers that the request's pointers show now. If the callback made the call buffer grow,
  its block was reallocated and the pointers are dangling; \<open>alloc\<close> is the size it had.
\<close>

definition null_response :: "ei_encoder \<Rightarrow> (bytes \<Rightarrow> nat option) \<Rightarrow> nat \<Rightarrow> int \<Rightarrow> request \<Rightarrow> cloudi_status call" where
  "null_response ei dv alloc request_type rq = (\<lambda>(p, w).
     let buf = buffer_call p
     in if m_alloc buf \<noteq> alloc then (Undefined, (p, w))
        else
          (case bind_outcome (rp_cstr (rq_name rq) buf) (\<lambda>name.
                bind_outcome (rp_cstr (rq_pattern rq) buf) (\<lambda>pattern.
                bind_outcome (rp_get (rq_trans_id rq) 16 buf) (\<lambda>tid.
                bind_outcome (rp_get (rq_pid rq) (unat (rq_pid_size rq)) buf) (\<lambda>pid.
                Ok (name, pattern, tid, pid))))) of
             Ok (name, pattern, tid, pid) \<Rightarrow>
               cloudi_return ei dv request_type name pattern [] [] (rq_timeout rq) tid pid (p, w)
           | _ \<Rightarrow> (Undefined, (p, w))))"

text \<open>
  One branch of \<open>callback\<close>: \<open>own\<close> are the exceptions of its request type (a sent response or
  forward), \<open>other\<close> those of the other one. The exceptions of the standard and boost hierarchies are
  reported and answered with a null response; anything else leaves \<open>callback\<close>.
\<close>

definition callback_branch :: "ei_encoder \<Rightarrow> (bytes \<Rightarrow> nat option) \<Rightarrow> runner \<Rightarrow> callback_function \<Rightarrow> int
    \<Rightarrow> cxx_exception list \<Rightarrow> cxx_exception list \<Rightarrow> cxx_exception \<Rightarrow> request \<Rightarrow> unit call" where
  "callback_branch ei dv run f request_type own other returned rq = (\<lambda>(p, w).
     let alloc = m_alloc (buffer_call p);
         null = (\<lambda>s. case null_response ei dv alloc request_type rq s of
                        (Raise e, s') \<Rightarrow> if e = returned then (Ok (), s') else (Raise e, s')
                      | (Ok result, s') \<Rightarrow> (Raise assert_exception, s')
                      | (Exited i, s') \<Rightarrow> (Exited i, s')
                      | (Undefined, s') \<Rightarrow> (Undefined, s')
                      | (Blocked, s') \<Rightarrow> (Blocked, s'))
     in case call_function run f request_type rq (p, w) of
          (Ok _, s') \<Rightarrow> null s'
        | (Raise e, s') \<Rightarrow>
            if e \<in> set own then (Ok (), s')
            else if e \<in> set other then (Raise assert_exception, s')
            else if e = foreign_exception then (Raise e, s')
            else null s'
        | (Exited i, s') \<Rightarrow> (Exited i, s')
        | (Undefined, s') \<Rightarrow> (Undefined, s')
        | (Blocked, s') \<Rightarrow> (Blocked, s'))"

definition callback :: "ei_encoder \<Rightarrow> (bytes \<Rightarrow> nat option) \<Rightarrow> runner \<Rightarrow> u32 \<Rightarrow> request \<Rightarrow> unit call" where
  "callback ei dv run command rq = (\<lambda>(p, w).
     case bind_outcome (rp_cstr (rq_pattern rq) (buffer_call p)) (\<lambda>pattern. lookup_find pattern (lookup p)) of
       Ok (f, t) \<Rightarrow>
         (if command = MESSAGE_SEND_ASYNC then
            callback_branch ei dv run f CLOUDI_ASYNC
              [return_async_exception, forward_async_exception]
              [return_sync_exception, forward_sync_exception] return_async_exception rq
          else if command = MESSAGE_SEND_SYNC then
            callback_branch ei dv run f CLOUDI_SYNC
              [return_sync_exception, forward_sync_exception]
              [return_async_exception, forward_async_exception] return_sync_exception rq
          else Pair (Raise assert_exception)) (p\<lparr>lookup := t\<rparr>, w)
     | Raise e \<Rightarrow> (Raise e, (p, w))
     | _ \<Rightarrow> (Undefined, (p, w)))"

section \<open>One message\<close>

text \<open>
  How the \<open>switch\<close> of \<open>poll_request\<close> leaves a message: with a return, with \<open>continue\<close> (the next
  message is in the same frame, at the index), or with \<open>break\<close> (poll again).
\<close>

datatype poll_next = Return cloudi_status | Continue u32 | Repoll

text \<open>
  The end of most messages: what is left of the frame must be events, which are expected only for
  polls of one kind (\<open>expected\<close>), and then the frame is done.
\<close>

definition end_of_message :: "ei_encoder \<Rightarrow> bool \<Rightarrow> bool \<Rightarrow> u32 \<Rightarrow> poll_next call \<Rightarrow> poll_next call" where
  "end_of_message ei external expected index k = (\<lambda>(p, w).
     if index \<noteq> buffer_recv_index p then
       (if external \<noteq> expected then (Raise assert_exception, (p, w))
        else
          bind_state (handle_events ei external index 0) (\<lambda>r.
            case r of
              Some result \<Rightarrow> Pair (Ok (Return result))
            | None \<Rightarrow> (\<lambda>(p, w). k (p\<lparr>buffer_recv_index := 0\<rparr>, w))) (p, w))
     else k (p\<lparr>buffer_recv_index := 0\<rparr>, w))"

definition message_init :: "ei_encoder \<Rightarrow> bool \<Rightarrow> u32 \<Rightarrow> poll_next call" where
  "message_init ei external index =
     bind_state (recv_uint32 (\<lambda>v p. p\<lparr>process_index := v\<rparr>) index) (\<lambda>index.
     bind_state (recv_uint32 (\<lambda>v p. p\<lparr>process_count := v\<rparr>) index) (\<lambda>index.
     bind_state (recv_uint32 (\<lambda>v p. p\<lparr>process_count_max := v\<rparr>) index) (\<lambda>index.
     bind_state (recv_uint32 (\<lambda>v p. p\<lparr>process_count_min := v\<rparr>) index) (\<lambda>index.
     bind_state (recv_binary (\<lambda>v p. p\<lparr>prefix := Some v\<rparr>) index) (\<lambda>index.
     bind_state (recv_uint32 (\<lambda>v p. p\<lparr>timeout_initialize := v\<rparr>) index) (\<lambda>index.
     bind_state (recv_uint32 (\<lambda>v p. p\<lparr>timeout_async := v\<rparr>) index) (\<lambda>index.
     bind_state (recv_uint32 (\<lambda>v p. p\<lparr>timeout_sync := v\<rparr>) index) (\<lambda>index.
     bind_state (recv_uint32 (\<lambda>v p. p\<lparr>timeout_terminate := v\<rparr>) index) (\<lambda>index.
     bind_state (recv_int8 (\<lambda>v p. p\<lparr>priority_default := v\<rparr>) index) (\<lambda>index.
     end_of_message ei external False index (Pair (Ok (Return cloudi_success)))))))))))))"

text \<open>
  \<open>buffer_call.copy(buffer_recv)\<close>, with its result ignored, as the code does: if the call buffer
  cannot grow, the request is parsed from its old contents.
\<close>

definition copy_to_call :: "unit call" where
  "copy_to_call = (\<lambda>(p, w).
     let src = buffer_recv p; dst = buffer_call p;
         ok = (case allocs w of [] \<Rightarrow> True | b # _ \<Rightarrow> b);
         w' = (if m_size dst \<le> m_size src \<and> m_size src \<le> m_maxSize dst then w\<lparr>allocs := tl (allocs w)\<rparr> else w)
     in case rp_copy ok src 0 dst of
          Ok (_, buf) \<Rightarrow> (Ok (), (p\<lparr>buffer_call := buf\<rparr>, w'))
        | Blocked \<Rightarrow> (Blocked, (p, w'))
        | _ \<Rightarrow> (Undefined, (p, w')))"

definition message_send :: "ei_encoder \<Rightarrow> (bytes \<Rightarrow> nat option) \<Rightarrow> runner \<Rightarrow> bool \<Rightarrow> u32 \<Rightarrow> u32 \<Rightarrow> poll_next call" where
  "message_send ei dv run external command index =
     bind_state copy_to_call (\<lambda>_ (p, w).
       case parse_request (buffer_call p) index of
         Ok (rq, index) \<Rightarrow>
           end_of_message ei external True index
             (bind_state (callback ei dv run command rq) (\<lambda>_. Pair (Ok Repoll))) (p, w)
       | Raise e \<Rightarrow> (Raise e, (p, w))
       | _ \<Rightarrow> (Undefined, (p, w)))"

definition message_response :: "ei_encoder \<Rightarrow> bool \<Rightarrow> u32 \<Rightarrow> poll_next call" where
  "message_response ei external index =
     bind_state (recv_uint32 (\<lambda>v p. p\<lparr>response_info_size := v\<rparr>) index) (\<lambda>index.
     bind_state (recv_addr (\<lambda>a p. p\<lparr>response_info := Some a\<rparr>) index) (\<lambda>_ (p, w).
     (let index = index + (response_info_size p + 1) in
      bind_state (recv_uint32 (\<lambda>v p. p\<lparr>response_size := v\<rparr>) index) (\<lambda>index.
      bind_state (recv_addr (\<lambda>a p. p\<lparr>response := Some a\<rparr>) index) (\<lambda>_ (p, w).
      (let index = index + (response_size p + 1) in
       bind_state (recv_addr (\<lambda>a p. p\<lparr>trans_id := Some a\<rparr>) index) (\<lambda>_.
       end_of_message ei external False (index + 16) (Pair (Ok (Return cloudi_success)))))
        (p\<lparr>trans_id_count := 1\<rparr>, w)))) (p, w)))"

definition message_return_async :: "ei_encoder \<Rightarrow> bool \<Rightarrow> u32 \<Rightarrow> poll_next call" where
  "message_return_async ei external index = (\<lambda>(p, w).
     bind_state (recv_addr (\<lambda>a p. p\<lparr>trans_id := Some a\<rparr>) index) (\<lambda>_.
     end_of_message ei external False (index + 16) (Pair (Ok (Return cloudi_success))))
       (p\<lparr>trans_id_count := 1\<rparr>, w))"

definition message_returns_async :: "ei_encoder \<Rightarrow> bool \<Rightarrow> u32 \<Rightarrow> poll_next call" where
  "message_returns_async ei external index =
     bind_state (recv_uint32 (\<lambda>v p. p\<lparr>trans_id_count := v\<rparr>) index) (\<lambda>index.
     bind_state (recv_addr (\<lambda>a p. p\<lparr>trans_id := Some a\<rparr>) index) (\<lambda>_ (p, w).
     end_of_message ei external False (index + 16 * trans_id_count p)
       (Pair (Ok (Return cloudi_success))) (p, w)))"

definition message_subscribe_count :: "ei_encoder \<Rightarrow> bool \<Rightarrow> u32 \<Rightarrow> poll_next call" where
  "message_subscribe_count ei external index =
     bind_state (recv_uint32 (\<lambda>v p. p\<lparr>subscribe_count := v\<rparr>) index) (\<lambda>index.
     end_of_message ei external False index (Pair (Ok (Return cloudi_success))))"

definition message_term :: "ei_encoder \<Rightarrow> bool \<Rightarrow> u32 \<Rightarrow> poll_next call" where
  "message_term ei external index =
     bind_state (handle_events ei external index MESSAGE_TERM) (\<lambda>r.
       case r of
         Some result \<Rightarrow> Pair (Ok (Return result))
       | None \<Rightarrow> Pair (Raise assert_exception))"

text \<open>After an event in front of a frame: end of the frame, the next message, or an underflow.\<close>

definition after_event :: "u32 \<Rightarrow> poll_next call" where
  "after_event index = (\<lambda>(p, w).
     if index = buffer_recv_index p then (Ok Repoll, (p\<lparr>buffer_recv_index := 0\<rparr>, w))
     else if index < buffer_recv_index p then (Ok (Continue index), (p, w))
     else (Ok (Return cloudi_error_read_underflow), (p, w)))"

text \<open>\<open>return false\<close> after a failed \<open>keepalive\<close> is the status 0, \<open>cloudi_success\<close>.\<close>

definition message_keepalive :: "ei_encoder \<Rightarrow> u32 \<Rightarrow> poll_next call" where
  "message_keepalive ei index =
     bind_state (keepalive ei) (\<lambda>result.
       if result \<noteq> cloudi_success then Pair (Ok (Return cloudi_success)) else after_event index)"

definition poll_message :: "ei_encoder \<Rightarrow> (bytes \<Rightarrow> nat option) \<Rightarrow> runner \<Rightarrow> bool \<Rightarrow> u32 \<Rightarrow> poll_next call" where
  "poll_message ei dv run external index = (\<lambda>(p, w).
     case store_incoming_uint32 (buffer_recv p) index of
       Ok (command, index) \<Rightarrow>
         (if command = MESSAGE_INIT then message_init ei external index
          else if command = MESSAGE_SEND_ASYNC \<or> command = MESSAGE_SEND_SYNC then
            message_send ei dv run external command index
          else if command = MESSAGE_RECV_ASYNC \<or> command = MESSAGE_RETURN_SYNC then
            message_response ei external index
          else if command = MESSAGE_RETURN_ASYNC then message_return_async ei external index
          else if command = MESSAGE_RETURNS_ASYNC then message_returns_async ei external index
          else if command = MESSAGE_SUBSCRIBE_COUNT then message_subscribe_count ei external index
          else if command = MESSAGE_TERM then message_term ei external index
          else if command = MESSAGE_REINIT then bind_state (recv_reinit index) after_event
          else if command = MESSAGE_KEEPALIVE then message_keepalive ei index
          else Pair (Ok (Return cloudi_error_read_underflow))) (p, w)
     | Raise e \<Rightarrow> (Raise e, (p, w))
     | _ \<Rightarrow> (Undefined, (p, w)))"

section \<open>Polling\<close>

text \<open>
  The timer measures in nanoseconds; \<open>::round(poll_timer.elapsed() * 1000.0)\<close> is the number of
  milliseconds, rounded to the nearest (the doubles are taken as exact). A number outside the range
  of \<open>int\<close> is undefined.
\<close>

definition timer_restart :: "unit call" where
  "timer_restart = (\<lambda>(p, w).
     case c_clock w of
       (Ok t, w') \<Rightarrow> (Ok (), (p\<lparr>poll_timer := t\<rparr>, w'))
     | (_, w') \<Rightarrow> (Blocked, (p, w')))"

definition round_ms :: "int \<Rightarrow> int" where
  "round_ms ns = (if 0 \<le> ns then (ns + 500000) div 1000000 else - ((- ns + 500000) div 1000000))"

definition timer_elapsed_ms :: "int call" where
  "timer_elapsed_ms = (\<lambda>(p, w).
     case c_clock w of
       (Ok t, w') \<Rightarrow>
         (let ms = round_ms (t - poll_timer p)
          in if - (2 ^ 31) \<le> ms \<and> ms < 2 ^ 31 then (Ok ms, (p, w')) else (Undefined, (p, w')))
     | (_, w') \<Rightarrow> (Blocked, (p, w')))"

text \<open>
  Waiting for a frame and reading it: \<open>Some status\<close> if \<open>poll_request\<close> returns at once. The timeout
  given to \<open>poll\<close> is the environment's business: it answers with no event when the time is over.
\<close>

definition poll_frame :: "cloudi_status option call" where
  "poll_frame = (\<lambda>(p, w).
     case c_poll 1 w of
       (Ok (Inl e), w1) \<Rightarrow> (Ok (Some (cloudi_errno_poll e)), (p, w1))
     | (Ok (Inr revents), w1) \<Rightarrow>
         if poll_count revents = 0 then (Ok (Some cloudi_timeout), (p, w1))
         else
           (case read_all (fd_in p) (use_header p) (buffer_recv p) (unat (buffer_size p)) w1 of
              (Ok (status, buf, tot), w2) \<Rightarrow>
                (let p' = p\<lparr>buffer_recv := buf, buffer_recv_index := word_of_nat tot\<rparr>
                 in if status \<noteq> cloudi_success then (Ok (Some status), (p', w2))
                    else if buffer_recv_index p' = 0 then (Ok (Some cloudi_error_read_underflow), (p', w2))
                    else (Ok None, (p', w2)))
            | (Raise e, w2) \<Rightarrow> (Raise e, (p, w2))
            | (Undefined, w2) \<Rightarrow> (Undefined, (p, w2))
            | (_, w2) \<Rightarrow> (Blocked, (p, w2)))
     | (_, w1) \<Rightarrow> (Blocked, (p, w1)))"

definition start_timer :: "int \<Rightarrow> unit call" where
  "start_timer timeout = (if timeout > 0 then timer_restart else Pair (Ok ()))"

text \<open>
  The tail of the loop: the time used is taken off a positive timeout; \<open>Inl\<close> is a return,
  \<open>Inr\<close> the timeout to go on with.
\<close>

definition repoll :: "int \<Rightarrow> (cloudi_status + int) call" where
  "repoll timeout =
     bind_state
       (if timeout > 0
        then bind_state timer_elapsed_ms (\<lambda>ms. Pair (Ok (timeout - min ms timeout)))
        else Pair (Ok timeout)) (\<lambda>timeout.
     if timeout = 0 then Pair (Ok (Inl cloudi_timeout))
     else
       bind_state (start_timer timeout) (\<lambda>_.
       bind_state poll_frame (\<lambda>r.
         case r of
           Some status \<Rightarrow> Pair (Ok (Inl status))
         | None \<Rightarrow> Pair (Ok (Inr timeout)))))"

partial_function (option) poll_loop :: "ei_encoder \<Rightarrow> (bytes \<Rightarrow> nat option) \<Rightarrow> runner \<Rightarrow> int \<Rightarrow> bool \<Rightarrow> u32 \<Rightarrow> api
    \<Rightarrow> (cloudi_status outcome \<times> api) option" where
  "poll_loop ei dv run timeout external index s =
     (case poll_message ei dv run external index s of
        (Ok r, s') \<Rightarrow>
          (case r of
             Return status \<Rightarrow> Some (Ok status, s')
           | Continue index' \<Rightarrow> poll_loop ei dv run timeout external index' s'
           | Repoll \<Rightarrow>
               (case repoll timeout s' of
                  (Ok q, s'') \<Rightarrow>
                    (case q of
                       Inl status \<Rightarrow> Some (Ok status, s'')
                     | Inr timeout' \<Rightarrow> poll_loop ei dv run timeout' external 0 s'')
                | (Raise e, s'') \<Rightarrow> Some (Raise e, s'')
                | (Undefined, s'') \<Rightarrow> Some (Undefined, s'')
                | (Exited i, s'') \<Rightarrow> Some (Exited i, s'')
                | (Blocked, s'') \<Rightarrow> Some (Blocked, s'')))
      | (Raise e, s') \<Rightarrow> Some (Raise e, s')
      | (Undefined, s') \<Rightarrow> Some (Undefined, s')
      | (Exited i, s') \<Rightarrow> Some (Exited i, s')
      | (Blocked, s') \<Rightarrow> Some (Blocked, s'))"

definition poll_messages :: "ei_encoder \<Rightarrow> (bytes \<Rightarrow> nat option) \<Rightarrow> runner \<Rightarrow> int \<Rightarrow> bool \<Rightarrow> cloudi_status call" where
  "poll_messages ei dv run timeout external s =
     (case poll_loop ei dv run timeout external 0 s of None \<Rightarrow> (Blocked, s) | Some r \<Rightarrow> r)"

text \<open>
  An external poll (\<open>cloudi_poll\<close>) first tells the service, once, that the initialisation is
  complete. After a termination message every poll returns at once.
\<close>

definition poll_request :: "ei_encoder \<Rightarrow> (bytes \<Rightarrow> nat option) \<Rightarrow> runner \<Rightarrow> int \<Rightarrow> bool \<Rightarrow> cloudi_status call" where
  "poll_request ei dv run timeout external = (\<lambda>(p, w).
     if terminate p then (Ok cloudi_success, (p, w))
     else
       bind_state
         (if external \<and> \<not> initialization_complete p
          then bind_state (polling ei) (\<lambda>result (p, w).
                 if result \<noteq> cloudi_success then (Ok (Some result), (p, w))
                 else (Ok None, (p\<lparr>initialization_complete := True\<rparr>, w)))
          else Pair (Ok None)) (\<lambda>early.
         case early of
           Some result \<Rightarrow> Pair (Ok result)
         | None \<Rightarrow>
             bind_state (start_timer timeout) (\<lambda>_.
             bind_state poll_frame (\<lambda>r.
               case r of
                 Some status \<Rightarrow> Pair (Ok status)
               | None \<Rightarrow> poll_messages ei dv run timeout external))) (p, w))"

definition cloudi_poll :: "ei_encoder \<Rightarrow> (bytes \<Rightarrow> nat option) \<Rightarrow> runner \<Rightarrow> int \<Rightarrow> cloudi_status call" where
  "cloudi_poll ei dv run timeout = poll_request ei dv run timeout True"

end
