(* ===== verification/Api_Protocol.thy ===== *)
theory Api_Protocol
  imports Api_Poll
begin

text \<open>
  The messages between the Erlang service process and the C API. The encoders are those of
  \<^verbatim>\<open>cloudi_core_i_services_external.erl\<close> (\<open>init_out\<close> to \<open>subscribe_count_out\<close>): integers in native
  byte order, strings with a terminating NUL, binaries followed by a NUL byte. The theorems show
  that \<open>poll_request\<close> decodes each of them: a frame that the service sends is understood by the API
  as the message it is, with the events that may follow it in the same frame.
\<close>

section \<open>Encoders of the service\<close>

definition init_out :: "u32 \<Rightarrow> u32 \<Rightarrow> u32 \<Rightarrow> u32 \<Rightarrow> bytes \<Rightarrow> u32 \<Rightarrow> u32 \<Rightarrow> u32 \<Rightarrow> u32 \<Rightarrow> 8 word \<Rightarrow> bytes" where
  "init_out index count count_max count_min pre t_init t_async t_sync t_term priority =
     u32_bytes MESSAGE_INIT @ u32_bytes index @ u32_bytes count @ u32_bytes count_max
     @ u32_bytes count_min @ u32_bytes (word_of_nat (length pre + 1)) @ pre @ [0]
     @ u32_bytes t_init @ u32_bytes t_async @ u32_bytes t_sync @ u32_bytes t_term @ [priority]"

definition reinit_out :: "u32 \<Rightarrow> u32 \<Rightarrow> u32 \<Rightarrow> 8 word \<Rightarrow> bytes" where
  "reinit_out count t_async t_sync priority =
     u32_bytes MESSAGE_REINIT @ u32_bytes count @ u32_bytes t_async @ u32_bytes t_sync @ [priority]"

definition terminate_out :: bytes where
  "terminate_out = u32_bytes MESSAGE_TERM"

definition keepalive_out :: bytes where
  "keepalive_out = u32_bytes MESSAGE_KEEPALIVE"

definition send_out :: "u32 \<Rightarrow> bytes \<Rightarrow> bytes \<Rightarrow> bytes \<Rightarrow> bytes \<Rightarrow> u32 \<Rightarrow> 8 word \<Rightarrow> bytes \<Rightarrow> bytes \<Rightarrow> bytes" where
  "send_out command name pattern request_info request timeout priority tid source =
     u32_bytes command
     @ u32_bytes (word_of_nat (length name + 1)) @ name @ [0]
     @ u32_bytes (word_of_nat (length pattern + 1)) @ pattern @ [0]
     @ u32_bytes (word_of_nat (length request_info)) @ request_info @ [0]
     @ u32_bytes (word_of_nat (length request)) @ request @ [0]
     @ u32_bytes timeout @ [priority] @ tid
     @ u32_bytes (word_of_nat (length source)) @ source"

definition send_async_out :: "bytes \<Rightarrow> bytes \<Rightarrow> bytes \<Rightarrow> bytes \<Rightarrow> u32 \<Rightarrow> 8 word \<Rightarrow> bytes \<Rightarrow> bytes \<Rightarrow> bytes" where
  "send_async_out = send_out MESSAGE_SEND_ASYNC"

definition send_sync_out :: "bytes \<Rightarrow> bytes \<Rightarrow> bytes \<Rightarrow> bytes \<Rightarrow> u32 \<Rightarrow> 8 word \<Rightarrow> bytes \<Rightarrow> bytes \<Rightarrow> bytes" where
  "send_sync_out = send_out MESSAGE_SEND_SYNC"

definition return_async_out :: "bytes \<Rightarrow> bytes" where
  "return_async_out tid = u32_bytes MESSAGE_RETURN_ASYNC @ tid"

definition response_out :: "u32 \<Rightarrow> bytes \<Rightarrow> bytes \<Rightarrow> bytes \<Rightarrow> bytes" where
  "response_out command resp_info resp tid =
     u32_bytes command
     @ u32_bytes (word_of_nat (length resp_info)) @ resp_info @ [0]
     @ u32_bytes (word_of_nat (length resp)) @ resp @ [0] @ tid"

definition return_sync_out :: "bytes \<Rightarrow> bytes \<Rightarrow> bytes \<Rightarrow> bytes" where
  "return_sync_out = response_out MESSAGE_RETURN_SYNC"

definition recv_async_out :: "bytes \<Rightarrow> bytes \<Rightarrow> bytes \<Rightarrow> bytes" where
  "recv_async_out = response_out MESSAGE_RECV_ASYNC"

definition returns_async_out :: "bytes list \<Rightarrow> bytes" where
  "returns_async_out tids =
     u32_bytes MESSAGE_RETURNS_ASYNC @ u32_bytes (word_of_nat (length tids)) @ concat tids"

definition subscribe_count_out :: "u32 \<Rightarrow> bytes" where
  "subscribe_count_out count = u32_bytes MESSAGE_SUBSCRIBE_COUNT @ u32_bytes count"

section \<open>Loads from a buffer\<close>

lemma unat_u32: "off < 2 ^ 32 \<Longrightarrow> unat (word_of_nat off :: u32) = off"
  by (simp add: unat_of_nat take_bit_eq_mod)

lemma addr_at_holds:
  "holds buf off bs \<Longrightarrow> bs \<noteq> [] \<Longrightarrow> off < 2 ^ 32 \<Longrightarrow> addr_at buf (word_of_nat off) = Ok off"
  by (cases bs) (auto simp: addr_at_def holds_def unat_u32)

lemma uint32_holds:
  assumes "holds buf off (u32_bytes v)" and "off < 2 ^ 32"
  shows "store_incoming_uint32 buf (word_of_nat off) = Ok (v, word_of_nat (off + 4))"
  using addr_at_holds [OF assms(1)] holds_get [OF assms(1)] assms(2)
  by (simp add: store_incoming_uint32_def)

lemma int8_holds:
  "holds buf off [b] \<Longrightarrow> off < 2 ^ 32 \<Longrightarrow>
   store_incoming_int8 buf (word_of_nat off) = Ok (b, word_of_nat (off + 1))"
  using addr_at_holds [of buf off "[b]"] holds_get [of buf off "[b]"] by (simp add: store_incoming_int8_def)

lemma binary_holds:
  assumes "holds buf off (u32_bytes (word_of_nat (length bs)) @ bs)" and "bs \<noteq> []" and "off + 4 + length bs < 2 ^ 32"
  shows "store_incoming_binary buf (word_of_nat off) = Ok (bs, word_of_nat (off + 4 + length bs))"
proof -
  have h: "holds buf off (u32_bytes (word_of_nat (length bs)))" "holds buf (off + 4) bs"
    using assms(1) by (simp_all add: holds_append)
  have "unat (word_of_nat (length bs) :: u32) = length bs" using assms(3) by (intro unat_u32) simp
  with uint32_holds [OF h(1)] addr_at_holds [OF h(2) assms(2)] holds_get [OF h(2)] assms(3) show ?thesis
    by (simp add: store_incoming_binary_def)
qed

lemma unat_Suc_word: "n + 1 < 2 ^ 32 \<Longrightarrow> (word_of_nat n :: u32) + 1 = word_of_nat (n + 1)"
  by simp

section \<open>Requests\<close>

text \<open>The offsets at which a request lies in the buffer, after the command.\<close>

definition request_at :: "nat \<Rightarrow> bytes \<Rightarrow> bytes \<Rightarrow> bytes \<Rightarrow> bytes \<Rightarrow> u32 \<Rightarrow> 8 word \<Rightarrow> bytes \<Rightarrow> request" where
  "request_at off name pattern request_info request timeout priority source =
     (let name_at = off + 4;
          pattern_at = name_at + length name + 5;
          info_at = pattern_at + length pattern + 5;
          request_at = info_at + length request_info + 5;
          tid_at = request_at + length request + 6;
          pid_at = tid_at + 20
      in \<lparr>rq_name = name_at, rq_pattern = pattern_at, rq_request_info = info_at,
          rq_request_info_size = word_of_nat (length request_info), rq_request = request_at,
          rq_request_size = word_of_nat (length request), rq_timeout = timeout,
          rq_priority = priority, rq_trans_id = tid_at, rq_pid = pid_at,
          rq_pid_size = word_of_nat (length source)\<rparr>)"

lemma parse_request_holds:
  assumes "holds buf off (drop 4 (send_out command name pattern request_info request timeout priority tid source))"
    and "length tid = 16" and "source \<noteq> []"
    and "off + length (send_out command name pattern request_info request timeout priority tid source) < 2 ^ 32 + 4"
  shows "parse_request buf (word_of_nat off)
    = Ok (request_at off name pattern request_info request timeout priority source,
          word_of_nat (off + length (send_out command name pattern request_info request timeout priority tid source) - 4))"
proof -
  have len: "length (send_out command name pattern request_info request timeout priority tid source)
      = length name + length pattern + length request_info + length request + length source + 49"
    using assms(2) by (simp add: send_out_def)
  let ?n = "off + 4" let ?pt = "?n + length name + 1" let ?i = "?pt + 4 + length pattern + 1"
  let ?r = "?i + 4 + length request_info + 1" let ?t = "?r + 4 + length request + 1" let ?s = "?t + 21"
  have h: "holds buf off (u32_bytes (word_of_nat (length name + 1)))" "holds buf ?n (name @ [0])"
    "holds buf ?pt (u32_bytes (word_of_nat (length pattern + 1)))" "holds buf (?pt + 4) (pattern @ [0])"
    "holds buf ?i (u32_bytes (word_of_nat (length request_info)))" "holds buf (?i + 4) (request_info @ [0])"
    "holds buf ?r (u32_bytes (word_of_nat (length request)))" "holds buf (?r + 4) (request @ [0])"
    "holds buf ?t (u32_bytes timeout)" "holds buf (?t + 4) [priority]" "holds buf (?t + 5) tid"
    "holds buf ?s (u32_bytes (word_of_nat (length source)))" "holds buf (?s + 4) source"
    using assms(1,2) by (simp_all add: send_out_def holds_append holds_Cons_append ac_simps)
  have b: "?s + 4 + length source < 2 ^ 32" using assms(4) unfolding len by simp
  have tid: "tid \<noteq> []" using assms(2) by auto
  show ?thesis
    unfolding parse_request_def len
    using uint32_holds [OF h(1)] addr_at_holds [OF h(2)] uint32_holds [OF h(3)] addr_at_holds [OF h(4)]
      uint32_holds [OF h(5)] addr_at_holds [OF h(6)] uint32_holds [OF h(7)] addr_at_holds [OF h(8)]
      uint32_holds [OF h(9)] int8_holds [OF h(10)] addr_at_holds [OF h(11) tid] uint32_holds [OF h(12)]
      addr_at_holds [OF h(13) assms(3)] b
    by (simp add: request_at_def Let_def add.assoc add.commute add.left_commute)
qed

section \<open>Loads into the instance\<close>

lemma recv_uint32_holds:
  "holds (buffer_recv p) off (u32_bytes v) \<Longrightarrow> off < 2 ^ 32 \<Longrightarrow>
   recv_uint32 upd (word_of_nat off) (p, w) = (Ok (word_of_nat (off + 4)), (upd v p, w))"
  by (simp add: recv_uint32_def uint32_holds)

lemma recv_int8_holds:
  "holds (buffer_recv p) off [b] \<Longrightarrow> off < 2 ^ 32 \<Longrightarrow>
   recv_int8 upd (word_of_nat off) (p, w) = (Ok (word_of_nat (off + 1)), (upd b p, w))"
  by (simp add: recv_int8_def int8_holds)

lemma recv_binary_holds:
  "holds (buffer_recv p) off (u32_bytes (word_of_nat (length bs)) @ bs) \<Longrightarrow> bs \<noteq> [] \<Longrightarrow>
   off + 4 + length bs < 2 ^ 32 \<Longrightarrow>
   recv_binary upd (word_of_nat off) (p, w) = (Ok (word_of_nat (off + 4 + length bs)), (upd bs p, w))"
  by (simp add: recv_binary_def binary_holds)

lemma recv_addr_holds:
  "holds (buffer_recv p) off bs \<Longrightarrow> bs \<noteq> [] \<Longrightarrow> off < 2 ^ 32 \<Longrightarrow>
   recv_addr upd (word_of_nat off) (p, w) = (Ok (), (upd off p, w))"
  by (simp add: recv_addr_def addr_at_holds)

lemma recv_reinit_holds:
  assumes "holds (buffer_recv p) off (u32_bytes count @ u32_bytes t_async @ u32_bytes t_sync @ [priority])"
    and "off + 13 < 2 ^ 32"
  shows "recv_reinit (word_of_nat off) (p, w) = (Ok (word_of_nat (off + 13)),
      (p\<lparr>process_count := count, timeout_async := t_async, timeout_sync := t_sync, priority_default := priority\<rparr>, w))"
proof -
  have h: "holds (buffer_recv p) off (u32_bytes count)" "holds (buffer_recv p) (off + 4) (u32_bytes t_async)"
      "holds (buffer_recv p) (off + 8) (u32_bytes t_sync)" "holds (buffer_recv p) (off + 12) [priority]"
    using assms(1) by (simp_all add: holds_append ac_simps)
  let ?p1 = "p\<lparr>process_count := count\<rparr>" let ?p2 = "?p1\<lparr>timeout_async := t_async\<rparr>"
  let ?p3 = "?p2\<lparr>timeout_sync := t_sync\<rparr>"
  have "recv_uint32 (\<lambda>v p. p\<lparr>process_count := v\<rparr>) (word_of_nat off) (p, w) = (Ok (word_of_nat (off + 4)), (?p1, w))"
    "recv_uint32 (\<lambda>v p. p\<lparr>timeout_async := v\<rparr>) (word_of_nat (off + 4)) (?p1, w) = (Ok (word_of_nat (off + 8)), (?p2, w))"
    "recv_uint32 (\<lambda>v p. p\<lparr>timeout_sync := v\<rparr>) (word_of_nat (off + 8)) (?p2, w) = (Ok (word_of_nat (off + 12)), (?p3, w))"
    "recv_int8 (\<lambda>v p. p\<lparr>priority_default := v\<rparr>) (word_of_nat (off + 12)) (?p3, w)
       = (Ok (word_of_nat (off + 13)), (?p3\<lparr>priority_default := priority\<rparr>, w))"
    using recv_uint32_holds [of p off count] recv_uint32_holds [of ?p1 "off + 4" t_async]
      recv_uint32_holds [of ?p2 "off + 8" t_sync] recv_int8_holds [of ?p3 "off + 12" priority] h assms(2)
    by (simp_all add: ac_simps del: of_nat_add)
  then show ?thesis by (simp add: recv_reinit_def del: of_nat_add)
qed

lemma send_message_frame:
  assumes "send_message ei steps (p, w) = (r, (p', w'))"
  shows "\<exists>buf. p' = p\<lparr>buffer_send := buf\<rparr>"
proof -
  have keep: "\<exists>buf. p = p\<lparr>buffer_send := buf\<rparr>" by (rule exI [of _ "buffer_send p"]) simp
  have e: "\<exists>buf. q = p\<lparr>buffer_send := buf\<rparr>" if "emit_send ei steps (p, w) = (x, (q, v))" for x q v
    using that keep by (auto simp: emit_send_def split: prod.splits outcome.splits)
  have f: "\<exists>buf. q' = q\<lparr>buffer_send := buf\<rparr>" if "flush_send index (q, v) = (x, (q', v'))" for index x q v q' v'
  proof -
    have "\<exists>buf. q = q\<lparr>buffer_send := buf\<rparr>" by (rule exI [of _ "buffer_send q"]) simp
    with that show ?thesis by (auto simp: flush_send_def split: prod.splits outcome.splits)
  qed
  obtain x q v where x: "emit_send ei steps (p, w) = (x, (q, v))" by (metis prod_cases3)
  from e [OF x] obtain buf where q: "q = p\<lparr>buffer_send := buf\<rparr>" by blast
  show ?thesis
  proof (cases "\<exists>index. x = Ok (cloudi_success, index)")
    case True
    then obtain index where "flush_send index (q, v) = (r, (p', w'))"
      using assms x by (auto simp: send_message_def)
    from f [OF this] q show ?thesis by auto
  next
    case False
    then have "p' = q" using assms x by (cases x) (auto simp: send_message_def split: if_splits)
    with q show ?thesis by blast
  qed
qed

section \<open>Events\<close>

text \<open>
  The abstract view of what follows a message in its frame: a sequence of events, and what they
  ask for. \<open>Unknown\<close> is any other command.
\<close>

datatype event = Keepalive | Reinit u32 u32 u32 "8 word" | Terminate | Unknown u32

fun event_out :: "event \<Rightarrow> bytes" where
  "event_out Keepalive = keepalive_out"
| "event_out (Reinit count t_async t_sync priority) = reinit_out count t_async t_sync priority"
| "event_out Terminate = terminate_out"
| "event_out (Unknown command) = u32_bytes command"

fun event_ok :: "event \<Rightarrow> bool" where
  "event_ok (Unknown command) \<longleftrightarrow>
     command \<noteq> 0 \<and> command \<noteq> MESSAGE_KEEPALIVE \<and> command \<noteq> MESSAGE_REINIT \<and> command \<noteq> MESSAGE_TERM"
| "event_ok _ \<longleftrightarrow> True"

fun event_command :: "event \<Rightarrow> u32" where
  "event_command Keepalive = MESSAGE_KEEPALIVE"
| "event_command (Reinit _ _ _ _) = MESSAGE_REINIT"
| "event_command Terminate = MESSAGE_TERM"
| "event_command (Unknown command) = command"

fun events_spec :: "ei_encoder \<Rightarrow> bool \<Rightarrow> event list \<Rightarrow> cloudi_status option call" where
  "events_spec ei external [] = Pair (Ok None)"
| "events_spec ei external (Keepalive # es) =
     bind_state (keepalive ei) (\<lambda>result.
       if result \<noteq> cloudi_success then Pair (Ok (Some result)) else events_spec ei external es)"
| "events_spec ei external (Reinit count t_async t_sync priority # es) = (\<lambda>(p, w).
     events_spec ei external es
       (p\<lparr>process_count := count, timeout_async := t_async, timeout_sync := t_sync,
          priority_default := priority\<rparr>, w))"
| "events_spec ei external (Terminate # es) = (\<lambda>(p, w).
     (Ok (Some (if external then cloudi_success else cloudi_terminate)), (p\<lparr>terminate := True\<rparr>, w)))"
| "events_spec ei external (Unknown command # es) = Pair (Ok (Some cloudi_error_read_underflow))"

definition events_out :: "event list \<Rightarrow> bytes" where
  "events_out es = concat (map event_out es)"

lemma event_out_command: "\<exists>rest. event_out e = u32_bytes (event_command e) @ rest"
  by (cases e) (simp_all add: keepalive_out_def reinit_out_def terminate_out_def)

lemma length_event_out: "4 \<le> length (event_out e)"
  using event_out_command [of e] by auto

lemma next_event_holds:
  assumes "holds (buffer_recv p) off (events_out es)"
    and "unat (buffer_recv_index p) = off + length (events_out es)"
  shows "next_event (word_of_nat off) (p, w) =
    (case es of
       [] \<Rightarrow> (Ok Ev_done, (p, w))
     | e # _ \<Rightarrow> (Ok (Ev_more (event_command e) (word_of_nat (off + 4))), (p, w)))"
proof -
  have r: "unat (buffer_recv_index p) < 2 ^ 32" using unsigned_less [of "buffer_recv_index p", where ?'a = nat] by simp
  then have b: "off + length (events_out es) < 2 ^ 32" using assms(2) by simp
  then have off: "unat (word_of_nat off :: u32) = off" by (intro unat_u32) simp
  show ?thesis
  proof (cases es)
    case Nil
    then have "word_of_nat off = buffer_recv_index p"
      using assms(2) off by (intro word_unat_eq_iff [THEN iffD2]) (simp add: events_out_def)
    with Nil show ?thesis by (simp add: next_event_def)
  next
    case (Cons e es')
    obtain rest where e: "event_out e = u32_bytes (event_command e) @ rest" using event_out_command by blast
    then have h: "holds (buffer_recv p) off (u32_bytes (event_command e))"
      using assms(1) Cons by (simp add: events_out_def holds_append)
    have "off < unat (buffer_recv_index p)"
      using assms(2) Cons length_event_out [of e] unfolding events_out_def by (simp del: length_greater_0_conv)
    then have "word_of_nat off < buffer_recv_index p" using off by (simp add: word_less_nat_alt)
    then show ?thesis
      using Cons uint32_holds [OF h] b by (auto simp: next_event_def)
  qed
qed

definition step_on :: "ei_encoder \<Rightarrow> bool \<Rightarrow> event_next outcome \<times> api
    \<Rightarrow> (cloudi_status option outcome \<times> api) option" where
  "step_on ei external x =
     (case x of
        (Ok r, s') \<Rightarrow>
          (case r of
             Ev_stop result \<Rightarrow> Some (Ok (Some result), s')
           | Ev_done \<Rightarrow> Some (Ok None, s')
           | Ev_more command' index' \<Rightarrow> events_loop ei external command' index' s')
      | (Raise e, s') \<Rightarrow> Some (Raise e, s')
      | (Undefined, s') \<Rightarrow> Some (Undefined, s')
      | (Exited i, s') \<Rightarrow> Some (Exited i, s')
      | (Blocked, s') \<Rightarrow> Some (Blocked, s'))"

lemma events_loop_step: "events_loop ei external c i s = step_on ei external (handle_event ei external c i s)"
  by (subst events_loop.simps) (simp add: step_on_def)

lemma step_on_bind:
  assumes "\<And>x s'. m s = (Ok x, s') \<Longrightarrow> step_on ei external (f x s') = Some (g x s')"
  shows "step_on ei external (bind_state m f s) = Some (bind_state m g s)"
proof -
  obtain r s' where "m s = (r, s')" by (metis surj_pair)
  with assms show ?thesis by (cases r) (auto simp: step_on_def)
qed

lemma message_events_distinct [simp]:
  "MESSAGE_KEEPALIVE \<noteq> MESSAGE_TERM" "MESSAGE_KEEPALIVE \<noteq> MESSAGE_REINIT" "MESSAGE_REINIT \<noteq> MESSAGE_TERM"
  by (simp_all add: message_defs)

lemma events_loop_head:
  assumes cont: "\<And>off p w. holds (buffer_recv p) off (events_out es) \<Longrightarrow>
      unat (buffer_recv_index p) = off + length (events_out es) \<Longrightarrow>
      step_on ei external (next_event (word_of_nat off) (p, w)) = Some (events_spec ei external es (p, w))"
    and h: "holds (buffer_recv p) off (events_out (e # es))" and "event_ok e"
    and r: "unat (buffer_recv_index p) = off + length (events_out (e # es))"
  shows "events_loop ei external (event_command e) (word_of_nat (off + 4)) (p, w)
    = Some (events_spec ei external (e # es) (p, w))"
proof (cases e)
  case Keepalive
  have k: "holds (buffer_recv p) (off + 4) (events_out es)"
      "unat (buffer_recv_index p) = off + 4 + length (events_out es)"
    using h r Keepalive by (simp_all add: events_out_def holds_append keepalive_out_def)
  have "step_on ei external ((if result \<noteq> cloudi_success then Pair (Ok (Ev_stop result))
        else next_event (word_of_nat (off + 4))) s')
      = Some ((if result \<noteq> cloudi_success then Pair (Ok (Some result)) else events_spec ei external es) s')"
    if kp: "keepalive ei (p, w) = (Ok result, s')" for result s'
  proof -
    obtain p' w' where s': "s' = (p', w')" by (cases s')
    obtain buf where "p' = p\<lparr>buffer_send := buf\<rparr>"
      using send_message_frame kp unfolding s' keepalive_def by blast
    with k cont [of p' "off + 4" w'] s' show ?thesis by (simp add: step_on_def)
  qed
  then show ?thesis
    using Keepalive by (simp add: events_loop_step handle_event_def step_on_bind del: of_nat_add)
next
  case (Reinit count t_async t_sync priority)
  have k: "holds (buffer_recv p) (off + 4) (u32_bytes count @ u32_bytes t_async @ u32_bytes t_sync @ [priority])"
      "holds (buffer_recv p) (off + 17) (events_out es)"
      "unat (buffer_recv_index p) = off + 17 + length (events_out es)"
    using h r Reinit holds_append [of "buffer_recv p" "off + 16" "[priority]" "events_out es"]
    by (simp_all add: events_out_def holds_append reinit_out_def ac_simps)
  have "unat (buffer_recv_index p) < 2 ^ 32" using unsigned_less [of "buffer_recv_index p", where ?'a = nat] by simp
  then have i: "off + 4 + 13 < 2 ^ 32" using k(3) by simp
  let ?p = "p\<lparr>process_count := count, timeout_async := t_async, timeout_sync := t_sync, priority_default := priority\<rparr>"
  have "handle_event ei external MESSAGE_REINIT (word_of_nat (off + 4)) (p, w)
      = next_event (word_of_nat (off + 17)) (?p, w)"
    using recv_reinit_holds [OF k(1) i, of w] by (simp add: handle_event_def add.assoc del: of_nat_add)
  with cont [of ?p "off + 17" w] k(2,3) Reinit show ?thesis
    by (simp add: events_loop_step del: of_nat_add)
next
  case Terminate
  then show ?thesis by (simp add: events_loop_step handle_event_def step_on_def)
next
  case (Unknown command)
  with assms(3) show ?thesis by (simp add: events_loop_step handle_event_def step_on_def)
qed

lemma events_loop_spec:
  assumes "holds (buffer_recv p) off (events_out (e # es))" and "list_all event_ok (e # es)"
    and "unat (buffer_recv_index p) = off + length (events_out (e # es))"
  shows "events_loop ei external (event_command e) (word_of_nat (off + 4)) (p, w)
    = Some (events_spec ei external (e # es) (p, w))"
  using assms
proof (induction es arbitrary: e off p w)
  case (Nil e)
  from Nil show ?case
    by (intro events_loop_head) (simp_all add: next_event_holds step_on_def)
next
  case (Cons e' es)
  from Cons.prems show ?case
    by (intro events_loop_head) (use Cons.IH Cons.prems(2) in \<open>simp_all add: next_event_holds step_on_def\<close>)
qed

lemma handle_events_spec:
  assumes "holds (buffer_recv p) off (events_out es)" and "es \<noteq> []" and "list_all event_ok es"
    and "unat (buffer_recv_index p) = off + length (events_out es)"
  shows "handle_events ei external (word_of_nat off) 0 (p, w) = events_spec ei external es (p, w)"
proof -
  obtain e es' where es: "es = e # es'" using assms(2) by (cases es) auto
  obtain rest where e: "event_out e = u32_bytes (event_command e) @ rest" using event_out_command by blast
  have "unat (buffer_recv_index p) < 2 ^ 32" using unsigned_less [of "buffer_recv_index p", where ?'a = nat] by simp
  then have b: "off < 2 ^ 32" "off \<le> unat (buffer_recv_index p)" using assms(4) by simp_all
  then have "\<not> word_of_nat off > buffer_recv_index p" using unat_u32 [OF b(1)] by (simp add: word_less_nat_alt)
  moreover have "holds (buffer_recv p) off (u32_bytes (event_command e))"
    using assms(1) es e by (simp add: events_out_def holds_append)
  ultimately show ?thesis
    using uint32_holds [OF _ b(1)] events_loop_spec [OF assms(1) [unfolded es] assms(3) [unfolded es] assms(4) [unfolded es], of ei external w]
    by (simp add: handle_events_def run_events_def es del: of_nat_add events_spec.simps)
qed

text \<open>
  C6: What follows a message in its frame is handled as the sequence of events it encodes: for
  every non-empty list of events, of any commands, that ends the received frame, \<open>handle_events\<close> does
  what the abstract \<open>events_spec\<close> says. Keepalives are answered until one fails, whose status is the
  result; reinitialisations update the counts, timeouts and default priority; a termination sets
  \<open>terminate\<close> and stops, with \<open>cloudi_success\<close> for an external poll and \<open>cloudi_terminate\<close> otherwise;
  any other command is an underflow; and if the list is used up, the caller goes on.
\<close>

theorem handle_events_refines:
  assumes "holds (buffer_recv p) off (events_out es)" and "es \<noteq> []" and "list_all event_ok es"
    and "unat (buffer_recv_index p) = off + length (events_out es)"
  shows "handle_events ei external (word_of_nat off) 0 (p, w) = events_spec ei external es (p, w)"
  using assms by (rule handle_events_spec)

definition sample_events :: "event list" where
  "sample_events = [Reinit 2 10 20 1, Terminate]"

definition recv_buffer :: "bytes \<Rightarrow> byte realloc_ptr" where
  "recv_buffer bs = sample_buffer\<lparr>m_p := mem_write 0 bs (\<lambda>_. None)\<rparr>"

lemma recv_buffer_holds: "length bs \<le> 32768 \<Longrightarrow> holds (recv_buffer bs) 0 bs"
  by (simp add: holds_def recv_buffer_def rp_wf_def sample_buffer_def mem_write_def)
    (simp add: mem_read_eq_Some)

theorem handle_events_refines_witness:
  "handle_events ei_format False 0 0
     (sample_instance\<lparr>buffer_recv := recv_buffer (events_out sample_events), buffer_recv_index := 21\<rparr>, io_idle)
   = events_spec ei_format False sample_events
     (sample_instance\<lparr>buffer_recv := recv_buffer (events_out sample_events), buffer_recv_index := 21\<rparr>, io_idle)"
proof -
  have l: "length (events_out sample_events) = 21"
    by (simp add: sample_events_def events_out_def reinit_out_def terminate_out_def)
  have "list_all event_ok sample_events" "sample_events \<noteq> []" by (simp_all add: sample_events_def)
  with recv_buffer_holds [of "events_out sample_events"] l show ?thesis
    using handle_events_refines [of "sample_instance\<lparr>buffer_recv := recv_buffer (events_out sample_events), buffer_recv_index := 21\<rparr>" 0 sample_events]
    by simp
qed

section \<open>Messages\<close>

lemma bind_uint32:
  "buffer_recv p = buf \<Longrightarrow> holds buf off (u32_bytes v) \<Longrightarrow> off < 2 ^ 32 \<Longrightarrow>
   bind_state (recv_uint32 upd (word_of_nat off)) f (p, w) = f (word_of_nat (off + 4)) (upd v p, w)"
  by (rule bind_state_simps(1)) (simp add: recv_uint32_holds)

lemma bind_int8:
  "buffer_recv p = buf \<Longrightarrow> holds buf off [b] \<Longrightarrow> off < 2 ^ 32 \<Longrightarrow>
   bind_state (recv_int8 upd (word_of_nat off)) f (p, w) = f (word_of_nat (off + 1)) (upd b p, w)"
  by (rule bind_state_simps(1)) (simp add: recv_int8_holds)

lemma bind_binary:
  "buffer_recv p = buf \<Longrightarrow> holds buf off (u32_bytes (word_of_nat (length bs)) @ bs) \<Longrightarrow> bs \<noteq> [] \<Longrightarrow>
   off + 4 + length bs < 2 ^ 32 \<Longrightarrow>
   bind_state (recv_binary upd (word_of_nat off)) f (p, w) = f (word_of_nat (off + 4 + length bs)) (upd bs p, w)"
  by (rule bind_state_simps(1)) (simp add: recv_binary_holds)

lemma bind_addr:
  "buffer_recv p = buf \<Longrightarrow> holds buf off bs \<Longrightarrow> bs \<noteq> [] \<Longrightarrow> off < 2 ^ 32 \<Longrightarrow>
   bind_state (recv_addr upd (word_of_nat off)) f (p, w) = f () (upd off p, w)"
  by (rule bind_state_simps(1)) (simp add: recv_addr_holds)

text \<open>What \<open>poll_request\<close> does after the message proper: the events, then the continuation.\<close>

definition finish :: "poll_next call \<Rightarrow> cloudi_status option \<Rightarrow> poll_next call" where
  "finish k r =
     (case r of
        Some result \<Rightarrow> Pair (Ok (Return result))
      | None \<Rightarrow> (\<lambda>(p, w). k (p\<lparr>buffer_recv_index := 0\<rparr>, w)))"

lemma end_of_message_events:
  assumes "holds (buffer_recv p) off (events_out es)" and "list_all event_ok es"
    and "unat (buffer_recv_index p) = off + length (events_out es)"
  shows "end_of_message ei external external (word_of_nat off) k (p, w)
    = bind_state (events_spec ei external es) (finish k) (p, w)"
proof -
  have "unat (buffer_recv_index p) < 2 ^ 32" using unsigned_less [of "buffer_recv_index p", where ?'a = nat] by simp
  then have off: "unat (word_of_nat off :: u32) = off" using assms(3) by (intro unat_u32) simp
  show ?thesis
  proof (cases es)
    case Nil
    then have "word_of_nat off = buffer_recv_index p"
      using assms(3) off by (intro word_unat_eq_iff [THEN iffD2]) (simp add: events_out_def)
    with Nil show ?thesis by (simp add: end_of_message_def finish_def)
  next
    case (Cons e es')
    then have "off < unat (buffer_recv_index p)"
      using assms(3) length_event_out [of e] unfolding events_out_def by (simp del: length_greater_0_conv)
    then have ne: "word_of_nat off \<noteq> buffer_recv_index p" using off by auto
    have "handle_events ei external (word_of_nat off) 0 (p, w) = events_spec ei external es (p, w)"
      using Cons by (intro handle_events_spec assms) simp
    then have "bind_state (handle_events ei external (word_of_nat off) 0) f (p, w)
        = bind_state (events_spec ei external es) f (p, w)" for f :: "_ \<Rightarrow> poll_next call"
      by (simp add: bind_state_def)
    then show ?thesis using ne by (simp add: end_of_message_def finish_def [abs_def])
  qed
qed

text \<open>The instance has received a frame: the message and the events after it, nothing else.\<close>

definition received :: "cloudi_instance_t \<Rightarrow> bytes \<Rightarrow> event list \<Rightarrow> bool" where
  "received p msg es \<longleftrightarrow>
     holds (buffer_recv p) 0 (msg @ events_out es) \<and> list_all event_ok es
     \<and> unat (buffer_recv_index p) = length msg + length (events_out es)"

lemma received_bound: "received p msg es \<Longrightarrow> length msg + length (events_out es) < 2 ^ 32"
  using unsigned_less [of "buffer_recv_index p", where ?'a = nat] by (simp add: received_def)

lemma received_tail:
  "received p msg es \<Longrightarrow> holds (buffer_recv p) (length msg) (events_out es)"
  by (simp add: received_def holds_append)

lemma received_end:
  assumes "received p msg es" and "buffer_recv q = buffer_recv p" and "buffer_recv_index q = buffer_recv_index p"
  shows "end_of_message ei external external (word_of_nat (length msg)) k (q, w)
    = bind_state (events_spec ei external es) (finish k) (q, w)"
  using assms by (intro end_of_message_events) (auto simp: received_def holds_append)

lemma poll_message_command:
  assumes "received p (u32_bytes command @ msg) es"
  shows "store_incoming_uint32 (buffer_recv p) 0 = Ok (command, word_of_nat 4)"
  using assms uint32_holds [of "buffer_recv p" 0 command] by (simp add: received_def holds_append)

lemma init_message_spec:
  assumes "received p (init_out index count count_max count_min pre t_init t_async t_sync t_term priority) es"
  shows "poll_message ei dv run False 0 (p, w) =
    bind_state (events_spec ei False es) (finish (Pair (Ok (Return cloudi_success))))
      (p\<lparr>process_index := index, process_count := count, process_count_max := count_max,
         process_count_min := count_min, prefix := Some (pre @ [0]), timeout_initialize := t_init,
         timeout_async := t_async, timeout_sync := t_sync, timeout_terminate := t_term,
         priority_default := priority\<rparr>, w)"
proof -
  let ?m = "init_out index count count_max count_min pre t_init t_async t_sync t_term priority"
  let ?b = "buffer_recv p"
  have len: "length ?m = 42 + length pre" by (simp add: init_out_def)
  have b: "42 + length pre < 2 ^ 32" using received_bound [OF assms] len by simp
  have "holds ?b 0 ?m" using assms by (simp add: received_def holds_append)
  then have h: "holds ?b 4 (u32_bytes index)" "holds ?b 8 (u32_bytes count)" "holds ?b 12 (u32_bytes count_max)"
    "holds ?b 16 (u32_bytes count_min)" "holds ?b 20 (u32_bytes (word_of_nat (length (pre @ [0]))) @ pre @ [0])"
    "holds ?b (25 + length pre) (u32_bytes t_init)" "holds ?b (29 + length pre) (u32_bytes t_async)"
    "holds ?b (33 + length pre) (u32_bytes t_sync)" "holds ?b (37 + length pre) (u32_bytes t_term)"
    "holds ?b (41 + length pre) [priority]"
    by (simp_all add: init_out_def holds_append holds_Cons_append ac_simps)
  have c: "store_incoming_uint32 ?b 0 = Ok (MESSAGE_INIT, word_of_nat 4)"
    using assms by (intro poll_message_command [of p MESSAGE_INIT "drop 4 ?m" es]) (simp add: init_out_def)
  show ?thesis
    unfolding poll_message_def prod.case c message_init_def
    using b by (simp add: bind_uint32 [OF _ h(1)] bind_uint32 [OF _ h(2)] bind_uint32 [OF _ h(3)] bind_uint32 [OF _ h(4)]
      bind_binary [OF _ h(5)] bind_uint32 [OF _ h(6)] bind_uint32 [OF _ h(7)] bind_uint32 [OF _ h(8)]
      bind_uint32 [OF _ h(9)] bind_int8 [OF _ h(10)] received_end [OF assms, unfolded len]
      del: of_nat_add of_nat_Suc of_nat_numeral)
qed

text \<open>
  The initialisation message of the service is understood: a frame that holds what
  \<open>init_out\<close> encodes, followed by any events, sets the process index and counts, the prefix with its
  NUL, the timeouts and the default priority to the values sent, then handles the events, and (unless
  an event ends it otherwise) \<open>poll_request\<close> returns success with the frame used up.
\<close>

theorem init_message_decoded:
  assumes "received p (init_out index count count_max count_min pre t_init t_async t_sync t_term priority) es"
  shows "poll_message ei dv run False 0 (p, w) =
    bind_state (events_spec ei False es) (finish (Pair (Ok (Return cloudi_success))))
      (p\<lparr>process_index := index, process_count := count, process_count_max := count_max,
         process_count_min := count_min, prefix := Some (pre @ [0]), timeout_initialize := t_init,
         timeout_async := t_async, timeout_sync := t_sync, timeout_terminate := t_term,
         priority_default := priority\<rparr>, w)"
  using assms by (rule init_message_spec)

text \<open>An instance that has received a frame.\<close>

definition sample_received :: "bytes \<Rightarrow> cloudi_instance_t" where
  "sample_received bs = sample_instance\<lparr>buffer_recv := recv_buffer bs, buffer_recv_index := word_of_nat (length bs)\<rparr>"

lemma sample_received:
  "length (msg @ events_out es) \<le> 32768 \<Longrightarrow> list_all event_ok es \<Longrightarrow> received (sample_received (msg @ events_out es)) msg es"
  using recv_buffer_holds [of "msg @ events_out es"]
  by (simp add: received_def sample_received_def unat_u32 del: of_nat_add)

definition run_return :: runner where
  "run_return f request_type rq s = (Ok (), s)"

theorem init_message_decoded_witness:
  "\<exists>p'. poll_message ei_format ei_version_format run_return False 0
      (sample_received (init_out 0 1 1 1 (cstr ''/p/'') 5000 5000 5000 1000 0 @ events_out []), io_idle)
    = (Ok (Return cloudi_success), (p', io_idle)) \<and> prefix p' = Some (cstr ''/p/'' @ [0]) \<and> timeout_sync p' = 5000"
proof -
  have "received (sample_received (init_out 0 1 1 1 (cstr ''/p/'') 5000 5000 5000 1000 0 @ events_out []))
      (init_out 0 1 1 1 (cstr ''/p/'') 5000 5000 5000 1000 0) []"
    by (rule sample_received) (simp_all add: events_out_def init_out_def)
  from init_message_decoded [OF this] show ?thesis by (simp add: finish_def)
qed

lemma response_message_spec:
  assumes "received p (response_out command resp_info resp tid) es"
    and "command = MESSAGE_RETURN_SYNC \<or> command = MESSAGE_RECV_ASYNC" and "length tid = 16"
  shows "\<exists>p'. poll_message ei dv run False 0 (p, w) =
      bind_state (events_spec ei False es) (finish (Pair (Ok (Return cloudi_success)))) (p', w)
    \<and> buffer_recv p' = buffer_recv p \<and> trans_id_count p' = 1
    \<and> (\<exists>a. response_info p' = Some a \<and> rp_get a (unat (response_info_size p')) (buffer_recv p') = Ok resp_info)
    \<and> (\<exists>a. response p' = Some a \<and> rp_get a (unat (response_size p')) (buffer_recv p') = Ok resp)
    \<and> (\<exists>a. trans_id p' = Some a \<and> rp_get a 16 (buffer_recv p') = Ok tid)"
proof -
  let ?m = "response_out command resp_info resp tid" and ?b = "buffer_recv p"
  let ?i = "length resp_info" and ?r = "length resp"
  have len: "length ?m = 30 + (?i + ?r)" using assms(3) by (simp add: response_out_def)
  have b: "30 + (?i + ?r) < 2 ^ 32" using received_bound [OF assms(1)] len by simp
  then have u: "unat (word_of_nat ?i :: u32) = ?i" "unat (word_of_nat ?r :: u32) = ?r" by (simp_all add: unat_u32)
  have tid: "tid \<noteq> []" using assms(3) by auto
  have "holds ?b 0 ?m" using assms(1) by (simp add: received_def holds_append)
  then have h: "holds ?b 4 (u32_bytes (word_of_nat ?i))" "holds ?b 8 (resp_info @ [0])"
    "holds ?b (9 + ?i) (u32_bytes (word_of_nat ?r))" "holds ?b (13 + ?i) (resp @ [0])" "holds ?b (14 + (?i + ?r)) tid"
    by (simp_all add: response_out_def holds_append holds_Cons_append holds_Cons [OF tid] ac_simps)
  have c: "store_incoming_uint32 ?b 0 = Ok (command, word_of_nat 4)"
    using assms by (intro poll_message_command [of p command "drop 4 ?m" es]) (simp add: response_out_def)
  have i1: "(word_of_nat 8 :: u32) + (word_of_nat ?i + 1) = word_of_nat (9 + ?i)"
    "(word_of_nat (13 + ?i) :: u32) + (word_of_nat ?r + 1) = word_of_nat (14 + (?i + ?r))"
    "17 + ((word_of_nat (13 + ?i) :: u32) + word_of_nat ?r) = word_of_nat (30 + (?i + ?r))"
    by simp_all
  let ?p = "p\<lparr>response_info_size := word_of_nat ?i, response_info := Some 8, response_size := word_of_nat ?r,
      response := Some (13 + ?i), trans_id_count := 1, trans_id := Some (14 + (?i + ?r))\<rparr>"
  have "poll_message ei dv run False 0 (p, w) =
      bind_state (events_spec ei False es) (finish (Pair (Ok (Return cloudi_success)))) (?p, w)"
    unfolding poll_message_def prod.case c message_response_def
    using b assms(2) by (auto simp: message_defs bind_uint32 [OF _ h(1)] bind_addr [OF _ h(2)] bind_uint32 [OF _ h(3)]
      bind_addr [OF _ h(4)] bind_addr [OF _ h(5) tid] received_end [OF assms(1), unfolded len] Let_def i1
      simp del: of_nat_add of_nat_Suc of_nat_numeral)
  moreover have "rp_get 8 ?i ?b = Ok resp_info" "rp_get (13 + ?i) ?r ?b = Ok resp" "rp_get (14 + (?i + ?r)) 16 ?b = Ok tid"
    using h(2,4,5) holds_get assms(3) by (metis holds_append)+
  ultimately show ?thesis using u by (intro exI [of _ ?p]) simp
qed

text \<open>
  A response reaches the caller: a frame that holds what \<open>return_sync_out\<close> or \<open>recv_async_out\<close>
  encodes, followed by any events, leaves the response info, the response and the 16-byte
  transaction identifier readable through the pointers and sizes of the instance (until the next
  frame), counts one identifier, and \<open>poll_request\<close> returns success with the frame used up unless an
  event ends it otherwise.
\<close>

theorem response_message_decoded:
  assumes "received p (response_out command resp_info resp tid) es"
    and "command = MESSAGE_RETURN_SYNC \<or> command = MESSAGE_RECV_ASYNC" and "length tid = 16"
  shows "\<exists>p'. poll_message ei dv run False 0 (p, w) =
      bind_state (events_spec ei False es) (finish (Pair (Ok (Return cloudi_success)))) (p', w)
    \<and> buffer_recv p' = buffer_recv p \<and> trans_id_count p' = 1
    \<and> (\<exists>a. response_info p' = Some a \<and> rp_get a (unat (response_info_size p')) (buffer_recv p') = Ok resp_info)
    \<and> (\<exists>a. response p' = Some a \<and> rp_get a (unat (response_size p')) (buffer_recv p') = Ok resp)
    \<and> (\<exists>a. trans_id p' = Some a \<and> rp_get a 16 (buffer_recv p') = Ok tid)"
  using assms by (rule response_message_spec)

theorem response_message_decoded_witness:
  "\<exists>p'. poll_message ei_format ei_version_format run_return False 0
      (sample_received (response_out MESSAGE_RETURN_SYNC [] [7, 8] (replicate 16 1) @ events_out []), io_idle)
    = (Ok (Return cloudi_success), (p', io_idle)) \<and> (\<exists>a. response p' = Some a)"
proof -
  have r: "received (sample_received (response_out MESSAGE_RETURN_SYNC [] [7, 8] (replicate 16 1) @ events_out []))
      (response_out MESSAGE_RETURN_SYNC [] [7, 8] (replicate 16 1)) []"
    by (rule sample_received) (simp_all add: events_out_def response_out_def)
  obtain q where "poll_message ei_format ei_version_format run_return False 0
      (sample_received (response_out MESSAGE_RETURN_SYNC [] [7, 8] (replicate 16 1) @ events_out []), io_idle)
    = bind_state (events_spec ei_format False []) (finish (Pair (Ok (Return cloudi_success)))) (q, io_idle)"
    "\<exists>a. response q = Some a"
    using response_message_decoded [OF r, of ei_format ei_version_format run_return io_idle] by auto
  then show ?thesis by (intro exI [of _ "q\<lparr>buffer_recv_index := 0\<rparr>"]) (simp add: finish_def)
qed

text \<open>
  The identifiers of a multicast reach the caller: after a frame with what \<open>returns_async_out\<close>
  encodes, the count is the number of identifiers and \<open>cloudi_get_trans_id(p, i)\<close>, the pointer plus
  \<open>16 * i\<close>, shows the \<open>i\<close>-th one, for an empty list too.
\<close>

theorem returns_async_message_decoded:
  assumes "received p (returns_async_out tids) es" and "\<forall>t \<in> set tids. length t = 16"
    and "8 < m_size (buffer_recv p)"
  shows "\<exists>p' a. poll_message ei dv run False 0 (p, w) =
      bind_state (events_spec ei False es) (finish (Pair (Ok (Return cloudi_success)))) (p', w)
    \<and> buffer_recv p' = buffer_recv p \<and> trans_id p' = Some a \<and> unat (trans_id_count p') = length tids
    \<and> (\<forall>i < length tids. rp_get (a + 16 * i) 16 (buffer_recv p') = Ok (tids ! i))"
proof -
  let ?m = "returns_async_out tids" and ?b = "buffer_recv p" and ?n = "length tids"
  have tl: "length (concat tids) = 16 * ?n" using assms(2) by (induction tids) auto
  have len: "length ?m = 8 + 16 * ?n" by (simp add: returns_async_out_def tl)
  have b: "8 + 16 * ?n < 2 ^ 32" using received_bound [OF assms(1)] len by simp
  have "holds ?b 0 ?m" using assms(1) by (simp add: received_def holds_append)
  then have h: "holds ?b 4 (u32_bytes (word_of_nat ?n))" "holds ?b 8 (concat tids)"
    by (simp_all add: returns_async_out_def holds_append)
  have c: "store_incoming_uint32 ?b 0 = Ok (MESSAGE_RETURNS_ASYNC, word_of_nat 4)"
    using assms by (intro poll_message_command [of p _ "drop 4 ?m" es]) (simp add: returns_async_out_def)
  have i: "(word_of_nat 8 :: u32) + 16 * word_of_nat ?n = word_of_nat (8 + 16 * ?n)" by simp
  let ?p = "p\<lparr>trans_id_count := word_of_nat ?n, trans_id := Some 8\<rparr>"
  have a: "recv_addr (\<lambda>a p. p\<lparr>trans_id := Some a\<rparr>) (word_of_nat 8) (p\<lparr>trans_id_count := word_of_nat ?n\<rparr>, w) = (Ok (), (?p, w))"
    using assms(3) by (simp add: recv_addr_def addr_at_def)
  have "poll_message ei dv run False 0 (p, w) =
      bind_state (events_spec ei False es) (finish (Pair (Ok (Return cloudi_success)))) (?p, w)"
    unfolding poll_message_def prod.case c message_returns_async_def
    using b a by (simp add: message_defs bind_uint32 [OF _ h(1)] received_end [OF assms(1), unfolded len] i
      del: of_nat_add of_nat_Suc of_nat_numeral of_nat_mult)
  moreover have "rp_get (8 + 16 * k) 16 ?b = Ok (tids ! k)" if "k < ?n" for k
  proof -
    have "holds ?b (8 + 16 * k) (tids ! k)" using holds_concat [OF h(2) assms(2) that] .
    with assms(2) that holds_get show ?thesis by (metis nth_mem)
  qed
  moreover have "unat (word_of_nat ?n :: u32) = ?n" using b by (simp add: unat_u32)
  ultimately show ?thesis by (intro exI [of _ ?p] exI [of _ 8]) simp
qed

theorem returns_async_message_decoded_witness:
  "\<exists>p'. poll_message ei_format ei_version_format run_return False 0
      (sample_received (returns_async_out [replicate 16 1, replicate 16 2] @ events_out []), io_idle)
    = (Ok (Return cloudi_success), (p', io_idle)) \<and> unat (trans_id_count p') = 2"
proof -
  let ?ts = "[replicate 16 1, replicate 16 2]"
  have r: "received (sample_received (returns_async_out ?ts @ events_out [])) (returns_async_out ?ts) []"
    by (rule sample_received) (simp_all add: events_out_def returns_async_out_def)
  have z: "8 < m_size (buffer_recv (sample_received (returns_async_out ?ts @ events_out [])))"
    by (simp add: sample_received_def recv_buffer_def sample_buffer_def)
  obtain q where "poll_message ei_format ei_version_format run_return False 0
      (sample_received (returns_async_out ?ts @ events_out []), io_idle)
    = bind_state (events_spec ei_format False []) (finish (Pair (Ok (Return cloudi_success)))) (q, io_idle)"
    "unat (trans_id_count q) = length ?ts"
    using returns_async_message_decoded [OF r _ z, of ei_format ei_version_format run_return io_idle] by auto
  then show ?thesis by (intro exI [of _ "q\<lparr>buffer_recv_index := 0\<rparr>"]) (simp add: finish_def)
qed

text \<open>
  \<open>buffer_call.copy(buffer_recv)\<close> keeps what the receive buffer holds if the call buffer can grow.
\<close>

lemma copy_to_call_holds:
  assumes "rp_wf (buffer_call p)" and "holds (buffer_recv p) 0 bs" and "m_size (buffer_recv p) < 2 ^ 63"
    and "can_reserve (m_size (buffer_recv p)) (buffer_call p) w"
  shows "\<exists>call as. copy_to_call (p, w) = (Ok (), (p\<lparr>buffer_call := call\<rparr>, w\<lparr>allocs := as\<rparr>)) \<and> holds call 0 bs
    \<and> (allocs w = [] \<longrightarrow> as = [])"
proof -
  let ?s = "buffer_recv p" and ?d = "buffer_call p" and ?ok = "alloc_ok w"
  let ?n = "m_size ?s"
  obtain q where q: "rp_reserve ?ok ?n ?d = Some (True, q)" "rp_wf q" "?n < m_size q"
    using rp_reserve_cases [OF assms(1,3), of ?ok] assms(4) unfolding can_reserve_def by (metis (full_types))
  let ?c = "q\<lparr>m_p := mem_copy (m_p ?s) 0 ?n 0 (m_p q)\<rparr>"
  have "m_alloc ?s = ?n" "m_alloc q = m_size q" using assms(2) q(2) by (simp_all add: holds_def rp_wf_def)
  then have c: "rp_copy ?ok ?s 0 ?d = Ok (True, ?c)"
    using q assms(3) by (simp add: rp_copy_def rp_copy4_def)
  have "rp_wf ?c" using rp_wf_mem_copy [OF q(2), of 0 ?n] q(3) by simp
  moreover have "mem_read 0 (length bs) (m_p ?c) = mem_read 0 (length bs) (m_p ?s)"
    using assms(2) by (intro mem_read_cong) (auto simp: mem_copy_def holds_def)
  ultimately have "holds ?c 0 bs" using assms(2) q(3) by (simp add: holds_def)
  moreover have "\<exists>as. copy_to_call (p, w) = (Ok (), (p\<lparr>buffer_call := ?c\<rparr>, w\<lparr>allocs := as\<rparr>)) \<and> (allocs w = [] \<longrightarrow> as = [])"
  proof (cases "m_size ?d \<le> ?n \<and> ?n \<le> m_maxSize ?d")
    case True
    with c show ?thesis by (intro exI [of _ "tl (allocs w)"]) (simp add: copy_to_call_def Let_def alloc_ok_def)
  next
    case False
    with c show ?thesis by (intro exI [of _ "allocs w"]) (auto simp: copy_to_call_def Let_def alloc_ok_def)
  qed
  ultimately show ?thesis by blast
qed

lemma request_message_spec:
  assumes "received p (send_out command name pattern request_info request timeout priority tid source) es"
    and "command = MESSAGE_SEND_ASYNC \<or> command = MESSAGE_SEND_SYNC"
    and "0 \<notin> set name" and "0 \<notin> set pattern" and "length tid = 16" and "source \<noteq> []"
    and "rp_wf (buffer_call p)" and "m_size (buffer_recv p) < 2 ^ 63"
    and "can_reserve (m_size (buffer_recv p)) (buffer_call p) w"
  shows "\<exists>call as rq. poll_message ei dv run True 0 (p, w) =
      bind_state (events_spec ei True es)
        (finish (bind_state (callback ei dv run command rq) (\<lambda>_. Pair (Ok Repoll))))
        (p\<lparr>buffer_call := call\<rparr>, w\<lparr>allocs := as\<rparr>)
    \<and> rp_cstr (rq_name rq) call = Ok name \<and> rp_cstr (rq_pattern rq) call = Ok pattern
    \<and> rp_get (rq_request_info rq) (unat (rq_request_info_size rq)) call = Ok request_info
    \<and> rp_get (rq_request rq) (unat (rq_request_size rq)) call = Ok request
    \<and> rq_timeout rq = timeout \<and> rq_priority rq = priority
    \<and> rp_get (rq_trans_id rq) 16 call = Ok tid
    \<and> rp_get (rq_pid rq) (unat (rq_pid_size rq)) call = Ok source
    \<and> (allocs w = [] \<longrightarrow> as = [])"
proof -
  let ?m = "send_out command name pattern request_info request timeout priority tid source"
  obtain call as where c: "copy_to_call (p, w) = (Ok (), (p\<lparr>buffer_call := call\<rparr>, w\<lparr>allocs := as\<rparr>))"
      "holds call 0 (?m @ events_out es)" "allocs w = [] \<longrightarrow> as = []"
    using copy_to_call_holds [OF assms(7) _ assms(8,9)] assms(1) unfolding received_def by blast
  let ?rq = "request_at 4 name pattern request_info request timeout priority source"
  let ?l = "length name" and ?k = "length pattern" and ?i = "length request_info" and ?r = "length request"
  have d: "?m = u32_bytes command @ drop 4 ?m" by (simp add: send_out_def)
  have len: "length ?m = ?l + ?k + ?i + ?r + length source + 49" using assms(5) by (simp add: send_out_def)
  have b: "length ?m < 2 ^ 32" using received_bound [OF assms(1)] by simp
  have "holds call 0 (u32_bytes command @ drop 4 ?m)" using c(2) d holds_append by metis
  then have h4: "holds call 4 (drop 4 ?m)" by (simp add: holds_append)
  have parse: "parse_request call (word_of_nat 4) = Ok (?rq, word_of_nat (length ?m))"
    using parse_request_holds [OF h4 assms(5,6)] b by simp
  have cm: "store_incoming_uint32 (buffer_recv p) 0 = Ok (command, word_of_nat 4)"
    using assms(1) d by (intro poll_message_command [of p _ "drop 4 ?m" es]) simp
  have "poll_message ei dv run True 0 (p, w) = message_send ei dv run True command (word_of_nat 4) (p, w)"
    unfolding poll_message_def prod.case cm using assms(2) by (auto simp: message_defs)
  also have "\<dots> = bind_state (events_spec ei True es)
        (finish (bind_state (callback ei dv run command ?rq) (\<lambda>_. Pair (Ok Repoll))))
        (p\<lparr>buffer_call := call\<rparr>, w\<lparr>allocs := as\<rparr>)"
    using c(1) parse received_end [OF assms(1), of "p\<lparr>buffer_call := call\<rparr>"]
    by (simp add: message_send_def del: of_nat_numeral)
  finally have run: "poll_message ei dv run True 0 (p, w) = \<dots>" .
  have f: "holds call 8 (name @ [0])" "holds call (13 + ?l) (pattern @ [0])"
    "holds call (18 + (?l + ?k)) request_info" "holds call (23 + (?l + (?k + ?i))) request"
    "holds call (29 + (?l + (?k + (?i + ?r)))) tid" "holds call (49 + (?l + (?k + (?i + ?r)))) source"
    using h4 assms(5) by (simp_all add: send_out_def holds_append holds_Cons_append ac_simps)
  have u: "unat (word_of_nat ?i :: u32) = ?i" "unat (word_of_nat ?r :: u32) = ?r"
      "unat (word_of_nat (length source) :: u32) = length source"
    using b unfolding len by (simp_all add: unat_u32)
  have g: "rp_get (29 + (?l + (?k + (?i + ?r)))) 16 call = Ok tid" using holds_get [OF f(5)] assms(5) by simp
  show ?thesis
    using run f u g c(3) cstr_holds [OF f(1) assms(3)] cstr_holds [OF f(2) assms(4)] holds_get [OF f(3)]
      holds_get [OF f(4)] holds_get [OF f(6)]
    by (intro exI [of _ call] exI [of _ as] exI [of _ ?rq]) (simp add: request_at_def Let_def ac_simps)
qed

text \<open>
  C2: A request of the service reaches its callback: for a frame that holds what \<open>send_async_out\<close>
  or \<open>send_sync_out\<close> encodes, followed by any events, \<open>poll_request\<close> (external, with memory to copy
  the frame) handles the events and then calls \<open>callback\<close> with the command and a request whose
  pointers show, in the call buffer, exactly the name, the pattern, the request info, the request, the
  transaction identifier and the source that were sent, with their sizes, the timeout and the priority.
\<close>

theorem request_message_dispatched:
  assumes "received p (send_out command name pattern request_info request timeout priority tid source) es"
    and "command = MESSAGE_SEND_ASYNC \<or> command = MESSAGE_SEND_SYNC"
    and "0 \<notin> set name" and "0 \<notin> set pattern" and "length tid = 16" and "source \<noteq> []"
    and "rp_wf (buffer_call p)" and "m_size (buffer_recv p) < 2 ^ 63"
    and "can_reserve (m_size (buffer_recv p)) (buffer_call p) w"
  shows "\<exists>call as rq. poll_message ei dv run True 0 (p, w) =
      bind_state (events_spec ei True es)
        (finish (bind_state (callback ei dv run command rq) (\<lambda>_. Pair (Ok Repoll))))
        (p\<lparr>buffer_call := call\<rparr>, w\<lparr>allocs := as\<rparr>)
    \<and> rp_cstr (rq_name rq) call = Ok name \<and> rp_cstr (rq_pattern rq) call = Ok pattern
    \<and> rp_get (rq_request_info rq) (unat (rq_request_info_size rq)) call = Ok request_info
    \<and> rp_get (rq_request rq) (unat (rq_request_size rq)) call = Ok request
    \<and> rq_timeout rq = timeout \<and> rq_priority rq = priority
    \<and> rp_get (rq_trans_id rq) 16 call = Ok tid
    \<and> rp_get (rq_pid rq) (unat (rq_pid_size rq)) call = Ok source"
  using request_message_spec [OF assms] by blast

theorem request_message_dispatched_witness:
  "\<exists>call as rq. poll_message ei_format ei_version_format run_return True 0
      (sample_received (send_out MESSAGE_SEND_SYNC (cstr ''/p/x'') (cstr ''/p/*'') [] [1, 2] 5000 0 (replicate 16 3)
         [131, 103] @ events_out []), io_idle) =
      bind_state (events_spec ei_format True [])
        (finish (bind_state (callback ei_format ei_version_format run_return MESSAGE_SEND_SYNC rq) (\<lambda>_. Pair (Ok Repoll))))
        (sample_received (send_out MESSAGE_SEND_SYNC (cstr ''/p/x'') (cstr ''/p/*'') [] [1, 2] 5000 0 (replicate 16 3)
           [131, 103] @ events_out [])\<lparr>buffer_call := call\<rparr>, io_idle\<lparr>allocs := as\<rparr>)
    \<and> rp_cstr (rq_pattern rq) call = Ok (cstr ''/p/*'')"
proof -
  let ?m = "send_out MESSAGE_SEND_SYNC (cstr ''/p/x'') (cstr ''/p/*'') [] [1, 2] 5000 0 (replicate 16 3) [131, 103]"
  have r: "received (sample_received (?m @ events_out [])) ?m []"
    by (rule sample_received) (simp_all add: events_out_def send_out_def)
  have nz: "0 \<notin> set (cstr ''/p/x'')" "0 \<notin> set (cstr ''/p/*'')" by (simp_all add: cstr_def)
  have s: "m_size (buffer_recv (sample_received (?m @ events_out []))) = 32768"
      "buffer_call (sample_received (?m @ events_out [])) = sample_buffer"
    by (simp_all add: sample_received_def recv_buffer_def sample_buffer_def sample_instance_def)
  have c: "can_reserve (m_size (buffer_recv (sample_received (?m @ events_out []))))
      (buffer_call (sample_received (?m @ events_out []))) io_idle"
    unfolding s by (simp add: can_reserve_def sample_buffer_def alloc_ok_def io_idle_def)
  show ?thesis
    using request_message_dispatched [OF r _ nz _ _ _ _ c, of ei_format ei_version_format run_return] sample_buffer_wf
    unfolding s by (fastforce simp: s(2))
qed

section \<open>Termination and keepalive\<close>

text \<open>
  Termination is reported once and is final: a termination message ends the poll with
  \<open>cloudi_success\<close> for an external poll and \<open>cloudi_terminate\<close> otherwise, whatever follows it in the
  frame, and from then on every poll of the instance returns \<open>cloudi_success\<close> at once: nothing is sent,
  read or waited for and no callback runs.
\<close>

theorem termination_is_final:
  assumes "received p (terminate_out @ rest) []" and "\<not> terminate p"
  shows "\<exists>p'. poll_message ei dv run external 0 (p, w)
      = (Ok (Return (if external then cloudi_success else cloudi_terminate)), (p', w))
    \<and> p' = p\<lparr>terminate := True\<rparr>
    \<and> (\<forall>run' timeout external' w'. poll_request ei dv run' timeout external' (p', w') = (Ok cloudi_success, (p', w')))"
proof -
  have "store_incoming_uint32 (buffer_recv p) 0 = Ok (MESSAGE_TERM, word_of_nat 4)"
    using assms(1) by (intro poll_message_command [of p _ rest "[]"]) (simp add: terminate_out_def)
  then have "poll_message ei dv run external 0 (p, w) = message_term ei external (word_of_nat 4) (p, w)"
    by (simp add: poll_message_def message_defs)
  also have "\<dots> = (Ok (Return (if external then cloudi_success else cloudi_terminate)), (p\<lparr>terminate := True\<rparr>, w))"
    by (simp add: message_term_def handle_events_def run_events_def events_loop_step step_on_def handle_event_def
      MESSAGE_TERM_def)
  finally show ?thesis by (simp add: poll_request_def)
qed

theorem termination_is_final_witness:
  "\<exists>p'. poll_message ei_format ei_version_format run_return False 0
      (sample_received (terminate_out @ events_out []), io_idle) = (Ok (Return cloudi_terminate), (p', io_idle))
    \<and> poll_request ei_format ei_version_format run_return 1000 True (p', io_idle) = (Ok cloudi_success, (p', io_idle))"
proof -
  have "received (sample_received (terminate_out @ events_out [])) terminate_out []"
    by (rule sample_received) (simp_all add: events_out_def terminate_out_def)
  then have r: "received (sample_received (terminate_out @ events_out [])) (terminate_out @ []) []" by simp
  have "\<not> terminate (sample_received (terminate_out @ events_out []))"
    by (simp add: sample_received_def sample_instance_def)
  from termination_is_final [OF r this, of ei_format ei_version_format run_return False io_idle] show ?thesis by auto
qed

text \<open>
  A failed keepalive is reported differently depending on where it stands: as an event after
  another message its error status is the result, but as the first message of a frame the poll
  returns \<open>cloudi_success\<close> with the error lost (the code says \<open>return false\<close>), although the
  connection is broken.
\<close>

theorem keepalive_error_lost:
  assumes "received p keepalive_out []" and "keepalive ei (p, w) = (Ok status, s')" and "status \<noteq> cloudi_success"
  shows "poll_message ei dv run external 0 (p, w) = (Ok (Return cloudi_success), s')
    \<and> handle_event ei external MESSAGE_KEEPALIVE index (p, w) = (Ok (Ev_stop status), s')"
proof -
  have "store_incoming_uint32 (buffer_recv p) 0 = Ok (MESSAGE_KEEPALIVE, word_of_nat 4)"
    using assms(1) by (intro poll_message_command [of p _ "[]" "[]"]) (simp add: keepalive_out_def)
  then have "poll_message ei dv run external 0 (p, w) = message_keepalive ei (word_of_nat 4) (p, w)"
    by (simp add: poll_message_def message_defs)
  with assms(2,3) show ?thesis by (simp add: message_keepalive_def handle_event_def)
qed

theorem keepalive_error_lost_witness:
  "\<exists>s'. poll_message ei_format ei_version_format run_return True 0
      (sample_received (keepalive_out @ events_out []), io_idle\<lparr>wr := [Wr_error EPIPE]\<rparr>)
    = (Ok (Return cloudi_success), s')
    \<and> handle_event ei_format True MESSAGE_KEEPALIVE 4
      (sample_received (keepalive_out @ events_out []), io_idle\<lparr>wr := [Wr_error EPIPE]\<rparr>)
    = (Ok (Ev_stop cloudi_error_write_EPIPE), s')"
proof -
  let ?p = "sample_received (keepalive_out @ events_out [])"
  have r: "received ?p keepalive_out []"
    by (rule sample_received) (simp_all add: events_out_def keepalive_out_def)
  have "\<exists>s'. keepalive ei_format (?p, io_idle\<lparr>wr := [Wr_error EPIPE]\<rparr>) = (Ok cloudi_error_write_EPIPE, s')"
    by (simp add: keepalive_def send_message_def emit_send_def flush_send_def sample_received_def sample_instance_def
      header_size_def rp_put_def sample_buffer_def be16_def cstr_def write_exact_def rp_get_def mem_read_def
      mem_write_def upt_rec write_loop.simps c_write_def io_idle_def cloudi_errno_write_def be32_bytes_def bind_state_def)
  then show ?thesis using keepalive_error_lost [OF r, of ei_format "io_idle\<lparr>wr := [Wr_error EPIPE]\<rparr>"] by fastforce
qed

end
