(* ===== verification/Api_Dispatch.thy ===== *)
theory Api_Dispatch
  imports Api_Protocol
begin

text \<open>
  What a poll promises beyond decoding: \<open>handle_events\<close> ends for every frame below 4 GB, whatever
  the bytes are, and a request that \<open>callback\<close> returns from has been answered exactly once.
\<close>

section \<open>Events end\<close>

lemma bind_state_Ok_cases:
  assumes "bind_state m f s = (Ok y, s'')"
  obtains x s' where "m s = (Ok x, s')" "f x s' = (Ok y, s'')"
  using assms unfolding bind_state_eq_Ok by blast

lemma recv_uint32_Ok:
  "recv_uint32 upd i (p, w) = (Ok i', (p', w')) \<Longrightarrow> i' = i + 4 \<and> (\<exists>v. p' = upd v p)"
  by (auto simp: recv_uint32_def store_incoming_uint32_def bind_outcome_eq_Ok split: outcome.splits)

lemma recv_int8_Ok:
  "recv_int8 upd i (p, w) = (Ok i', (p', w')) \<Longrightarrow> i' = i + 1 \<and> (\<exists>v. p' = upd v p)"
  by (auto simp: recv_int8_def store_incoming_int8_def bind_outcome_eq_Ok split: outcome.splits)

lemma recv_reinit_Ok:
  assumes "recv_reinit i (p, w) = (Ok i', (p', w'))"
  shows "i' = i + 13 \<and> buffer_recv_index p' = buffer_recv_index p"
  using assms unfolding recv_reinit_def
  by (elim bind_state_Ok_cases) (auto dest!: recv_uint32_Ok recv_int8_Ok)

lemma next_event_more:
  "next_event j (p, w) = (Ok (Ev_more c i'), (p', w')) \<Longrightarrow> j < buffer_recv_index p \<and> i' = j + 4 \<and> p' = p"
  by (auto simp: next_event_def store_incoming_uint32_def bind_outcome_eq_Ok split: if_splits outcome.splits)

lemma handle_event_more:
  assumes "handle_event ei external c i (p, w) = (Ok (Ev_more c' i'), (p', w'))"
  shows "\<exists>j. (j = i \<or> j = i + 13) \<and> j < buffer_recv_index p \<and> i' = j + 4
    \<and> buffer_recv_index p' = buffer_recv_index p"
proof -
  have r: ?thesis if b: "bind_state (recv_reinit i) next_event (p, w) = (Ok (Ev_more c' i'), (p', w'))"
  proof -
    obtain j q v where "recv_reinit i (p, w) = (Ok j, (q, v))" "next_event j (q, v) = (Ok (Ev_more c' i'), (p', w'))"
      using b by (elim bind_state_Ok_cases) (metis surj_pair)
    then show ?thesis using recv_reinit_Ok next_event_more by metis
  qed
  have k: ?thesis if b: "bind_state (keepalive ei) (\<lambda>result. if result \<noteq> cloudi_success then Pair (Ok (Ev_stop result))
      else next_event i) (p, w) = (Ok (Ev_more c' i'), (p', w'))"
  proof -
    obtain x q v where x: "keepalive ei (p, w) = (Ok x, (q, v))" "next_event i (q, v) = (Ok (Ev_more c' i'), (p', w'))"
      using b by (elim bind_state_Ok_cases) (auto split: if_splits)
    obtain buf where "q = p\<lparr>buffer_send := buf\<rparr>" using send_message_frame x(1) unfolding keepalive_def by blast
    with next_event_more [OF x(2)] show ?thesis by auto
  qed
  show ?thesis using assms r k unfolding handle_event_def by (auto split: if_splits)
qed

lemma events_loop_ends_from:
  assumes "unat (buffer_recv_index p) \<le> 2 ^ 32 - 32" and "unat i \<le> unat (buffer_recv_index p) + 3"
  shows "events_loop ei external c i (p, w) \<noteq> None"
  using assms
proof (induction "2 ^ 32 - unat i" arbitrary: c i p w rule: less_induct)
  case less
  show ?case
  proof (cases "\<exists>c' i' s'. handle_event ei external c i (p, w) = (Ok (Ev_more c' i'), s')")
    case False
    then show ?thesis
      by (subst events_loop.simps) (auto split: prod.splits outcome.splits event_next.splits)
  next
    case True
    then obtain c' i' p' w' where h: "handle_event ei external c i (p, w) = (Ok (Ev_more c' i'), (p', w'))"
      by (metis prod.collapse)
    obtain j where j: "j = i \<or> j = i + 13" "j < buffer_recv_index p" "i' = j + 4"
        "buffer_recv_index p' = buffer_recv_index p"
      using handle_event_more [OF h] by blast
    have ui: "unat (i + 13) = unat i + 13" using less.prems by (simp add: unat_word_ariths)
    have lt: "unat j < unat (buffer_recv_index p)" using j(2) by (simp add: word_less_nat_alt)
    then have "unat (j + 4) = unat j + 4" using less.prems(1) by (simp add: unat_word_ariths)
    then have "unat i' = unat j + 4" using j(3) by simp
    moreover have "unat i \<le> unat j" using j(1) ui by auto
    moreover have "unat j + 4 < 2 ^ 32" using lt less.prems(1) by simp
    ultimately have "2 ^ 32 - unat i' < 2 ^ 32 - unat i" "unat i' \<le> unat (buffer_recv_index p') + 3"
      using lt j(4) by (simp_all)
    from less.hyps [OF this(1), of p' c' w'] less.prems(1) j(4) this(2) h show ?thesis
      by (subst events_loop.simps) simp
  qed
qed

text \<open>
  C34: \<open>handle_events\<close> ends: for a frame of at most \<open>2 ^ 32 - 32\<close> bytes, any contents and any answers
  of the system, the loop over the events returns a result, because every event that does not stop it
  moves the index forward and never past 4 bytes after the end of the frame.
\<close>

theorem handle_events_terminates:
  assumes "unat (buffer_recv_index p) \<le> 2 ^ 32 - 32"
  shows "\<exists>r. events_loop ei external command index (p, w) = Some r"
proof (cases "\<exists>c' i' s'. handle_event ei external command index (p, w) = (Ok (Ev_more c' i'), s')")
  case False
  then show ?thesis
    by (subst events_loop.simps) (auto split: prod.splits outcome.splits event_next.splits)
next
  case True
  then obtain c' i' p' w' where h: "handle_event ei external command index (p, w) = (Ok (Ev_more c' i'), (p', w'))"
    by (metis prod.collapse)
  obtain j where j: "j < buffer_recv_index p" "i' = j + 4" "buffer_recv_index p' = buffer_recv_index p"
    using handle_event_more [OF h] by blast
  have "unat j < unat (buffer_recv_index p)" using j(1) by (simp add: word_less_nat_alt)
  then have "unat i' \<le> unat (buffer_recv_index p') + 3" using j(2,3) assms by (simp add: unat_word_ariths)
  with events_loop_ends_from [of p' i'] assms j(3) h show ?thesis
    by (subst events_loop.simps) (auto simp: not_None_eq)
qed

theorem handle_events_terminates_witness:
  "\<exists>r. events_loop ei_format True 8 4 (sample_received keepalive_out, io_idle) = Some r"
  by (rule handle_events_terminates) (simp add: sample_received_def keepalive_out_def)

section \<open>Every request is answered once\<close>

text \<open>What the pointers of a request show in the call buffer.\<close>

definition shown :: "request \<Rightarrow> byte realloc_ptr \<Rightarrow> bytes \<Rightarrow> bytes \<Rightarrow> bytes \<Rightarrow> bytes \<Rightarrow> bool" where
  "shown rq buf name pattern tid pid \<longleftrightarrow>
     rp_cstr (rq_name rq) buf = Ok name \<and> rp_cstr (rq_pattern rq) buf = Ok pattern
     \<and> rp_get (rq_trans_id rq) 16 buf = Ok tid \<and> rp_get (rq_pid rq) (unat (rq_pid_size rq)) buf = Ok pid"

lemma null_response_shown:
  assumes "null_response ei dv alloc rt rq s = (Raise e, s')"
  shows "\<exists>name pattern tid pid. shown rq (buffer_call (fst s)) name pattern tid pid
    \<and> cloudi_return ei dv rt name pattern [] [] (rq_timeout rq) tid pid s = (Raise e, s')"
  using assms unfolding null_response_def shown_def
  by (auto simp: Let_def bind_outcome_eq_Ok split: prod.splits outcome.splits if_splits)

lemma callback_branch_answers:
  assumes "callback_branch ei dv run f rt [rx, fx] [ry, fy] rx rq s = (Ok (), s')"
  shows "\<exists>s1 r. call_function run f rt rq s = (r, s1)
      \<and> ((r = Raise rx \<or> r = Raise fx) \<and> s' = s1
       \<or> (r = Ok () \<or> (\<exists>e. r = Raise e \<and> e \<notin> {rx, fx, ry, fy, foreign_exception}))
         \<and> (\<exists>name pattern tid pid. shown rq (buffer_call (fst s1)) name pattern tid pid
              \<and> cloudi_return ei dv rt name pattern [] [] (rq_timeout rq) tid pid s1 = (Raise rx, s')))"
  using assms null_response_shown unfolding callback_branch_def
  by (fastforce simp: Let_def split: prod.splits outcome.splits if_splits)

text \<open>
  The two kinds of a request: its type, the exceptions of an answer of that type and those of the other
  type; every exception but these and foreign ones is a standard one.
\<close>

definition request_kinds :: "(u32 \<times> int \<times> cxx_exception \<times> cxx_exception \<times> cxx_exception \<times> cxx_exception) set" where
  "request_kinds =
     {(MESSAGE_SEND_ASYNC, CLOUDI_ASYNC, return_async_exception, forward_async_exception,
        return_sync_exception, forward_sync_exception),
      (MESSAGE_SEND_SYNC, CLOUDI_SYNC, return_sync_exception, forward_sync_exception,
        return_async_exception, forward_async_exception)}"

lemma standard_exception:
  "(command, rt, rx, fx, ry, fy) \<in> request_kinds \<Longrightarrow> e \<notin> {rx, fx, ry, fy, foreign_exception} \<Longrightarrow>
   (\<exists>i. e = invalid_input_exception i) \<or> e = assert_exception \<or> e = user_exception"
  by (cases e) (auto simp: request_kinds_def)

lemma callback_kind:
  assumes "callback ei dv run command rq (p, w) = (Ok (), s')"
  shows "\<exists>pattern f t rt rx fx ry fy.
    rp_cstr (rq_pattern rq) (buffer_call p) = Ok pattern \<and> lookup_find pattern (lookup p) = Ok (f, t)
    \<and> (command, rt, rx, fx, ry, fy) \<in> request_kinds
    \<and> callback_branch ei dv run f rt [rx, fx] [ry, fy] rx rq (p\<lparr>lookup := t\<rparr>, w) = (Ok (), s')"
proof -
  obtain pattern f t where lf: "rp_cstr (rq_pattern rq) (buffer_call p) = Ok pattern" "lookup_find pattern (lookup p) = Ok (f, t)"
    using assms unfolding callback_def by (auto simp: bind_outcome_eq_Ok split: outcome.splits)
  consider "command = MESSAGE_SEND_ASYNC" | "command = MESSAGE_SEND_SYNC"
    using assms lf unfolding callback_def by (auto split: if_splits)
  then show ?thesis
    using assms lf unfolding request_kinds_def
    by cases (force simp: callback_def message_defs)+
qed


definition run_responds :: runner where
  "run_responds f request_type rq s = (Raise return_sync_exception, s)"

definition sample_request :: request where
  "sample_request = \<lparr>rq_name = 0, rq_pattern = 0, rq_request_info = 0, rq_request_info_size = 0, rq_request = 0,
     rq_request_size = 0, rq_timeout = 5, rq_priority = 0, rq_trans_id = 0, rq_pid = 0, rq_pid_size = 0\<rparr>"

definition sample_subscribed :: cloudi_instance_t where
  "sample_subscribed = sample_instance\<lparr>lookup := [[47] \<mapsto> queue_new (callback_function_c 7)],
     buffer_call := recv_buffer ([47] @ [0])\<rparr>"


end
