(* ===== verification/Api_Calls.thy ===== *)
theory Api_Calls
  imports Api_Dispatch
begin

text \<open>
  The calls of the C API that wait for an answer of the service (sending, receiving, counting
  subscriptions), the start and end of an instance, and the accessors of \<^verbatim>\<open>api/c/cloudi.h\<close>. The
  environment variables are a parameter \<open>env\<close>.
\<close>

section \<open>Sending and receiving\<close>

definition send_steps :: "string \<Rightarrow> bytes \<Rightarrow> bytes \<Rightarrow> bytes \<Rightarrow> u32 \<Rightarrow> 8 word \<Rightarrow> emit_step list" where
  "send_steps command name request_info request timeout priority =
     [Encode ei_version, Encode (ei_tuple_header 6), Encode (ei_atom (cstr command)),
      Reserve (length name + length request_info + length request + 128),
      Encode (ei_string name), Encode (ei_binary request_info), Encode (ei_binary request),
      Encode (ei_ulong (unat timeout)), Encode (ei_long (sint priority))]"

text \<open>A message that waits for its answer with an internal poll without a timeout.\<close>

definition send_and_poll :: "ei_encoder \<Rightarrow> (bytes \<Rightarrow> nat option) \<Rightarrow> runner \<Rightarrow> emit_step list \<Rightarrow> cloudi_status call" where
  "send_and_poll ei dv run steps =
     bind_state (send_message ei steps) (\<lambda>result.
       if result \<noteq> cloudi_success then Pair (Ok result)
       else
         bind_state (poll_request ei dv run (-1) False) (\<lambda>result.
           if result \<noteq> cloudi_success then Pair (Ok result) else Pair (Ok cloudi_success)))"

definition cloudi_send_impl :: "ei_encoder \<Rightarrow> (bytes \<Rightarrow> nat option) \<Rightarrow> runner \<Rightarrow> string \<Rightarrow> bytes \<Rightarrow> bytes \<Rightarrow> bytes
    \<Rightarrow> u32 \<Rightarrow> 8 word \<Rightarrow> cloudi_status call" where
  "cloudi_send_impl ei dv run command name request_info request timeout priority =
     send_and_poll ei dv run (send_steps command name request_info request timeout priority)"

definition cloudi_send_async :: "ei_encoder \<Rightarrow> (bytes \<Rightarrow> nat option) \<Rightarrow> runner \<Rightarrow> bytes \<Rightarrow> bytes \<Rightarrow> cloudi_status call" where
  "cloudi_send_async ei dv run name request = (\<lambda>(p, w).
     cloudi_send_impl ei dv run ''send_async'' name [] request (timeout_async p) (priority_default p) (p, w))"

definition cloudi_send_async_full :: "ei_encoder \<Rightarrow> (bytes \<Rightarrow> nat option) \<Rightarrow> runner \<Rightarrow> bytes \<Rightarrow> bytes \<Rightarrow> bytes
    \<Rightarrow> u32 \<Rightarrow> 8 word \<Rightarrow> cloudi_status call" where
  "cloudi_send_async_full ei dv run name request_info request timeout priority = (\<lambda>(p, w).
     cloudi_send_impl ei dv run ''send_async'' name request_info request
       (if timeout = 0 then timeout_async p else timeout) priority (p, w))"

definition cloudi_send_sync :: "ei_encoder \<Rightarrow> (bytes \<Rightarrow> nat option) \<Rightarrow> runner \<Rightarrow> bytes \<Rightarrow> bytes \<Rightarrow> cloudi_status call" where
  "cloudi_send_sync ei dv run name request = (\<lambda>(p, w).
     cloudi_send_impl ei dv run ''send_sync'' name [] request (timeout_sync p) (priority_default p) (p, w))"

definition cloudi_send_sync_full :: "ei_encoder \<Rightarrow> (bytes \<Rightarrow> nat option) \<Rightarrow> runner \<Rightarrow> bytes \<Rightarrow> bytes \<Rightarrow> bytes
    \<Rightarrow> u32 \<Rightarrow> 8 word \<Rightarrow> cloudi_status call" where
  "cloudi_send_sync_full ei dv run name request_info request timeout priority = (\<lambda>(p, w).
     cloudi_send_impl ei dv run ''send_sync'' name request_info request
       (if timeout = 0 then timeout_sync p else timeout) priority (p, w))"

definition cloudi_mcast_async :: "ei_encoder \<Rightarrow> (bytes \<Rightarrow> nat option) \<Rightarrow> runner \<Rightarrow> bytes \<Rightarrow> bytes \<Rightarrow> cloudi_status call" where
  "cloudi_mcast_async ei dv run name request = (\<lambda>(p, w).
     cloudi_send_impl ei dv run ''mcast_async'' name [] request (timeout_async p) (priority_default p) (p, w))"

definition cloudi_mcast_async_full :: "ei_encoder \<Rightarrow> (bytes \<Rightarrow> nat option) \<Rightarrow> runner \<Rightarrow> bytes \<Rightarrow> bytes \<Rightarrow> bytes
    \<Rightarrow> u32 \<Rightarrow> 8 word \<Rightarrow> cloudi_status call" where
  "cloudi_mcast_async_full ei dv run name request_info request timeout priority = (\<lambda>(p, w).
     cloudi_send_impl ei dv run ''mcast_async'' name request_info request
       (if timeout = 0 then timeout_async p else timeout) priority (p, w))"

definition cloudi_subscribe_count :: "ei_encoder \<Rightarrow> (bytes \<Rightarrow> nat option) \<Rightarrow> runner \<Rightarrow> bytes \<Rightarrow> cloudi_status call" where
  "cloudi_subscribe_count ei dv run pattern =
     send_and_poll ei dv run
       [Encode ei_version, Encode (ei_tuple_header 2), Encode (ei_atom (cstr ''subscribe_count'')),
        Reserve (length pattern + 128), Encode (ei_string pattern)]"

text \<open>The transaction identifier is a null pointer (\<open>None\<close>) or 16 bytes.\<close>

definition recv_async_steps :: "u32 \<Rightarrow> bytes option \<Rightarrow> bool \<Rightarrow> emit_step list" where
  "recv_async_steps timeout tid consume =
     [Encode ei_version, Encode (ei_tuple_header 4), Encode (ei_atom (cstr ''recv_async'')),
      Encode (ei_ulong (unat timeout)),
      Encode (ei_binary (case tid of None \<Rightarrow> replicate 16 0 | Some t \<Rightarrow> t)),
      Encode (ei_atom (cstr (if consume then ''true'' else ''false'')))]"

definition cloudi_recv_async :: "ei_encoder \<Rightarrow> (bytes \<Rightarrow> nat option) \<Rightarrow> runner \<Rightarrow> u32 \<Rightarrow> bytes option \<Rightarrow> bool \<Rightarrow> cloudi_status call" where
  "cloudi_recv_async ei dv run timeout tid consume = (\<lambda>(p, w).
     send_and_poll ei dv run
       (recv_async_steps (if timeout = 0 then timeout_sync p else timeout) tid consume) (p, w))"

section \<open>Accessors\<close>

text \<open>
  The macros \<open>cloudi_get_...\<close>: pointers are dereferenced in the receive buffer by the caller.
\<close>

definition cloudi_get_response :: "cloudi_instance_t \<Rightarrow> bytes outcome" where
  "cloudi_get_response p =
     (case response p of None \<Rightarrow> Undefined | Some a \<Rightarrow> rp_get a (unat (response_size p)) (buffer_recv p))"

definition cloudi_get_response_info :: "cloudi_instance_t \<Rightarrow> bytes outcome" where
  "cloudi_get_response_info p =
     (case response_info p of None \<Rightarrow> Undefined | Some a \<Rightarrow> rp_get a (unat (response_info_size p)) (buffer_recv p))"

definition cloudi_get_trans_id :: "cloudi_instance_t \<Rightarrow> nat \<Rightarrow> bytes outcome" where
  "cloudi_get_trans_id p i =
     (case trans_id p of None \<Rightarrow> Undefined | Some a \<Rightarrow> rp_get (a + i * 16) 16 (buffer_recv p))"

section \<open>The life of an instance\<close>

text \<open>
  \<open>atoi\<close>: white space, a sign, digits; a value outside the range of \<open>int\<close> is undefined
  (\<open>None\<close>).
\<close>

definition is_space :: "byte \<Rightarrow> bool" where
  "is_space c \<longleftrightarrow> c = 32 \<or> (9 \<le> c \<and> c \<le> 13)"

definition is_digit :: "byte \<Rightarrow> bool" where
  "is_digit c \<longleftrightarrow> 48 \<le> c \<and> c \<le> 57"

fun digits_value :: "nat \<Rightarrow> bytes \<Rightarrow> nat" where
  "digits_value acc [] = acc"
| "digits_value acc (c # cs) = (if is_digit c then digits_value (10 * acc + unat (c - 48)) cs else acc)"

definition atoi :: "bytes \<Rightarrow> int option" where
  "atoi s =
     (let t = dropWhile is_space s;
          v = (case t of
                 [] \<Rightarrow> 0
               | c # cs \<Rightarrow>
                   if c = 45 then - int (digits_value 0 cs)
                   else if c = 43 then int (digits_value 0 cs)
                   else int (digits_value 0 t))
      in if - (2 ^ 31) \<le> v \<and> v < 2 ^ 31 then Some v else None)"

text \<open>A null pointer in place of a buffer: no access is defined.\<close>

definition null_buffer :: "byte realloc_ptr" where
  "null_buffer = \<lparr>m_initialSize = 0, m_size = 0, m_maxSize = 0, m_p = (\<lambda>_. None), m_alloc = 0\<rparr>"

text \<open>The instance after \<open>memset\<close> and the assignment of \<open>state\<close>.\<close>

definition zero_instance :: "nat \<Rightarrow> cloudi_instance_t" where
  "zero_instance st = \<lparr>state = st, fd_in = 0, fd_out = 0, use_header = False,
     initialization_complete = False, terminate = False, buffer_size = 0, lookup = (\<lambda>_. None),
     buffer_send = null_buffer, buffer_recv = null_buffer, buffer_recv_index = 0,
     buffer_call = null_buffer, poll_timer = 0, process_index = 0, process_count = 0,
     process_count_max = 0, process_count_min = 0, prefix = None, timeout_initialize = 0,
     timeout_async = 0, timeout_sync = 0, timeout_terminate = 0, priority_default = 0,
     response_info = None, response_info_size = 0, response = None, response_size = 0,
     trans_id = None, trans_id_count = 0, subscribe_count = 0\<rparr>"

definition CLOUDI_MAX_BUFFERSIZE :: nat where
  "CLOUDI_MAX_BUFFERSIZE = 2147483648"

text \<open>The members set after the protocol is known; the timer reads the clock when it is created.\<close>

definition setup_instance :: "u32 \<Rightarrow> cloudi_instance_t \<Rightarrow> os \<Rightarrow> unit outcome \<times> api" where
  "setup_instance bsize p w =
     (case realloc_ptr_new 1 32768 CLOUDI_MAX_BUFFERSIZE of
        None \<Rightarrow> (Undefined, (p, w))
      | Some buf \<Rightarrow>
          (case c_clock w of
             (Ok t, w') \<Rightarrow>
               (Ok (), (p\<lparr>buffer_size := bsize, lookup := (\<lambda>_. None), buffer_send := buf,
                          buffer_recv := buf, buffer_call := buf, poll_timer := t,
                          timeout_terminate := 1000\<rparr>, w'))
           | (_, w') \<Rightarrow> (Blocked, (p, w'))))"

partial_function (option) init_loop :: "ei_encoder \<Rightarrow> (bytes \<Rightarrow> nat option) \<Rightarrow> runner \<Rightarrow> api
    \<Rightarrow> (cloudi_status outcome \<times> api) option" where
  "init_loop ei dv run s =
     (case poll_request ei dv run 1000 False s of
        (Ok result, s') \<Rightarrow>
          if result = cloudi_timeout then init_loop ei dv run s' else Some (Ok result, s')
      | (Raise e, s') \<Rightarrow> Some (Raise e, s')
      | (Undefined, s') \<Rightarrow> Some (Undefined, s')
      | (Exited i, s') \<Rightarrow> Some (Exited i, s')
      | (Blocked, s') \<Rightarrow> Some (Blocked, s'))"

definition init_wait :: "ei_encoder \<Rightarrow> (bytes \<Rightarrow> nat option) \<Rightarrow> runner \<Rightarrow> cloudi_status call" where
  "init_wait ei dv run s = (case init_loop ei dv run s of None \<Rightarrow> (Blocked, s) | Some r \<Rightarrow> r)"

text \<open>\<open>null\<close> says that the pointer to the instance is null.\<close>

definition cloudi_initialize :: "ei_encoder \<Rightarrow> (bytes \<Rightarrow> nat option) \<Rightarrow> runner \<Rightarrow> (string \<Rightarrow> bytes option)
    \<Rightarrow> bool \<Rightarrow> u32 \<Rightarrow> nat \<Rightarrow> cloudi_status call" where
  "cloudi_initialize ei dv run env null thread_index st = (\<lambda>(p, w).
     if null then (Ok cloudi_out_of_memory, (p, w))
     else
       case (env ''CLOUDI_API_INIT_PROTOCOL'', env ''CLOUDI_API_INIT_BUFFER_SIZE'') of
         (None, _) \<Rightarrow> (Ok cloudi_invalid_input, (p, w))
       | (_, None) \<Rightarrow> (Ok cloudi_invalid_input, (p, w))
       | (Some protocol, Some size_p) \<Rightarrow>
           (case atoi size_p of
              None \<Rightarrow> (Undefined, (zero_instance st, w))
            | Some bsize \<Rightarrow>
                if protocol \<noteq> cstr ''tcp'' \<and> protocol \<noteq> cstr ''udp'' \<and> protocol \<noteq> cstr ''local'' then
                  (Ok cloudi_invalid_input, (zero_instance st, w))
                else
                  bind_state
                    (\<lambda>(p, w). setup_instance (word_of_int bsize) p w) (\<lambda>_.
                  bind_state
                    (send_message ei [Encode ei_version, Encode (ei_atom (cstr ''init''))]) (\<lambda>result.
                  if result \<noteq> cloudi_success then Pair (Ok result) else init_wait ei dv run))
                  ((zero_instance st)\<lparr>fd_in := sint (thread_index + 3), fd_out := sint (thread_index + 3),
                     use_header := (protocol \<noteq> cstr ''udp'')\<rparr>, w)))"

text \<open>
  The result is the user's state (0 for a null pointer); the list holds the descriptors closed. The
  memory of the instance is released exactly if \<open>fd_in\<close> was set.
\<close>

definition cloudi_destroy :: "bool \<Rightarrow> cloudi_instance_t \<Rightarrow> nat \<times> int list" where
  "cloudi_destroy null p =
     (if null then (0, [])
      else if fd_in p \<noteq> 0 then (state p, fd_in p # (if fd_in p \<noteq> fd_out p then [fd_out p] else []))
      else (0, []))"

definition cloudi_initialize_thread_count :: "(string \<Rightarrow> bytes option) \<Rightarrow> (cloudi_status \<times> u32 option) outcome" where
  "cloudi_initialize_thread_count env =
     (case env ''CLOUDI_API_INIT_THREAD_COUNT'' of
        None \<Rightarrow> Ok (cloudi_invalid_input, None)
      | Some s \<Rightarrow>
          (case atoi s of
             None \<Rightarrow> Undefined
           | Some v \<Rightarrow>
               if v < 0 then Ok (cloudi_invalid_input, None)
               else Ok (cloudi_success, Some (word_of_int v))))"

section \<open>Properties\<close>

text \<open>
  A timeout of 0 means the default: sending with a timeout of 0 is sending with the
  instance's timeout (the asynchronous one for \<open>send_async\<close> and \<open>mcast_async\<close>, the synchronous one for
  \<open>send_sync\<close> and \<open>recv_async\<close>), and the short forms are the full forms with no request info, a
  timeout of 0 and the default priority.
\<close>

theorem timeout_defaults:
  "cloudi_send_async_full ei dv run name info request 0 prio (p, w)
     = cloudi_send_async_full ei dv run name info request (timeout_async p) prio (p, w)
   \<and> cloudi_mcast_async_full ei dv run name info request 0 prio (p, w)
     = cloudi_mcast_async_full ei dv run name info request (timeout_async p) prio (p, w)
   \<and> cloudi_send_sync_full ei dv run name info request 0 prio (p, w)
     = cloudi_send_sync_full ei dv run name info request (timeout_sync p) prio (p, w)
   \<and> cloudi_recv_async ei dv run 0 tid consume (p, w) = cloudi_recv_async ei dv run (timeout_sync p) tid consume (p, w)
   \<and> cloudi_send_async ei dv run name request (p, w)
     = cloudi_send_async_full ei dv run name [] request 0 (priority_default p) (p, w)
   \<and> cloudi_mcast_async ei dv run name request (p, w)
     = cloudi_mcast_async_full ei dv run name [] request 0 (priority_default p) (p, w)
   \<and> cloudi_send_sync ei dv run name request (p, w)
     = cloudi_send_sync_full ei dv run name [] request 0 (priority_default p) (p, w)"
  by (simp add: cloudi_send_async_full_def cloudi_mcast_async_full_def cloudi_send_sync_full_def cloudi_recv_async_def
    cloudi_send_async_def cloudi_mcast_async_def cloudi_send_sync_def)

lemma poll_loop_return:
  "poll_message ei dv run external index s = (Ok (Return status), s') \<Longrightarrow>
   poll_loop ei dv run timeout external index s = Some (Ok status, s')"
  by (subst poll_loop.simps) simp

lemma poll_frame_header:
  assumes "use_header p" and "polls w = Poll_events (r # rs) # ps" and "r \<noteq> 0" and "\<not> dgram w (fd_in p)"
    and "rp_wf (buffer_recv p)" and "stream (rd w (fd_in p)) = be32_bytes (word_of_nat (length msg)) @ msg @ rest"
    and "0 < length msg" and "length msg < 2 ^ 32" and "can_reserve (length msg) (buffer_recv p) w"
  shows "\<exists>buf w'. poll_frame (p, w) = (Ok None, (p\<lparr>buffer_recv := buf, buffer_recv_index := word_of_nat (length msg)\<rparr>, w'))
    \<and> received (p\<lparr>buffer_recv := buf, buffer_recv_index := word_of_nat (length msg)\<rparr>) msg []
    \<and> stream (rd w' (fd_in p)) = rest \<and> written w' = written w"
proof -
  let ?w = "w\<lparr>polls := ps\<rparr>" and ?n = "word_of_nat (length msg) :: u32"
  have n: "unat ?n = length msg" using assms(8) by (simp add: unat_u32)
  have c: "c_poll 1 w = (Ok (Inr [r]), ?w)" using assms(2) by (simp add: c_poll_def)
  have "can_reserve (length msg) (buffer_recv p) ?w" using assms(9) by (simp add: can_reserve_def alloc_ok_def)
  then obtain buf w' where b: "read_all_header (fd_in p) (buffer_recv p) ?w = (Ok (cloudi_success, buf, length msg), w')"
      "rp_wf buf" "length msg < m_size buf" "mem_read 0 (length msg) (m_p buf) = Some msg"
      "stream (rd w' (fd_in p)) = rest" "written w' = written ?w"
    using read_all_header_frame [OF assms(5), of ?w "fd_in p" ?n msg rest] assms(4,6) n by (auto simp: n)
  let ?p = "p\<lparr>buffer_recv := buf, buffer_recv_index := ?n\<rparr>"
  have "?n \<noteq> 0" using n assms(7) by auto
  then have "poll_frame (p, w) = (Ok None, (?p, w'))"
    using c b(1) assms(1,3) by (simp add: poll_frame_def read_all_def poll_count_def Let_def)
  moreover have "received ?p msg []" using b(2-4) n by (simp add: received_def holds_def events_out_def)
  ultimately show ?thesis using b(5,6) by auto
qed

text \<open>A message that waits for a response gets the one that comes next.\<close>

lemma send_and_poll_response:
  assumes "send_message ei steps (p, w) = (Ok cloudi_success, (p1, w1))"
    and "\<not> terminate p1" and "use_header p1" and "polls w1 = Poll_events (r # rs) # ps" and "r \<noteq> 0"
    and "\<not> dgram w1 (fd_in p1)" and "rp_wf (buffer_recv p1)"
    and "msg = return_sync_out resp_info resp tid" and "length tid = 16" and "length msg < 2 ^ 32"
    and "stream (rd w1 (fd_in p1)) = be32_bytes (word_of_nat (length msg)) @ msg @ rest"
    and "can_reserve (length msg) (buffer_recv p1) w1"
  shows "\<exists>p' w'. send_and_poll ei dv run steps (p, w) = (Ok cloudi_success, (p', w'))
    \<and> (\<exists>a. response_info p' = Some a \<and> rp_get a (unat (response_info_size p')) (buffer_recv p') = Ok resp_info)
    \<and> (\<exists>a. response p' = Some a \<and> rp_get a (unat (response_size p')) (buffer_recv p') = Ok resp)
    \<and> (\<exists>a. trans_id p' = Some a \<and> rp_get a 16 (buffer_recv p') = Ok tid)
    \<and> trans_id_count p' = 1 \<and> buffer_recv_index p' = 0 \<and> stream (rd w' (fd_in p1)) = rest"
proof -
  have "0 < length msg" using assms(8,9) by (simp add: return_sync_out_def response_out_def)
  then obtain buf w2 where f: "poll_frame (p1, w1) = (Ok None, (p1\<lparr>buffer_recv := buf, buffer_recv_index := word_of_nat (length msg)\<rparr>, w2))"
    "received (p1\<lparr>buffer_recv := buf, buffer_recv_index := word_of_nat (length msg)\<rparr>) msg []"
    "stream (rd w2 (fd_in p1)) = rest"
    using poll_frame_header [OF assms(3-7,11) _ assms(10,12)] by blast
  let ?p2 = "p1\<lparr>buffer_recv := buf, buffer_recv_index := word_of_nat (length msg)\<rparr>"
  obtain p3 where p3: "poll_message ei dv run False 0 (?p2, w2)
        = bind_state (events_spec ei False []) (finish (Pair (Ok (Return cloudi_success)))) (p3, w2)"
      "trans_id_count p3 = 1"
      "\<exists>a. response_info p3 = Some a \<and> rp_get a (unat (response_info_size p3)) (buffer_recv p3) = Ok resp_info"
      "\<exists>a. response p3 = Some a \<and> rp_get a (unat (response_size p3)) (buffer_recv p3) = Ok resp"
      "\<exists>a. trans_id p3 = Some a \<and> rp_get a 16 (buffer_recv p3) = Ok tid"
    using response_message_spec [of ?p2 MESSAGE_RETURN_SYNC resp_info resp tid "[]" ei dv run w2] f(2) assms(8,9)
    by (auto simp: return_sync_out_def)
  let ?p4 = "p3\<lparr>buffer_recv_index := 0\<rparr>"
  have "poll_message ei dv run False 0 (?p2, w2) = (Ok (Return cloudi_success), (?p4, w2))"
    using p3(1) by (simp add: finish_def)
  then have "poll_messages ei dv run (-1) False (?p2, w2) = (Ok cloudi_success, (?p4, w2))"
    by (simp add: poll_messages_def poll_loop_return)
  then have "poll_request ei dv run (-1) False (p1, w1) = (Ok cloudi_success, (?p4, w2))"
    using assms(2) f(1) by (simp add: poll_request_def start_timer_def)
  then have "send_and_poll ei dv run steps (p, w) = (Ok cloudi_success, (?p4, w2))"
    using assms(1) by (simp add: send_and_poll_def)
  with p3(2-5) f(3) show ?thesis
    by (intro exI [of _ ?p4] exI [of _ w2]) simp
qed

text \<open>
  C7: A synchronous request returns its response: once the \<open>send_sync\<close> message is out, if a frame
  with a response as \<open>return_sync_out\<close> encodes it arrives, in whatever chunks, on a stream of an
  instance that uses headers and has not been terminated, and the receive buffer can hold it,
  \<open>cloudi_send_sync\<close> returns success, and the accessors show the response info, the response and the
  transaction identifier that were sent, and the bytes after the frame stay for the next poll.
\<close>

theorem send_sync_returns_response:
  assumes "send_message ei (send_steps ''send_sync'' name [] request (timeout_sync p) (priority_default p)) (p, w)
      = (Ok cloudi_success, (p1, w1))"
    and "\<not> terminate p1" and "use_header p1" and "polls w1 = Poll_events (r # rs) # ps" and "r \<noteq> 0"
    and "\<not> dgram w1 (fd_in p1)" and "rp_wf (buffer_recv p1)"
    and "msg = return_sync_out resp_info resp tid" and "length tid = 16" and "length msg < 2 ^ 32"
    and "stream (rd w1 (fd_in p1)) = be32_bytes (word_of_nat (length msg)) @ msg @ rest"
    and "can_reserve (length msg) (buffer_recv p1) w1"
  shows "\<exists>p' w'. cloudi_send_sync ei dv run name request (p, w) = (Ok cloudi_success, (p', w'))
    \<and> cloudi_get_response_info p' = Ok resp_info \<and> cloudi_get_response p' = Ok resp
    \<and> trans_id_count p' = 1 \<and> cloudi_get_trans_id p' 0 = Ok tid
    \<and> buffer_recv_index p' = 0 \<and> stream (rd w' (fd_in p1)) = rest"
proof -
  obtain p' w' where "send_and_poll ei dv run (send_steps ''send_sync'' name [] request (timeout_sync p) (priority_default p)) (p, w)
      = (Ok cloudi_success, (p', w'))"
    and p': "\<exists>a. response_info p' = Some a \<and> rp_get a (unat (response_info_size p')) (buffer_recv p') = Ok resp_info"
      "\<exists>a. response p' = Some a \<and> rp_get a (unat (response_size p')) (buffer_recv p') = Ok resp"
      "\<exists>a. trans_id p' = Some a \<and> rp_get a 16 (buffer_recv p') = Ok tid"
      "trans_id_count p' = 1" "buffer_recv_index p' = 0" "stream (rd w' (fd_in p1)) = rest"
    using send_and_poll_response [OF assms] by blast
  then have "cloudi_send_sync ei dv run name request (p, w) = (Ok cloudi_success, (p', w'))"
    by (simp add: cloudi_send_sync_def cloudi_send_impl_def)
  with p' show ?thesis
    by (auto simp: cloudi_get_response_def cloudi_get_response_info_def cloudi_get_trans_id_def)
qed

text \<open>
  C35: A request of a terminated instance is reported as answered: after a termination message,
  \<open>cloudi_send_sync\<close> still sends the request, but then returns \<open>cloudi_success\<close> at once, in the state in
  which the message was sent: nothing is read or waited for, no callback runs, and the accessors show
  the response, the response info and the transaction identifier of an earlier answer.
\<close>

theorem terminated_answer_stale:
  assumes "terminate p"
    and "send_message ei (send_steps ''send_sync'' name [] request (timeout_sync p) (priority_default p)) (p, w)
      = (Ok cloudi_success, (p1, w1))"
  shows "cloudi_send_sync ei dv run name request (p, w) = (Ok cloudi_success, (p1, w1))
    \<and> cloudi_get_response p1 = cloudi_get_response p \<and> cloudi_get_response_info p1 = cloudi_get_response_info p
    \<and> cloudi_get_trans_id p1 = cloudi_get_trans_id p \<and> trans_id_count p1 = trans_id_count p"
proof -
  obtain buf where p1: "p1 = p\<lparr>buffer_send := buf\<rparr>" using send_message_frame [OF assms(2)] by blast
  then have "poll_request ei dv run (-1) False (p1, w1) = (Ok cloudi_success, (p1, w1))"
    using assms(1) by (simp add: poll_request_def)
  then have "cloudi_send_sync ei dv run name request (p, w) = (Ok cloudi_success, (p1, w1))"
    using assms(2) by (simp add: cloudi_send_sync_def cloudi_send_impl_def send_and_poll_def)
  then show ?thesis
    by (simp add: p1 cloudi_get_response_def cloudi_get_response_info_def cloudi_get_trans_id_def fun_eq_iff
      split: option.split)
qed

lemma send_fits:
  assumes "send_wf p" and "ei_bounded ei" and "length command \<le> 255"
    and "length name \<le> 65535" and "length request_info + length request < 2 ^ 30"
  shows "fits ei (send_steps command name request_info request timeout priority)
    (header_size (use_header p)) (m_size (buffer_send p))"
proof (rule fits_bound_fits [OF _ assms(2) order_refl order_refl])
  show "fits_bound (send_steps command name request_info request timeout priority)
    (header_size (use_header p)) (m_size (buffer_send p))"
    using assms header_size_le [of "use_header p"] by (auto simp: send_steps_def send_wf_def)
qed

text \<open>An instance and a system on which a request can be sent.\<close>

definition sample_steps :: "emit_step list" where
  "sample_steps = send_steps ''send_sync'' (cstr ''/x'') [] [9] (timeout_sync sample_instance) (priority_default sample_instance)"

lemma sample_sends:
  assumes "wr w = [Wr_count 999]" and "allocs w = []"
  obtains buf as ws wt where "send_message ei_format sample_steps (sample_instance\<lparr>terminate := t\<rparr>, w)
    = (Ok cloudi_success, (sample_instance\<lparr>terminate := t, buffer_send := buf\<rparr>, w\<lparr>allocs := as, wr := ws, written := wt\<rparr>))"
proof -
  let ?p = "sample_instance\<lparr>terminate := t\<rparr>"
  have wf: "send_wf ?p" using sample_send_wf by (simp add: send_wf_def)
  have f: "fits ei_format sample_steps (header_size (use_header ?p)) (m_size (buffer_send ?p))"
    unfolding sample_steps_def by (intro send_fits wf ei_format_bounded) simp_all
  obtain body where b: "encode ei_format sample_steps = Some body" "length body \<le> 900"
    by (simp add: sample_steps_def send_steps_def sample_instance_def be16_def be32_def be32_bytes_def cstr_def)
  have "accepts (wr w) (header_size (use_header ?p) + length body)"
    using b(2) header_size_le [of "use_header ?p"] assms(1)
    by (cases "header_size (use_header ?p) + length body") auto
  moreover have "reserves_ok ei_format sample_steps (header_size (use_header ?p)) (m_maxSize (buffer_send ?p))"
    by (simp add: sample_steps_def send_steps_def sample_instance_def sample_buffer_def header_size_def cstr_def)
  ultimately obtain p1 w1 where m: "send_message ei_format sample_steps (?p, w) = (Ok cloudi_success, (p1, w1))"
      "sends ei_format sample_steps (?p, w) cloudi_success (p1, w1)"
    using send_message_delivers [OF wf f _ assms(2) b(1)] by auto
  obtain buf as ws wt where "p1 = ?p\<lparr>buffer_send := buf\<rparr>" "w1 = w\<lparr>allocs := as, wr := ws, written := wt\<rparr>"
    using m(2) unfolding sends_def by auto
  with m(1) show thesis by (intro that) simp
qed

theorem send_sync_returns_response_witness:
  "\<exists>w p' w'. cloudi_send_sync ei_format ei_version_format run_return (cstr ''/x'') [9] (sample_instance\<lparr>terminate := False\<rparr>, w)
      = (Ok cloudi_success, (p', w'))
    \<and> cloudi_get_response p' = Ok [7, 8]"
proof -
  let ?msg = "return_sync_out [] [7, 8] (replicate 16 1)"
  let ?p = "sample_instance\<lparr>terminate := False\<rparr>"
  let ?w = "io_idle\<lparr>wr := [Wr_count 999], polls := [Poll_events [1]],
      rd := (\<lambda>_. [Rd_data (be32_bytes (word_of_nat (length ?msg)) @ ?msg)])\<rparr>"
  have len: "length ?msg = 32" by (simp add: return_sync_out_def response_out_def)
  have "wr ?w = [Wr_count 999]" "allocs ?w = []" by (simp_all add: io_idle_def)
  then obtain buf as ws wt where "send_message ei_format sample_steps (?p, ?w)
      = (Ok cloudi_success, (?p\<lparr>buffer_send := buf\<rparr>, ?w\<lparr>allocs := as, wr := ws, written := wt\<rparr>))"
    using sample_sends [where t = False] by metis
  then have m: "send_message ei_format (send_steps ''send_sync'' (cstr ''/x'') [] [9] (timeout_sync ?p) (priority_default ?p)) (?p, ?w)
      = (Ok cloudi_success, (?p\<lparr>buffer_send := buf\<rparr>, ?w\<lparr>allocs := as, wr := ws, written := wt\<rparr>))"
    by (simp add: sample_steps_def)
  have "\<exists>p' w'. cloudi_send_sync ei_format ei_version_format run_return (cstr ''/x'') [9] (?p, ?w) = (Ok cloudi_success, (p', w'))
    \<and> cloudi_get_response_info p' = Ok [] \<and> cloudi_get_response p' = Ok [7, 8]
    \<and> trans_id_count p' = 1 \<and> cloudi_get_trans_id p' 0 = Ok (replicate 16 1)
    \<and> buffer_recv_index p' = 0 \<and> stream (rd w' (fd_in (?p\<lparr>buffer_send := buf\<rparr>))) = []"
    by (rule send_sync_returns_response [OF m, where msg = ?msg])
      (simp_all add: len be32_bytes_def can_reserve_def sample_buffer_wf,
       simp_all add: sample_instance_def sample_buffer_def sample_buffer_wf [unfolded sample_buffer_def] io_idle_def)
  then show ?thesis by blast
qed

theorem terminated_answer_stale_witness:
  "\<exists>p1 w1. cloudi_send_sync ei_format ei_version_format run_return (cstr ''/x'') [9]
      (sample_instance\<lparr>terminate := True\<rparr>, io_idle\<lparr>wr := [Wr_count 999]\<rparr>) = (Ok cloudi_success, (p1, w1))
    \<and> trans_id_count p1 = trans_id_count sample_instance"
proof -
  let ?p = "sample_instance\<lparr>terminate := True\<rparr>" and ?w = "io_idle\<lparr>wr := [Wr_count 999]\<rparr>"
  have "wr ?w = [Wr_count 999]" "allocs ?w = []" by (simp_all add: io_idle_def)
  then obtain buf as ws wt where "send_message ei_format sample_steps (?p, ?w)
      = (Ok cloudi_success, (?p\<lparr>buffer_send := buf\<rparr>, ?w\<lparr>allocs := as, wr := ws, written := wt\<rparr>))"
    using sample_sends [where t = True] by metis
  then have "send_message ei_format (send_steps ''send_sync'' (cstr ''/x'') [] [9] (timeout_sync ?p) (priority_default ?p)) (?p, ?w)
      = (Ok cloudi_success, (?p\<lparr>buffer_send := buf\<rparr>, ?w\<lparr>allocs := as, wr := ws, written := wt\<rparr>))"
    by (simp add: sample_steps_def)
  from terminated_answer_stale [OF _ this, of ei_version_format run_return] show ?thesis by auto
qed

text \<open>
  \<open>cloudi_initialize\<close> refuses what it cannot use: a null instance is out of memory, a missing
  protocol or buffer size is invalid input and leaves the instance alone, and an unknown protocol
  (with a buffer size in the range of \<open>int\<close>) is invalid input with an instance that \<open>cloudi_destroy\<close>
  leaves alone; in none of these cases is anything sent, read or waited for.
\<close>

theorem cloudi_initialize_rejects:
  "cloudi_initialize ei dv run env True ti st (p, w) = (Ok cloudi_out_of_memory, (p, w))
   \<and> (env ''CLOUDI_API_INIT_PROTOCOL'' = None \<or> env ''CLOUDI_API_INIT_BUFFER_SIZE'' = None \<longrightarrow>
        cloudi_initialize ei dv run env False ti st (p, w) = (Ok cloudi_invalid_input, (p, w)))
   \<and> (\<forall>protocol size_p bsize. env ''CLOUDI_API_INIT_PROTOCOL'' = Some protocol
        \<and> env ''CLOUDI_API_INIT_BUFFER_SIZE'' = Some size_p \<and> atoi size_p = Some bsize
        \<and> protocol \<notin> {cstr ''tcp'', cstr ''udp'', cstr ''local''} \<longrightarrow>
          (\<exists>p'. cloudi_initialize ei dv run env False ti st (p, w) = (Ok cloudi_invalid_input, (p', w))
             \<and> cloudi_destroy False p' = (0, [])))"
  by (auto simp: cloudi_initialize_def cloudi_destroy_def zero_instance_def split: option.splits)

theorem cloudi_initialize_rejects_witness:
  "\<exists>p'. cloudi_initialize ei_format ei_version_format run_return
       (\<lambda>n. if n = ''CLOUDI_API_INIT_PROTOCOL'' then Some (cstr ''sctp'') else Some (cstr ''65536''))
       False 0 1 (sample_instance, io_idle) = (Ok cloudi_invalid_input, (p', io_idle))"
proof -
  have "atoi (cstr ''65536'') = Some 65536"
    by (simp add: atoi_def cstr_def is_space_def is_digit_def)
  moreover have "cstr ''sctp'' \<notin> {cstr ''tcp'', cstr ''udp'', cstr ''local''}" by (simp add: cstr_def)
  ultimately show ?thesis
    using cloudi_initialize_rejects [of ei_format ei_version_format run_return
        "\<lambda>n. if n = ''CLOUDI_API_INIT_PROTOCOL'' then Some (cstr ''sctp'') else Some (cstr ''65536'')"
        0 1 sample_instance io_idle]
    by auto
qed

lemma fresh_buffer:
  "\<exists>buf. realloc_ptr_new 1 32768 CLOUDI_MAX_BUFFERSIZE = Some (buf :: byte realloc_ptr) \<and> rp_wf buf
     \<and> m_size buf = 32768 \<and> m_maxSize buf = 18446744069414584320"
  unfolding realloc_ptr_new_def CLOUDI_MAX_BUFFERSIZE_def greater_pow2_32768 greater_pow2_max_buffersize
  by (simp add: rp_wf_def)

lemma init_loop_return:
  "poll_request ei dv run 1000 False s = (Ok result, s') \<Longrightarrow> result \<noteq> cloudi_timeout \<Longrightarrow>
   init_wait ei dv run s = (Ok result, s')"
  by (simp add: init_wait_def init_loop.simps [of ei dv run s])

text \<open>The two halves of the handshake: the \<open>init\<close> message is sent, and its answer is decoded.\<close>

abbreviation init_steps :: "emit_step list" where
  "init_steps \<equiv> [Encode ei_version, Encode (ei_atom (cstr ''init''))]"

lemma init_message_sent:
  assumes "send_wf p" and "use_header p" and "ei_bounded ei" and "encode ei init_steps = Some body"
    and "accepts (wr w) (4 + length body)" and "allocs w = []"
  shows "\<exists>buf as ws wt. send_message ei init_steps (p, w)
      = (Ok cloudi_success, (p\<lparr>buffer_send := buf\<rparr>, w\<lparr>allocs := as, wr := ws, written := wt\<rparr>))
    \<and> send_wf (p\<lparr>buffer_send := buf\<rparr>)
    \<and> sent (w\<lparr>allocs := as, wr := ws, written := wt\<rparr>) (fd_out p) = sent w (fd_out p) @ wire True body"
proof -
  have "fits ei init_steps (header_size (use_header p)) (m_size (buffer_send p))"
    by (rule notice_fits [OF assms(1,3)]) simp
  moreover have "reserves_ok ei init_steps (header_size (use_header p)) (m_maxSize (buffer_send p))"
    using assms(4) by (auto split: option.splits)
  moreover have "accepts (wr w) (header_size (use_header p) + length body)"
    using assms(2,5) by (simp add: header_size_def)
  ultimately obtain p2 w2 where m: "send_message ei init_steps (p, w) = (Ok cloudi_success, (p2, w2))"
      "sends ei init_steps (p, w) cloudi_success (p2, w2)"
    using send_message_delivers [OF assms(1) _ _ assms(6,4)] by (metis surj_pair)
  obtain buf as ws wt where p2: "p2 = p\<lparr>buffer_send := buf\<rparr>" "send_wf p2" "w2 = w\<lparr>allocs := as, wr := ws, written := wt\<rparr>"
      "sent w2 (fd_out p) = sent w (fd_out p) @ wire True body"
    using m(2) assms(2,4) unfolding sends_def by auto
  show ?thesis
    by (rule exI [of _ buf], rule exI [of _ as], rule exI [of _ ws], rule exI [of _ wt]) (use m(1) p2 in simp)
qed

lemma init_message_answered:
  assumes "use_header p" and "\<not> terminate p" and "rp_wf (buffer_recv p)" and "m_size (buffer_recv p) = 32768"
    and "clock w = t1 # ts" and "polls w = Poll_events (r # rs) # ps" and "r \<noteq> 0" and "\<not> dgram w (fd_in p)"
    and "msg = init_out index count count_max count_min pre t_init t_async t_sync t_term priority"
    and "length msg < 32768" and "stream (rd w (fd_in p)) = be32_bytes (word_of_nat (length msg)) @ msg @ rest"
  shows "\<exists>buf w'. init_wait ei dv run (p, w) = (Ok cloudi_success,
      (p\<lparr>poll_timer := t1, buffer_recv := buf, process_index := index, process_count := count,
         process_count_max := count_max, process_count_min := count_min, prefix := Some (pre @ [0]),
         timeout_initialize := t_init, timeout_async := t_async, timeout_sync := t_sync,
         timeout_terminate := t_term, priority_default := priority, buffer_recv_index := 0\<rparr>, w'))
    \<and> stream (rd w' (fd_in p)) = rest \<and> written w' = written w"
proof -
  let ?p2 = "p\<lparr>poll_timer := t1\<rparr>" and ?w2 = "w\<lparr>clock := ts\<rparr>"
  have restart: "start_timer 1000 (p, w) = (Ok (), (?p2, ?w2))"
    using assms(5) by (simp add: start_timer_def timer_restart_def c_clock_def)
  have msg: "0 < length msg" using assms(9) by (simp add: init_out_def)
  obtain buf w' where f: "poll_frame (?p2, ?w2) = (Ok None, (?p2\<lparr>buffer_recv := buf, buffer_recv_index := word_of_nat (length msg)\<rparr>, w'))"
      "received (?p2\<lparr>buffer_recv := buf, buffer_recv_index := word_of_nat (length msg)\<rparr>) msg []"
      "stream (rd w' (fd_in ?p2)) = rest" "written w' = written ?w2"
    using poll_frame_header [of ?p2 ?w2 r rs ps msg rest] assms(1-8,10,11) msg by (auto simp: can_reserve_def)
  let ?p3 = "?p2\<lparr>buffer_recv := buf, buffer_recv_index := word_of_nat (length msg)\<rparr>"
  let ?p4 = "?p3\<lparr>process_index := index, process_count := count, process_count_max := count_max,
         process_count_min := count_min, prefix := Some (pre @ [0]), timeout_initialize := t_init,
         timeout_async := t_async, timeout_sync := t_sync, timeout_terminate := t_term,
         priority_default := priority, buffer_recv_index := 0\<rparr>"
  have "poll_message ei dv run False 0 (?p3, w') = (Ok (Return cloudi_success), (?p4, w'))"
    using init_message_spec [OF f(2) [unfolded assms(9)], of ei dv run w'] assms(9) by (simp add: finish_def)
  then have "poll_messages ei dv run 1000 False (?p3, w') = (Ok cloudi_success, (?p4, w'))"
    by (simp add: poll_messages_def poll_loop_return)
  then have "poll_request ei dv run 1000 False (p, w) = (Ok cloudi_success, (?p4, w'))"
    using restart f(1) assms(2) by (simp add: poll_request_def)
  then have "init_wait ei dv run (p, w) = (Ok cloudi_success, (?p4, w'))"
    by (rule init_loop_return) simp
  then show ?thesis
    using f(3,4) by auto
qed

text \<open>
  C8: The start of an instance is a handshake: over a stream (\<open>tcp\<close> or \<open>local\<close>), if the descriptor
  accepts the \<open>init\<close> message and the service answers with what \<open>init_out\<close> encodes, in whatever
  chunks, \<open>cloudi_initialize\<close> returns success, exactly the framed \<open>init\<close> message was sent, and the
  instance has the values of the answer (of less than 32768 bytes), an empty callback table and a well-formed send buffer.
\<close>

theorem cloudi_initialize_handshake:
  assumes "env ''CLOUDI_API_INIT_PROTOCOL'' = Some protocol" and "protocol \<in> {cstr ''tcp'', cstr ''local''}"
    and "env ''CLOUDI_API_INIT_BUFFER_SIZE'' = Some size_p" and "atoi size_p = Some bsize"
    and "ei_bounded ei" and "encode ei [Encode ei_version, Encode (ei_atom (cstr ''init''))] = Some body"
    and "accepts (wr w) (4 + length body)" and "allocs w = []" and "clock w = t0 # t1 # ts"
    and "polls w = Poll_events (r # rs) # ps" and "r \<noteq> 0" and "fd = sint (ti + 3)" and "\<not> dgram w fd"
    and "msg = init_out index count count_max count_min pre t_init t_async t_sync t_term priority"
    and "length msg < 32768" and "stream (rd w fd) = be32_bytes (word_of_nat (length msg)) @ msg @ rest"
    and "0 \<notin> set pre"
  shows "\<exists>p' w'. cloudi_initialize ei dv run env False ti st (p, w) = (Ok cloudi_success, (p', w'))
    \<and> sent w' fd = sent w fd @ wire True body \<and> stream (rd w' fd) = rest
    \<and> prefix_string p' = Ok pre
    \<and> (process_index p', process_count p', process_count_max p', process_count_min p')
        = (index, count, count_max, count_min)
    \<and> (timeout_initialize p', timeout_async p', timeout_sync p', timeout_terminate p', priority_default p')
        = (t_init, t_async, t_sync, t_term, priority)
    \<and> lookup p' = (\<lambda>_. None) \<and> send_wf p' \<and> state p' = st \<and> \<not> terminate p'"
proof -
  obtain buf :: "byte realloc_ptr" where buf: "realloc_ptr_new 1 32768 CLOUDI_MAX_BUFFERSIZE = Some buf" "rp_wf buf"
      "m_size buf = 32768" "m_maxSize buf = 18446744069414584320"
    using fresh_buffer by blast
  let ?p0 = "(zero_instance st)\<lparr>fd_in := fd, fd_out := fd, use_header := True\<rparr>"
  let ?p1 = "?p0\<lparr>buffer_size := word_of_int bsize, lookup := (\<lambda>_. None), buffer_send := buf, buffer_recv := buf,
      buffer_call := buf, poll_timer := t0, timeout_terminate := 1000\<rparr>"
  let ?w1 = "w\<lparr>clock := t1 # ts\<rparr>"
  have su: "setup_instance (word_of_int bsize) ?p0 w = (Ok (), (?p1, ?w1))"
    using buf(1) assms(9) by (simp add: setup_instance_def c_clock_def)
  have wf: "send_wf ?p1" using buf by (simp add: send_wf_def)
  obtain buf2 as ws wt where m: "send_message ei init_steps (?p1, ?w1)
      = (Ok cloudi_success, (?p1\<lparr>buffer_send := buf2\<rparr>, ?w1\<lparr>allocs := as, wr := ws, written := wt\<rparr>))"
      "send_wf (?p1\<lparr>buffer_send := buf2\<rparr>)"
      "sent (?w1\<lparr>allocs := as, wr := ws, written := wt\<rparr>) fd = sent w fd @ wire True body"
    using init_message_sent [OF wf _ assms(5,6), of ?w1] assms(7,8) by (auto simp: sent_def)
  let ?p2 = "?p1\<lparr>buffer_send := buf2\<rparr>" and ?w2 = "?w1\<lparr>allocs := as, wr := ws, written := wt\<rparr>"
  obtain buf3 w3 where a: "init_wait ei dv run (?p2, ?w2) = (Ok cloudi_success,
      (?p2\<lparr>poll_timer := t1, buffer_recv := buf3, process_index := index, process_count := count,
         process_count_max := count_max, process_count_min := count_min, prefix := Some (pre @ [0]),
         timeout_initialize := t_init, timeout_async := t_async, timeout_sync := t_sync,
         timeout_terminate := t_term, priority_default := priority, buffer_recv_index := 0\<rparr>, w3))"
      "stream (rd w3 fd) = rest" "written w3 = written ?w2"
    using init_message_answered [where p = ?p2 and w = ?w2 and rest = rest and ei = ei and dv = dv and run = run,
        OF _ _ _ _ _ _ assms(11) _ assms(14,15)] assms(10,13,16) buf(2,3)
    by (fastforce simp: zero_instance_def)
  have "protocol \<noteq> cstr ''udp''" using assms(2) by (auto simp: cstr_def)
  then have "cloudi_initialize ei dv run env False ti st (p, w) = init_wait ei dv run (?p2, ?w2)"
    using assms(1-4,12) su m(1) by (auto simp: cloudi_initialize_def)
  moreover have "sent w3 fd = sent w fd @ wire True body"
    using m(3) a(3) by (simp add: sent_def)
  ultimately show ?thesis
    using a(1,2) m(2) assms(17)
    by (auto simp: prefix_string_def zero_instance_def takeWhile_append send_wf_def)
qed

definition sample_env :: "string \<Rightarrow> bytes option" where
  "sample_env n = (if n = ''CLOUDI_API_INIT_PROTOCOL'' then Some (cstr ''tcp'') else Some (cstr ''65536''))"

definition sample_init_answer :: bytes where
  "sample_init_answer = init_out 0 1 1 1 (cstr ''/p/'') 5000 5000 5000 1000 0"

definition sample_init_os :: os where
  "sample_init_os = io_idle\<lparr>wr := [Wr_count 99], clock := [0, 1], polls := [Poll_events [1]],
     rd := (\<lambda>_. [Rd_data (be32_bytes (word_of_nat (length sample_init_answer)) @ sample_init_answer)])\<rparr>"

theorem cloudi_initialize_handshake_witness:
  "\<exists>p' w'. cloudi_initialize ei_format ei_version_format run_return sample_env False 0 9 (sample_instance, sample_init_os)
      = (Ok cloudi_success, (p', w')) \<and> prefix_string p' = Ok (cstr ''/p/'') \<and> timeout_terminate p' = 1000"
proof -
  let ?body = "[131, 100, 0, 4, 105, 110, 105, 116] :: bytes"
  have a: "atoi (cstr ''65536'') = Some 65536" by (simp add: atoi_def cstr_def is_space_def is_digit_def)
  have e: "encode ei_format [Encode ei_version, Encode (ei_atom (cstr ''init''))] = Some ?body"
    by (simp add: be16_def cstr_def)
  have st: "stream (rd sample_init_os 3) = be32_bytes (word_of_nat (length sample_init_answer)) @ sample_init_answer @ []"
    by (simp add: sample_init_os_def be32_bytes_def)
  have len: "length sample_init_answer < 32768" by (simp add: sample_init_answer_def init_out_def)
  have nz: "0 \<notin> set (cstr ''/p/'')" by (simp add: cstr_def)
  have acc: "accepts (wr sample_init_os) (4 + length ?body)" by (simp add: sample_init_os_def numeral_eq_Suc)
  have pr: "sample_env ''CLOUDI_API_INIT_PROTOCOL'' = Some (cstr ''tcp'')" "cstr ''tcp'' \<in> {cstr ''tcp'', cstr ''local''}"
      "sample_env ''CLOUDI_API_INIT_BUFFER_SIZE'' = Some (cstr ''65536'')"
    by (simp_all add: sample_env_def)
  have os: "allocs sample_init_os = []" "clock sample_init_os = 0 # 1 # []" "polls sample_init_os = Poll_events (1 # []) # []"
      "(1 :: nat) \<noteq> 0" "(3 :: int) = sint ((0 :: u32) + 3)" "\<not> dgram sample_init_os 3"
    by (simp_all add: sample_init_os_def io_idle_def)
  show ?thesis
    using cloudi_initialize_handshake [OF pr a ei_format_bounded e acc os sample_init_answer_def len st nz,
        of ei_version_format run_return 9 sample_instance]
    by auto
qed

end
