(* ===== verification/Key_Value.thy ===== *)
theory Key_Value
  imports Api_Io
begin

text \<open>
  \<open>text_key_value_parse\<close> of \<^verbatim>\<open>api/c/cloudi.cpp\<close> and the helper \<open>cloudi_info_key_value_parse\<close>: a text
  of NUL-terminated strings, keys and values in turn, becomes an array of pointers with a null pointer
  at the end. Pointers are offsets into the text, \<open>None\<close> is the null pointer.
\<close>

section \<open>Model\<close>

text \<open>
  The loop of \<open>text_key_value_parse\<close>. The result of \<open>reserve\<close> is ignored; writing past the array is
  an assertion of \<open>operator []\<close>.
\<close>

function kv_loop :: "bytes \<Rightarrow> nat \<Rightarrow> nat \<Rightarrow> nat option realloc_ptr \<Rightarrow> os
    \<Rightarrow> (nat \<times> nat option realloc_ptr) outcome \<times> os" where
  "kv_loop txt text_i i result w =
     (if text_i < length txt - 1 then
        (if txt ! text_i = 0 then
           (case rp_assign result i (Some (text_i + 1)) of
              Ok r \<Rightarrow>
                (case c_reserve (i + 2) r w of
                   (Ok (_, r'), w') \<Rightarrow> kv_loop txt (text_i + 2) (i + 1) r' w'
                 | (_, w') \<Rightarrow> (Blocked, w'))
            | Raise e \<Rightarrow> (Raise e, w)
            | _ \<Rightarrow> (Undefined, w))
         else kv_loop txt (text_i + 1) i result w)
      else (Ok (i, result), w))"
  by pat_completeness auto
termination
  by (relation "measure (\<lambda>(txt, text_i, i, result, w). length txt - text_i)") auto

declare kv_loop.simps [simp del]

definition text_key_value_parse :: "bytes \<Rightarrow> os \<Rightarrow> nat option memory outcome \<times> os" where
  "text_key_value_parse txt w =
     (case realloc_ptr_new 8 16 8192 of
        None \<Rightarrow> (Undefined, w)
      | Some result \<Rightarrow>
          (case rp_assign result 0 (Some 0) of
             Ok result \<Rightarrow>
               (case (if length txt > 1 then kv_loop txt 1 1 result w else (Ok (1, result), w)) of
                  (Ok (i, result), w') \<Rightarrow>
                    (case rp_assign result i None of
                       Ok result \<Rightarrow> (Ok (fst (rp_release result)), w')
                     | Raise e \<Rightarrow> (Raise e, w')
                     | _ \<Rightarrow> (Undefined, w'))
                | (Raise e, w') \<Rightarrow> (Raise e, w')
                | (Undefined, w') \<Rightarrow> (Undefined, w')
                | (_, w') \<Rightarrow> (Blocked, w'))
           | Raise e \<Rightarrow> (Raise e, w)
           | _ \<Rightarrow> (Undefined, w)))"

definition cloudi_info_key_value_parse :: "bytes \<Rightarrow> os \<Rightarrow> nat option memory outcome \<times> os" where
  "cloudi_info_key_value_parse message_info w = text_key_value_parse message_info w"

section \<open>Texts of strings\<close>

fun text_of :: "bytes list \<Rightarrow> bytes" where
  "text_of [] = []"
| "text_of (s # ss) = s @ 0 # text_of ss"

fun starts :: "nat \<Rightarrow> bytes list \<Rightarrow> nat list" where
  "starts off [] = []"
| "starts off (s # ss) = off # starts (off + length s + 1) ss"

definition plain :: "bytes \<Rightarrow> bool" where
  "plain s \<longleftrightarrow> s \<noteq> [] \<and> 0 \<notin> set s"

lemma length_starts [simp]: "length (starts off ss) = length ss"
  by (induction ss arbitrary: off) auto

lemma kv_skip:
  assumes "\<forall>j < k. txt ! (t + j) \<noteq> 0" and "t + k \<le> length txt - 1"
  shows "kv_loop txt t i result w = kv_loop txt (t + k) i result w"
  using assms
proof (induction k arbitrary: t)
  case (Suc k)
  have "txt ! t \<noteq> 0" using Suc.prems(1) by (metis add_0_right zero_less_Suc)
  moreover have "t < length txt - 1" using Suc.prems(2) by simp
  ultimately have "kv_loop txt t i result w = kv_loop txt (t + 1) i result w"
    by (subst kv_loop.simps) simp
  moreover have "\<forall>j < k. txt ! (t + 1 + j) \<noteq> 0"
  proof (intro allI impI)
    fix j
    assume "j < k"
    then have "txt ! (t + Suc j) \<noteq> 0" using Suc.prems(1) by blast
    then show "txt ! (t + 1 + j) \<noteq> 0" by simp
  qed
  ultimately show ?case using Suc.IH [of "t + 1"] Suc.prems(2) by simp
qed simp

lemma nth_inside: "0 \<notin> set s \<Longrightarrow> \<forall>j < length s - 1. (pre @ s @ rest) ! (length pre + 1 + j) \<noteq> 0"
proof (intro allI impI)
  fix j
  assume z: "0 \<notin> set s" and j: "j < length s - 1"
  have "Suc j < length s" using j by simp
  then have "(pre @ s @ rest) ! (length pre + 1 + j) = s ! Suc j" by (simp add: nth_append)
  moreover have "s ! Suc j \<in> set s" using j by simp
  ultimately show "(pre @ s @ rest) ! (length pre + 1 + j) \<noteq> 0" using z by metis
qed

lemma rp_assign_ok:
  "rp_wf p \<Longrightarrow> i < m_size p \<Longrightarrow> rp_assign p i x = Ok (p\<lparr>m_p := (m_p p)(i \<mapsto> x)\<rparr>)
     \<and> rp_wf (p\<lparr>m_p := (m_p p)(i \<mapsto> x)\<rparr>)"
  by (simp add: rp_assign_def rp_wf_def)

lemma c_reserve_free:
  assumes "rp_wf p" and "n \<le> m_maxSize p" and "n < 2 ^ 63" and "allocs w = []"
  shows "\<exists>q. c_reserve n p w = (Ok (True, q), w) \<and> rp_wf q \<and> n < m_size q \<and> rp_extends p q"
proof -
  obtain q where "rp_reserve True n p = Some (True, q)" "rp_wf q" "n < m_size q" "rp_extends p q"
    using rp_reserve_cases [OF assms(1,3), of True] assms(2) by auto
  moreover have "w\<lparr>allocs := []\<rparr> = w" using assms(4) by simp
  ultimately show ?thesis using assms(4) by (simp add: c_reserve_def)
qed

lemma kv_loop_strings:
  assumes "txt = pre @ text_of (s # ss)" and "\<forall>x \<in> set (s # ss). plain x" and "rp_wf r" and "i < m_size r"
    and "i + length ss + 2 \<le> m_maxSize r" and "m_maxSize r < 2 ^ 60" and "allocs w = []"
  shows "\<exists>r'. kv_loop txt (length pre + 1) i r w = (Ok (i + length ss, r'), w) \<and> rp_wf r'
    \<and> i + length ss < m_size r' \<and> (\<forall>j < i. m_p r' j = m_p r j)
    \<and> (\<forall>j < length ss. m_p r' (i + j) = Some (Some (starts (length pre) (s # ss) ! Suc j)))"
  using assms
proof (induction ss arbitrary: pre s i r)
  case Nil
  have l: "length txt - 1 = length pre + 1 + (length s - 1)"
    using Nil(1,2) by (auto simp: plain_def neq_Nil_conv)
  have "\<forall>j < length s - 1. txt ! (length pre + 1 + j) \<noteq> 0"
    using Nil(1,2) nth_inside [of s pre "[0]"] by (simp add: plain_def)
  from kv_skip [OF this] l have "kv_loop txt (length pre + 1) i r w = kv_loop txt (length txt - 1) i r w" by simp
  also have "\<dots> = (Ok (i, r), w)" by (subst kv_loop.simps) simp
  finally show ?case using Nil by auto
next
  case (Cons s2 ss)
  let ?t = "length pre + length s"
  have s: "s \<noteq> []" "0 \<notin> set s" using Cons.prems(2) by (auto simp: plain_def)
  have tx: "txt = (pre @ s @ [0]) @ text_of (s2 # ss)" using Cons.prems(1) by simp
  have s2: "0 < length (text_of (s2 # ss))" "s2 \<noteq> []" using Cons.prems(2) by (auto simp: plain_def)
  then have lt: "?t < length txt - 1" unfolding tx by auto
  have nz: "\<forall>j < length s - 1. txt ! (length pre + 1 + j) \<noteq> 0"
    using nth_inside [OF s(2), of pre "0 # text_of (s2 # ss)"] Cons.prems(1) by simp
  have t: "length pre + 1 + (length s - 1) = ?t" using s(1) by (cases s) auto
  have z: "txt ! ?t = 0" unfolding tx by (simp add: nth_append)
  have "length pre + 1 + (length s - 1) \<le> length txt - 1" using lt t by simp
  from kv_skip [OF nz this] have skip: "kv_loop txt (length pre + 1) i r w = kv_loop txt ?t i r w" unfolding t .
  let ?r = "r\<lparr>m_p := (m_p r)(i \<mapsto> Some (?t + 1))\<rparr>"
  have a: "rp_assign r i (Some (?t + 1)) = Ok ?r" "rp_wf ?r"
    using rp_assign_ok [OF Cons.prems(3,4)] by auto
  obtain q where q: "c_reserve (i + 2) ?r w = (Ok (True, q), w)" "rp_wf q" "i + 2 < m_size q" "rp_extends ?r q"
    using c_reserve_free [OF a(2), of "i + 2" w] Cons.prems(5-7) by auto
  have step: "kv_loop txt ?t i r w = kv_loop txt (?t + 2) (i + 1) q w"
    using lt z a(1) q(1) by (subst kv_loop.simps) simp
  have pl: "\<forall>x \<in> set (s2 # ss). plain x" using Cons.prems(2) by simp
  have mx: "m_maxSize q = m_maxSize r" using q(4) by (simp add: rp_extends_def)
  obtain r' where r': "kv_loop txt (length (pre @ s @ [0]) + 1) (i + 1) q w = (Ok (i + 1 + length ss, r'), w)" "rp_wf r'"
      "i + 1 + length ss < m_size r'" "\<forall>j < i + 1. m_p r' j = m_p q j"
      "\<forall>j < length ss. m_p r' (i + 1 + j) = Some (Some (starts (length (pre @ s @ [0])) (s2 # ss) ! Suc j))"
    using Cons.IH [OF tx pl q(2), of "i + 1"] q(3) Cons.prems(5-7) mx by auto
  have qi: "m_p q j = m_p ?r j" if "j < i + 1" for j
    using q(4) that Cons.prems(4) by (simp add: rp_extends_def)
  have "m_p r' (i + j) = Some (Some (starts (length pre) (s # s2 # ss) ! Suc j))" if "j < Suc (length ss)" for j
  proof (cases j)
    case 0
    with r'(4) qi [of i] show ?thesis by simp
  next
    case (Suc k)
    with r'(5) that show ?thesis by simp
  qed
  moreover have "\<forall>j < i. m_p r' j = m_p r j" using r'(4) qi by simp
  ultimately show ?case using skip step r'(1-3) by (intro exI [of _ r']) (simp add: add.assoc)
qed

section \<open>Properties\<close>

lemma fresh_pointers:
  "\<exists>r. realloc_ptr_new 8 16 8192 = Some (r :: nat option realloc_ptr) \<and> rp_wf r \<and> m_size r = 128 \<and> m_maxSize r = 65536"
proof -
  have c: "count_bits 128 = 7" "count_bits 65536 = 16" by (simp_all add: count_bits.simps)
  have g: "greater_pow2 8 16 = Some 128" "greater_pow2 8 8192 = Some 65536"
    by (simp_all add: greater_pow2_def c int_shift_one_def)
  have "is_pow2 128" unfolding is_pow2_def by (rule exI [of _ 7]) simp
  then show ?thesis by (simp add: realloc_ptr_new_def g rp_wf_def)
qed

text \<open>
  C37: Parsing finds every string: for a text of up to 65000 non-empty strings, each followed by a
  NUL, the array has one pointer per string, to its first character and in order, and a null pointer
  after the last one, if the allocator delivers.
\<close>

theorem key_value_parse_strings:
  assumes "ss \<noteq> []" and "\<forall>s \<in> set ss. plain s" and "length ss \<le> 65000" and "allocs w = []"
  shows "\<exists>m. cloudi_info_key_value_parse (text_of ss) w = (Ok m, w)
    \<and> (\<forall>j < length ss. m j = Some (Some (starts 0 ss ! j))) \<and> m (length ss) = Some None"
proof -
  obtain r :: "nat option realloc_ptr" where r: "realloc_ptr_new 8 16 8192 = Some r" "rp_wf r" "m_size r = 128"
      "m_maxSize r = 65536"
    using fresh_pointers by blast
  obtain s ss' where ss: "ss = s # ss'" using assms(1) by (cases ss) auto
  let ?r = "r\<lparr>m_p := (m_p r)(0 \<mapsto> Some 0)\<rparr>"
  have a: "rp_assign r 0 (Some 0) = Ok ?r" "rp_wf ?r" using rp_assign_ok [OF r(2), of 0 "Some 0"] r(3) by auto
  have l: "length (text_of ss) > 1" using assms(2) ss by (auto simp: plain_def neq_Nil_conv)
  obtain r' where r': "kv_loop (text_of ss) 1 1 ?r w = (Ok (1 + length ss', r'), w)" "rp_wf r'" "1 + length ss' < m_size r'"
      "\<forall>j < 1. m_p r' j = m_p ?r j" "\<forall>j < length ss'. m_p r' (1 + j) = Some (Some (starts 0 (s # ss') ! Suc j))"
    using kv_loop_strings [of "text_of ss" "[]" s ss' ?r 1 w] assms(2-4) ss a(2) r(3,4) by auto
  let ?r' = "r'\<lparr>m_p := (m_p r')(1 + length ss' \<mapsto> None)\<rparr>"
  have "rp_assign r' (1 + length ss') None = Ok ?r'" using rp_assign_ok [OF r'(2,3), of None] by auto
  then have "cloudi_info_key_value_parse (text_of ss) w = (Ok (m_p ?r'), w)"
    using r(1) a(1) l r'(1) by (simp add: cloudi_info_key_value_parse_def text_key_value_parse_def rp_release_def)
  moreover have "m_p ?r' j = Some (Some (starts 0 ss ! j))" if "j < length ss" for j
    using r'(4,5) that ss by (cases j) auto
  ultimately show ?thesis using ss by (intro exI [of _ "m_p ?r'"]) auto
qed

theorem key_value_parse_strings_witness:
  "\<exists>m. cloudi_info_key_value_parse (text_of [cstr ''key'', cstr ''v'']) io_idle = (Ok m, io_idle)
    \<and> m 1 = Some (Some 4) \<and> m 2 = Some None"
proof -
  have "\<forall>s \<in> set [cstr ''key'', cstr ''v'']. plain s" by (simp add: plain_def cstr_def)
  moreover have "allocs io_idle = []" by (simp add: io_idle_def)
  ultimately obtain m where m: "cloudi_info_key_value_parse (text_of [cstr ''key'', cstr ''v'']) io_idle = (Ok m, io_idle)"
    "\<forall>j < length [cstr ''key'', cstr ''v'']. m j = Some (Some (starts 0 [cstr ''key'', cstr ''v''] ! j))"
    "m (length [cstr ''key'', cstr ''v'']) = Some None"
    using key_value_parse_strings [of "[cstr ''key'', cstr ''v'']" io_idle] by auto
  have "m 1 = Some (Some (starts 0 [cstr ''key'', cstr ''v''] ! 1))" using m(2) by simp
  with m(1,3) show ?thesis by (intro exI [of _ m]) (simp add: numeral_2_eq_2)
qed

text \<open>
  An empty value hides the string after it: the scan steps over the first character of every
  string it has found, so the NUL of an empty one is not seen. A text of a key, an empty value and any
  number of further non-empty strings gives an array without a pointer to the second key.
\<close>

theorem key_value_parse_empty_value:
  assumes "plain k" and "plain k2" and "\<forall>s \<in> set ss. plain s" and "length ss \<le> 65000" and "allocs w = []"
  shows "\<exists>m. cloudi_info_key_value_parse (text_of (k # [] # k2 # ss)) w = (Ok m, w)
    \<and> m 0 = Some (Some 0) \<and> m 1 = Some (Some (length k + 1))
    \<and> (\<forall>j < length ss. m (2 + j) = Some (Some (starts (length k + 2) (k2 # ss) ! Suc j)))
    \<and> m (2 + length ss) = Some None"
proof -
  let ?t = "text_of (k # [] # k2 # ss)"
  obtain r :: "nat option realloc_ptr" where r: "realloc_ptr_new 8 16 8192 = Some r" "rp_wf r" "m_size r = 128"
      "m_maxSize r = 65536"
    using fresh_pointers by blast
  let ?r = "r\<lparr>m_p := (m_p r)(0 \<mapsto> Some 0)\<rparr>"
  have a: "rp_assign r 0 (Some 0) = Ok ?r" "rp_wf ?r" using rp_assign_ok [OF r(2), of 0 "Some 0"] r(3) by auto
  have k: "k \<noteq> []" "0 \<notin> set k" using assms(1) by (auto simp: plain_def)
  let ?r1 = "?r\<lparr>m_p := (m_p ?r)(1 \<mapsto> Some (length k + 1))\<rparr>"
  have a1: "rp_assign ?r 1 (Some (length k + 1)) = Ok ?r1" "rp_wf ?r1"
    using rp_assign_ok [OF a(2), of 1 "Some (length k + 1)"] r(3) by auto
  obtain q where q: "c_reserve (1 + 2) ?r1 w = (Ok (True, q), w)" "rp_wf q" "1 + 2 < m_size q" "rp_extends ?r1 q"
    using c_reserve_free [OF a1(2), of "1 + 2" w] r(4) assms(5) by auto
  have qs: "m_maxSize q = 65536" "m_p q 0 = Some (Some 0)" "m_p q 1 = Some (Some (length k + 1))"
    using q(4) r(3,4) by (auto simp: rp_extends_def)
  have "1 + (length k - 1) = length k" using k(1) by (cases k) auto
  with kv_skip [of "length k - 1" ?t 1 1 ?r w] nth_inside [OF k(2), of "[]"]
  have "kv_loop ?t 1 1 ?r w = kv_loop ?t (length k) 1 ?r w" by simp
  also have "\<dots> = kv_loop ?t (length k + 2) 2 q w"
    using a1(1) q(1) by (subst kv_loop.simps) (simp add: numeral_eq_Suc)
  finally have skip: "kv_loop ?t 1 1 ?r w = kv_loop ?t (length k + 2) 2 q w" .
  have k2: "k2 \<noteq> []" "0 \<notin> set k2" using assms(2) by (auto simp: plain_def)
  have tx: "?t = (k @ [0, 0]) @ text_of (k2 # ss)" by simp
  have "?t ! (length k + 2) = hd k2" unfolding tx using k2(1) by (cases k2) (simp_all add: nth_append)
  then have nz: "?t ! (length k + 2) \<noteq> 0" using k2 by (metis hd_in_set)
  have "length k + 2 < length ?t - 1" using k2(1) by (cases k2) simp_all
  with nz have one: "kv_loop ?t (length k + 2) 2 q w = kv_loop ?t (length (k @ [0, 0]) + 1) 2 q w"
    by (subst kv_loop.simps) simp
  obtain r' where r': "kv_loop ?t (length (k @ [0, 0]) + 1) 2 q w = (Ok (2 + length ss, r'), w)" "rp_wf r'" "2 + length ss < m_size r'"
      "\<forall>j < 2. m_p r' j = m_p q j"
      "\<forall>j < length ss. m_p r' (2 + j) = Some (Some (starts (length (k @ [0, 0 :: byte])) (k2 # ss) ! Suc j))"
    using kv_loop_strings [OF tx, of q 2 w] assms(2-5) q(2,3) qs(1) by auto
  let ?r' = "r'\<lparr>m_p := (m_p r')(2 + length ss \<mapsto> None)\<rparr>"
  have f: "rp_assign r' (2 + length ss) None = Ok ?r'" using rp_assign_ok [OF r'(2,3), of None] by auto
  have l: "length ?t > 1" using k(1) by (cases k) simp_all
  have "(if length ?t > 1 then kv_loop ?t 1 1 ?r w else (Ok (1, ?r), w)) = (Ok (2 + length ss, r'), w)"
    using l skip one r'(1) by simp
  then have "cloudi_info_key_value_parse ?t w = (Ok (m_p ?r'), w)"
    unfolding cloudi_info_key_value_parse_def text_key_value_parse_def r(1) option.case a(1) outcome.case
    using f by (simp add: rp_release_def del: text_of.simps)
  moreover have "m_p ?r' 0 = Some (Some 0)" "m_p ?r' 1 = Some (Some (length k + 1))" using r'(4) qs(2,3) by simp_all
  ultimately show ?thesis using r'(5) by (intro exI [of _ "m_p ?r'"]) simp
qed

theorem key_value_parse_empty_value_witness:
  "\<exists>m. cloudi_info_key_value_parse (text_of [cstr ''a'', [], cstr ''b'', cstr ''c'']) io_idle = (Ok m, io_idle)
    \<and> m 1 = Some (Some 2) \<and> m 2 = Some (Some 5) \<and> m 3 = Some None"
proof -
  have p: "plain (cstr ''a'')" "plain (cstr ''b'')" "\<forall>s \<in> set [cstr ''c'']. plain s" by (simp_all add: plain_def cstr_def)
  have "allocs io_idle = []" by (simp add: io_idle_def)
  then obtain m where m: "cloudi_info_key_value_parse (text_of [cstr ''a'', [], cstr ''b'', cstr ''c'']) io_idle = (Ok m, io_idle)"
    "m 1 = Some (Some (length (cstr ''a'') + 1))"
    "\<forall>j < length [cstr ''c'']. m (2 + j) = Some (Some (starts (length (cstr ''a'') + 2) [cstr ''b'', cstr ''c''] ! Suc j))"
    "m (2 + length [cstr ''c'']) = Some None"
    using key_value_parse_empty_value [OF p, of io_idle] by auto
  have "m (2 + 0) = Some (Some (starts (length (cstr ''a'') + 2) [cstr ''b'', cstr ''c''] ! Suc 0))"
    using m(3) by (metis length_greater_0_conv list.discI)
  then have "m 2 = Some (Some 5)" by simp
  moreover have "m 3 = Some None" using m(4) by (simp add: numeral_3_eq_3)
  ultimately show ?thesis using m(1,2) by (intro exI [of _ m]) (simp add: numeral_2_eq_2)
qed

end
