(* ===== verification/Api_Cxx.thy ===== *)
theory Api_Cxx
  imports Api_Calls Key_Value State_Machine
begin

text \<open>
  The C++ API (class \<open>CloudI::API\<close> of \<^verbatim>\<open>api/c/cloudi.hpp\<close> and \<^verbatim>\<open>api/c/cloudi.cpp\<close>): objects that share
  an instance of the C API and a count of themselves. A callback object that is subscribed owns one
  more such object. The members call the C API; what this theory is about is when the instance ends.
\<close>

section \<open>Objects that share an instance\<close>

text \<open>
  \<open>m_api\<close> and \<open>m_count\<close> of the class. \<open>handles\<close> is the number of API objects of the program (those
  owned by callback objects are not among them), \<open>api_freed\<close> says that the instance and the count have
  been deleted, \<open>api_closed\<close> which descriptors were closed then.
\<close>

record shared_api =
  m_api :: cloudi_instance_t
  m_count :: int
  handles :: nat
  api_freed :: bool
  api_closed :: "int list"

type_synonym 'a api_call = "shared_api \<times> os \<Rightarrow> 'a outcome \<times> shared_api \<times> os"

text \<open>A call of the C API on the instance; after it was deleted the pointer dangles.\<close>

definition on_api :: "'a call \<Rightarrow> 'a api_call" where
  "on_api f = (\<lambda>(a, w).
     if api_freed a then (Undefined, (a, w))
     else (case f (m_api a, w) of (r, (p, w')) \<Rightarrow> (r, (a\<lparr>m_api := p\<rparr>, w'))))"

definition API_new :: "ei_encoder \<Rightarrow> (bytes \<Rightarrow> nat option) \<Rightarrow> runner \<Rightarrow> (string \<Rightarrow> bytes option) \<Rightarrow> u32
    \<Rightarrow> os \<Rightarrow> unit outcome \<times> shared_api \<times> os" where
  "API_new ei dv run env thread_index w =
     (case cloudi_initialize ei dv run env False thread_index 0 (zero_instance 0, w) of
        (r, (p, w')) \<Rightarrow>
          (bind_outcome r (\<lambda>result.
             if result \<noteq> cloudi_success then Raise (invalid_input_exception (status_value result)) else Ok ()),
           (\<lparr>m_api = p, m_count = 1, handles = (if r = Ok cloudi_success then 1 else 0), api_freed = False,
             api_closed = []\<rparr>, w')))"

definition API_copy :: "unit api_call" where
  "API_copy = (\<lambda>(a, w).
     if api_freed a then (Undefined, (a, w))
     else (Ok (), (a\<lparr>m_count := m_count a + 1, handles := handles a + 1\<rparr>, w)))"

text \<open>
  \<open>~API\<close>. When the count gets to 0, no callback object owns an API object any more, so that deleting the
  table of callbacks changes no count.
\<close>

definition API_release :: "unit api_call" where
  "API_release = (\<lambda>(a, w).
     if api_freed a then (Undefined, (a, w))
     else if m_count a - 1 = 0 then
       (Ok (), (a\<lparr>m_count := 0, api_freed := True, api_closed := snd (cloudi_destroy False (m_api a))\<rparr>, w))
     else (Ok (), (a\<lparr>m_count := m_count a - 1\<rparr>, w)))"

definition API_destroy :: "unit api_call" where
  "API_destroy = (\<lambda>(a, w). API_release (a\<lparr>handles := handles a - 1\<rparr>, w))"

definition API_thread_count :: "(string \<Rightarrow> bytes option) \<Rightarrow> u32 outcome" where
  "API_thread_count env =
     bind_outcome (cloudi_initialize_thread_count env) (\<lambda>(result, count).
       case count of
         Some n \<Rightarrow> if result \<noteq> cloudi_success then Raise (invalid_input_exception (status_value result)) else Ok n
       | None \<Rightarrow> Raise (invalid_input_exception (status_value result)))"

section \<open>Subscriptions\<close>

text \<open>
  The public forms of \<open>subscribe\<close> make a callback object (number \<open>f\<close>) that owns a copy of the API
  object. A callback that is removed from the table is deleted, and with it that copy.
\<close>

fun is_object :: "callback_function \<Rightarrow> bool" where
  "is_object (callback_function_object f) = True"
| "is_object _ = False"

definition API_subscribe :: "ei_encoder \<Rightarrow> bytes \<Rightarrow> nat \<Rightarrow> cloudi_status api_call" where
  "API_subscribe ei pattern f = (\<lambda>(a, w).
     if api_freed a then (Undefined, (a, w))
     else on_api (cloudi_subscribe_impl ei pattern (callback_function_object f)) (a\<lparr>m_count := m_count a + 1\<rparr>, w))"

definition API_unsubscribe :: "ei_encoder \<Rightarrow> bytes \<Rightarrow> cloudi_status api_call" where
  "API_unsubscribe ei pattern = (\<lambda>(a, w).
     if api_freed a then (Undefined, (a, w))
     else
       (case prefix_string (m_api a) of
          Ok pre \<Rightarrow>
            (let removed = take 1 (subscribed (lookup (m_api a)) (pre @ pattern))
             in bind_state (if list_ex is_object removed then API_release else Pair (Ok ())) (\<lambda>_.
                on_api (cloudi_unsubscribe ei pattern)) (a, w))
        | _ \<Rightarrow> (Undefined, (a, w))))"

section \<open>The members that call the C API\<close>

definition API_subscribe_count :: "ei_encoder \<Rightarrow> (bytes \<Rightarrow> nat option) \<Rightarrow> runner \<Rightarrow> bytes \<Rightarrow> cloudi_status api_call" where
  "API_subscribe_count ei dv run pattern = on_api (cloudi_subscribe_count ei dv run pattern)"

definition API_send_async :: "ei_encoder \<Rightarrow> (bytes \<Rightarrow> nat option) \<Rightarrow> runner \<Rightarrow> bytes \<Rightarrow> bytes \<Rightarrow> cloudi_status api_call" where
  "API_send_async ei dv run name request = on_api (cloudi_send_async ei dv run name request)"

definition API_send_async_full :: "ei_encoder \<Rightarrow> (bytes \<Rightarrow> nat option) \<Rightarrow> runner \<Rightarrow> bytes \<Rightarrow> bytes \<Rightarrow> bytes
    \<Rightarrow> u32 \<Rightarrow> 8 word \<Rightarrow> cloudi_status api_call" where
  "API_send_async_full ei dv run name request_info request timeout priority =
     on_api (cloudi_send_async_full ei dv run name request_info request timeout priority)"

definition API_send_sync :: "ei_encoder \<Rightarrow> (bytes \<Rightarrow> nat option) \<Rightarrow> runner \<Rightarrow> bytes \<Rightarrow> bytes \<Rightarrow> cloudi_status api_call" where
  "API_send_sync ei dv run name request = on_api (cloudi_send_sync ei dv run name request)"

definition API_send_sync_full :: "ei_encoder \<Rightarrow> (bytes \<Rightarrow> nat option) \<Rightarrow> runner \<Rightarrow> bytes \<Rightarrow> bytes \<Rightarrow> bytes
    \<Rightarrow> u32 \<Rightarrow> 8 word \<Rightarrow> cloudi_status api_call" where
  "API_send_sync_full ei dv run name request_info request timeout priority =
     on_api (cloudi_send_sync_full ei dv run name request_info request timeout priority)"

definition API_mcast_async :: "ei_encoder \<Rightarrow> (bytes \<Rightarrow> nat option) \<Rightarrow> runner \<Rightarrow> bytes \<Rightarrow> bytes \<Rightarrow> cloudi_status api_call" where
  "API_mcast_async ei dv run name request = on_api (cloudi_mcast_async ei dv run name request)"

definition API_mcast_async_full :: "ei_encoder \<Rightarrow> (bytes \<Rightarrow> nat option) \<Rightarrow> runner \<Rightarrow> bytes \<Rightarrow> bytes \<Rightarrow> bytes
    \<Rightarrow> u32 \<Rightarrow> 8 word \<Rightarrow> cloudi_status api_call" where
  "API_mcast_async_full ei dv run name request_info request timeout priority =
     on_api (cloudi_mcast_async_full ei dv run name request_info request timeout priority)"

definition API_forward :: "ei_encoder \<Rightarrow> (bytes \<Rightarrow> nat option) \<Rightarrow> int \<Rightarrow> bytes \<Rightarrow> bytes \<Rightarrow> bytes
    \<Rightarrow> u32 \<Rightarrow> 8 word \<Rightarrow> bytes \<Rightarrow> bytes \<Rightarrow> cloudi_status api_call" where
  "API_forward ei dv request_type name request_info request timeout priority tid pid =
     on_api (cloudi_forward ei dv request_type name request_info request timeout priority tid pid)"

definition API_forward_async :: "ei_encoder \<Rightarrow> (bytes \<Rightarrow> nat option) \<Rightarrow> bytes \<Rightarrow> bytes \<Rightarrow> bytes
    \<Rightarrow> u32 \<Rightarrow> 8 word \<Rightarrow> bytes \<Rightarrow> bytes \<Rightarrow> cloudi_status api_call" where
  "API_forward_async ei dv name request_info request timeout priority tid pid =
     on_api (cloudi_forward_async ei dv name request_info request timeout priority tid pid)"

definition API_forward_sync :: "ei_encoder \<Rightarrow> (bytes \<Rightarrow> nat option) \<Rightarrow> bytes \<Rightarrow> bytes \<Rightarrow> bytes
    \<Rightarrow> u32 \<Rightarrow> 8 word \<Rightarrow> bytes \<Rightarrow> bytes \<Rightarrow> cloudi_status api_call" where
  "API_forward_sync ei dv name request_info request timeout priority tid pid =
     on_api (cloudi_forward_sync ei dv name request_info request timeout priority tid pid)"

definition API_return :: "ei_encoder \<Rightarrow> (bytes \<Rightarrow> nat option) \<Rightarrow> int \<Rightarrow> bytes \<Rightarrow> bytes \<Rightarrow> bytes \<Rightarrow> bytes
    \<Rightarrow> u32 \<Rightarrow> bytes \<Rightarrow> bytes \<Rightarrow> cloudi_status api_call" where
  "API_return ei dv request_type name pattern resp_info resp timeout tid pid =
     on_api (cloudi_return ei dv request_type name pattern resp_info resp timeout tid pid)"

definition API_return_async :: "ei_encoder \<Rightarrow> (bytes \<Rightarrow> nat option) \<Rightarrow> bytes \<Rightarrow> bytes \<Rightarrow> bytes \<Rightarrow> bytes
    \<Rightarrow> u32 \<Rightarrow> bytes \<Rightarrow> bytes \<Rightarrow> cloudi_status api_call" where
  "API_return_async ei dv name pattern resp_info resp timeout tid pid =
     on_api (cloudi_return_async ei dv name pattern resp_info resp timeout tid pid)"

definition API_return_sync :: "ei_encoder \<Rightarrow> (bytes \<Rightarrow> nat option) \<Rightarrow> bytes \<Rightarrow> bytes \<Rightarrow> bytes \<Rightarrow> bytes
    \<Rightarrow> u32 \<Rightarrow> bytes \<Rightarrow> bytes \<Rightarrow> cloudi_status api_call" where
  "API_return_sync ei dv name pattern resp_info resp timeout tid pid =
     on_api (cloudi_return_sync ei dv name pattern resp_info resp timeout tid pid)"

text \<open>
  The seven forms of \<open>recv_async\<close>: a missing timeout is the synchronous timeout of the instance, a
  missing identifier the null pointer, a missing \<open>consume\<close> is true.
\<close>

definition API_recv_async :: "ei_encoder \<Rightarrow> (bytes \<Rightarrow> nat option) \<Rightarrow> runner \<Rightarrow> u32 option \<Rightarrow> bytes option \<Rightarrow> bool option
    \<Rightarrow> cloudi_status api_call" where
  "API_recv_async ei dv run timeout tid consume =
     on_api (\<lambda>(p, w). cloudi_recv_async ei dv run (case timeout of None \<Rightarrow> timeout_sync p | Some t \<Rightarrow> t) tid
       (case consume of None \<Rightarrow> True | Some c \<Rightarrow> c) (p, w))"

definition API_poll :: "ei_encoder \<Rightarrow> (bytes \<Rightarrow> nat option) \<Rightarrow> runner \<Rightarrow> int \<Rightarrow> cloudi_status api_call" where
  "API_poll ei dv run timeout = on_api (cloudi_poll ei dv run timeout)"

definition API_shutdown :: "ei_encoder \<Rightarrow> bytes option \<Rightarrow> cloudi_status api_call" where
  "API_shutdown ei reason = on_api (cloudi_shutdown ei (Some (case reason of None \<Rightarrow> [] | Some r \<Rightarrow> r)))"

definition API_info_key_value_parse :: "bytes \<Rightarrow> os \<Rightarrow> nat option memory outcome \<times> os" where
  "API_info_key_value_parse message_info w = cloudi_info_key_value_parse message_info w"

text \<open>
  The identifiers of the last answer: a null pointer behind the last one; \<open>i * 16\<close> is an \<open>unsigned int\<close>.
\<close>

definition API_get_trans_id :: "cloudi_instance_t \<Rightarrow> u32 \<Rightarrow> nat option outcome" where
  "API_get_trans_id p i =
     (if i \<ge> trans_id_count p then Ok None
      else (case trans_id p of None \<Rightarrow> Undefined | Some t \<Rightarrow> Ok (Some (t + unat (i * 16)))))"

definition API_get_trans_id_null :: "cloudi_instance_t \<Rightarrow> u32 \<Rightarrow> bool outcome" where
  "API_get_trans_id_null p i =
     bind_outcome (API_get_trans_id p i) (\<lambda>t.
       case t of
         None \<Rightarrow> Raise assert_exception
       | Some t \<Rightarrow> bind_outcome (rp_get t 16 (buffer_recv p)) (\<lambda>bs. Ok (bs = replicate 16 0)))"

text \<open>The enumeration \<open>return_value\<close> of the class.\<close>

primrec return_value :: "cloudi_status \<Rightarrow> int" where
  "return_value cloudi_success = 0"
| "return_value cloudi_terminate = 110"
| "return_value cloudi_timeout = 7"
| "return_value cloudi_error_function_parameter = 8"
| "return_value cloudi_error_read_underflow = 9"
| "return_value cloudi_error_ei_decode = 10"
| "return_value cloudi_invalid_input = 11"
| "return_value cloudi_out_of_memory = 12"
| "return_value cloudi_error_read_EAGAIN = 81"
| "return_value cloudi_error_read_EBADF = 82"
| "return_value cloudi_error_read_EFAULT = 83"
| "return_value cloudi_error_read_EINTR = 84"
| "return_value cloudi_error_read_EINVAL = 85"
| "return_value cloudi_error_read_EIO = 86"
| "return_value cloudi_error_read_EISDIR = 87"
| "return_value cloudi_error_read_null = 88"
| "return_value cloudi_error_read_overflow = 89"
| "return_value cloudi_error_read_unknown = 90"
| "return_value cloudi_error_write_EAGAIN = 91"
| "return_value cloudi_error_write_EBADF = 92"
| "return_value cloudi_error_write_EFAULT = 93"
| "return_value cloudi_error_write_EFBIG = 94"
| "return_value cloudi_error_write_EINTR = 95"
| "return_value cloudi_error_write_EINVAL = 96"
| "return_value cloudi_error_write_EIO = 97"
| "return_value cloudi_error_write_ENOSPC = 98"
| "return_value cloudi_error_write_EPIPE = 99"
| "return_value cloudi_error_write_null = 100"
| "return_value cloudi_error_write_overflow = 101"
| "return_value cloudi_error_write_unknown = 102"
| "return_value cloudi_error_ei_encode = 103"
| "return_value cloudi_error_poll_EBADF = 104"
| "return_value cloudi_error_poll_EFAULT = 105"
| "return_value cloudi_error_poll_EINTR = 106"
| "return_value cloudi_error_poll_EINVAL = 107"
| "return_value cloudi_error_poll_ENOMEM = 108"
| "return_value cloudi_error_poll_ERR = 109"
| "return_value cloudi_error_poll_HUP = 110"
| "return_value cloudi_error_poll_NVAL = 111"
| "return_value cloudi_error_poll_unknown = 112"

lemma return_value_status: "return_value s = status_value s"
  by (cases s) simp_all

section \<open>Counting the objects\<close>

text \<open>A number of callbacks of some kind, summed over the patterns of a table.\<close>

definition table_sum :: "(callback_function list \<Rightarrow> nat) \<Rightarrow> (bytes \<Rightarrow> callback_function list) \<Rightarrow> nat" where
  "table_sum c S = (\<Sum>p | S p \<noteq> []. c (S p))"

lemma table_sum_on:
  assumes "finite A" "{p. S p \<noteq> []} \<subseteq> A" "c [] = 0"
  shows "table_sum c S = (\<Sum>p \<in> A. c (S p))"
  unfolding table_sum_def using assms by (intro sum.mono_neutral_left) auto

lemma table_sum_update:
  assumes "finite {p. S p \<noteq> []}" "c [] = 0"
  shows "table_sum c (S(p := fs)) + c (S p) = table_sum c S + c fs" "finite {q. (S(p := fs)) q \<noteq> []}"
proof -
  let ?A = "insert p {q. S q \<noteq> []}"
  have A: "finite ?A" "{q. (S(p := fs)) q \<noteq> []} \<subseteq> ?A" "{q. S q \<noteq> []} \<subseteq> ?A" using assms(1) by auto
  then show "finite {q. (S(p := fs)) q \<noteq> []}" using finite_subset by blast
  have "table_sum c S = c (S p) + (\<Sum>q \<in> ?A - {p}. c (S q))"
    unfolding table_sum_on [of ?A S c, OF A(1,3) assms(2)] using A(1) by (subst sum.remove [of _ p]) auto
  moreover have "table_sum c (S(p := fs)) = c fs + (\<Sum>q \<in> ?A - {p}. c (S q))"
    unfolding table_sum_on [of ?A "S(p := fs)" c, OF A(1,2) assms(2)] using A(1) by (subst sum.remove [of _ p]) auto
  ultimately show "table_sum c (S(p := fs)) + c (S p) = table_sum c S + c fs" by simp
qed

text \<open>How often a function object is subscribed.\<close>

definition function_count :: "nat \<Rightarrow> callback_function list \<Rightarrow> nat" where
  "function_count f fs = count_list fs (callback_function_object f)"

definition subscriptions :: "nat \<Rightarrow> (bytes \<Rightarrow> callback_function list) \<Rightarrow> nat" where
  "subscriptions f S = table_sum (function_count f) S"

lemma subscriptions_update:
  assumes "finite {p. S p \<noteq> []}"
  shows "subscriptions f (S(p := fs)) + function_count f (S p) = subscriptions f S + function_count f fs"
  unfolding subscriptions_def by (rule table_sum_update [OF assms]) (simp add: function_count_def)

lemma count_list_rotate1: "count_list (rotate1 xs) x = count_list xs x"
  by (cases xs) simp_all

text \<open>The number of callback objects in a table.\<close>

definition object_count :: "callback_function list \<Rightarrow> nat" where
  "object_count fs = length (filter is_object fs)"

definition objects :: "(bytes \<Rightarrow> callback_function list) \<Rightarrow> nat" where
  "objects S = table_sum object_count S"

lemma objects_update:
  assumes "finite {p. S p \<noteq> []}"
  shows "objects (S(p := fs)) + object_count (S p) = objects S + object_count fs"
    "finite {q. (S(p := fs)) q \<noteq> []}"
  unfolding objects_def by (rule table_sum_update [OF assms], simp add: object_count_def)+

lemma object_count_simps [simp]:
  "object_count [] = 0" "object_count (fs @ gs) = object_count fs + object_count gs"
  "object_count (f # fs) = (if is_object f then 1 else 0) + object_count fs"
  "object_count (rotate1 fs) = object_count fs"
  by (simp_all add: object_count_def) (cases fs, simp_all)

text \<open>
  The invariant: the count is the number of API objects, of the program and of callback objects; the
  instance is deleted when there is none.
\<close>

definition api_objects :: "shared_api \<Rightarrow> nat" where
  "api_objects a = objects (subscribed (lookup (m_api a)))"

definition api_inv :: "shared_api \<Rightarrow> bool" where
  "api_inv a \<longleftrightarrow>
     lookup_wf (lookup (m_api a)) \<and> finite {p. subscribed (lookup (m_api a)) p \<noteq> []}
     \<and> m_count a = int (handles a) + int (api_objects a) \<and> (api_freed a \<longleftrightarrow> m_count a = 0)"

text \<open>What a program does with its API objects; dispatching a request turns the queue of a pattern.\<close>

inductive api_step :: "shared_api \<Rightarrow> shared_api \<Rightarrow> bool" where
  copied: "0 < handles a \<Longrightarrow> API_copy (a, w) = (Ok (), (a', w')) \<Longrightarrow> api_step a a'"
| destroyed: "0 < handles a \<Longrightarrow> API_destroy (a, w) = (Ok (), (a', w')) \<Longrightarrow> api_step a a'"
| subscribes: "0 < handles a \<Longrightarrow> \<forall>p. length (subscribed (lookup (m_api a)) p) < 2 ^ 64 - 1 \<Longrightarrow>
    API_subscribe ei pattern f (a, w) = (Ok r, (a', w')) \<Longrightarrow> api_step a a'"
| unsubscribes: "0 < handles a \<Longrightarrow> API_unsubscribe ei pattern (a, w) = (Ok r, (a', w')) \<Longrightarrow> api_step a a'"
| dispatches: "lookup_find pattern (lookup (m_api a)) = Ok (f, t) \<Longrightarrow> \<not> api_freed a \<Longrightarrow>
    api_step a (a\<lparr>m_api := (m_api a)\<lparr>lookup := t\<rparr>\<rparr>)"
| calls: "\<not> api_freed a \<Longrightarrow> lookup p = lookup (m_api a) \<Longrightarrow> api_step a (a\<lparr>m_api := p\<rparr>)"

text \<open>From an object that has just been made.\<close>

definition api_start :: "shared_api \<Rightarrow> bool" where
  "api_start a \<longleftrightarrow>
     lookup (m_api a) = (\<lambda>_. None) \<and> m_count a = 1 \<and> handles a = 1 \<and> \<not> api_freed a \<and> api_closed a = []"

abbreviation api_reachable :: "shared_api \<Rightarrow> bool" where
  "api_reachable \<equiv> reach api_start api_step"

lemma send_message_lookup:
  assumes "send_message ei st (p, w) = (Ok r, (p', w'))"
  shows "lookup p' = lookup p"
proof -
  obtain x p1 w1 where e: "emit_send ei st (p, w) = (Ok x, (p1, w1))"
      "(case x of (status, index) \<Rightarrow> if status \<noteq> cloudi_success then Pair (Ok status) else flush_send index) (p1, w1)
        = (Ok r, (p', w'))"
    using assms by (auto simp: send_message_def bind_state_eq_Ok)
  have "lookup p1 = lookup p"
    using e(1) by (auto simp: emit_send_def split: prod.splits outcome.splits)
  moreover have "lookup p' = lookup p1"
    using e(2) by (auto simp: flush_send_def split: prod.splits outcome.splits if_splits)
  ultimately show ?thesis by simp
qed

lemma API_release_inv:
  assumes "api_inv (a\<lparr>m_count := m_count a - 1\<rparr>\<lparr>api_freed := (m_count a = 1)\<rparr>)" "\<not> api_freed a"
    "API_release (a, w) = (Ok (), (a', w'))"
  shows "api_inv a' \<and> lookup (m_api a') = lookup (m_api a)"
  using assms by (auto simp: API_release_def api_inv_def api_objects_def split: if_splits)

text \<open>The two parts of \<open>API_unsubscribe\<close>: the removed callback gives up its API object, the rest stays.\<close>

lemma API_unsubscribe_parts:
  assumes "API_unsubscribe ei pattern (a, w) = (Ok r, (a', w'))"
  shows "\<exists>pre a1. prefix_string (m_api a) = Ok pre \<and> \<not> api_freed a1
    \<and> a1 = a\<lparr>m_count := m_count a - (if list_ex is_object (take 1 (subscribed (lookup (m_api a)) (pre @ pattern))) then 1 else 0)\<rparr>
    \<and> on_api (cloudi_unsubscribe ei pattern) (a1, w) = (Ok r, (a', w'))"
proof -
  have nf: "\<not> api_freed a" using assms by (auto simp: API_unsubscribe_def split: if_splits)
  with assms obtain pre where pre: "prefix_string (m_api a) = Ok pre"
    by (auto simp: API_unsubscribe_def split: outcome.splits)
  let ?del = "list_ex is_object (take 1 (subscribed (lookup (m_api a)) (pre @ pattern)))"
  obtain a1 w1 where a1: "(if ?del then API_release else Pair (Ok ())) (a, w) = (Ok (), (a1, w1))"
      "on_api (cloudi_unsubscribe ei pattern) (a1, w1) = (Ok r, (a', w'))"
    using assms nf pre by (auto simp: API_unsubscribe_def Let_def bind_state_eq_Ok)
  have "\<not> api_freed a1" using a1(2) by (auto simp: on_api_def split: if_splits)
  with a1 have "a1 = a\<lparr>m_count := m_count a - (if ?del then 1 else 0)\<rparr>" "w1 = w"
    by (auto simp: API_release_def nf split: if_splits)
  with a1 pre \<open>\<not> api_freed a1\<close> show ?thesis by blast
qed

lemma cloudi_unsubscribe_lookup:
  assumes "cloudi_unsubscribe ei pattern (p, w) = (Ok r, (p', w'))" "prefix_string p = Ok pre"
  shows "\<exists>b t. lookup_remove (pre @ pattern) (lookup p) = Ok (b, t) \<and> lookup p' = t"
proof -
  obtain b t where t: "lookup_remove (pre @ pattern) (lookup p) = Ok (b, t)"
    using assms by (auto simp: cloudi_unsubscribe_def split: outcome.splits)
  with assms have "lookup p' = t"
    by (cases b) (auto simp: cloudi_unsubscribe_def dest: send_message_lookup)
  with t show ?thesis by blast
qed

text \<open>What the two calls do to the table.\<close>

lemma API_subscribe_lookup:
  assumes "API_subscribe ei pattern f (a, w) = (Ok r, (a', w'))"
  shows "\<exists>pre p. prefix_string (m_api a) = Ok pre \<and> a' = a\<lparr>m_count := m_count a + 1, m_api := p\<rparr>
    \<and> lookup p = lookup_insert (pre @ pattern) (callback_function_object f) (lookup (m_api a))"
  using assms send_message_lookup
  by (fastforce simp: API_subscribe_def on_api_def cloudi_subscribe_impl_def split: prod.splits outcome.splits if_splits)

lemma API_unsubscribe_lookup:
  assumes "API_unsubscribe ei pattern (a, w) = (Ok r, (a', w'))" and "lookup_wf (lookup (m_api a))"
  shows "\<exists>pre t q. prefix_string (m_api a) = Ok pre \<and> \<not> api_freed a'
    \<and> a' = a\<lparr>m_count := m_count a - (if list_ex is_object (take 1 (subscribed (lookup (m_api a)) (pre @ pattern))) then 1 else 0),
        m_api := q\<rparr>
    \<and> lookup q = t \<and> lookup_wf t
    \<and> subscribed t = (subscribed (lookup (m_api a)))(pre @ pattern := tl (subscribed (lookup (m_api a)) (pre @ pattern)))"
proof -
  let ?S = "subscribed (lookup (m_api a))"
  obtain pre a1 where p: "prefix_string (m_api a) = Ok pre" "\<not> api_freed a1"
      "a1 = a\<lparr>m_count := m_count a - (if list_ex is_object (take 1 (?S (pre @ pattern))) then 1 else 0)\<rparr>"
      "on_api (cloudi_unsubscribe ei pattern) (a1, w) = (Ok r, (a', w'))"
    using API_unsubscribe_parts [OF assms(1)] by blast
  obtain q where q: "cloudi_unsubscribe ei pattern (m_api a, w) = (Ok r, (q, w'))" "a' = a1\<lparr>m_api := q\<rparr>"
    using p(2,3,4) by (auto simp: on_api_def split: prod.splits)
  obtain b t where t: "lookup_remove (pre @ pattern) (lookup (m_api a)) = Ok (b, t)" "lookup q = t"
    using cloudi_unsubscribe_lookup [OF q(1) p(1)] by blast
  have "lookup_wf t" "subscribed t = ?S(pre @ pattern := tl (?S (pre @ pattern)))"
    using tbl.rem_ok [of "lookup (m_api a)" "pre @ pattern"] t(1) assms(2) by auto
  with p q t show ?thesis by (intro exI [of _ pre] exI [of _ t] exI [of _ q]) simp
qed

lemma api_inv_step:
  assumes "api_step a a'" "api_inv a"
  shows "api_inv a'"
  using assms(1)
proof cases
  case (copied w w')
  with assms(2) show ?thesis by (auto simp: API_copy_def api_inv_def api_objects_def split: if_splits)
next
  case 2: (destroyed w w')
  have nf: "\<not> api_freed a" using 2(1) assms(2) by (auto simp: api_inv_def)
  have "api_inv ((a\<lparr>handles := handles a - 1\<rparr>)\<lparr>m_count := m_count a - 1\<rparr>\<lparr>api_freed := (m_count a = 1)\<rparr>)"
    using 2(1) assms(2) nf by (auto simp: api_inv_def api_objects_def)
  with API_release_inv [of "a\<lparr>handles := handles a - 1\<rparr>" w a' w'] nf 2(2) show ?thesis
    by (simp add: API_destroy_def)
next
  case 3: (subscribes ei pattern f w r w')
  have nf: "\<not> api_freed a" using 3(1) assms(2) by (auto simp: api_inv_def)
  obtain pre p where p: "prefix_string (m_api a) = Ok pre" "a' = a\<lparr>m_count := m_count a + 1, m_api := p\<rparr>"
      "lookup p = lookup_insert (pre @ pattern) (callback_function_object f) (lookup (m_api a))"
    using API_subscribe_lookup [OF 3(3)] by blast
  let ?S = "subscribed (lookup (m_api a))"
  have fin: "finite {p. ?S p \<noteq> []}" using assms(2) by (simp add: api_inv_def)
  have "objects (subscribed (lookup p)) = objects ?S + 1" "finite {q. subscribed (lookup p) q \<noteq> []}"
    using objects_update [OF fin, of "pre @ pattern" "?S (pre @ pattern) @ [callback_function_object f]"]
    by (simp_all add: p(3) tbl.ins_callbacks)
  moreover have "lookup_wf (lookup p)"
    using 3(2) assms(2) by (simp add: p(3) api_inv_def tbl.ins_wf)
  ultimately show ?thesis using assms(2) nf by (auto simp: p(2) api_inv_def api_objects_def)
next
  case 5: (dispatches pattern f t)
  obtain t' where "lookup_find pattern (lookup (m_api a)) = Ok (f, t')" "lookup_wf t'"
      "subscribed t' = (subscribed (lookup (m_api a)))(pattern := rotate1 (subscribed (lookup (m_api a)) pattern))"
    using tbl.fnd_ok [of "lookup (m_api a)" pattern] assms(2) 5(2) by (auto simp: api_inv_def)
  then have t: "lookup_wf t" "subscribed t = (subscribed (lookup (m_api a)))(pattern := rotate1 (subscribed (lookup (m_api a)) pattern))"
    using 5(2) by auto
  show ?thesis
    using objects_update [of "subscribed (lookup (m_api a))" pattern "rotate1 (subscribed (lookup (m_api a)) pattern)"]
      assms(2) t 5(1) by (simp add: api_inv_def api_objects_def)
next
  case (calls p)
  with assms(2) show ?thesis by (auto simp: api_inv_def api_objects_def)
next
  case 4: (unsubscribes ei pattern w r w')
  let ?S = "subscribed (lookup (m_api a))"
  obtain pre t q where p: "prefix_string (m_api a) = Ok pre" "\<not> api_freed a'"
      "a' = a\<lparr>m_count := m_count a - (if list_ex is_object (take 1 (?S (pre @ pattern))) then 1 else 0), m_api := q\<rparr>"
      "lookup q = t" "lookup_wf t" "subscribed t = ?S(pre @ pattern := tl (?S (pre @ pattern)))"
    using API_unsubscribe_lookup [OF 4(2)] assms(2) unfolding api_inv_def by blast
  have fin: "finite {p. ?S p \<noteq> []}" using assms(2) by (simp add: api_inv_def)
  have "object_count (?S (pre @ pattern))
      = (if list_ex is_object (take 1 (?S (pre @ pattern))) then 1 else 0) + object_count (tl (?S (pre @ pattern)))"
    by (cases "?S (pre @ pattern)") simp_all
  with objects_update [OF fin, of "pre @ pattern" "tl (?S (pre @ pattern))"]
  have "objects (subscribed t) + (if list_ex is_object (take 1 (?S (pre @ pattern))) then 1 else 0) = objects ?S"
      "finite {q. subscribed t q \<noteq> []}"
    unfolding p(6) by simp_all
  then show ?thesis
    using p(2-5) assms(2) 4(1) by (auto simp: api_inv_def api_objects_def split: if_splits)
qed

interpretation api: invariant api_start api_step api_inv
proof
  fix a
  assume "api_start a"
  then show "api_inv a"
    by (simp add: api_start_def api_inv_def api_objects_def objects_def table_sum_def subscribed_def)
qed (rule api_inv_step)

section \<open>Properties\<close>

text \<open>A handle of an instance with one subscription.\<close>

definition new_api :: shared_api where
  "new_api = \<lparr>m_api = sample_instance, m_count = 1, handles = 1, api_freed = False, api_closed = []\<rparr>"

definition one_object :: "bytes \<Rightarrow> callback_function list" where
  "one_object = (\<lambda>_. [])(cstr ''/p/x'' := [callback_function_object 7])"

lemma one_object_count: "objects one_object = 1"
  using objects_update(1) [of "\<lambda>_. []" "cstr ''/p/x''" "[callback_function_object 7]"]
  by (simp add: one_object_def objects_def table_sum_def)

lemma sample_prefix: "prefix_string (sample_instance\<lparr>lookup := t\<rparr>) = Ok (cstr ''/p/'')"
  by (simp add: prefix_string_def sample_instance_def cstr_def)

lemma sample_notice_sent:
  assumes "wr w = [Wr_count 999]" and "allocs w = []" and "command = ''subscribe'' \<or> command = ''unsubscribe''"
  shows "\<exists>p' w'. send_message ei_format
    [Encode ei_version, Encode (ei_tuple_header 2), Encode (ei_atom (cstr command)),
     Reserve (length (cstr ''x'') + 128), Encode (ei_string (cstr ''x''))] (sample_instance\<lparr>lookup := t\<rparr>, w)
    = (Ok cloudi_success, (p', w'))"
proof -
  let ?st = "[Encode ei_version, Encode (ei_tuple_header 2), Encode (ei_atom (cstr command)),
            Reserve (length (cstr ''x'') + 128), Encode (ei_string (cstr ''x''))]"
  let ?p = "sample_instance\<lparr>lookup := t\<rparr>"
  have wf: "send_wf ?p" using sample_send_wf by (simp add: send_wf_def)
  have f: "fits ei_format ?st (header_size (use_header ?p)) (m_size (buffer_send ?p))"
    by (rule subscribe_fits [OF wf ei_format_bounded]) (use assms(3) in \<open>auto simp: cstr_def\<close>)
  obtain body where b: "encode ei_format ?st = Some body" "length body \<le> 900"
    using assms(3) by (auto simp: be16_def cstr_def)
  have "accepts (wr w) (header_size (use_header ?p) + length body)"
    using b(2) header_size_le [of "use_header ?p"] assms(1) by (cases "header_size (use_header ?p) + length body") auto
  moreover have "reserves_ok ei_format ?st (header_size (use_header ?p)) (m_maxSize (buffer_send ?p))"
    using assms(3) by (auto simp: sample_instance_def sample_buffer_def header_size_def cstr_def)
  ultimately show ?thesis using send_message_delivers [OF wf f _ assms(2) b(1)] by auto
qed

lemma new_api_subscribes:
  assumes "wr w = [Wr_count 999]" and "allocs w = []"
  shows "\<exists>a w'. API_subscribe ei_format (cstr ''x'') 7 (new_api, w) = (Ok cloudi_success, (a, w'))
    \<and> handles a = 1 \<and> \<not> api_freed a \<and> subscribed (lookup (m_api a)) = one_object"
proof -
  let ?t = "lookup_insert (cstr ''/p/'' @ cstr ''x'') (callback_function_object 7) (lookup sample_instance)"
  obtain p1 w1 where m: "send_message ei_format
      [Encode ei_version, Encode (ei_tuple_header 2), Encode (ei_atom (cstr ''subscribe'')),
       Reserve (length (cstr ''x'') + 128), Encode (ei_string (cstr ''x''))] (sample_instance\<lparr>lookup := ?t\<rparr>, w)
      = (Ok cloudi_success, (p1, w1))"
    using sample_notice_sent [OF assms] by blast
  have "subscribed (lookup p1) = one_object"
    unfolding send_message_lookup [OF m]
    by (simp add: tbl.ins_callbacks one_object_def sample_instance_def subscribed_def cstr_def fun_eq_iff)
  moreover have "prefix_string sample_instance = Ok (cstr ''/p/'')"
    using sample_prefix [of "lookup sample_instance"] by simp
  then have "API_subscribe ei_format (cstr ''x'') 7 (new_api, w)
      = (Ok cloudi_success, (new_api\<lparr>m_count := 2, m_api := p1\<rparr>, w1))"
    using m by (simp add: API_subscribe_def on_api_def cloudi_subscribe_impl_def new_api_def)
  ultimately show ?thesis by (auto simp: new_api_def)
qed

lemma reachable_subscribed: "\<exists>a. api_reachable a \<and> handles a = 1 \<and> api_objects a = 1"
proof -
  obtain a w where a: "API_subscribe ei_format (cstr ''x'') 7 (new_api, io_idle\<lparr>wr := [Wr_count 999]\<rparr>) = (Ok cloudi_success, (a, w))"
      "handles a = 1" "subscribed (lookup (m_api a)) = one_object"
    using new_api_subscribes [of "io_idle\<lparr>wr := [Wr_count 999]\<rparr>"] by (auto simp: io_idle_def)
  have "api_reachable new_api" by (rule reach.start) (simp add: api_start_def new_api_def sample_instance_def)
  moreover have "api_step new_api a"
    using a(1) by (intro api_step.subscribes) (simp_all add: new_api_def sample_instance_def subscribed_def)
  ultimately have "api_reachable a" by (rule reach.step)
  with a show ?thesis by (auto simp: api_objects_def one_object_count)
qed

text \<open>
  An instance lives as long as it is needed: in every state that a program can reach by copying and
  destroying API objects, subscribing, unsubscribing and dispatching requests, the count is the number
  of API objects that exist, those of the program and one for every subscribed callback object, and the
  instance has been deleted exactly if there is none.
\<close>

theorem api_count_exact:
  assumes "api_reachable a"
  shows "m_count a = int (handles a) + int (api_objects a) \<and> (api_freed a \<longleftrightarrow> handles a = 0 \<and> api_objects a = 0)"
  using api.inv_reach [OF assms] by (auto simp: api_inv_def)

theorem api_count_exact_witness:
  "\<exists>a. api_reachable a \<and> m_count a = 2 \<and> handles a = 1 \<and> \<not> api_freed a"
proof -
  obtain a where "api_reachable a" "handles a = 1" "api_objects a = 1" using reachable_subscribed by blast
  with api_count_exact [of a] show ?thesis by auto
qed

definition no_handle :: "shared_api \<Rightarrow> bool" where
  "no_handle a \<longleftrightarrow> handles a = 0 \<and> api_inv a \<and> 0 < api_objects a"

lemma no_handle_step:
  assumes "api_step a a'" "handles a = 0" "api_inv a" "0 < api_objects a"
  shows "handles a' = 0 \<and> api_inv a' \<and> 0 < api_objects a'"
proof -
  have h: "handles a' = 0" using assms(1,2) by cases simp_all
  have i: "api_inv a'" using api_inv_step [OF assms(1,3)] .
  have "m_count a' = m_count a" using assms(1,2) by cases simp_all
  with assms h i show ?thesis by (simp add: api_inv_def)
qed

interpretation leaked: invariant no_handle api_step no_handle
  by unfold_locales (use no_handle_step in \<open>auto simp: no_handle_def\<close>)

text \<open>
  Subscriptions keep their own instance alive: the callback objects of an instance own API objects
  of the same instance, so destroying the last API object of a program that is still subscribed deletes
  nothing, and whatever happens afterwards, the instance is never deleted and its descriptors are never
  closed.
\<close>

theorem api_subscription_leak:
  assumes "api_reachable a" and "handles a = 1" and "0 < api_objects a"
  shows "\<exists>a'. API_destroy (a, w) = (Ok (), (a', w)) \<and> handles a' = 0
    \<and> (\<forall>a''. api_step\<^sup>*\<^sup>* a' a'' \<longrightarrow> \<not> api_freed a'')"
proof -
  have inv: "api_inv a" using api.inv_reach [OF assms(1)] .
  let ?a = "a\<lparr>handles := 0, m_count := m_count a - 1\<rparr>"
  have d: "API_destroy (a, w) = (Ok (), (?a, w))"
    using inv assms(2,3) by (auto simp: API_destroy_def API_release_def api_inv_def)
  have a: "handles ?a = 0" "api_inv ?a" "0 < api_objects ?a"
    using inv assms(2,3) by (auto simp: api_inv_def api_objects_def)
  have "\<not> api_freed a''" if "api_step\<^sup>*\<^sup>* ?a a''" for a''
    using leaked.inv_steps [OF that] a by (auto simp: no_handle_def api_inv_def)
  with d show ?thesis by fastforce
qed

theorem api_subscription_leak_witness:
  "\<exists>a a'. API_destroy (a, io_idle) = (Ok (), (a', io_idle)) \<and> handles a' = 0 \<and> \<not> api_freed a'"
proof -
  obtain a where a: "api_reachable a" "handles a = 1" "api_objects a = 1" using reachable_subscribed by blast
  then have "0 < api_objects a" by simp
  from api_subscription_leak [OF a(1,2) this, of io_idle] show ?thesis by blast
qed

end
