(* ===== verification/Api_Objects.thy ===== *)
theory Api_Objects
  imports Api_Cxx
begin

text \<open>
  The inline part of the C++ API (\<^verbatim>\<open>api/c/cloudi.hpp\<close>): the classes of callback objects, the forms of
  \<open>subscribe\<close> that make them, the forms of the members for \<open>std::string\<close>, the members that read the
  instance, and the exceptions. A callback object refers to a function object of the program, or owns
  one that was given as a pointer, and owns an API object. It lives as long as a \<open>shared_ptr\<close> to it:
  the table holds one for every subscription, and every running call of \<open>callback\<close> holds a copy.
\<close>

section \<open>Callback objects\<close>

text \<open>
  The classes of callback objects: of a function object by reference or by pointer, of a member function
  of an object, and of a plain function, for arguments of type \<open>std::string\<close> (1) and \<open>char const *\<close> (2).
  Function objects and functions are numbers.
\<close>

datatype callback_cxx =
    callback_function_cxx_or1 nat
  | callback_function_cxx_or2 nat
  | callback_function_cxx_op1 nat
  | callback_function_cxx_op2 nat
  | callback_function_cxx_m1 nat nat
  | callback_function_cxx_m2 nat nat
  | callback_function_cxx_s1 nat
  | callback_function_cxx_s2 nat

text \<open>The object that a callback object refers to, and the one that it owns.\<close>

fun m_object :: "callback_cxx \<Rightarrow> nat option" where
  "m_object (callback_function_cxx_or1 ob) = Some ob"
| "m_object (callback_function_cxx_or2 ob) = Some ob"
| "m_object (callback_function_cxx_op1 ob) = Some ob"
| "m_object (callback_function_cxx_op2 ob) = Some ob"
| "m_object (callback_function_cxx_m1 ob f) = Some ob"
| "m_object (callback_function_cxx_m2 ob f) = Some ob"
| "m_object (callback_function_cxx_s1 f) = None"
| "m_object (callback_function_cxx_s2 f) = None"

text \<open>An argument that is a text, as the function of the program gets it.\<close>

datatype text_arg = std_string bytes | c_pointer nat

fun arg_text :: "text_arg \<Rightarrow> cloudi_instance_t \<Rightarrow> bytes outcome" where
  "arg_text (std_string s) p = Ok s"
| "arg_text (c_pointer a) p = rp_cstr a (buffer_call p)"

type_synonym function_code = "callback_cxx \<Rightarrow> int \<Rightarrow> text_arg \<Rightarrow> text_arg \<Rightarrow> request \<Rightarrow> unit call"

definition with_strings :: "request \<Rightarrow> (text_arg \<Rightarrow> text_arg \<Rightarrow> unit call) \<Rightarrow> unit call" where
  "with_strings rq f = (\<lambda>(p, w).
     case bind_outcome (rp_cstr (rq_name rq) (buffer_call p)) (\<lambda>name.
          bind_outcome (rp_cstr (rq_pattern rq) (buffer_call p)) (\<lambda>pattern. Ok (name, pattern))) of
       Ok (name, pattern) \<Rightarrow> f (std_string name) (std_string pattern) (p, w)
     | _ \<Rightarrow> (Undefined, (p, w)))"

definition with_pointers :: "request \<Rightarrow> (text_arg \<Rightarrow> text_arg \<Rightarrow> unit call) \<Rightarrow> unit call" where
  "with_pointers rq f = f (c_pointer (rq_name rq)) (c_pointer (rq_pattern rq))"

text \<open>\<open>operator ()\<close> of every class; the code of the program is a parameter.\<close>

fun callback_cxx_call :: "function_code \<Rightarrow> callback_cxx \<Rightarrow> int \<Rightarrow> request \<Rightarrow> unit call" where
  "callback_cxx_call code (callback_function_cxx_or1 ob) request_type rq =
     with_strings rq (\<lambda>name pattern. code (callback_function_cxx_or1 ob) request_type name pattern rq)"
| "callback_cxx_call code (callback_function_cxx_or2 ob) request_type rq =
     with_pointers rq (\<lambda>name pattern. code (callback_function_cxx_or2 ob) request_type name pattern rq)"
| "callback_cxx_call code (callback_function_cxx_op1 ob) request_type rq =
     with_strings rq (\<lambda>name pattern. code (callback_function_cxx_op1 ob) request_type name pattern rq)"
| "callback_cxx_call code (callback_function_cxx_op2 ob) request_type rq =
     with_pointers rq (\<lambda>name pattern. code (callback_function_cxx_op2 ob) request_type name pattern rq)"
| "callback_cxx_call code (callback_function_cxx_m1 ob f) request_type rq =
     with_strings rq (\<lambda>name pattern. code (callback_function_cxx_m1 ob f) request_type name pattern rq)"
| "callback_cxx_call code (callback_function_cxx_m2 ob f) request_type rq =
     with_pointers rq (\<lambda>name pattern. code (callback_function_cxx_m2 ob f) request_type name pattern rq)"
| "callback_cxx_call code (callback_function_cxx_s1 f) request_type rq =
     with_strings rq (\<lambda>name pattern. code (callback_function_cxx_s1 f) request_type name pattern rq)"
| "callback_cxx_call code (callback_function_cxx_s2 f) request_type rq =
     with_pointers rq (\<lambda>name pattern. code (callback_function_cxx_s2 f) request_type name pattern rq)"

section \<open>State\<close>

text \<open>
  A callback object in memory with the count of its \<open>shared_ptr\<close>s.
\<close>

record callback_object =
  use_count :: nat
  cxx :: callback_cxx

text \<open>
  The API objects; the callback objects by number, with the next number; the callbacks of the running
  calls of \<open>callback\<close>, the innermost first; and the function objects of the program that exist.
\<close>

record cxx_state =
  shared :: shared_api
  callback_objects :: "nat \<rightharpoonup> callback_object"
  next_object :: nat
  running :: "callback_function list"
  function_objects :: "nat set"

type_synonym 'a cxx_call = "cxx_state \<times> os \<Rightarrow> 'a outcome \<times> cxx_state \<times> os"

abbreviation cxx_table :: "cxx_state \<Rightarrow> lookup_t" where
  "cxx_table s \<equiv> lookup (m_api (shared s))"

definition on_shared :: "'a api_call \<Rightarrow> 'a cxx_call" where
  "on_shared f = (\<lambda>(s, w). case f (shared s, w) of (r, (a, w')) \<Rightarrow> (r, (s\<lparr>shared := a\<rparr>, w')))"

text \<open>Deleting a function object that does not exist is undefined.\<close>

definition delete_function :: "nat \<Rightarrow> unit cxx_call" where
  "delete_function ob = (\<lambda>(s, w).
     if ob \<in> function_objects s then (Ok (), (s\<lparr>function_objects := function_objects s - {ob}\<rparr>, w))
     else (Undefined, (s, w)))"

text \<open>The destructors.\<close>

fun callback_cxx_delete :: "callback_cxx \<Rightarrow> unit cxx_call" where
  "callback_cxx_delete (callback_function_cxx_or1 ob) = on_shared API_release"
| "callback_cxx_delete (callback_function_cxx_or2 ob) = on_shared API_release"
| "callback_cxx_delete (callback_function_cxx_op1 ob) =
     bind_state (delete_function ob) (\<lambda>_. on_shared API_release)"
| "callback_cxx_delete (callback_function_cxx_op2 ob) =
     bind_state (delete_function ob) (\<lambda>_. on_shared API_release)"
| "callback_cxx_delete (callback_function_cxx_m1 ob f) = on_shared API_release"
| "callback_cxx_delete (callback_function_cxx_m2 ob f) = on_shared API_release"
| "callback_cxx_delete (callback_function_cxx_s1 f) = on_shared API_release"
| "callback_cxx_delete (callback_function_cxx_s2 f) = on_shared API_release"

text \<open>
  A copy of the \<open>shared_ptr\<close> of a callback, and the end of one: the last deletes the callback object. An
  object that is not in memory has no \<open>shared_ptr\<close>.
\<close>

definition take_reference :: "callback_function \<Rightarrow> unit cxx_call" where
  "take_reference f = (\<lambda>(s, w).
     case f of
       callback_function_object n \<Rightarrow>
         (case callback_objects s n of
            None \<Rightarrow> (Undefined, (s, w))
          | Some c \<Rightarrow>
              (Ok (), (s\<lparr>callback_objects := (callback_objects s)(n \<mapsto> c\<lparr>use_count := use_count c + 1\<rparr>)\<rparr>, w)))
     | _ \<Rightarrow> (Ok (), (s, w)))"

definition drop_reference :: "callback_function \<Rightarrow> unit cxx_call" where
  "drop_reference f = (\<lambda>(s, w).
     case f of
       callback_function_object n \<Rightarrow>
         (case callback_objects s n of
            None \<Rightarrow> (Undefined, (s, w))
          | Some c \<Rightarrow>
              if use_count c = 1 then
                callback_cxx_delete (cxx c) (s\<lparr>callback_objects := (callback_objects s)(n := None)\<rparr>, w)
              else
                (Ok (), (s\<lparr>callback_objects := (callback_objects s)(n \<mapsto> c\<lparr>use_count := use_count c - 1\<rparr>)\<rparr>, w)))
     | _ \<Rightarrow> (Ok (), (s, w)))"

section \<open>Subscriptions\<close>

text \<open>
  A new callback object, with a copy of the API object, that is put in the table. The forms of
  \<open>subscribe\<close> for each class follow; a \<open>std::string\<close> is passed as a C string.
\<close>

definition c_str :: "bytes \<Rightarrow> bytes" where
  "c_str s = takeWhile (\<lambda>b. b \<noteq> 0) s"

definition subscribe_object :: "ei_encoder \<Rightarrow> bytes \<Rightarrow> callback_cxx \<Rightarrow> cloudi_status cxx_call" where
  "subscribe_object ei pattern c = (\<lambda>(s, w).
     on_shared (API_subscribe ei pattern (next_object s))
       (s\<lparr>callback_objects := (callback_objects s)(next_object s \<mapsto> \<lparr>use_count = 1, cxx = c\<rparr>),
          next_object := next_object s + 1\<rparr>, w))"

definition subscribe_or1 :: "ei_encoder \<Rightarrow> bytes \<Rightarrow> nat \<Rightarrow> cloudi_status cxx_call" where
  "subscribe_or1 ei pattern ob = subscribe_object ei (c_str pattern) (callback_function_cxx_or1 ob)"

definition subscribe_or2 :: "ei_encoder \<Rightarrow> bytes \<Rightarrow> nat \<Rightarrow> cloudi_status cxx_call" where
  "subscribe_or2 ei pattern ob = subscribe_object ei pattern (callback_function_cxx_or2 ob)"

definition subscribe_op1 :: "ei_encoder \<Rightarrow> bytes \<Rightarrow> nat \<Rightarrow> cloudi_status cxx_call" where
  "subscribe_op1 ei pattern ob = subscribe_object ei (c_str pattern) (callback_function_cxx_op1 ob)"

definition subscribe_op2 :: "ei_encoder \<Rightarrow> bytes \<Rightarrow> nat \<Rightarrow> cloudi_status cxx_call" where
  "subscribe_op2 ei pattern ob = subscribe_object ei pattern (callback_function_cxx_op2 ob)"

definition subscribe_m1_string :: "ei_encoder \<Rightarrow> bytes \<Rightarrow> nat \<Rightarrow> nat \<Rightarrow> cloudi_status cxx_call" where
  "subscribe_m1_string ei pattern ob f = subscribe_object ei (c_str pattern) (callback_function_cxx_m1 ob f)"

definition subscribe_m1 :: "ei_encoder \<Rightarrow> bytes \<Rightarrow> nat \<Rightarrow> nat \<Rightarrow> cloudi_status cxx_call" where
  "subscribe_m1 ei pattern ob f = subscribe_object ei pattern (callback_function_cxx_m1 ob f)"

definition subscribe_m2_string :: "ei_encoder \<Rightarrow> bytes \<Rightarrow> nat \<Rightarrow> nat \<Rightarrow> cloudi_status cxx_call" where
  "subscribe_m2_string ei pattern ob f = subscribe_object ei (c_str pattern) (callback_function_cxx_m2 ob f)"

definition subscribe_m2 :: "ei_encoder \<Rightarrow> bytes \<Rightarrow> nat \<Rightarrow> nat \<Rightarrow> cloudi_status cxx_call" where
  "subscribe_m2 ei pattern ob f = subscribe_object ei pattern (callback_function_cxx_m2 ob f)"

definition subscribe_s1_string :: "ei_encoder \<Rightarrow> bytes \<Rightarrow> nat \<Rightarrow> cloudi_status cxx_call" where
  "subscribe_s1_string ei pattern f = subscribe_object ei (c_str pattern) (callback_function_cxx_s1 f)"

definition subscribe_s1 :: "ei_encoder \<Rightarrow> bytes \<Rightarrow> nat \<Rightarrow> cloudi_status cxx_call" where
  "subscribe_s1 ei pattern f = subscribe_object ei pattern (callback_function_cxx_s1 f)"

definition subscribe_s2_string :: "ei_encoder \<Rightarrow> bytes \<Rightarrow> nat \<Rightarrow> cloudi_status cxx_call" where
  "subscribe_s2_string ei pattern f = subscribe_object ei (c_str pattern) (callback_function_cxx_s2 f)"

definition subscribe_s2 :: "ei_encoder \<Rightarrow> bytes \<Rightarrow> nat \<Rightarrow> cloudi_status cxx_call" where
  "subscribe_s2 ei pattern f = subscribe_object ei pattern (callback_function_cxx_s2 f)"

text \<open>
  Unsubscribing takes the callback at the front of the queue out of the table and drops its reference,
  then sends the message.
\<close>

definition unsubscribe_object :: "ei_encoder \<Rightarrow> bytes \<Rightarrow> cloudi_status cxx_call" where
  "unsubscribe_object ei pattern = (\<lambda>(s, w).
     if api_freed (shared s) then (Undefined, (s, w))
     else
       (case prefix_string (m_api (shared s)) of
          Ok pre \<Rightarrow>
            bind_state
              (case subscribed (cxx_table s) (pre @ pattern) of [] \<Rightarrow> Pair (Ok ()) | f # _ \<Rightarrow> drop_reference f) (\<lambda>_.
            on_shared (on_api (cloudi_unsubscribe ei pattern))) (s, w)
        | _ \<Rightarrow> (Undefined, (s, w))))"

section \<open>Callbacks\<close>

text \<open>
  The two ends of a call of \<open>callback\<close>: the callback that the table gives is copied to a variable, which
  ends with the call.
\<close>

definition callback_begin :: "bytes \<Rightarrow> unit cxx_call" where
  "callback_begin pattern = (\<lambda>(s, w).
     if api_freed (shared s) then (Undefined, (s, w))
     else
       (case lookup_find pattern (cxx_table s) of
          Ok (f, t) \<Rightarrow>
            take_reference f
              (s\<lparr>shared := (shared s)\<lparr>m_api := (m_api (shared s))\<lparr>lookup := t\<rparr>\<rparr>, running := f # running s\<rparr>, w)
        | _ \<Rightarrow> (Undefined, (s, w))))"

definition callback_end :: "unit cxx_call" where
  "callback_end = (\<lambda>(s, w).
     case running s of
       [] \<Rightarrow> (Undefined, (s, w))
     | f # fs \<Rightarrow> drop_reference f (s\<lparr>running := fs\<rparr>, w))"

text \<open>What a callback runs: the \<open>operator ()\<close> of an object in memory, on a function object that exists.\<close>

definition cxx_run :: "(nat \<rightharpoonup> callback_object) \<Rightarrow> nat set \<Rightarrow> function_code \<Rightarrow> runner" where
  "cxx_run obs fos code f request_type rq =
     (case f of
        callback_function_object n \<Rightarrow>
          (case obs n of
             None \<Rightarrow> Pair Undefined
           | Some c \<Rightarrow>
               if set_option (m_object (cxx c)) \<subseteq> fos then callback_cxx_call code (cxx c) request_type rq
               else Pair Undefined)
      | _ \<Rightarrow> Pair (Ok ()))"

section \<open>Members for strings\<close>

text \<open>The forms of the members that take \<open>std::string\<close>: a name or pattern ends at its first NUL.\<close>

definition API_subscribe_count_string :: "ei_encoder \<Rightarrow> (bytes \<Rightarrow> nat option) \<Rightarrow> runner \<Rightarrow> bytes \<Rightarrow> cloudi_status api_call" where
  "API_subscribe_count_string ei dv run pattern = API_subscribe_count ei dv run (c_str pattern)"

definition unsubscribe_object_string :: "ei_encoder \<Rightarrow> bytes \<Rightarrow> cloudi_status cxx_call" where
  "unsubscribe_object_string ei pattern = unsubscribe_object ei (c_str pattern)"

definition API_send_async_string :: "ei_encoder \<Rightarrow> (bytes \<Rightarrow> nat option) \<Rightarrow> runner \<Rightarrow> bytes \<Rightarrow> bytes \<Rightarrow> cloudi_status api_call" where
  "API_send_async_string ei dv run name request = API_send_async ei dv run (c_str name) request"

definition API_send_async_full_string :: "ei_encoder \<Rightarrow> (bytes \<Rightarrow> nat option) \<Rightarrow> runner \<Rightarrow> bytes \<Rightarrow> bytes \<Rightarrow> bytes
    \<Rightarrow> u32 \<Rightarrow> 8 word \<Rightarrow> cloudi_status api_call" where
  "API_send_async_full_string ei dv run name request_info request timeout priority =
     API_send_async_full ei dv run (c_str name) request_info request timeout priority"

definition API_send_sync_string :: "ei_encoder \<Rightarrow> (bytes \<Rightarrow> nat option) \<Rightarrow> runner \<Rightarrow> bytes \<Rightarrow> bytes \<Rightarrow> cloudi_status api_call" where
  "API_send_sync_string ei dv run name request = API_send_sync ei dv run (c_str name) request"

definition API_send_sync_full_string :: "ei_encoder \<Rightarrow> (bytes \<Rightarrow> nat option) \<Rightarrow> runner \<Rightarrow> bytes \<Rightarrow> bytes \<Rightarrow> bytes
    \<Rightarrow> u32 \<Rightarrow> 8 word \<Rightarrow> cloudi_status api_call" where
  "API_send_sync_full_string ei dv run name request_info request timeout priority =
     API_send_sync_full ei dv run (c_str name) request_info request timeout priority"

definition API_mcast_async_string :: "ei_encoder \<Rightarrow> (bytes \<Rightarrow> nat option) \<Rightarrow> runner \<Rightarrow> bytes \<Rightarrow> bytes \<Rightarrow> cloudi_status api_call" where
  "API_mcast_async_string ei dv run name request = API_mcast_async ei dv run (c_str name) request"

definition API_mcast_async_full_string :: "ei_encoder \<Rightarrow> (bytes \<Rightarrow> nat option) \<Rightarrow> runner \<Rightarrow> bytes \<Rightarrow> bytes \<Rightarrow> bytes
    \<Rightarrow> u32 \<Rightarrow> 8 word \<Rightarrow> cloudi_status api_call" where
  "API_mcast_async_full_string ei dv run name request_info request timeout priority =
     API_mcast_async_full ei dv run (c_str name) request_info request timeout priority"

definition API_forward_string :: "ei_encoder \<Rightarrow> (bytes \<Rightarrow> nat option) \<Rightarrow> int \<Rightarrow> bytes \<Rightarrow> bytes \<Rightarrow> bytes
    \<Rightarrow> u32 \<Rightarrow> 8 word \<Rightarrow> bytes \<Rightarrow> bytes \<Rightarrow> cloudi_status api_call" where
  "API_forward_string ei dv request_type name request_info request timeout priority tid pid =
     API_forward ei dv request_type (c_str name) request_info request timeout priority tid pid"

definition API_forward_async_string :: "ei_encoder \<Rightarrow> (bytes \<Rightarrow> nat option) \<Rightarrow> bytes \<Rightarrow> bytes \<Rightarrow> bytes
    \<Rightarrow> u32 \<Rightarrow> 8 word \<Rightarrow> bytes \<Rightarrow> bytes \<Rightarrow> cloudi_status api_call" where
  "API_forward_async_string ei dv name request_info request timeout priority tid pid =
     API_forward_async ei dv (c_str name) request_info request timeout priority tid pid"

definition API_forward_sync_string :: "ei_encoder \<Rightarrow> (bytes \<Rightarrow> nat option) \<Rightarrow> bytes \<Rightarrow> bytes \<Rightarrow> bytes
    \<Rightarrow> u32 \<Rightarrow> 8 word \<Rightarrow> bytes \<Rightarrow> bytes \<Rightarrow> cloudi_status api_call" where
  "API_forward_sync_string ei dv name request_info request timeout priority tid pid =
     API_forward_sync ei dv (c_str name) request_info request timeout priority tid pid"

definition API_return_string :: "ei_encoder \<Rightarrow> (bytes \<Rightarrow> nat option) \<Rightarrow> int \<Rightarrow> bytes \<Rightarrow> bytes \<Rightarrow> bytes \<Rightarrow> bytes
    \<Rightarrow> u32 \<Rightarrow> bytes \<Rightarrow> bytes \<Rightarrow> cloudi_status api_call" where
  "API_return_string ei dv request_type name pattern resp_info resp timeout tid pid =
     API_return ei dv request_type (c_str name) (c_str pattern) resp_info resp timeout tid pid"

definition API_return_async_string :: "ei_encoder \<Rightarrow> (bytes \<Rightarrow> nat option) \<Rightarrow> bytes \<Rightarrow> bytes \<Rightarrow> bytes \<Rightarrow> bytes
    \<Rightarrow> u32 \<Rightarrow> bytes \<Rightarrow> bytes \<Rightarrow> cloudi_status api_call" where
  "API_return_async_string ei dv name pattern resp_info resp timeout tid pid =
     API_return_async ei dv (c_str name) (c_str pattern) resp_info resp timeout tid pid"

definition API_return_sync_string :: "ei_encoder \<Rightarrow> (bytes \<Rightarrow> nat option) \<Rightarrow> bytes \<Rightarrow> bytes \<Rightarrow> bytes \<Rightarrow> bytes
    \<Rightarrow> u32 \<Rightarrow> bytes \<Rightarrow> bytes \<Rightarrow> cloudi_status api_call" where
  "API_return_sync_string ei dv name pattern resp_info resp timeout tid pid =
     API_return_sync ei dv (c_str name) (c_str pattern) resp_info resp timeout tid pid"

text \<open>
  An identifier is not a text: the 16 bytes at \<open>c_str ()\<close> are read, of which the string and the NUL behind
  it are \<open>length tid + 1\<close>.
\<close>

definition with_trans_id :: "bytes \<Rightarrow> (bytes \<Rightarrow> 'a api_call) \<Rightarrow> 'a api_call" where
  "with_trans_id tid m = (if length tid + 1 < 16 then Pair Undefined else m (take 16 (tid @ [0])))"

definition API_recv_async_timeout_string :: "ei_encoder \<Rightarrow> (bytes \<Rightarrow> nat option) \<Rightarrow> runner \<Rightarrow> u32 \<Rightarrow> bytes
    \<Rightarrow> cloudi_status api_call" where
  "API_recv_async_timeout_string ei dv run timeout tid =
     with_trans_id tid (\<lambda>tid. API_recv_async ei dv run (Some timeout) (Some tid) None)"

definition API_recv_async_string_consume :: "ei_encoder \<Rightarrow> (bytes \<Rightarrow> nat option) \<Rightarrow> runner \<Rightarrow> bytes \<Rightarrow> bool
    \<Rightarrow> cloudi_status api_call" where
  "API_recv_async_string_consume ei dv run tid consume =
     with_trans_id tid (\<lambda>tid. API_recv_async ei dv run None (Some tid) (Some consume))"

definition API_recv_async_string :: "ei_encoder \<Rightarrow> (bytes \<Rightarrow> nat option) \<Rightarrow> runner \<Rightarrow> u32 \<Rightarrow> bytes \<Rightarrow> bool
    \<Rightarrow> cloudi_status api_call" where
  "API_recv_async_string ei dv run timeout tid consume =
     with_trans_id tid (\<lambda>tid. API_recv_async ei dv run (Some timeout) (Some tid) (Some consume))"

definition API_shutdown_string :: "ei_encoder \<Rightarrow> bytes \<Rightarrow> cloudi_status api_call" where
  "API_shutdown_string ei reason = API_shutdown ei (Some (c_str reason))"

section \<open>Members that read the instance\<close>

definition API_member :: "(cloudi_instance_t \<Rightarrow> 'a) \<Rightarrow> 'a api_call" where
  "API_member m = on_api (\<lambda>(p, w). (Ok (m p), (p, w)))"

definition API_get_response :: "nat option api_call" where
  "API_get_response = API_member response"

definition API_get_response_size :: "u32 api_call" where
  "API_get_response_size = API_member response_size"

definition API_get_response_info :: "nat option api_call" where
  "API_get_response_info = API_member response_info"

definition API_get_response_info_size :: "u32 api_call" where
  "API_get_response_info_size = API_member response_info_size"

definition API_get_trans_id_count :: "u32 api_call" where
  "API_get_trans_id_count = API_member trans_id_count"

definition API_get_subscribe_count :: "u32 api_call" where
  "API_get_subscribe_count = API_member subscribe_count"

definition API_process_index :: "u32 api_call" where
  "API_process_index = API_member process_index"

definition API_process_count :: "u32 api_call" where
  "API_process_count = API_member process_count"

definition API_process_count_max :: "u32 api_call" where
  "API_process_count_max = API_member process_count_max"

definition API_process_count_min :: "u32 api_call" where
  "API_process_count_min = API_member process_count_min"

definition API_prefix :: "bytes option api_call" where
  "API_prefix = API_member prefix"

definition API_timeout_initialize :: "u32 api_call" where
  "API_timeout_initialize = API_member timeout_initialize"

definition API_timeout_async :: "u32 api_call" where
  "API_timeout_async = API_member timeout_async"

definition API_timeout_sync :: "u32 api_call" where
  "API_timeout_sync = API_member timeout_sync"

definition API_timeout_terminate :: "u32 api_call" where
  "API_timeout_terminate = API_member timeout_terminate"

definition API_priority_default :: "8 word api_call" where
  "API_priority_default = API_member priority_default"

section \<open>Exceptions\<close>

text \<open>What \<open>what ()\<close> returns for the exceptions of the class.\<close>

fun show_nat :: "nat \<Rightarrow> string" where
  "show_nat n = (if n < 10 then [] else show_nat (n div 10)) @ [char_of (48 + n mod 10)]"

declare show_nat.simps [simp del]

definition show_int :: "int \<Rightarrow> string" where
  "show_int i = (if i < 0 then CHR ''-'' # show_nat (nat (- i)) else show_nat (nat i))"

fun exception_what :: "cxx_exception \<Rightarrow> string option" where
  "exception_what (invalid_input_exception status) = Some (''Invalid Input ('' @ show_int status @ '')'')"
| "exception_what return_async_exception = Some ''Asynchronous Call Return Invalid''"
| "exception_what return_sync_exception = Some ''Synchronous Call Return Invalid''"
| "exception_what forward_async_exception = Some ''Asynchronous Call Forward Invalid''"
| "exception_what forward_sync_exception = Some ''Synchronous Call Forward Invalid''"
| "exception_what _ = None"

text \<open>The texts of two exceptions of the class are equal only if the exceptions are.\<close>

definition read_digits :: "string \<Rightarrow> nat" where
  "read_digits cs = foldl (\<lambda>n c. 10 * n + (of_char c - 48)) 0 cs"

lemma read_show_nat: "read_digits (show_nat n) = n"
proof (induction n rule: show_nat.induct)
  case (1 n)
  have "of_char (char_of (48 + n mod 10) :: char) = 48 + n mod 10" by (simp add: take_bit_eq_mod of_char_of)
  with 1 show ?case by (subst show_nat.simps) (auto simp: read_digits_def)
qed

lemma hd_show_nat: "hd (show_nat n) \<noteq> CHR ''-''"
proof (induction n rule: show_nat.induct)
  case (1 n)
  have "(char_of (48 + n mod 10) :: char) \<noteq> CHR ''-''"
  proof
    assume "char_of (48 + n mod 10) = CHR ''-''"
    then have "of_char (char_of (48 + n mod 10) :: char) = (45 :: nat)" by simp
    then show False by (simp add: take_bit_eq_mod of_char_of)
  qed
  with 1 show ?case by (subst show_nat.simps) (auto simp: hd_append)
qed

lemma show_int_inj: "show_int i = show_int j \<longleftrightarrow> i = j"
proof
  assume eq: "show_int i = show_int j"
  have nat: "show_nat m = show_nat n \<Longrightarrow> m = n" for m n using read_show_nat by metis
  have sign: "show_nat m \<noteq> CHR ''-'' # cs" for m cs using hd_show_nat [of m] by (metis list.sel(1))
  show "i = j" using eq sign nat
    by (auto simp: show_int_def split: if_splits dest!: nat) (metis sign)+
qed simp

lemma exception_what_inj:
  "exception_what e = Some t \<Longrightarrow> exception_what e' = Some t \<Longrightarrow> e = e'"
  by (cases e; cases e') (auto simp: show_int_inj)

end
