(* ===== verification/Api_Ownership.thy ===== *)
theory Api_Ownership
  imports Api_Objects
begin

text \<open>
  Who deletes a callback object and its function object, and when: what a C++ program does with its API
  objects, function objects and subscriptions as a step relation, in which calls of \<open>callback\<close> may be
  running, and the invariant that no object is used after it was deleted, and none deleted twice.
\<close>

section \<open>Steps of a program\<close>

text \<open>The function object that a callback object deletes.\<close>

fun owned_object :: "callback_cxx \<Rightarrow> nat option" where
  "owned_object (callback_function_cxx_op1 ob) = Some ob"
| "owned_object (callback_function_cxx_op2 ob) = Some ob"
| "owned_object _ = None"

lemma owned_object_m_object: "owned_object c = Some ob \<Longrightarrow> m_object c = Some ob"
  by (cases c) simp_all

text \<open>
  What a program has to keep to: a function object exists when it is subscribed, one that is given as a
  pointer is given once and to nobody else, and an object is not deleted by the program while a callback
  object refers to it.
\<close>

definition refers_to :: "cxx_state \<Rightarrow> nat \<Rightarrow> bool" where
  "refers_to s ob \<longleftrightarrow> (\<exists>n x. callback_objects s n = Some x \<and> m_object (cxx x) = Some ob)"

definition has_owner :: "cxx_state \<Rightarrow> nat \<Rightarrow> bool" where
  "has_owner s ob \<longleftrightarrow> (\<exists>n x. callback_objects s n = Some x \<and> owned_object (cxx x) = Some ob)"

definition may_subscribe :: "cxx_state \<Rightarrow> callback_cxx \<Rightarrow> bool" where
  "may_subscribe s c \<longleftrightarrow>
     (case m_object c of
        None \<Rightarrow> True
      | Some ob \<Rightarrow> ob \<in> function_objects s \<and> \<not> (if owned_object c = None then has_owner s ob else refers_to s ob))"

text \<open>
  The API object of a running call of \<open>poll\<close> is not destroyed. While a callback runs, the program may
  do everything else, unsubscribing the callback among it.
\<close>

inductive cxx_step :: "cxx_state \<Rightarrow> cxx_state \<Rightarrow> bool" where
  copied: "0 < handles (shared s) \<Longrightarrow> on_shared API_copy (s, w) = (Ok (), (s', w')) \<Longrightarrow> cxx_step s s'"
| destroyed: "0 < handles (shared s) \<Longrightarrow> running s = [] \<or> 1 < handles (shared s) \<Longrightarrow>
    on_shared API_destroy (s, w) = (Ok (), (s', w')) \<Longrightarrow> cxx_step s s'"
| creates: "cxx_step s (s\<lparr>function_objects := insert ob (function_objects s)\<rparr>)"
| deletes: "\<not> refers_to s ob \<Longrightarrow> delete_function ob (s, w) = (Ok (), (s', w')) \<Longrightarrow> cxx_step s s'"
| subscribes: "0 < handles (shared s) \<Longrightarrow> may_subscribe s c \<Longrightarrow>
    \<forall>p. length (subscribed (cxx_table s) p) < 2 ^ 64 - 1 \<Longrightarrow>
    subscribe_object ei pattern c (s, w) = (Ok r, (s', w')) \<Longrightarrow> cxx_step s s'"
| unsubscribes: "0 < handles (shared s) \<Longrightarrow> unsubscribe_object ei pattern (s, w) = (Ok r, (s', w')) \<Longrightarrow> cxx_step s s'"
| begins: "0 < handles (shared s) \<Longrightarrow> callback_begin pattern (s, w) = (Ok (), (s', w')) \<Longrightarrow> cxx_step s s'"
| ends: "callback_end (s, w) = (Ok (), (s', w')) \<Longrightarrow> cxx_step s s'"
| calls: "\<not> api_freed (shared s) \<Longrightarrow> lookup p = cxx_table s \<Longrightarrow>
    cxx_step s (s\<lparr>shared := (shared s)\<lparr>m_api := p\<rparr>\<rparr>)"

definition cxx_start :: "cxx_state \<Rightarrow> bool" where
  "cxx_start s \<longleftrightarrow> api_start (shared s) \<and> callback_objects s = (\<lambda>_. None) \<and> running s = []"

abbreviation cxx_reachable :: "cxx_state \<Rightarrow> bool" where
  "cxx_reachable \<equiv> reach cxx_start cxx_step"

section \<open>Counting references\<close>

text \<open>
  The references of the table \<open>S\<close> and of the variables \<open>fs\<close> are those that the callback objects count. The
  table has one reference to an object at most.
\<close>

definition uses :: "cxx_state \<Rightarrow> nat \<Rightarrow> nat" where
  "uses s n = (case callback_objects s n of None \<Rightarrow> 0 | Some x \<Rightarrow> use_count x)"

definition counted :: "(bytes \<Rightarrow> callback_function list) \<Rightarrow> callback_function list \<Rightarrow> cxx_state \<Rightarrow> bool" where
  "counted S fs s \<longleftrightarrow>
     finite {p. S p \<noteq> []}
     \<and> (\<forall>n. uses s n = subscriptions n S + function_count n fs)
     \<and> (\<forall>n. subscriptions n S \<le> 1)
     \<and> (\<forall>n x. callback_objects s n = Some x \<longrightarrow> 0 < use_count x \<and> n < next_object s)"

text \<open>The function objects of callback objects exist, and an owned one has no other callback object.\<close>

definition objects_exist :: "cxx_state \<Rightarrow> bool" where
  "objects_exist s \<longleftrightarrow>
     (\<forall>n x ob. callback_objects s n = Some x \<longrightarrow> m_object (cxx x) = Some ob \<longrightarrow> ob \<in> function_objects s)"

definition owners_differ :: "cxx_state \<Rightarrow> bool" where
  "owners_differ s \<longleftrightarrow>
     (\<forall>n x n' x' ob. callback_objects s n = Some x \<longrightarrow> callback_objects s n' = Some x' \<longrightarrow>
        owned_object (cxx x) = Some ob \<longrightarrow> m_object (cxx x') = Some ob \<longrightarrow> n = n')"

definition count_exact :: "cxx_state \<Rightarrow> bool" where
  "count_exact s \<longleftrightarrow>
     m_count (shared s) = int (handles (shared s) + card (dom (callback_objects s)))
     \<and> (api_freed (shared s) \<longleftrightarrow> m_count (shared s) = 0)"

definition cxx_inv :: "(bytes \<Rightarrow> callback_function list) \<Rightarrow> callback_function list \<Rightarrow> cxx_state \<Rightarrow> bool" where
  "cxx_inv S fs s \<longleftrightarrow> counted S fs s \<and> objects_exist s \<and> owners_differ s \<and> count_exact s"

definition cxx_ok :: "cxx_state \<Rightarrow> bool" where
  "cxx_ok s \<longleftrightarrow>
     cxx_inv (subscribed (cxx_table s)) (running s) s \<and> lookup_wf (cxx_table s)
     \<and> (running s = [] \<or> 0 < handles (shared s))"

lemmas cxx_inv_defs = cxx_inv_def counted_def objects_exist_def owners_differ_def count_exact_def

lemma uses_simps [simp]:
  "uses (s\<lparr>shared := a\<rparr>) = uses s" "uses (s\<lparr>running := fs\<rparr>) = uses s" "uses (s\<lparr>function_objects := fos\<rparr>) = uses s"
  by (simp_all add: uses_def fun_eq_iff)

lemma counted_finite:
  assumes "counted S fs s"
  shows "finite (dom (callback_objects s))"
proof (rule finite_subset)
  show "dom (callback_objects s) \<subseteq> {..< next_object s}" using assms by (auto simp: counted_def)
qed simp

lemma subscriptions_pos:
  assumes "finite {p. S p \<noteq> []}" "callback_function_object n \<in> set (S p)"
  shows "0 < subscriptions n S"
proof -
  have "function_count n (S p) \<le> subscriptions n S"
    unfolding subscriptions_def table_sum_def using assms by (intro member_le_sum) auto
  moreover have "0 < function_count n (S p)" using assms(2) by (simp add: function_count_def count_list_0_iff neq0_conv [symmetric] del: neq0_conv)
  ultimately show ?thesis by simp
qed

lemma counted_in_memory:
  assumes "counted S fs s" "callback_function_object n \<in> set fs \<or> callback_function_object n \<in> set (S p)"
  shows "\<exists>x. callback_objects s n = Some x \<and> 0 < use_count x"
proof -
  have "0 < subscriptions n S + function_count n fs"
    using assms subscriptions_pos [of S n p]
    by (auto simp: counted_def function_count_def count_list_0_iff neq0_conv [symmetric] simp del: neq0_conv)
  then have "0 < uses s n" using assms(1) by (simp add: counted_def)
  then show ?thesis by (auto simp: uses_def split: option.splits)
qed

text \<open>A callback may be moved from the front of a queue to a variable.\<close>

lemma cxx_inv_move:
  assumes "cxx_inv S fs s" "S p = f # gs"
  shows "cxx_inv (S(p := gs)) (f # fs) s"
proof -
  have fin: "finite {q. S q \<noteq> []}" using assms(1) by (simp add: cxx_inv_def counted_def)
  have "subscriptions n (S(p := gs)) + function_count n (f # fs) = subscriptions n S + function_count n fs" for n
    using subscriptions_update [OF fin, of n p gs] assms(2) by (auto simp: function_count_def split: if_splits)
  moreover have "subscriptions n S \<le> 1" for n using assms(1) by (simp add: cxx_inv_def counted_def)
  then have "subscriptions n (S(p := gs)) \<le> 1" for n
    using subscriptions_update [OF fin, of n p gs] assms(2) le_trans by (fastforce simp: function_count_def split: if_splits)
  ultimately show ?thesis
    using assms(1) table_sum_update(2) [OF fin, of "\<lambda>_. 0" p gs] by (simp add: cxx_inv_def counted_def)
qed

lemma cxx_inv_turn:
  assumes "cxx_inv S fs s"
  shows "cxx_inv (S(p := rotate1 (S p))) fs s"
proof -
  have fin: "finite {q. S q \<noteq> []}" using assms by (simp add: cxx_inv_def counted_def)
  have "subscriptions n (S(p := rotate1 (S p))) = subscriptions n S" for n
    using subscriptions_update [OF fin, of n p "rotate1 (S p)"] by (simp add: function_count_def count_list_rotate1)
  then show ?thesis
    using assms table_sum_update(2) [OF fin, of "\<lambda>_. 0" p "rotate1 (S p)"] by (simp add: cxx_inv_def counted_def)
qed

text \<open>Taking and dropping a reference.\<close>

lemma take_reference_inv:
  assumes "cxx_inv S fs s" "f \<in> set (S p) \<or> \<not> is_object f"
  shows "\<exists>obs. take_reference f (s, w) = (Ok (), (s\<lparr>callback_objects := obs\<rparr>, w))
    \<and> cxx_inv S (f # fs) (s\<lparr>callback_objects := obs\<rparr>)
    \<and> (\<forall>n. map_option cxx (obs n) = map_option cxx (callback_objects s n))"
proof (cases f)
  case (callback_function_object n)
  obtain x where x: "callback_objects s n = Some x"
    using counted_in_memory [of S fs s n p] assms callback_function_object by (auto simp: cxx_inv_def)
  let ?s = "s\<lparr>callback_objects := (callback_objects s)(n \<mapsto> x\<lparr>use_count := use_count x + 1\<rparr>)\<rparr>"
  have "counted S (f # fs) ?s"
    using assms(1) x callback_function_object
    by (auto simp: cxx_inv_def counted_def uses_def function_count_def split: option.splits)
  moreover have "objects_exist ?s" "owners_differ ?s"
    using assms(1) x by (auto simp: cxx_inv_def objects_exist_def owners_differ_def split: if_splits)
  moreover have "dom (callback_objects ?s) = dom (callback_objects s)" using x by auto
  then have "count_exact ?s" using assms(1) by (simp add: cxx_inv_def count_exact_def)
  ultimately show ?thesis using x callback_function_object by (auto simp: take_reference_def cxx_inv_def)
qed (use assms in \<open>auto simp: take_reference_def cxx_inv_def counted_def function_count_def intro!: exI [of _ "callback_objects s"]\<close>)

definition deleted :: "nat \<Rightarrow> callback_cxx \<Rightarrow> cxx_state \<Rightarrow> cxx_state" where
  "deleted n c s = s\<lparr>callback_objects := (callback_objects s)(n := None),
     shared := (shared s)\<lparr>m_count := m_count (shared s) - 1\<rparr>,
     function_objects := function_objects s - set_option (owned_object c)\<rparr>"

lemma callback_cxx_delete_ok:
  assumes "\<not> api_freed (shared s)" "m_count (shared s) \<noteq> 1" "set_option (owned_object c) \<subseteq> function_objects s"
  shows "callback_cxx_delete c (s\<lparr>callback_objects := (callback_objects s)(n := None)\<rparr>, w) = (Ok (), (deleted n c s, w))"
  using assms by (cases c)
    (simp_all add: deleted_def on_shared_def API_release_def delete_function_def bind_state_def)

lemma deleted_fields [simp]:
  "callback_objects (deleted n c s) = (callback_objects s)(n := None)" "running (deleted n c s) = running s"
  "next_object (deleted n c s) = next_object s" "m_api (shared (deleted n c s)) = m_api (shared s)"
  "handles (shared (deleted n c s)) = handles (shared s)" "api_freed (shared (deleted n c s)) = api_freed (shared s)"
  "function_objects (deleted n c s) = function_objects s - set_option (owned_object c)"
  by (simp_all add: deleted_def)

lemma deleted_inv:
  assumes "cxx_inv S (callback_function_object n # fs) s" "0 < handles (shared s)"
    "callback_objects s n = Some x" "use_count x = 1"
  shows "cxx_inv S fs (deleted n (cxx x) s)" "2 \<le> m_count (shared s)"
proof -
  have fin: "finite (dom (callback_objects s))" using assms(1) counted_finite by (auto simp: cxx_inv_def)
  have card: "card (dom (callback_objects s)) = Suc (card (dom (callback_objects (deleted n (cxx x) s))))"
    using card.remove [OF fin, of n] assms(3) by (simp add: domI del: card_Diff_insert card_Diff_singleton)
  then show "2 \<le> m_count (shared s)" using assms(1,2) by (auto simp: cxx_inv_def count_exact_def)
  have "counted S fs (deleted n (cxx x) s)"
    using assms by (auto simp: cxx_inv_def counted_def uses_def function_count_def split: if_splits option.splits)
  moreover have "objects_exist (deleted n (cxx x) s)"
    unfolding objects_exist_def
  proof (intro allI impI)
    fix m y ob
    assume y: "callback_objects (deleted n (cxx x) s) m = Some y" "m_object (cxx y) = Some ob"
    then have "m \<noteq> n" "callback_objects s m = Some y" by (auto split: if_splits)
    with y(2) assms(1,3) have "ob \<in> function_objects s" "owned_object (cxx x) \<noteq> Some ob"
      unfolding cxx_inv_def objects_exist_def owners_differ_def by blast+
    then show "ob \<in> function_objects (deleted n (cxx x) s)" by (auto simp: elem_set)
  qed
  moreover have "owners_differ (deleted n (cxx x) s)"
    using assms(1) by (auto simp: cxx_inv_def owners_differ_def split: if_splits)
  moreover have "count_exact (deleted n (cxx x) s)"
    using assms(1,2) card by (auto simp: cxx_inv_def count_exact_def deleted_def)
  ultimately show "cxx_inv S fs (deleted n (cxx x) s)" by (simp add: cxx_inv_def)
qed

text \<open>The state after a reference was dropped.\<close>

definition dropped :: "callback_function \<Rightarrow> cxx_state \<Rightarrow> cxx_state" where
  "dropped f s =
     (case f of
        callback_function_object n \<Rightarrow>
          (case callback_objects s n of
             None \<Rightarrow> s
           | Some x \<Rightarrow>
               if use_count x = 1 then deleted n (cxx x) s
               else s\<lparr>callback_objects := (callback_objects s)(n \<mapsto> x\<lparr>use_count := use_count x - 1\<rparr>)\<rparr>)
      | _ \<Rightarrow> s)"

lemma dropped_fields [simp]:
  "m_api (shared (dropped f s)) = m_api (shared s)" "handles (shared (dropped f s)) = handles (shared s)"
  "running (dropped f s) = running s" "api_freed (shared (dropped f s)) = api_freed (shared s)"
  by (simp_all add: dropped_def split: callback_function.split option.split)

lemma drop_reference_inv:
  assumes "cxx_inv S (f # fs) s" "0 < handles (shared s)"
  shows "drop_reference f (s, w) = (Ok (), (dropped f s, w))" "cxx_inv S fs (dropped f s)"
proof -
  have nf: "\<not> api_freed (shared s)" using assms by (auto simp: cxx_inv_def count_exact_def)
  have "drop_reference f (s, w) = (Ok (), (dropped f s, w)) \<and> cxx_inv S fs (dropped f s)"
  proof (cases f)
    case (callback_function_object n)
    obtain x where x: "callback_objects s n = Some x" "0 < use_count x"
      using counted_in_memory [of S "f # fs" s n] assms(1) callback_function_object by (auto simp: cxx_inv_def)
    show ?thesis
    proof (cases "use_count x = 1")
      case True
      have d: "cxx_inv S fs (deleted n (cxx x) s)" "2 \<le> m_count (shared s)"
        using deleted_inv [OF _ assms(2) x(1) True] assms(1) callback_function_object by blast+
      have "set_option (owned_object (cxx x)) \<subseteq> function_objects s"
        using assms(1) x(1) owned_object_m_object by (auto simp: cxx_inv_def objects_exist_def elem_set)
      with d nf x True callback_function_object show ?thesis
        by (simp add: drop_reference_def dropped_def callback_cxx_delete_ok)
    next
      case False
      let ?s = "s\<lparr>callback_objects := (callback_objects s)(n \<mapsto> x\<lparr>use_count := use_count x - 1\<rparr>)\<rparr>"
      have "counted S fs ?s"
        using assms(1) x False callback_function_object
        by (auto simp: cxx_inv_def counted_def uses_def function_count_def split: option.splits)
      moreover have "objects_exist ?s" "owners_differ ?s"
        using assms(1) x by (auto simp: cxx_inv_def objects_exist_def owners_differ_def split: if_splits)
      moreover have "dom (callback_objects ?s) = dom (callback_objects s)" using x by auto
      then have "count_exact ?s" using assms(1) by (simp add: cxx_inv_def count_exact_def)
      ultimately show ?thesis using x False callback_function_object
        by (auto simp: drop_reference_def dropped_def cxx_inv_def)
    qed
  qed (use assms(1) in \<open>auto simp: drop_reference_def dropped_def cxx_inv_def counted_def function_count_def\<close>)
  then show "drop_reference f (s, w) = (Ok (), (dropped f s, w))" "cxx_inv S fs (dropped f s)" by simp_all
qed

section \<open>Every step keeps the invariant\<close>

lemma cxx_okD:
  assumes "cxx_ok s"
  shows "cxx_inv (subscribed (cxx_table s)) (running s) s" "lookup_wf (cxx_table s)"
    "running s \<noteq> [] \<Longrightarrow> 0 < handles (shared s)"
  using assms by (auto simp: cxx_ok_def)

lemma cxx_inv_live: "cxx_inv S fs s \<Longrightarrow> 0 < handles (shared s) \<Longrightarrow> \<not> api_freed (shared s)"
  by (auto simp: cxx_inv_def count_exact_def)

text \<open>A change of the instance changes only the table.\<close>

lemma cxx_inv_instance:
  "cxx_inv S fs (s\<lparr>shared := (shared s)\<lparr>m_api := p\<rparr>\<rparr>) = cxx_inv S fs s"
  "cxx_inv S fs (s\<lparr>running := gs\<rparr>) = cxx_inv S fs s"
  by (simp_all add: cxx_inv_defs)

lemma callback_begin_ok:
  assumes "cxx_ok s" "0 < handles (shared s)"
  shows "\<exists>s'. callback_begin pattern (s, w) = (Ok (), (s', w)) \<and> cxx_ok s'
    \<and> running s' = hd (subscribed (cxx_table s) pattern @ [callback_null_response]) # running s
    \<and> subscribed (cxx_table s')
      = (subscribed (cxx_table s))(pattern := rotate1 (subscribed (cxx_table s) pattern))
    \<and> (\<forall>n. map_option cxx (callback_objects s' n) = map_option cxx (callback_objects s n))"
proof -
  let ?S = "subscribed (cxx_table s)"
  let ?f = "hd (?S pattern @ [callback_null_response])"
  note ok = cxx_okD [OF assms(1)]
  obtain t where t: "lookup_find pattern (cxx_table s) = Ok (?f, t)" "lookup_wf t"
      "subscribed t = ?S(pattern := rotate1 (?S pattern))"
    using tbl.fnd_ok [OF ok(2), of pattern] by (auto simp: hd_append)
  let ?s = "s\<lparr>shared := (shared s)\<lparr>m_api := (m_api (shared s))\<lparr>lookup := t\<rparr>\<rparr>, running := ?f # running s\<rparr>"
  have "cxx_inv (subscribed t) (running s) ?s"
    using cxx_inv_turn [OF ok(1), of pattern] unfolding t(3) by (simp add: cxx_inv_instance)
  moreover have "?f \<in> set (subscribed t pattern) \<or> \<not> is_object ?f" unfolding t(3) by (cases "?S pattern") auto
  ultimately obtain obs where obs: "take_reference ?f (?s, w) = (Ok (), (?s\<lparr>callback_objects := obs\<rparr>, w))"
      "cxx_inv (subscribed t) (?f # running s) (?s\<lparr>callback_objects := obs\<rparr>)"
      "\<forall>n. map_option cxx (obs n) = map_option cxx (callback_objects ?s n)"
    using take_reference_inv by blast
  from obs t assms(2) cxx_inv_live [OF ok(1) assms(2)] show ?thesis
    by (intro exI [of _ "?s\<lparr>callback_objects := obs\<rparr>"]) (auto simp: callback_begin_def cxx_ok_def)
qed

lemma callback_end_ok:
  assumes "cxx_ok s" "running s = f # fs"
  shows "callback_end (s, w) = (Ok (), (dropped f (s\<lparr>running := fs\<rparr>), w))" "cxx_ok (dropped f (s\<lparr>running := fs\<rparr>))"
proof -
  note ok = cxx_okD [OF assms(1)]
  have h: "0 < handles (shared (s\<lparr>running := fs\<rparr>))" using ok(3) assms(2) by simp
  have "cxx_inv (subscribed (cxx_table s)) (f # fs) (s\<lparr>running := fs\<rparr>)"
    using ok(1) assms(2) by (simp add: cxx_inv_instance)
  note d = drop_reference_inv [OF this h]
  from d(1) assms(2) show "callback_end (s, w) = (Ok (), (dropped f (s\<lparr>running := fs\<rparr>), w))"
    by (simp add: callback_end_def)
  from d(2) ok(2) h show "cxx_ok (dropped f (s\<lparr>running := fs\<rparr>))" by (simp add: cxx_ok_def)
qed

text \<open>What unsubscribing does before the message is sent.\<close>

definition removed_first :: "bytes \<Rightarrow> cxx_state \<Rightarrow> cxx_state" where
  "removed_first pattern s =
     (case subscribed (cxx_table s) pattern of [] \<Rightarrow> s | f # _ \<Rightarrow> dropped f s)"

lemma removed_first_fields [simp]:
  "m_api (shared (removed_first pattern s)) = m_api (shared s)"
  "handles (shared (removed_first pattern s)) = handles (shared s)"
  "running (removed_first pattern s) = running s"
  "api_freed (shared (removed_first pattern s)) = api_freed (shared s)"
  by (simp_all add: removed_first_def split: list.split)

lemma removed_first_inv:
  assumes "cxx_ok s" "0 < handles (shared s)"
  shows "cxx_inv ((subscribed (cxx_table s))(pattern := tl (subscribed (cxx_table s) pattern))) (running s)
    (removed_first pattern s)"
  using drop_reference_inv(2) [OF cxx_inv_move [OF cxx_okD(1) [OF assms(1)]] assms(2), of pattern] cxx_okD(1) [OF assms(1)]
  by (cases "subscribed (cxx_table s) pattern") (simp_all add: removed_first_def fun_upd_idem)

lemma unsubscribe_object_eq:
  assumes "cxx_ok s" "0 < handles (shared s)" "prefix_string (m_api (shared s)) = Ok pre"
  shows "unsubscribe_object ei pattern (s, w)
    = on_shared (on_api (cloudi_unsubscribe ei pattern)) (removed_first (pre @ pattern) s, w)"
proof (cases "subscribed (cxx_table s) (pre @ pattern)")
  case Nil
  with assms cxx_inv_live [OF cxx_okD(1) [OF assms(1)] assms(2)] show ?thesis
    by (simp add: unsubscribe_object_def removed_first_def)
next
  case (Cons f fs)
  from drop_reference_inv(1) [OF cxx_inv_move [OF cxx_okD(1) [OF assms(1)] Cons] assms(2), of w]
    assms cxx_inv_live [OF cxx_okD(1) [OF assms(1)] assms(2)] Cons
  show ?thesis by (simp add: unsubscribe_object_def removed_first_def)
qed

lemma on_shared_Ok:
  "on_shared f (s, w) = (Ok r, (s', w')) \<longleftrightarrow> (\<exists>a. f (shared s, w) = (Ok r, (a, w')) \<and> s' = s\<lparr>shared := a\<rparr>)"
  by (auto simp: on_shared_def split: prod.splits)

lemma unsubscribe_object_ok:
  assumes "cxx_ok s" "0 < handles (shared s)" "unsubscribe_object ei pattern (s, w) = (Ok r, (s', w'))"
  shows "\<exists>pre q. prefix_string (m_api (shared s)) = Ok pre
    \<and> s' = (removed_first (pre @ pattern) s)\<lparr>shared := (shared (removed_first (pre @ pattern) s))\<lparr>m_api := q\<rparr>\<rparr>
    \<and> cxx_ok s'
    \<and> subscribed (cxx_table s') = (subscribed (cxx_table s))(pre @ pattern := tl (subscribed (cxx_table s) (pre @ pattern)))"
proof -
  let ?S = "subscribed (cxx_table s)"
  note ok = cxx_okD [OF assms(1)]
  have nf: "\<not> api_freed (shared s)" using cxx_inv_live [OF ok(1) assms(2)] .
  with assms(3) obtain pre where pre: "prefix_string (m_api (shared s)) = Ok pre"
    by (auto simp: unsubscribe_object_def split: outcome.splits)
  let ?s = "removed_first (pre @ pattern) s"
  obtain a where a: "on_api (cloudi_unsubscribe ei pattern) (shared ?s, w) = (Ok r, (a, w'))" "s' = ?s\<lparr>shared := a\<rparr>"
    using assms(3) unfolding unsubscribe_object_eq [OF assms(1,2) pre] by (auto simp: on_shared_Ok)
  obtain q where q: "cloudi_unsubscribe ei pattern (m_api (shared s), w) = (Ok r, (q, w'))" "a = (shared ?s)\<lparr>m_api := q\<rparr>"
    using a(1) nf by (auto simp: on_api_def split: prod.splits)
  obtain t where t: "lookup q = t" "lookup_wf t" "subscribed t = ?S(pre @ pattern := tl (?S (pre @ pattern)))"
    using cloudi_unsubscribe_lookup [OF q(1) pre] tbl.rem_ok [OF ok(2), of "pre @ pattern"] by auto
  have "cxx_inv (subscribed t) (running s) s'"
    using removed_first_inv [OF assms(1,2), of "pre @ pattern"] unfolding t(3) a(2) q(2) by (simp add: cxx_inv_instance)
  with a(2) q(2) t pre assms(2) show ?thesis
    by (intro exI [of _ pre] exI [of _ q]) (simp add: cxx_ok_def)
qed

lemma subscribe_object_ok:
  assumes "cxx_ok s" "0 < handles (shared s)" "may_subscribe s c"
    "\<forall>p. length (subscribed (cxx_table s) p) < 2 ^ 64 - 1"
    "subscribe_object ei pattern c (s, w) = (Ok r, (s', w'))"
  shows "cxx_ok s'"
proof -
  let ?S = "subscribed (cxx_table s)" and ?n = "next_object s" and ?x = "\<lparr>use_count = 1, cxx = c\<rparr>"
  note ok = cxx_okD [OF assms(1)]
  obtain a where a: "API_subscribe ei pattern ?n (shared s, w) = (Ok r, (a, w'))"
      "s' = s\<lparr>callback_objects := (callback_objects s)(?n \<mapsto> ?x), next_object := ?n + 1, shared := a\<rparr>"
    using assms(5) by (auto simp: subscribe_object_def on_shared_Ok)
  obtain pre p where p: "prefix_string (m_api (shared s)) = Ok pre"
      "a = (shared s)\<lparr>m_count := m_count (shared s) + 1, m_api := p\<rparr>"
      "lookup p = lookup_insert (pre @ pattern) (callback_function_object ?n) (cxx_table s)"
    using API_subscribe_lookup [OF a(1)] by blast
  let ?T = "?S(pre @ pattern := ?S (pre @ pattern) @ [callback_function_object ?n])"
  have t: "lookup_wf (cxx_table s')" "subscribed (cxx_table s') = ?T"
    using tbl.ins_wf [OF ok(2)] assms(4) by (simp_all add: a(2) p(2,3) tbl.ins_callbacks)
  have fin: "finite {q. ?S q \<noteq> []}" using ok(1) by (simp add: cxx_inv_def counted_def)
  have new: "callback_objects s ?n = None"
    using ok(1) by (auto simp: cxx_inv_def counted_def) (metis less_irrefl option.exhaust)
  have "subscriptions n ?T = subscriptions n ?S + (if n = ?n then 1 else 0)" for n
    using subscriptions_update [OF fin, of n "pre @ pattern" "?S (pre @ pattern) @ [callback_function_object ?n]"]
    by (auto simp: function_count_def)
  moreover have "uses s' n = uses s n + (if n = ?n then 1 else 0)" for n
    using new by (auto simp: a(2) uses_def)
  moreover have "subscriptions ?n ?S = 0" using ok(1) new by (auto simp: cxx_inv_def counted_def uses_def dest: spec [of _ ?n])
  ultimately have "counted ?T (running s') s'"
    using ok(1) table_sum_update(2) [OF fin, of "\<lambda>_. 0" "pre @ pattern" "?S (pre @ pattern) @ [callback_function_object ?n]"]
    by (auto simp: cxx_inv_def counted_def a(2) less_SucI split: if_splits)
  moreover have "objects_exist s'"
    using ok(1) assms(3) by (auto simp: cxx_inv_def objects_exist_def may_subscribe_def a(2) split: if_splits)
  moreover have "owners_differ s'"
    using ok(1) assms(3) owned_object_m_object unfolding cxx_inv_def owners_differ_def may_subscribe_def refers_to_def has_owner_def a(2)
    by (auto split: if_splits option.splits) blast
  moreover have "card (dom (callback_objects s')) = Suc (card (dom (callback_objects s)))"
    using counted_finite [of ?S "running s" s] ok(1) new by (simp add: a(2) cxx_inv_def domIff)
  then have "count_exact s'" using ok(1) assms(2) by (auto simp: cxx_inv_def count_exact_def a(2) p(2))
  ultimately show ?thesis using t assms(2) by (simp add: cxx_ok_def cxx_inv_def a(2) p(2))
qed

lemma cxx_step_ok:
  assumes "cxx_step s s'" "cxx_ok s"
  shows "cxx_ok s'"
  using assms(1)
proof cases
  case (copied w w')
  with assms(2) show ?thesis
    by (auto simp: on_shared_Ok API_copy_def cxx_ok_def cxx_inv_defs split: if_splits)
next
  case (destroyed w w')
  with assms(2) show ?thesis
    by (auto simp: on_shared_Ok API_destroy_def API_release_def cxx_ok_def cxx_inv_defs split: if_splits)
next
  case (creates ob)
  with assms(2) show ?thesis by (auto simp: cxx_ok_def cxx_inv_defs)
next
  case (deletes ob w w')
  with assms(2) show ?thesis
    by (auto simp: delete_function_def cxx_ok_def cxx_inv_defs refers_to_def split: if_splits)
next
  case (subscribes c ei pattern w r w')
  with assms(2) show ?thesis using subscribe_object_ok by blast
next
  case (unsubscribes ei pattern w r w')
  with assms(2) show ?thesis using unsubscribe_object_ok by blast
next
  case (begins pattern w w')
  with assms(2) callback_begin_ok [of s pattern w] show ?thesis by auto
next
  case (ends w w')
  then obtain f fs where "running s = f # fs" by (cases "running s") (auto simp: callback_end_def)
  with ends assms(2) callback_end_ok(1) [of s f fs w] callback_end_ok(2) [of s f fs] show ?thesis by auto
next
  case (calls p)
  with assms(2) show ?thesis by (simp add: cxx_ok_def cxx_inv_instance)
qed

interpretation cxx: invariant cxx_start cxx_step cxx_ok
proof
  fix s
  assume "cxx_start s"
  then show "cxx_ok s"
    by (simp add: cxx_start_def api_start_def cxx_ok_def cxx_inv_defs uses_def subscribed_def subscriptions_def
      table_sum_def function_count_def)
qed (rule cxx_step_ok)

end
