(* ===== verification/Api_Lifetime.thy ===== *)
theory Api_Lifetime
  imports Api_Ownership
begin

text \<open>
  What the invariant of \<open>Api_Ownership\<close> shows about C++ programs: callbacks run on objects that exist, also
  when they unsubscribe themselves; outside of callbacks the removal of a callback is the one of \<open>Api_Cxx\<close>;
  and the classes of callback objects pass the same texts.
\<close>

section \<open>Objects are there when they are used\<close>

lemma cxx_run_in_memory:
  assumes "cxx_ok s" "callback_function_object n \<in> set (running s) \<or> callback_function_object n \<in> set (subscribed (cxx_table s) p)"
  shows "\<exists>x. callback_objects s n = Some x \<and> 0 < use_count x
    \<and> cxx_run (callback_objects s) (function_objects s) code (callback_function_object n) = callback_cxx_call code (cxx x)"
proof -
  have inv: "cxx_inv (subscribed (cxx_table s)) (running s) s" using cxx_okD(1) [OF assms(1)] .
  then obtain x where x: "callback_objects s n = Some x" "0 < use_count x"
    using counted_in_memory assms(2) by (auto simp: cxx_inv_def) blast+
  moreover from this have "set_option (m_object (cxx x)) \<subseteq> function_objects s"
    using inv by (auto simp: cxx_inv_def objects_exist_def elem_set)
  ultimately show ?thesis by (auto simp: cxx_run_def fun_eq_iff)
qed

lemma unsubscribe_object_status:
  assumes "cxx_ok s" "0 < handles (shared s)"
  shows "fst (unsubscribe_object ei pattern (s, w)) = fst (on_api (cloudi_unsubscribe ei pattern) (shared s, w))"
proof (cases "\<exists>pre. prefix_string (m_api (shared s)) = Ok pre")
  case True
  then obtain pre where pre: "prefix_string (m_api (shared s)) = Ok pre" by blast
  show ?thesis
    unfolding unsubscribe_object_eq [OF assms pre] by (simp add: on_shared_def on_api_def split: prod.split)
next
  case False
  with cxx_inv_live [OF cxx_okD(1) [OF assms(1)] assms(2)] show ?thesis
    by (auto simp: unsubscribe_object_def on_api_def cloudi_unsubscribe_def split: outcome.splits)
qed

text \<open>A program that has subscribed the function object 3, given as a pointer; the callback object has the number 7.\<close>

definition sample_object :: callback_object where
  "sample_object = \<lparr>use_count = 1, cxx = callback_function_cxx_op2 3\<rparr>"

lemma sample_cxx_reachable:
  "\<exists>s t. cxx_reachable s \<and> handles (shared s) = 1 \<and> running s = [] \<and> function_objects s = {3}
    \<and> callback_objects s = [7 \<mapsto> sample_object] \<and> m_api (shared s) = sample_instance\<lparr>lookup := t, buffer_call := call\<rparr>
    \<and> subscribed t = one_object"
proof -
  let ?s = "\<lparr>shared = new_api, callback_objects = (\<lambda>_. None), next_object = 7, running = [], function_objects = {3}\<rparr>"
  let ?w = "io_idle\<lparr>wr := [Wr_count 999]\<rparr>"
  have r: "cxx_reachable ?s" by (rule reach.start) (simp add: cxx_start_def api_start_def new_api_def sample_instance_def)
  obtain a w where a: "API_subscribe ei_format (cstr ''x'') 7 (new_api, ?w) = (Ok cloudi_success, (a, w))"
      "handles a = 1" "\<not> api_freed a" "subscribed (lookup (m_api a)) = one_object"
    using new_api_subscribes [of ?w] by (auto simp: io_idle_def)
  let ?s1 = "?s\<lparr>callback_objects := [7 \<mapsto> sample_object], next_object := 8, shared := a\<rparr>"
  have "subscribe_object ei_format (cstr ''x'') (callback_function_cxx_op2 3) (?s, ?w) = (Ok cloudi_success, (?s1, w))"
    using a(1) by (simp add: subscribe_object_def on_shared_def sample_object_def)
  then have "cxx_step ?s ?s1"
    by (rule cxx_step.subscribes [rotated 3])
      (simp_all add: new_api_def may_subscribe_def refers_to_def sample_instance_def subscribed_def)
  with r have "cxx_reachable ?s1" by (rule reach.step)
  moreover have "cxx_step ?s1 (?s1\<lparr>shared := a\<lparr>m_api := sample_instance\<lparr>lookup := lookup (m_api a), buffer_call := call\<rparr>\<rparr>\<rparr>)"
    using cxx_step.calls [of ?s1 "sample_instance\<lparr>lookup := lookup (m_api a), buffer_call := call\<rparr>"] a(3) by simp
  ultimately have "cxx_reachable (?s1\<lparr>shared := a\<lparr>m_api := sample_instance\<lparr>lookup := lookup (m_api a), buffer_call := call\<rparr>\<rparr>\<rparr>)"
    by (rule reach.step)
  then show ?thesis using a(2,4) by (fastforce simp: sample_object_def)
qed

text \<open>
  C12: No function object is used after it was deleted, and none is deleted twice: in every state that a C++
  program can reach by subscribing (with every function object given as a pointer once), unsubscribing,
  copying and destroying API objects, also inside of callbacks, every callback object that the table or a
  running call of \<open>callback\<close> has is in memory and runs the code of a function object that exists; the end
  and the beginning of a callback, and the removal of a callback from the table, never touch an object that
  is gone; and the shared count is the number of API objects of the program and of callback objects.
\<close>

theorem function_objects_safe:
  assumes "cxx_reachable s"
  shows "(\<forall>n p. callback_function_object n \<in> set (running s) \<or> callback_function_object n \<in> set (subscribed (cxx_table s) p) \<longrightarrow>
      (\<exists>x. callback_objects s n = Some x
        \<and> cxx_run (callback_objects s) (function_objects s) code (callback_function_object n) = callback_cxx_call code (cxx x)))
    \<and> (running s \<noteq> [] \<longrightarrow> (\<exists>s'. callback_end (s, w) = (Ok (), (s', w))))
    \<and> (0 < handles (shared s) \<longrightarrow>
      (\<exists>s'. callback_begin pattern (s, w) = (Ok (), (s', w)))
      \<and> fst (unsubscribe_object ei pattern (s, w)) = fst (on_api (cloudi_unsubscribe ei pattern) (shared s, w)))
    \<and> m_count (shared s) = int (handles (shared s) + card (dom (callback_objects s)))"
proof -
  have ok: "cxx_ok s" using cxx.inv_reach [OF assms] .
  have "\<exists>s'. callback_end (s, w) = (Ok (), (s', w))" if "running s \<noteq> []"
    using callback_end_ok(1) [OF ok] that by (cases "running s") blast+
  moreover have "\<exists>s'. callback_begin pattern (s, w) = (Ok (), (s', w))" if "0 < handles (shared s)"
    using callback_begin_ok [OF ok that] by blast
  moreover have "m_count (shared s) = int (handles (shared s) + card (dom (callback_objects s)))"
    using cxx_okD(1) [OF ok] by (simp add: cxx_inv_def count_exact_def)
  ultimately show ?thesis
    using cxx_run_in_memory [OF ok] unsubscribe_object_status [OF ok] by blast
qed

definition idle_code :: function_code where
  "idle_code c request_type name pattern rq = Pair (Ok ())"

theorem function_objects_safe_witness:
  "\<exists>s s'. cxx_reachable s
    \<and> cxx_run (callback_objects s) (function_objects s) idle_code (callback_function_object 7)
      = callback_cxx_call idle_code (callback_function_cxx_op2 3)
    \<and> callback_begin (cstr ''/p/x'') (s, io_idle) = (Ok (), (s', io_idle)) \<and> m_count (shared s) = 2"
proof -
  obtain s t where s: "cxx_reachable s" "handles (shared s) = 1" "callback_objects s = [7 \<mapsto> sample_object]"
      "m_api (shared s) = sample_instance\<lparr>lookup := t, buffer_call := buffer_call sample_instance\<rparr>" "subscribed t = one_object"
    using sample_cxx_reachable by blast
  note f = function_objects_safe [OF s(1), of idle_code io_idle "cstr ''/p/x''" ei_format]
  have "callback_function_object 7 \<in> set (subscribed (cxx_table s) (cstr ''/p/x''))" by (simp add: s(4,5) one_object_def)
  with f have "\<exists>x. callback_objects s 7 = Some x
      \<and> cxx_run (callback_objects s) (function_objects s) idle_code (callback_function_object 7) = callback_cxx_call idle_code (cxx x)"
    by blast
  moreover have "callback_objects s 7 = Some sample_object" "card (dom (callback_objects s)) = 1" by (simp_all add: s(3))
  moreover from f s(2) have "\<exists>s'. callback_begin (cstr ''/p/x'') (s, io_idle) = (Ok (), (s', io_idle))"
      "m_count (shared s) = int (1 + card (dom (callback_objects s)))" by simp_all
  ultimately show ?thesis using s(1) by (auto simp: sample_object_def)
qed

section \<open>A callback that unsubscribes itself\<close>

lemma uses_one:
  assumes "cxx_ok s" "callback_function_object n \<in> set (subscribed (cxx_table s) p)"
  shows "uses s n = Suc (function_count n (running s))"
proof -
  have "counted (subscribed (cxx_table s)) (running s) s" using cxx_okD(1) [OF assms(1)] by (simp add: cxx_inv_def)
  moreover from this have "0 < subscriptions n (subscribed (cxx_table s))"
    using assms(2) by (intro subscriptions_pos [of _ n p]) (simp_all add: counted_def)
  ultimately show ?thesis by (simp add: counted_def) (metis One_nat_def le_Suc_eq le_zero_eq less_not_refl)
qed

lemma usesD: "uses s n = Suc k \<Longrightarrow> \<exists>x. callback_objects s n = Some x \<and> use_count x = Suc k"
  by (auto simp: uses_def split: option.splits)

lemma callback_begin_single:
  assumes "cxx_ok s" "0 < handles (shared s)" "subscribed (cxx_table s) p = [callback_function_object n]"
    "callback_objects s n = Some x" "callback_begin p (s, w) = (Ok (), (s1, w1))"
  shows "\<exists>t. s1 = s\<lparr>shared := (shared s)\<lparr>m_api := (m_api (shared s))\<lparr>lookup := t\<rparr>\<rparr>,
      running := callback_function_object n # running s,
      callback_objects := (callback_objects s)(n \<mapsto> x\<lparr>use_count := use_count x + 1\<rparr>)\<rparr>
    \<and> w1 = w \<and> subscribed t = subscribed (cxx_table s)"
proof -
  obtain t where t: "lookup_find p (cxx_table s) = Ok (callback_function_object n, t)"
      "subscribed t = (subscribed (cxx_table s))(p := subscribed (cxx_table s) p)"
    using tbl.fnd_ok [OF cxx_okD(2) [OF assms(1)], of p] assms(3) by auto
  moreover have "\<not> api_freed (shared s)" using cxx_inv_live [OF cxx_okD(1) [OF assms(1)] assms(2)] .
  ultimately show ?thesis
    using assms(4,5) by (intro exI [of _ t]) (auto simp: callback_begin_def take_reference_def)
qed

text \<open>
  C18: A callback that unsubscribes itself keeps its object until it returns: when the only callback of a
  pattern, which is not running yet, begins and the pattern is unsubscribed by its code, its callback
  object and its function object are still in memory and the count of API objects is as before, although
  the pattern has no callback any more; the end of the callback deletes the callback object, the function
  object if it was given as a pointer, and the API object of the callback object.
\<close>

theorem unsubscribed_in_callback:
  assumes "cxx_reachable s" and "0 < handles (shared s)" and "prefix_string (m_api (shared s)) = Ok pre"
    and "subscribed (cxx_table s) (pre @ pattern) = [callback_function_object n]"
    and "callback_function_object n \<notin> set (running s)"
    and "callback_begin (pre @ pattern) (s, w) = (Ok (), (s1, w1))"
    and "unsubscribe_object ei pattern (s1, w1) = (Ok r, (s2, w2))"
  shows "\<exists>x x2 s3. callback_objects s n = Some x \<and> callback_objects s2 n = Some x2 \<and> cxx x2 = cxx x
    \<and> function_objects s2 = function_objects s \<and> m_count (shared s2) = m_count (shared s)
    \<and> subscribed (cxx_table s2) (pre @ pattern) = []
    \<and> callback_end (s2, w2) = (Ok (), (s3, w2)) \<and> callback_objects s3 n = None
    \<and> function_objects s3 = function_objects s - set_option (owned_object (cxx x))
    \<and> m_count (shared s3) = m_count (shared s) - 1"
proof -
  have ok: "cxx_ok s" using cxx.inv_reach [OF assms(1)] .
  have "uses s n = Suc 0" using uses_one [OF ok, of n "pre @ pattern"] assms(4,5)
    by (simp add: function_count_def count_list_0_iff)
  then obtain x where x: "callback_objects s n = Some x" "use_count x = 1" using usesD by fastforce
  obtain t where s1: "s1 = s\<lparr>shared := (shared s)\<lparr>m_api := (m_api (shared s))\<lparr>lookup := t\<rparr>\<rparr>,
      running := callback_function_object n # running s,
      callback_objects := (callback_objects s)(n \<mapsto> x\<lparr>use_count := use_count x + 1\<rparr>)\<rparr>"
      and t: "subscribed t = subscribed (cxx_table s)"
    using callback_begin_single [OF ok assms(2,4) x(1) assms(6)] by blast
  have ok1: "cxx_ok s1" "0 < handles (shared s1)"
    using callback_begin_ok [OF ok assms(2), of "pre @ pattern" w] assms(2,6) by (auto simp: s1)
  have "prefix_string (m_api (shared s1)) = Ok pre" using assms(3) by (simp add: s1 prefix_string_def)
  then obtain q where q: "s2 = (removed_first (pre @ pattern) s1)\<lparr>shared := (shared (removed_first (pre @ pattern) s1))\<lparr>m_api := q\<rparr>\<rparr>"
      and ok2: "cxx_ok s2" and tab: "subscribed (cxx_table s2) (pre @ pattern) = []"
    using unsubscribe_object_ok [OF ok1 assms(7)] assms(4) t by (auto simp: s1)
  have "removed_first (pre @ pattern) s1 = s1\<lparr>callback_objects := (callback_objects s)(n \<mapsto> x\<lparr>use_count := 1\<rparr>)\<rparr>"
    using assms(4) t by (simp add: removed_first_def dropped_def s1 x(2))
  then have s2: "callback_objects s2 = (callback_objects s)(n \<mapsto> x\<lparr>use_count := 1\<rparr>)" "running s2 = callback_function_object n # running s"
      "function_objects s2 = function_objects s" "m_count (shared s2) = m_count (shared s)"
    by (simp_all add: q s1)
  let ?s3 = "dropped (callback_function_object n) (s2\<lparr>running := running s\<rparr>)"
  have "callback_end (s2, w2) = (Ok (), (?s3, w2))" using callback_end_ok(1) [OF ok2 s2(2)] .
  moreover have "?s3 = deleted n (cxx x) (s2\<lparr>running := running s\<rparr>)" by (simp add: dropped_def s2(1))
  then have "callback_objects ?s3 n = None" "m_count (shared ?s3) = m_count (shared s) - 1"
      "function_objects ?s3 = function_objects s - set_option (owned_object (cxx x))"
    by (simp_all add: s2(3,4)) (simp add: deleted_def s2(4))
  ultimately show ?thesis using x(1) s2 tab by (intro exI [of _ x] exI [of _ "x\<lparr>use_count := 1\<rparr>"] exI [of _ ?s3]) simp
qed

theorem unsubscribed_in_callback_witness:
  "\<exists>s1 w1 s2 w2 s3. callback_begin (cstr ''/p/x'') (s1, w1) = (Ok (), (s2, w2))
    \<and> (\<exists>s' w'. unsubscribe_object ei_format (cstr ''x'') (s2, w2) = (Ok cloudi_success, (s', w'))
      \<and> 3 \<in> function_objects s' \<and> callback_end (s', w') = (Ok (), (s3, w')) \<and> 3 \<notin> function_objects s3)"
proof -
  let ?w = "io_idle\<lparr>wr := [Wr_count 999]\<rparr>" and ?x = "cstr ''/p/'' @ cstr ''x''"
  obtain s t where s: "cxx_reachable s" "handles (shared s) = 1" "running s = []" "function_objects s = {3}"
      "callback_objects s = [7 \<mapsto> sample_object]" "m_api (shared s) = sample_instance\<lparr>lookup := t\<rparr>" "subscribed t = one_object"
    using sample_cxx_reachable [of "buffer_call sample_instance"] by auto
  have ok: "cxx_ok s" using cxx.inv_reach [OF s(1)] .
  have x: "?x = cstr ''/p/x''" "subscribed (cxx_table s) ?x = [callback_function_object 7]"
    by (simp_all add: s(6,7) one_object_def cstr_def)
  obtain s1 where b: "callback_begin ?x (s, ?w) = (Ok (), (s1, ?w))" "cxx_ok s1"
    using callback_begin_ok [OF ok, of ?x ?w] s(2) by auto
  obtain t1 where t1: "m_api (shared s1) = sample_instance\<lparr>lookup := t1\<rparr>" "handles (shared s1) = 1"
      "subscribed t1 = one_object"
    using callback_begin_single [OF ok _ x(2) _ b(1), of sample_object] s(2,5,6,7) by auto
  have pre: "prefix_string (m_api (shared s)) = Ok (cstr ''/p/'')" "prefix_string (m_api (shared s1)) = Ok (cstr ''/p/'')"
    unfolding s(6) t1(1) by (rule sample_prefix)+
  obtain t2 where "lookup_remove ?x t1 = Ok (True, t2)"
    using tbl.rem_ok [OF cxx_okD(2) [OF b(2)], of ?x] t1(1,3) x by (auto simp: one_object_def)
  moreover obtain p2 w2 where "send_message ei_format
      [Encode ei_version, Encode (ei_tuple_header 2), Encode (ei_atom (cstr ''unsubscribe'')),
       Reserve (length (cstr ''x'') + 128), Encode (ei_string (cstr ''x''))] (sample_instance\<lparr>lookup := t2\<rparr>, ?w)
      = (Ok cloudi_success, (p2, w2))"
    using sample_notice_sent [of ?w "''unsubscribe''" t2] by (auto simp: io_idle_def)
  ultimately have "cloudi_unsubscribe ei_format (cstr ''x'') (m_api (shared s1), ?w) = (Ok cloudi_success, (p2, w2))"
    unfolding t1(1) by (simp add: cloudi_unsubscribe_def sample_prefix)
  then obtain s2 where u: "unsubscribe_object ei_format (cstr ''x'') (s1, ?w) = (Ok cloudi_success, (s2, w2))"
    using unsubscribe_object_eq [OF b(2) _ pre(2), of ei_format "cstr ''x''" ?w] t1(2)
      cxx_inv_live [OF cxx_okD(1) [OF b(2)]] by (simp add: on_shared_def on_api_def)
  have h: "0 < handles (shared s)" "callback_function_object 7 \<notin> set (running s)" by (simp_all add: s(2,3))
  from unsubscribed_in_callback [OF s(1) h(1) pre(1) x(2) h(2) b(1) u] s(4,5)
  obtain s3 where "3 \<in> function_objects s2" "callback_end (s2, w2) = (Ok (), (s3, w2))" "3 \<notin> function_objects s3"
    by (auto simp: sample_object_def)
  with b(1) u show ?thesis unfolding x(1) by blast
qed

text \<open>
  Why a pointer may be given once only: two callback objects of the same function object both delete it.
\<close>

lemma function_object_twice:
  assumes "callback_objects s n = Some x" "callback_objects s m = Some y" "n \<noteq> m" "use_count x = 1" "use_count y = 1"
    "owned_object (cxx x) = Some ob" "owned_object (cxx y) = Some ob"
    "drop_reference (callback_function_object n) (s, w) = (Ok (), (s', w'))"
  shows "fst (drop_reference (callback_function_object m) (s', w')) = Undefined"
proof -
  have gone: "fst (callback_cxx_delete (cxx y) (s2, w2)) = Undefined" if "ob \<notin> function_objects s2" for s2 w2
    using assms(7) that by (cases "cxx y") (simp_all add: delete_function_def bind_state_def)
  have "callback_cxx_delete (cxx x) (s\<lparr>callback_objects := (callback_objects s)(n := None)\<rparr>, w) = (Ok (), (s', w'))"
    using assms(1,4,8) by (simp add: drop_reference_def)
  then have "ob \<notin> function_objects s'" "callback_objects s' m = Some y"
    using assms(2,3,6) by (cases "cxx x"; auto simp: delete_function_def bind_state_eq_Ok on_shared_Ok split: if_splits)+
  with gone assms(5) show ?thesis by (simp add: drop_reference_def)
qed

section \<open>The view without callback objects\<close>

lemma removed_first_shared:
  assumes "cxx_ok s" "0 < handles (shared s)" "running s = []"
  shows "shared (removed_first p s)
    = (shared s)\<lparr>m_count := m_count (shared s) - (if list_ex is_object (take 1 (subscribed (cxx_table s) p)) then 1 else 0)\<rparr>"
    "list_ex is_object (take 1 (subscribed (cxx_table s) p)) \<Longrightarrow> m_count (shared s) \<noteq> 1"
proof -
  have "shared (removed_first p s)
      = (shared s)\<lparr>m_count := m_count (shared s) - (if list_ex is_object (take 1 (subscribed (cxx_table s) p)) then 1 else 0)\<rparr>
    \<and> (list_ex is_object (take 1 (subscribed (cxx_table s) p)) \<longrightarrow> m_count (shared s) \<noteq> 1)"
  proof (cases "\<exists>n fs. subscribed (cxx_table s) p = callback_function_object n # fs")
    case True
    then obtain n fs where f: "subscribed (cxx_table s) p = callback_function_object n # fs" by blast
    have "uses s n = Suc 0" using uses_one [OF assms(1), of n p] f assms(3) by (simp add: function_count_def)
    then obtain x where x: "callback_objects s n = Some x" "use_count x = 1" using usesD by fastforce
    have "2 \<le> m_count (shared s)"
      using deleted_inv(2) [OF cxx_inv_move [OF cxx_okD(1) [OF assms(1)] f] assms(2) x] .
    with f x show ?thesis by (simp add: removed_first_def dropped_def deleted_def)
  next
    case False
    then have "\<not> list_ex is_object (take 1 (subscribed (cxx_table s) p))"
      by (cases "subscribed (cxx_table s) p") (auto elim: is_object.elims)
    with False show ?thesis
      by (auto simp: removed_first_def dropped_def split: list.split callback_function.split)
  qed
  then show "shared (removed_first p s)
      = (shared s)\<lparr>m_count := m_count (shared s) - (if list_ex is_object (take 1 (subscribed (cxx_table s) p)) then 1 else 0)\<rparr>"
    "list_ex is_object (take 1 (subscribed (cxx_table s) p)) \<Longrightarrow> m_count (shared s) \<noteq> 1"
    by simp_all
qed



section \<open>The code that a request runs\<close>

lemma callback_cxx_texts:
  assumes "rp_cstr (rq_name rq) (buffer_call p) = Ok name" and "rp_cstr (rq_pattern rq) (buffer_call p) = Ok pattern"
  shows "\<exists>a b. (\<forall>request_type. callback_cxx_call code c request_type rq (p, w) = code c request_type a b rq (p, w))
    \<and> arg_text a p = Ok name \<and> arg_text b p = Ok pattern"
proof (cases "\<exists>a b. (\<forall>request_type. callback_cxx_call code c request_type rq (p, w) = code c request_type (c_pointer a) (c_pointer b) rq (p, w))
    \<and> a = rq_name rq \<and> b = rq_pattern rq")
  case True
  with assms show ?thesis by (metis arg_text.simps(2))
next
  case False
  then have "callback_cxx_call code c request_type rq (p, w)
      = code c request_type (std_string name) (std_string pattern) rq (p, w)" for request_type
    using assms by (cases c) (auto simp: with_strings_def with_pointers_def)
  then show ?thesis by (metis arg_text.simps(1))
qed

lemma callback_run_cong:
  assumes "rp_cstr (rq_pattern rq) (buffer_call p) = Ok pattern" "lookup_find pattern (lookup p) = Ok (f, t)"
    "\<And>request_type. run f request_type rq (p\<lparr>lookup := t\<rparr>, w) = run' f request_type rq (p\<lparr>lookup := t\<rparr>, w)"
  shows "callback ei dv run command rq (p, w) = callback ei dv run' command rq (p, w)"
  using assms by (simp add: callback_def callback_branch_def call_function_def)



end
