(* ===== verification/Service.thy ===== *)
theory Service
  imports Api_Objects
begin

text \<open>
  How a service answers, for every language of it: the request of a frame reaches \<open>callback\<close> with the pointers
  that show what was encoded, a function that leaves by the exception of its response ends \<open>callback\<close>, and
  \<open>cloudi_return\<close> has sent the framed response.
\<close>

text \<open>What \<open>cloudi_return\<close> of a request type sends, and the exception that it leaves by.\<close>

definition reply_of :: "u32 \<Rightarrow> int \<Rightarrow> string \<Rightarrow> cxx_exception \<Rightarrow> bool" where
  "reply_of command rt reply own \<longleftrightarrow>
     (command, rt, reply, own) \<in> {(MESSAGE_SEND_ASYNC, CLOUDI_ASYNC, ''return_async'', return_async_exception),
       (MESSAGE_SEND_SYNC, CLOUDI_SYNC, ''return_sync'', return_sync_exception)}"

lemma reply_sent:
  assumes "reply_of command rt reply own" "send_wf p" "ei_bounded ei" "length name \<le> 65535" "length pattern \<le> 65535"
    "length info + length resp < 2 ^ 30" "length tid = 16" "pid_ok dv source"
    "steps = return_steps reply name pattern info resp timeout tid @ [Copy_pid (dv source) source]"
    "reserves_ok ei steps (header_size (use_header p)) (m_maxSize (buffer_send p))" "allocs w = []"
    "encode ei steps = Some body" "accepts (wr w) (header_size (use_header p) + length body)"
  shows "\<exists>s'. cloudi_return ei dv rt name pattern info resp timeout tid source (p, w) = (Raise own, s')
    \<and> sent (snd s') (fd_out p) = sent w (fd_out p) @ wire (use_header p) body"
proof -
  have "reply \<in> {''return_async'', ''return_sync''}" using assms(1) by (auto simp: reply_of_def)
  then have "fits ei steps (header_size (use_header p)) (m_size (buffer_send p))"
    unfolding assms(9) by (rule return_fits [OF assms(2,3) _ assms(4-8)])
  then obtain s' where s': "send_message ei steps (p, w) = (Ok cloudi_success, s')" "sends ei steps (p, w) cloudi_success s'"
    using send_message_delivers [OF assms(2) _ assms(10-13)] by blast
  have "cloudi_return ei dv rt name pattern info resp timeout tid source (p, w) = (Raise own, s')"
    using assms(1) s'(1) unfolding assms(9)
    by (auto simp: reply_of_def cloudi_return_def cloudi_return_impl_def throw_on_success_def CLOUDI_ASYNC_def CLOUDI_SYNC_def)
  moreover have "sent (snd s') (fd_out p) = sent w (fd_out p) @ wire (use_header p) body"
    using s'(2) assms(12) by (auto simp: sends_def split: prod.splits)
  ultimately show ?thesis by blast
qed

text \<open>What the pointers of a request show.\<close>

definition request_shows ::
  "request \<Rightarrow> byte realloc_ptr \<Rightarrow> bytes \<Rightarrow> bytes \<Rightarrow> bytes \<Rightarrow> bytes \<Rightarrow> u32 \<Rightarrow> 8 word \<Rightarrow> bytes \<Rightarrow> bytes \<Rightarrow> bool" where
  "request_shows rq call name pattern request_info request timeout priority tid source \<longleftrightarrow>
     shown rq call name pattern tid source
     \<and> rp_get (rq_request_info rq) (unat (rq_request_info_size rq)) call = Ok request_info
     \<and> rp_get (rq_request rq) (unat (rq_request_size rq)) call = Ok request
     \<and> rq_timeout rq = timeout \<and> rq_priority rq = priority"

lemma request_reaches_callback:
  assumes "received p (send_out command name pattern request_info request timeout priority tid source) []"
    and "reply_of command rt reply own" and "0 \<notin> set name" and "0 \<notin> set pattern" and "length tid = 16"
    and "source \<noteq> []" and "rp_wf (buffer_call p)" and "m_size (buffer_recv p) < 2 ^ 63"
    and "can_reserve (m_size (buffer_recv p)) (buffer_call p) w" and "allocs w = []"
    and "lookup_wf (lookup p)" and "subscribed (lookup p) pattern = f # fs"
  shows "\<exists>call rq t. poll_message ei dv run True 0 (p, w) =
      bind_state (callback ei dv run command rq) (\<lambda>_. Pair (Ok Repoll)) (p\<lparr>buffer_call := call, buffer_recv_index := 0\<rparr>, w)
    \<and> request_shows rq call name pattern request_info request timeout priority tid source
    \<and> lookup_find pattern (lookup p) = Ok (f, t)"
proof -
  have cmd: "command = MESSAGE_SEND_ASYNC \<or> command = MESSAGE_SEND_SYNC"
    using assms(2) by (auto simp: reply_of_def)
  obtain t where t: "lookup_find pattern (lookup p) = Ok (f, t)"
    using tbl.fnd_ok [OF assms(11), of pattern] assms(12) by auto
  have w: "w\<lparr>allocs := []\<rparr> = w"
    using assms(10) by simp
  show ?thesis
    using request_message_spec [OF assms(1) cmd assms(3-9), of ei dv run] assms(10) t
    by (fastforce simp: finish_def request_shows_def shown_def w)
qed

lemma callback_answered:
  assumes "reply_of command rt reply own" and "rp_cstr (rq_pattern rq) (buffer_call p) = Ok pattern"
    and "lookup_find pattern (lookup p) = Ok (f, t)" and "f \<noteq> callback_null_response"
    and "run f rt rq (p\<lparr>lookup := t\<rparr>, w) = (Raise own, s')"
  shows "callback ei dv run command rq (p, w) = (Ok (), s')"
  using assms by (auto simp: callback_def reply_of_def callback_branch_def call_function_def message_defs)

end
