(* ===== verification/Count_Service.thy ===== *)
theory Count_Service
  imports Service
begin

text \<open>
  A service in C, the counter of \<^verbatim>\<open>tests/count/c/main.c\<close>: its \<open>request\<close> function increments the counter that
  the user's state holds and answers with its digits. The counter is an argument and a result, since the
  state of the user is not a part of the instance; what is printed has no effect on it.
\<close>

section \<open>Definitions\<close>

definition count_next :: "u32 \<Rightarrow> u32" where
  "count_next count = (if count = 4294967295 then 0 else count + 1)"

text \<open>
  \<open>snprintf\<close> with the format \<^verbatim>\<open>%d\<close> into 128 bytes: the value is read as an \<open>int\<close>, whatever its
  type was, and its text is cut after 127 bytes.
\<close>

definition count_text :: "u32 \<Rightarrow> bytes" where
  "count_text count = take 127 (cstr (show_int (sint count)))"

definition count_request :: "ei_encoder \<Rightarrow> (bytes \<Rightarrow> nat option) \<Rightarrow> u32 \<Rightarrow> int \<Rightarrow> request \<Rightarrow> (u32 \<times> cloudi_status) call" where
  "count_request ei dv count request_type rq = (\<lambda>(p, w).
     let count = count_next count; response = count_text count; buf = buffer_call p
     in case bind_outcome (rp_cstr (rq_name rq) buf) (\<lambda>name.
             bind_outcome (rp_cstr (rq_pattern rq) buf) (\<lambda>pattern.
             bind_outcome (rp_get (rq_trans_id rq) 16 buf) (\<lambda>tid.
             bind_outcome (rp_get (rq_pid rq) (unat (rq_pid_size rq)) buf) (\<lambda>pid.
             Ok (name, pattern, tid, pid))))) of
          Ok (name, pattern, tid, pid) \<Rightarrow>
            bind_state (cloudi_return ei dv request_type name pattern [] response (rq_timeout rq) tid pid)
              (\<lambda>status. Pair (Ok (count, status))) (p, w)
        | _ \<Rightarrow> (Undefined, (p, w)))"

definition count_run :: "ei_encoder \<Rightarrow> (bytes \<Rightarrow> nat option) \<Rightarrow> u32 \<Rightarrow> runner" where
  "count_run ei dv count f request_type rq = bind_state (count_request ei dv count request_type rq) (\<lambda>_. Pair (Ok ()))"

section \<open>The text of a counter\<close>

lemma length_show_nat: "n < 10 ^ k \<Longrightarrow> 0 < k \<Longrightarrow> length (show_nat n) \<le> k"
proof (induction n arbitrary: k rule: show_nat.induct)
  case (1 n)
  show ?case
  proof (cases "n < 10")
    case False
    then obtain j where j: "k = Suc j" "0 < j"
      using "1.prems" by (cases k; cases "k - 1") auto
    then have "length (show_nat (n div 10)) \<le> j"
      using "1.IH" [of j] False "1.prems"(1) by (simp add: less_mult_imp_div_less mult.commute)
    then show ?thesis
      using False j by (simp add: show_nat.simps [of n])
  qed (use "1.prems" in \<open>simp add: show_nat.simps [of n]\<close>)
qed

lemma count_text_length: "length (count_text count) \<le> 11 \<and> count_text count = cstr (show_int (sint count))"
proof -
  have "- (2 ^ 31) \<le> sint count" "sint count < 2 ^ 31"
    using sint_range_size [of count] by (simp_all add: word_size)
  then have "nat \<bar>sint count\<bar> < 10 ^ 10"
    by simp
  then have "length (show_nat (nat \<bar>sint count\<bar>)) \<le> 10"
    by (rule length_show_nat) simp
  then have "length (show_int (sint count)) \<le> 11"
    by (auto simp: show_int_def)
  then show ?thesis
    by (simp add: count_text_def)
qed

lemma sint_u32: "sint (count :: u32) = (if uint count < 2 ^ 31 then uint count else uint count - 2 ^ 32)"
proof -
  have "0 \<le> uint count" "uint count < 2 ^ 32"
    using uint_bounded [of count] by simp_all
  moreover have "sint count = (uint count + 2 ^ 31) mod 2 ^ 32 - 2 ^ 31"
    by (simp add: sint_uint signed_take_bit_eq_take_bit_shift take_bit_eq_mod)
  moreover have "(x + 2 ^ 31) mod 2 ^ 32 = x - 2 ^ 31" if "2 ^ 31 \<le> x" "x < 2 ^ 32" for x :: int
    using that mod_pos_pos_trivial [of "x - 2 ^ 31" "2 ^ 32"] mod_add_self2 [of "x - 2 ^ 31" "2 ^ 32"] by (simp add: add.commute)
  ultimately show ?thesis
    by auto
qed

lemma uint_count_next:
  "uint (count_next count) = (if uint count = 2 ^ 32 - 1 then 0 else uint count + 1)"
proof -
  have "count = 4294967295 \<longleftrightarrow> uint count = 2 ^ 32 - 1"
    by (simp add: word_uint_eq_iff)
  moreover have "uint (count + 1) = uint count + 1" if "uint count \<noteq> 2 ^ 32 - 1"
    using that uint_bounded [of count] by (simp add: uint_word_ariths)
  ultimately show ?thesis
    by (simp add: count_next_def)
qed

text \<open>The value that the answer shows for a counter: its successor, as an \<open>int\<close>.\<close>

definition count_shown :: "int \<Rightarrow> int" where
  "count_shown n = (if n = 2 ^ 32 - 1 then 0 else if n + 1 < 2 ^ 31 then n + 1 else n + 1 - 2 ^ 32)"

lemma count_text_next: "count_text (count_next count) = cstr (show_int (count_shown (uint count)))"
  using count_text_length [of "count_next count"] by (simp add: sint_u32 uint_count_next count_shown_def)

section \<open>A request to the counter\<close>

lemma count_run_raises:
  assumes "shown rq (buffer_call p) name pattern tid source"
    and "cloudi_return ei dv rt name pattern [] (count_text (count_next count)) (rq_timeout rq) tid source (p, w) = (Raise own, s')"
  shows "count_run ei dv count f rt rq (p, w) = (Raise own, s')"
  using assms by (simp add: count_run_def count_request_def shown_def Let_def)


text \<open>A frame with a request for the pattern \<^verbatim>\<open>/p/c/get\<close>, to the counter at 41.\<close>

definition count_instance :: cloudi_instance_t where
  "count_instance =
     (sample_received (send_out MESSAGE_SEND_SYNC (cstr ''/p/c/get'') (cstr ''/p/c/get'') [] [] 5000 0 (replicate 16 3) [131, 97, 1]
        @ events_out []))\<lparr>lookup := [cstr ''/p/c/get'' \<mapsto> queue_new (callback_function_c 1)]\<rparr>"

definition count_os :: os where
  "count_os = io_idle\<lparr>wr := [Wr_count 999]\<rparr>"

lemma count_shown_41: "show_int (count_shown 41) = ''42''"
  by (simp add: count_shown_def show_int_def show_nat.simps char_of_def bit_0)


end
