(* ===== verification/Api_Frame.thy ===== *)
theory Api_Frame
  imports Api_Cxx
begin

text \<open>
  What the API leaves alone: no call of the C or C++ API changes the interpreter that the process may
  embed, except through the callbacks it runs. A property of the interpreter that every callback keeps
  is kept by every call, whatever the system answers, also when the call ends with an exception.
\<close>

named_theorems moves_rules \<open>how a computation moves the interpreter\<close>

section \<open>Moving the interpreter\<close>

text \<open>
  \<open>moves P Q R m\<close>: from an interpreter with \<open>P\<close>, the computation returns with \<open>Q\<close> or throws with \<open>R\<close>, and
  it does not abort the process (\<open>Exited 134\<close>, the signal of \<open>abort\<close>).
\<close>

definition abort_value :: int where
  "abort_value = 134"

fun lands :: "(interpreter \<Rightarrow> bool) \<Rightarrow> (interpreter \<Rightarrow> bool) \<Rightarrow> 'a outcome \<Rightarrow> interpreter \<Rightarrow> bool" where
  "lands Q R (Ok x) q = Q q"
| "lands Q R (Raise e) q = R q"
| "lands Q R (Exited i) q = (i \<noteq> abort_value)"
| "lands Q R Undefined q = True"
| "lands Q R Blocked q = True"

definition moves :: "(interpreter \<Rightarrow> bool) \<Rightarrow> (interpreter \<Rightarrow> bool) \<Rightarrow> (interpreter \<Rightarrow> bool)
    \<Rightarrow> ('s \<times> os \<Rightarrow> 'a outcome \<times> 's \<times> os) \<Rightarrow> bool" where
  "moves P Q R m \<longleftrightarrow> (\<forall>s w r s' w'. P (py w) \<longrightarrow> m (s, w) = (r, (s', w')) \<longrightarrow> lands Q R r (py w'))"

lemma movesI: "(\<And>s w r s' w'. P (py w) \<Longrightarrow> m (s, w) = (r, (s', w')) \<Longrightarrow> lands Q R r (py w')) \<Longrightarrow> moves P Q R m"
  by (simp add: moves_def)

lemma movesD: "moves P Q R m \<Longrightarrow> P (py w) \<Longrightarrow> m (s, w) = (r, (s', w')) \<Longrightarrow> lands Q R r (py w')"
  by (simp add: moves_def)

lemma moves_bind:
  assumes "moves P Q R m" "\<And>x. moves Q Q' R (f x)"
  shows "moves P Q' R (bind_state m f)"
proof (rule movesI)
  fix s w r s' w'
  assume p: "P (py w)" and b: "bind_state m f (s, w) = (r, (s', w'))"
  obtain x s1 w1 where m: "m (s, w) = (x, (s1, w1))" by (metis prod.collapse)
  have "lands Q R x (py w1)" using movesD [OF assms(1) p m] .
  with m b movesD [OF assms(2)] show "lands Q' R r (py w')" by (cases x) auto
qed

lemma moves_Pair [moves_rules]: "(\<And>q. P q \<Longrightarrow> lands Q R r q) \<Longrightarrow> moves P Q R (Pair r)"
  by (simp add: moves_def)

lemma moves_if [moves_rules]: "(b \<Longrightarrow> moves P Q R m) \<Longrightarrow> (\<not> b \<Longrightarrow> moves P Q R n) \<Longrightarrow> moves P Q R (if b then m else n)"
  by simp

lemma moves_state: "(\<And>s w. moves P Q R (m s w)) \<Longrightarrow> moves P Q R (\<lambda>(s, w). m s w (s, w))"
  by (simp add: moves_def)

lemma moves_update: "(\<And>s. moves P Q R (m s)) \<Longrightarrow> moves P Q R (\<lambda>(s, w). m s (g s, w))"
  by (simp add: moves_def)

text \<open>A property of the interpreter that is kept throughout.\<close>

lemma moves_bind_kept [moves_rules]:
  "moves I I I m \<Longrightarrow> (\<And>x. moves I I I (f x)) \<Longrightarrow> moves I I I (bind_state m f)"
  by (rule moves_bind)

section \<open>Computations that leave it alone\<close>

definition same_py :: "('s \<times> os \<Rightarrow> 'a outcome \<times> 's \<times> os) \<Rightarrow> bool" where
  "same_py m \<longleftrightarrow> (\<forall>s w r s' w'. m (s, w) = (r, (s', w')) \<longrightarrow> py w' = py w \<and> (\<forall>i. r \<noteq> Exited i))"

lemma same_pyI: "(\<And>s w r s' w'. m (s, w) = (r, (s', w')) \<Longrightarrow> py w' = py w \<and> (\<forall>i. r \<noteq> Exited i)) \<Longrightarrow> same_py m"
  by (simp add: same_py_def)

lemma same_pyD: "same_py m \<Longrightarrow> m (s, w) = (r, (s', w')) \<Longrightarrow> py w' = py w \<and> (\<forall>i. r \<noteq> Exited i)"
  by (simp add: same_py_def)

lemma moves_same: "same_py m \<Longrightarrow> moves I I I m"
proof (rule movesI)
  fix s w r s' w'
  assume "same_py m" "I (py w)" "m (s, w) = (r, (s', w'))"
  with same_pyD [of m s w r s' w'] show "lands I I r (py w')" by (cases r) auto
qed

named_theorems same_rules \<open>computations that leave the interpreter alone\<close>

lemma same_bind [same_rules]:
  assumes "same_py m" "\<And>x. same_py (f x)"
  shows "same_py (bind_state m f)"
proof (rule same_pyI)
  fix s w r s' w'
  assume b: "bind_state m f (s, w) = (r, (s', w'))"
  obtain x s1 w1 where m: "m (s, w) = (x, (s1, w1))" by (metis prod.collapse)
  from same_pyD [OF assms(1) m] m b same_pyD [OF assms(2)]
  show "py w' = py w \<and> (\<forall>i. r \<noteq> Exited i)" by (cases x) auto
qed

lemma same_Pair [same_rules]: "(\<And>i. r \<noteq> Exited i) \<Longrightarrow> same_py (Pair r)"
  by (simp add: same_py_def)

lemma same_if [same_rules]: "same_py m \<Longrightarrow> same_py n \<Longrightarrow> same_py (if b then m else n)"
  by simp

lemma same_state: "(\<And>s w. same_py (m s w)) \<Longrightarrow> same_py (\<lambda>(s, w). m s w (s, w))"
  by (simp add: same_py_def)

section \<open>System calls\<close>

lemma c_read_py: "c_read fd n w = (r, w') \<Longrightarrow> py w' = py w"
  by (auto simp: c_read_def split: list.splits rd_answer.splits)

lemma c_write_py: "c_write fd bs w = (r, w') \<Longrightarrow> py w' = py w"
  by (auto simp: c_write_def split: list.splits wr_answer.splits)

lemma c_poll_py: "c_poll n w = (r, w') \<Longrightarrow> py w' = py w"
  by (auto simp: c_poll_def split: list.splits poll_answer.splits)

lemma c_clock_py: "c_clock w = (r, w') \<Longrightarrow> py w' = py w"
  by (auto simp: c_clock_def split: list.splits)

lemma c_reserve_py: "c_reserve n p w = (r, w') \<Longrightarrow> py w' = py w"
  by (auto simp: c_reserve_def Let_def split: option.splits if_splits)

lemma data_ready_py: "data_ready fd w = (r, w') \<Longrightarrow> py w' = py w"
  by (auto simp: data_ready_def dest: c_poll_py split: prod.splits outcome.splits sum.splits)

lemma read_loop_py: "read_loop err null overflow success fd len acc w = (r, w') \<Longrightarrow> py w' = py w"
proof (induction err null overflow success fd len acc w rule: read_loop.induct)
  case (1 err null overflow success fd len acc w)
  then show ?case
    by (subst (asm) (2) read_loop.simps)
      (auto dest: c_read_py split: if_splits prod.splits outcome.splits sum.splits)
qed

lemma write_loop_py: "write_loop err null overflow success fd bs tot w = (r, w') \<Longrightarrow> py w' = py w"
proof (induction err null overflow success fd bs tot w rule: write_loop.induct)
  case (1 err null overflow success fd bs tot w)
  then show ?case
    by (subst (asm) (2) write_loop.simps)
      (auto dest: c_write_py split: if_splits prod.splits outcome.splits sum.splits)
qed

lemma emit_py: "emit ei ss index buf w = (r, w') \<Longrightarrow> py w' = py w \<and> (\<forall>i. r \<noteq> Exited i)"
  by (induction ei ss index buf w rule: emit.induct)
    (auto dest: c_reserve_py split: if_splits option.splits prod.splits outcome.splits bool.splits)

lemma read_exact_py: "read_exact fd len w = (r, w') \<Longrightarrow> py w' = py w"
  unfolding read_exact_def by (rule read_loop_py)

lemma read_all_header_py: "read_all_header fd buf w = (r, w') \<Longrightarrow> py w' = py w"
  by (auto simp: read_all_header_def Let_def dest!: read_exact_py c_reserve_py
    split: if_splits prod.splits outcome.splits bool.splits)

lemma read_all_loop_py: "read_all_loop fd n buf tot w = (r, w') \<Longrightarrow> py w' = py w"
proof (induction "length (polls w)" arbitrary: buf tot w rule: less_induct)
  case less
  obtain r1 w1 where 1: "c_reserve ((tot + n) mod 2 ^ 32) buf w = (r1, w1)" by fastforce
  obtain r2 w2 where 2: "c_read fd n w1 = (r2, w2)" by fastforce
  obtain r3 w3 where 3: "data_ready fd w2 = (r3, w3)" by fastforce
  note py = c_reserve_py [OF 1] c_read_py [OF 2] data_ready_py [OF 3]
  show ?case
  proof (cases "w' \<in> {w1, w2, w3}")
    case False
    then obtain x buf2 tot2 where s: "r3 = Ok x" "read_all_loop fd n buf2 tot2 w3 = (r, w')"
      using less.prems unfolding read_all_loop.simps [of fd n buf tot w] 1
      by (auto simp: Let_def 2 3 split: if_splits outcome.splits sum.splits bool.splits prod.splits)
    have "length (polls w3) < length (polls w)"
      using data_ready_polls 3 s(1) c_read_polls [OF 2] c_reserve_polls [OF 1] by metis
    from less.hyps [OF this s(2)] py show ?thesis by simp
  qed (use py in auto)
qed

lemma read_all_py: "read_all fd h buf n w = (r, w') \<Longrightarrow> py w' = py w"
  by (auto simp: read_all_def dest: read_all_header_py read_all_loop_py split: if_splits)

lemma write_exact_py: "write_exact fd h buf len w = (r, w') \<Longrightarrow> py w' = py w"
  by (auto simp: write_exact_def dest: write_loop_py split: prod.splits outcome.splits)

section \<open>Messages\<close>

lemma same_emit_send: "same_py (emit_send ei steps)"
  by (rule same_pyI) (auto simp: emit_send_def dest: emit_py split: prod.splits outcome.splits)

lemma same_flush_send: "same_py (flush_send index)"
  by (rule same_pyI) (auto simp: flush_send_def dest: write_exact_py split: prod.splits outcome.splits)

lemma same_send_message [same_rules]: "same_py (send_message ei steps)"
  unfolding send_message_def by (intro same_rules same_emit_send) (auto intro!: same_rules same_flush_send)

lemma same_throw_on_success [same_rules]: "same_py m \<Longrightarrow> same_py (throw_on_success e m)"
  unfolding throw_on_success_def by (auto intro!: same_rules)

lemma same_return [same_rules]:
  "same_py (cloudi_return ei dv rt name pattern info resp timeout tid pid)"
  "same_py (cloudi_return_async ei dv name pattern info resp timeout tid pid)"
  "same_py (cloudi_return_sync ei dv name pattern info resp timeout tid pid)"
  unfolding cloudi_return_def cloudi_return_async_def cloudi_return_sync_def cloudi_return_impl_def
  by (auto intro!: same_rules)

lemma same_forward [same_rules]:
  "same_py (cloudi_forward ei dv rt name info request timeout prio tid pid)"
  "same_py (cloudi_forward_async ei dv name info request timeout prio tid pid)"
  "same_py (cloudi_forward_sync ei dv name info request timeout prio tid pid)"
  unfolding cloudi_forward_def cloudi_forward_async_def cloudi_forward_sync_def cloudi_forward_impl_def
  by (auto intro!: same_rules)

lemma same_keepalive [same_rules]: "same_py (keepalive ei)"
  unfolding keepalive_def by (rule same_rules)

lemma same_polling [same_rules]: "same_py (polling ei)"
  by (rule same_pyI) (auto simp: polling_def dest: same_pyD [OF same_send_message] split: if_splits)

lemma same_shutdown [same_rules]: "same_py (cloudi_shutdown ei reason)"
  unfolding cloudi_shutdown_def by (rule same_rules)

lemma same_subscribe_impl [same_rules]: "same_py (cloudi_subscribe_impl ei pattern f)"
  by (rule same_pyI)
    (auto simp: cloudi_subscribe_impl_def dest: same_pyD [OF same_send_message] split: outcome.splits)

lemma same_unsubscribe [same_rules]: "same_py (cloudi_unsubscribe ei pattern)"
  by (rule same_pyI)
    (auto simp: cloudi_unsubscribe_def dest: same_pyD [OF same_send_message] split: outcome.splits prod.splits bool.splits)

section \<open>Decoding\<close>

lemma same_recv [same_rules]:
  "same_py (recv_uint32 u index)" "same_py (recv_int8 u8 index)" "same_py (recv_binary ub index)" "same_py (recv_addr ua index)"
  by (rule same_pyI, auto simp: recv_uint32_def recv_int8_def recv_binary_def recv_addr_def split: outcome.splits)+

lemma same_next_event [same_rules]: "same_py (next_event index)"
  by (rule same_pyI) (auto simp: next_event_def split: if_splits outcome.splits)

lemma same_recv_reinit [same_rules]: "same_py (recv_reinit index)"
  unfolding recv_reinit_def by (intro same_rules)

lemma same_handle_event: "same_py (handle_event ei external command index)"
  unfolding handle_event_def
  by (intro same_rules) (auto intro!: same_rules simp: same_py_def)

lemma events_loop_py:
  assumes "events_loop ei external command index s = Some out"
  shows "py (snd (snd out)) = py (snd s) \<and> (\<forall>i. fst out \<noteq> Exited i)"
proof (rule events_loop.raw_induct [OF _ assms], goal_cases)
  case (1 loop ei external command index s out)
  obtain r p1 w1 where h: "handle_event ei external command index s = (r, (p1, w1))" by (metis prod.collapse)
  have "py w1 = py (snd s) \<and> (\<forall>i. r \<noteq> Exited i)"
    using same_pyD [OF same_handle_event, of ei external command index "fst s" "snd s"] h by simp
  with 1 h show ?case by (auto split: outcome.splits event_next.splits)
qed

lemma same_run_events [same_rules]: "same_py (run_events ei external command index)"
  by (rule same_pyI) (fastforce simp: run_events_def dest: events_loop_py split: option.splits)

lemma same_handle_events [same_rules]: "same_py (handle_events ei external index command)"
  unfolding handle_events_def
  by (intro same_rules) (auto simp: same_py_def dest: same_pyD [OF same_run_events] split: if_splits outcome.splits)

lemma same_after_event [same_rules]: "same_py (after_event index)"
  by (rule same_pyI) (auto simp: after_event_def split: if_splits)

lemma same_message_keepalive [same_rules]: "same_py (message_keepalive ei index)"
  unfolding message_keepalive_def by (auto intro!: same_rules)

lemma same_copy_to_call [same_rules]: "same_py copy_to_call"
  by (rule same_pyI) (auto simp: copy_to_call_def Let_def split: outcome.splits if_splits)

lemma same_null_response: "same_py (null_response ei dv alloc rt rq)"
  by (rule same_pyI)
    (auto simp: null_response_def Let_def dest: same_pyD [OF same_return(1)] split: if_splits outcome.splits prod.splits)

section \<open>Polling\<close>

lemma same_timer [same_rules]: "same_py timer_restart" "same_py timer_elapsed_ms"
  by (rule same_pyI, auto simp: timer_restart_def timer_elapsed_ms_def Let_def dest: c_clock_py
    split: prod.splits outcome.splits if_splits)+

lemma same_start_timer [same_rules]: "same_py (start_timer timeout)"
  unfolding start_timer_def by (auto intro!: same_rules)

lemma same_poll_frame [same_rules]: "same_py poll_frame"
  by (rule same_pyI) (auto simp: poll_frame_def Let_def dest!: c_poll_py read_all_py
    split: prod.splits outcome.splits sum.splits if_splits)

lemma same_repoll [same_rules]: "same_py (repoll timeout)"
  unfolding repoll_def by (auto intro!: same_rules split: option.split)

lemma moves_end_of_message [moves_rules]:
  assumes "moves I I I k"
  shows "moves I I I (end_of_message ei external expected index k)"
proof (rule movesI)
  fix p w r p' w'
  assume i: "I (py w)" and e: "end_of_message ei external expected index k (p, w) = (r, (p', w'))"
  have "moves I I I (bind_state (handle_events ei external index 0) (\<lambda>r. case r of
      Some result \<Rightarrow> Pair (Ok (Return result)) | None \<Rightarrow> (\<lambda>(p, w). k (p\<lparr>buffer_recv_index := 0\<rparr>, w))))"
    using assms by (intro moves_rules moves_same [OF same_handle_events]) (auto simp: moves_def split: option.split)
  from movesD [OF this i] movesD [OF assms i] i e show "lands I I r (py w')"
    by (auto simp: end_of_message_def split: if_splits)
qed

lemma moves_messages [moves_rules]:
  "moves I I I (message_init ei external index)"
  "moves I I I (message_return_async ei external index)"
  "moves I I I (message_returns_async ei external index)"
  "moves I I I (message_subscribe_count ei external index)"
proof -
  have k: "moves I I I (end_of_message ei external False index (Pair (Ok (Return cloudi_success))))" for index
    by (intro moves_rules) simp
  have u: "moves I I I (recv_uint32 upd index)" "moves I I I (recv_int8 upd8 index)" "moves I I I (recv_binary updb index)"
      "moves I I I (recv_addr upda index)" for upd upd8 updb upda index
    by (simp_all add: moves_same same_rules)
  show "moves I I I (message_init ei external index)" "moves I I I (message_subscribe_count ei external index)"
    unfolding message_init_def message_subscribe_count_def by (intro moves_bind_kept u k)+
  have "moves I I I (bind_state (recv_addr (\<lambda>a p. p\<lparr>trans_id := Some a\<rparr>) index)
      (\<lambda>_. end_of_message ei external False (index + 16) (Pair (Ok (Return cloudi_success)))))"
    by (intro moves_bind_kept u k)
  then show "moves I I I (message_return_async ei external index)"
    by (simp add: message_return_async_def moves_def)
  have "moves I I I (\<lambda>(p, w). end_of_message ei external False (index + 16 * trans_id_count p)
      (Pair (Ok (Return cloudi_success))) (p, w))" for index
    by (rule moves_state) (rule k)
  then show "moves I I I (message_returns_async ei external index)"
    unfolding message_returns_async_def by (intro moves_bind_kept u)
qed

lemma moves_message_response [moves_rules]: "moves I I I (message_response ei external index)"
proof -
  have u: "moves I I I (recv_uint32 upd index)" "moves I I I (recv_addr upda index)" for upd upda index
    by (simp_all add: moves_same same_rules)
  have "moves I I I (bind_state (recv_addr (\<lambda>a p. p\<lparr>trans_id := Some a\<rparr>) index)
      (\<lambda>_. end_of_message ei external False (index + 16) (Pair (Ok (Return cloudi_success)))))" for index
    by (intro moves_rules u) simp
  note k = this
  show ?thesis
    unfolding message_response_def Let_def
    by (intro moves_bind_kept u, rule moves_state, intro moves_bind_kept u, rule moves_update, rule k)
qed

lemma moves_message_term [moves_rules]: "moves I I I (message_term ei external index)"
  unfolding message_term_def
  by (intro moves_bind_kept moves_same [OF same_handle_events]) (auto intro!: moves_rules split: option.split)

text \<open>The callbacks of the user are the only way to the interpreter.\<close>

lemma moves_callback:
  assumes run: "\<And>f rt rq. moves I I I (run f rt rq)"
  shows "moves I I I (callback ei dv run command rq)"
proof -
  have c: "moves I I I (call_function run f rt rq)" for f rt
    unfolding call_function_def by (intro moves_rules run) simp
  have b: "moves I I I (callback_branch ei dv run f rt own other returned rq)" for f rt own other returned
  proof (rule movesI)
    fix p w r p' w'
    assume i: "I (py w)" and e: "callback_branch ei dv run f rt own other returned rq (p, w) = (r, (p', w'))"
    obtain x p1 w1 where x: "call_function run f rt rq (p, w) = (x, (p1, w1))" by (metis prod.collapse)
    obtain y p2 w2 where y: "null_response ei dv (m_alloc (buffer_call p)) rt rq (p1, w1) = (y, (p2, w2))"
      by (metis prod.collapse)
    have x': "lands I I x (py w1)" using movesD [OF c i x] .
    have y': "py w2 = py w1 \<and> (\<forall>i. y \<noteq> Exited i)" using same_pyD [OF same_null_response y] .
    show "lands I I r (py w')"
      using e x' y' x y by (cases x; cases y) (auto simp: callback_branch_def Let_def split: if_splits)
  qed
  show ?thesis
  proof (rule movesI)
    fix p w r p' w'
    assume i: "I (py w)" and e: "callback ei dv run command rq (p, w) = (r, (p', w'))"
    show "lands I I r (py w')"
      using e i movesD [OF b i] by (auto simp: callback_def split: outcome.splits prod.splits if_splits)
  qed
qed

lemma moves_message_send:
  assumes run: "\<And>f rt rq. moves I I I (run f rt rq)"
  shows "moves I I I (message_send ei dv run external command index)"
proof -
  have k: "moves I I I (end_of_message ei external True i (bind_state (callback ei dv run command rq) (\<lambda>_. Pair (Ok Repoll))))"
    for i rq by (intro moves_rules moves_callback run) simp
  have "moves I I I (\<lambda>(p, w). case parse_request (buffer_call p) index of
      Ok (rq, index) \<Rightarrow> end_of_message ei external True index
        (bind_state (callback ei dv run command rq) (\<lambda>_. Pair (Ok Repoll))) (p, w)
    | Raise e \<Rightarrow> (Raise e, (p, w)) | _ \<Rightarrow> (Undefined, (p, w)))"
    by (rule movesI) (auto split: outcome.splits prod.splits dest: movesD [OF k])
  then show ?thesis unfolding message_send_def by (rule moves_bind_kept [OF moves_same [OF same_copy_to_call]])
qed

lemma moves_poll_message:
  assumes run: "\<And>f rt rq. moves I I I (run f rt rq)"
  shows "moves I I I (poll_message ei dv run external index)"
proof (rule movesI)
  fix p w r p' w'
  assume i: "I (py w)" and e: "poll_message ei dv run external index (p, w) = (r, (p', w'))"
  have "moves I I I (if command = MESSAGE_INIT then message_init ei external index
          else if command = MESSAGE_SEND_ASYNC \<or> command = MESSAGE_SEND_SYNC then
            message_send ei dv run external command index
          else if command = MESSAGE_RECV_ASYNC \<or> command = MESSAGE_RETURN_SYNC then
            message_response ei external index
          else if command = MESSAGE_RETURN_ASYNC then message_return_async ei external index
          else if command = MESSAGE_RETURNS_ASYNC then message_returns_async ei external index
          else if command = MESSAGE_SUBSCRIBE_COUNT then message_subscribe_count ei external index
          else if command = MESSAGE_TERM then message_term ei external index
          else if command = MESSAGE_REINIT then bind_state (recv_reinit index) after_event
          else if command = MESSAGE_KEEPALIVE then message_keepalive ei index
          else Pair (Ok (Return cloudi_error_read_underflow)))" for command index
    by (intro moves_if moves_message_send run moves_messages moves_message_response moves_message_term
        moves_same [OF same_message_keepalive] moves_same [OF same_bind] same_rules moves_Pair) simp
  from movesD [OF this i] e i show "lands I I r (py w')"
    by (auto simp: poll_message_def split: outcome.splits prod.splits)
qed

lemma poll_loop_moves:
  assumes "poll_loop ei dv run timeout external index s = Some out" and "I (py (snd s))"
    and run: "\<And>f rt rq. moves I I I (run f rt rq)"
  shows "lands I I (fst out) (py (snd (snd out)))"
proof -
  have "(\<forall>f rt rq. moves I I I (run f rt rq)) \<longrightarrow> I (py (snd s)) \<longrightarrow> lands I I (fst out) (py (snd (snd out)))"
  proof (rule poll_loop.raw_induct [OF _ assms(1)], goal_cases)
    case (1 loop ei dv run timeout external index s out)
    show ?case
    proof (intro impI)
      assume run: "\<forall>f rt rq. moves I I I (run f rt rq)" and i: "I (py (snd s))"
      obtain r p1 w1 where r: "poll_message ei dv run external index s = (r, (p1, w1))" by (metis prod.collapse)
      obtain q p2 w2 where q: "repoll timeout (p1, w1) = (q, (p2, w2))" by (metis prod.collapse)
      have r': "lands I I r (py w1)"
        using movesD [OF moves_poll_message, of I run "snd s" ei dv external index "fst s" r p1 w1] run i r by simp
      have q': "py w2 = py w1 \<and> (\<forall>i. q \<noteq> Exited i)" using same_pyD [OF same_repoll q] .
      show "lands I I (fst out) (py (snd (snd out)))"
        using 1(2) 1(1) run r' q' r q
        by (auto split: outcome.splits poll_next.splits sum.splits)
    qed
  qed
  with assms show ?thesis by blast
qed

lemma moves_poll_request:
  assumes run: "\<And>f rt rq. moves I I I (run f rt rq)"
  shows "moves I I I (poll_request ei dv run timeout external)"
proof -
  have m: "moves I I I (poll_messages ei dv run timeout external)"
  proof (rule movesI)
    fix p w r p' w'
    assume i: "I (py w)" and e: "poll_messages ei dv run timeout external (p, w) = (r, (p', w'))"
    show "lands I I r (py w')"
      using e poll_loop_moves [of ei dv run timeout external 0 "(p, w)" "(r, (p', w'))" I] i run
      by (auto simp: poll_messages_def split: option.splits)
  qed
  have pl: "moves I I I (bind_state (polling ei) (\<lambda>result (p, w). if result \<noteq> cloudi_success then (Ok (Some result), (p, w))
      else (Ok None, (p\<lparr>initialization_complete := True\<rparr>, w))))"
    by (intro moves_bind_kept moves_same [OF same_polling]) (auto simp: moves_def)
  have "moves I I I (bind_state (if b then bind_state (polling ei) (\<lambda>result (p, w).
        if result \<noteq> cloudi_success then (Ok (Some result), (p, w)) else (Ok None, (p\<lparr>initialization_complete := True\<rparr>, w)))
      else Pair (Ok None)) (\<lambda>early. case early of
           Some result \<Rightarrow> Pair (Ok result)
         | None \<Rightarrow> bind_state (start_timer timeout) (\<lambda>_. bind_state poll_frame (\<lambda>r. case r of
                 Some status \<Rightarrow> Pair (Ok status)
               | None \<Rightarrow> poll_messages ei dv run timeout external))))" for b
    by (rule moves_bind_kept, rule moves_if [OF pl])
      (auto intro!: moves_bind_kept moves_Pair m moves_same [OF same_start_timer] moves_same [OF same_poll_frame]
        split: option.split)
  from movesD [OF this] show ?thesis
    by (intro movesI) (fastforce simp: poll_request_def split: if_splits)
qed

lemma moves_send_and_poll:
  assumes "\<And>f rt rq. moves I I I (run f rt rq)"
  shows "moves I I I (send_and_poll ei dv run steps)"
  unfolding send_and_poll_def
  by (intro moves_bind_kept moves_if moves_poll_request assms moves_same [OF same_send_message])
    (auto intro: moves_Pair)

lemma moves_waiting_calls:
  assumes "\<And>f rt rq. moves I I I (run f rt rq)"
  shows "moves I I I (cloudi_poll ei dv run timeout)"
    "moves I I I (cloudi_send_async_full ei dv run name info request t prio)"
    "moves I I I (cloudi_send_sync_full ei dv run name info request t prio)"
    "moves I I I (cloudi_mcast_async_full ei dv run name info request t prio)"
    "moves I I I (cloudi_subscribe_count ei dv run pattern)"
    "moves I I I (cloudi_recv_async ei dv run t tid consume)"
  unfolding cloudi_poll_def cloudi_subscribe_count_def cloudi_send_async_full_def cloudi_send_sync_full_def
    cloudi_mcast_async_full_def cloudi_send_impl_def cloudi_recv_async_def
  by (intro moves_poll_request moves_send_and_poll moves_state assms)+

section \<open>The C++ API\<close>

lemma moves_on_api:
  assumes "moves P Q R m"
  shows "moves P Q R (on_api m)"
proof (rule movesI)
  fix a w r a' w'
  assume "P (py w)" "on_api m (a, w) = (r, (a', w'))"
  then show "lands Q R r (py w')"
    by (auto simp: on_api_def split: if_splits prod.splits dest: movesD [OF assms])
qed

lemma moves_API_calls [moves_rules]:
  assumes "\<And>f rt rq. moves I I I (run f rt rq)"
  shows "moves I I I (API_poll ei dv run timeout)"
    "moves I I I (API_send_async_full ei dv run name info request t prio)"
    "moves I I I (API_send_sync_full ei dv run name info request t prio)"
    "moves I I I (API_mcast_async_full ei dv run name info request t prio)"
    "moves I I I (API_subscribe_count ei dv run pattern)"
    "moves I I I (API_recv_async ei dv run t' tid consume)"
  unfolding API_poll_def API_send_async_full_def API_send_sync_full_def API_mcast_async_full_def
    API_subscribe_count_def API_recv_async_def
  by (intro moves_on_api moves_waiting_calls moves_state assms)+

lemma moves_API_sends [moves_rules]:
  "moves I I I (API_forward_async ei dv name info request t prio tid pid)"
  "moves I I I (API_forward_sync ei dv name info request t prio tid pid)"
  "moves I I I (API_return_async ei dv name pattern info resp t tid pid)"
  "moves I I I (API_return_sync ei dv name pattern info resp t tid pid)"
  "moves I I I (API_shutdown ei reason)"
  unfolding API_forward_async_def API_forward_sync_def API_return_async_def API_return_sync_def API_shutdown_def
  by (intro moves_on_api moves_same same_rules)+

lemma moves_API_subscribe [moves_rules]: "moves I I I (API_subscribe ei pattern f)"
proof (rule movesI)
  fix a w r a' w'
  assume "I (py w)" "API_subscribe ei pattern f (a, w) = (r, (a', w'))"
  then show "lands I I r (py w')"
    using movesD [OF moves_on_api [OF moves_same [OF same_subscribe_impl]]]
    by (auto simp: API_subscribe_def split: if_splits)
qed

lemma moves_API_unsubscribe [moves_rules]: "moves I I I (API_unsubscribe ei pattern)"
proof -
  have "moves I I I API_release"
    by (rule movesI) (auto simp: API_release_def split: if_splits)
  then have "moves I I I (bind_state (if b then API_release else Pair (Ok ())) (\<lambda>_. on_api (cloudi_unsubscribe ei pattern)))" for b
    by (intro moves_bind_kept moves_if moves_on_api moves_same [OF same_unsubscribe] moves_Pair) simp_all
  from movesD [OF this] show ?thesis
    by (intro movesI) (fastforce simp: API_unsubscribe_def Let_def split: if_splits outcome.splits)
qed

end
