(* ===== verification/Python_Binding.thy ===== *)
theory Python_Binding
  imports Api_Frame
begin

text \<open>
  The binding of the C++ API for Python (\<^verbatim>\<open>api/python/cloudi_py.cpp\<close>), built for Python 3.3 or later with its
  assertions: an object with the methods of the API, and the callback class that runs a Python function
  for a request. The interpreter is a parameter: what \<open>PyArg_ParseTuple\<close> makes of the arguments of a
  method (\<open>None\<close> when it fails), which bytes decode as UTF-8, and what a Python function does. Its lock,
  the saved thread state and the references that the binding owns are in the state.
\<close>

section \<open>The lock\<close>

text \<open>
  \<open>THREADS_BEGIN\<close> and \<open>THREADS_UNBLOCK\<close> release the lock and save the state of the thread, \<open>THREADS_END\<close> and
  \<open>THREADS_BLOCK\<close> take it again. Releasing a lock that is not held and restoring a null state are fatal
  errors of the interpreter, which aborts.
\<close>

definition threads_release :: "os \<Rightarrow> unit outcome \<times> os" where
  "threads_release w =
     (if py_gil (py w) then (Ok (), w\<lparr>py := (py w)\<lparr>py_gil := False, py_saved := True\<rparr>\<rparr>)
      else (Exited abort_value, w))"

definition threads_acquire :: "os \<Rightarrow> unit outcome \<times> os" where
  "threads_acquire w =
     (if py_saved (py w) \<and> \<not> py_gil (py w) then (Ok (), w\<lparr>py := (py w)\<lparr>py_gil := True, py_saved := False\<rparr>\<rparr>)
      else (Exited abort_value, w))"

definition on_os :: "(os \<Rightarrow> 'a outcome \<times> os) \<Rightarrow> 's \<times> os \<Rightarrow> 'a outcome \<times> 's \<times> os" where
  "on_os f = (\<lambda>(s, w). case f w of (r, w') \<Rightarrow> (r, (s, w')))"

text \<open>
  A call of the API between \<open>THREADS_BEGIN\<close> and \<open>THREADS_END\<close>. An exception that is not caught leaves the
  method without taking the lock.
\<close>

definition allow_threads :: "('s \<times> os \<Rightarrow> 'a outcome \<times> 's \<times> os) \<Rightarrow> 's \<times> os \<Rightarrow> 'a outcome \<times> 's \<times> os" where
  "allow_threads m =
     bind_state (on_os threads_release) (\<lambda>_.
     bind_state m (\<lambda>result.
     bind_state (on_os threads_acquire) (\<lambda>_. Pair (Ok result))))"

text \<open>References to Python functions: taken and given back by callback objects.\<close>

definition py_incref :: "nat \<Rightarrow> os \<Rightarrow> os" where
  "py_incref f w = w\<lparr>py := (py w)\<lparr>py_refs := f # py_refs (py w),
     py_unlocked := (if py_gil (py w) then py_unlocked (py w) else f # py_unlocked (py w))\<rparr>\<rparr>"

definition py_decref :: "nat \<Rightarrow> os \<Rightarrow> os" where
  "py_decref f w = w\<lparr>py := (py w)\<lparr>py_refs := remove1 f (py_refs (py w)),
     py_unlocked := (if py_gil (py w) then py_unlocked (py w) else f # py_unlocked (py w))\<rparr>\<rparr>"

section \<open>Values and exceptions\<close>

datatype py_value =
    Py_None
  | Py_True
  | Py_False
  | Py_int int
  | Py_bytes bytes
  | Py_str bytes
  | Py_tuple "py_value list"

text \<open>
  The exceptions of the module; \<open>Py_unknown\<close> is the message decoding exception with the text
  \<open>unknown (value)\<close>, \<open>Py_interpreter\<close> any exception that the interpreter itself set.
\<close>

datatype py_exception =
    Py_assert
  | Py_invalid_input int
  | Py_message_decoding string
  | Py_unknown int
  | Py_terminate
  | Py_interpreter

datatype py_return = Value py_value | Error py_exception

text \<open>The cases of \<open>python_error\<close>.\<close>

definition python_error_names :: "(cloudi_status \<times> string) list" where
  "python_error_names =
     [(cloudi_timeout, ''timeout''),
      (cloudi_error_function_parameter, ''function_parameter''),
      (cloudi_error_read_underflow, ''read_underflow''),
      (cloudi_error_ei_decode, ''ei_decode''),
      (cloudi_invalid_input, ''cloudi_invalid_input''),
      (cloudi_out_of_memory, ''cloudi_out_of_memory''),
      (cloudi_error_read_EAGAIN, ''read_EAGAIN''),
      (cloudi_error_read_EBADF, ''read_EBADF''),
      (cloudi_error_read_EFAULT, ''read_EFAULT''),
      (cloudi_error_read_EINTR, ''read_EINTR''),
      (cloudi_error_read_EINVAL, ''read_EINVAL''),
      (cloudi_error_read_EIO, ''read_EIO''),
      (cloudi_error_read_EISDIR, ''read_EISDIR''),
      (cloudi_error_read_null, ''read_null''),
      (cloudi_error_read_overflow, ''read_overflow''),
      (cloudi_error_read_unknown, ''read_unknown''),
      (cloudi_error_write_EAGAIN, ''write_EAGAIN''),
      (cloudi_error_write_EBADF, ''write_EBADF''),
      (cloudi_error_write_EFAULT, ''write_EFAULT''),
      (cloudi_error_write_EFBIG, ''write_EFBIG''),
      (cloudi_error_write_EINTR, ''write_EINTR''),
      (cloudi_error_write_EINVAL, ''write_EINVAL''),
      (cloudi_error_write_EIO, ''write_EIO''),
      (cloudi_error_write_ENOSPC, ''write_ENOSPC''),
      (cloudi_error_write_EPIPE, ''write_EPIPE''),
      (cloudi_error_write_null, ''write_null''),
      (cloudi_error_write_overflow, ''write_overflow''),
      (cloudi_error_write_unknown, ''write_unknown''),
      (cloudi_error_ei_encode, ''ei_encode''),
      (cloudi_error_poll_EBADF, ''poll_EBADF''),
      (cloudi_error_poll_EFAULT, ''poll_EFAULT''),
      (cloudi_error_poll_EINTR, ''poll_EINTR''),
      (cloudi_error_poll_EINVAL, ''poll_EINVAL''),
      (cloudi_error_poll_ENOMEM, ''poll_ENOMEM''),
      (cloudi_error_poll_ERR, ''poll_ERR''),
      (cloudi_error_poll_NVAL, ''poll_NVAL''),
      (cloudi_error_poll_unknown, ''poll_unknown'')]"

definition python_error :: "int \<Rightarrow> py_exception" where
  "python_error value =
     (if value = return_value cloudi_terminate then Py_terminate
      else
        (case map_of (map (\<lambda>(s, name). (return_value s, name)) python_error_names) value of
           Some name \<Rightarrow> Py_message_decoding name
         | None \<Rightarrow> Py_unknown value))"

section \<open>Results\<close>

text \<open>
  \<open>Py_BuildValue\<close> with \<open>y#\<close>: a null pointer is \<open>None\<close>; the size is an \<open>int\<close>, a negative one is not defined.
  The pointers show parts of the receive buffer.
\<close>

definition build_bytes :: "cloudi_instance_t \<Rightarrow> nat option \<Rightarrow> u32 \<Rightarrow> py_value outcome" where
  "build_bytes p ptr len =
     (case ptr of
        None \<Rightarrow> Ok Py_None
      | Some a \<Rightarrow>
          if sint len < 0 then Undefined
          else bind_outcome (rp_get a (unat len) (buffer_recv p)) (\<lambda>bs. Ok (Py_bytes bs)))"

text \<open>\<open>PY_ASSERT\<close> on the number of identifiers, and the identifier or the response with it.\<close>

definition build_trans_id :: "cloudi_instance_t \<Rightarrow> py_value outcome" where
  "build_trans_id p = bind_outcome (API_get_trans_id p 0) (\<lambda>t. build_bytes p t 16)"

definition return_trans_id :: "cloudi_instance_t \<Rightarrow> py_return outcome" where
  "return_trans_id p =
     (if trans_id_count p \<noteq> 1 then Ok (Error Py_assert)
      else bind_outcome (build_trans_id p) (\<lambda>t. Ok (Value t)))"

definition return_response :: "cloudi_instance_t \<Rightarrow> py_return outcome" where
  "return_response p =
     (if trans_id_count p \<noteq> 1 then Ok (Error Py_assert)
      else
        bind_outcome (build_bytes p (response_info p) (response_info_size p)) (\<lambda>info.
        bind_outcome (build_bytes p (response p) (response_size p)) (\<lambda>resp.
        bind_outcome (build_trans_id p) (\<lambda>t.
        Ok (Value (Py_tuple [info, resp, t]))))))"

definition return_trans_ids :: "cloudi_instance_t \<Rightarrow> py_return outcome" where
  "return_trans_ids p =
     bind_outcome (API_get_trans_id p 0) (\<lambda>t.
     bind_outcome (build_bytes p t (trans_id_count p * 16)) (\<lambda>v. Ok (Value v)))"

definition return_none :: "cloudi_instance_t \<Rightarrow> py_return outcome" where
  "return_none p = Ok (Value Py_None)"

text \<open>Reading members of the instance, and the end of a method: what the status is returned as.\<close>

definition read_api :: "(cloudi_instance_t \<Rightarrow> 'a outcome) \<Rightarrow> 'a api_call" where
  "read_api f = on_api (\<lambda>(p, w). (f p, (p, w)))"

definition finish_method :: "(cloudi_instance_t \<Rightarrow> py_return outcome) \<Rightarrow> cloudi_status \<Rightarrow> py_return api_call" where
  "finish_method ok result =
     (if result \<noteq> cloudi_success then Pair (Ok (Error (python_error (return_value result)))) else read_api ok)"

text \<open>The methods that return \<open>None\<close> for a timeout.\<close>

definition finish_send :: "(cloudi_instance_t \<Rightarrow> py_return outcome) \<Rightarrow> cloudi_status \<Rightarrow> py_return api_call" where
  "finish_send ok result =
     (if result = cloudi_timeout then Pair (Ok (Value Py_None)) else finish_method ok result)"

section \<open>The object\<close>

text \<open>
  An object has a pointer to an API object, null before \<open>__init__\<close>. Calling a method then dereferences the
  null pointer.
\<close>

type_synonym py_object = "shared_api option \<times> os"

definition python_cloudi_instance_object_new :: "os \<Rightarrow> py_object" where
  "python_cloudi_instance_object_new w = (None, w\<lparr>py := (py w)\<lparr>py_saved := False\<rparr>\<rparr>)"

text \<open>
  \<open>__init__\<close>: \<open>None\<close> is the return value 0, \<open>Some\<close> the exception that is set for -1. An API object made by an
  earlier call is not deleted.
\<close>

definition python_cloudi_instance_object_init :: "ei_encoder \<Rightarrow> (bytes \<Rightarrow> nat option) \<Rightarrow> runner \<Rightarrow> (string \<Rightarrow> bytes option)
    \<Rightarrow> u32 option \<Rightarrow> py_object \<Rightarrow> py_exception option outcome \<times> py_object" where
  "python_cloudi_instance_object_init ei dv run env args = (\<lambda>(object, w).
     case args of
       None \<Rightarrow> (Ok (Some Py_interpreter), (object, w))
     | Some thread_index \<Rightarrow>
         (case API_new ei dv run env thread_index w of
            (Ok _, (a, w')) \<Rightarrow> (Ok None, (Some a, w'\<lparr>py := (py w')\<lparr>py_saved := False\<rparr>\<rparr>))
          | (Raise (invalid_input_exception i), (a, w')) \<Rightarrow> (Ok (Some (Py_invalid_input i)), (object, w'))
          | (Raise e, (a, w')) \<Rightarrow> (Raise e, (object, w'))
          | (Undefined, (a, w')) \<Rightarrow> (Undefined, (object, w'))
          | (Exited i, (a, w')) \<Rightarrow> (Exited i, (object, w'))
          | (Blocked, (a, w')) \<Rightarrow> (Blocked, (object, w'))))"

definition python_cloudi_instance_object_dealloc :: "py_object \<Rightarrow> unit outcome \<times> py_object" where
  "python_cloudi_instance_object_dealloc = (\<lambda>(object, w).
     bind_state
       (case object of
          None \<Rightarrow> Pair (Ok ())
        | Some a \<Rightarrow> (\<lambda>(_, w). case API_destroy (a, w) of (r, (a', w')) \<Rightarrow> (r, (None, w')))) (\<lambda>_.
     (\<lambda>(object, w). if py_saved (py w) then on_os threads_acquire (object, w) else (Ok (), (object, w)))) (object, w))"

definition python_method :: "'a api_call \<Rightarrow> py_object \<Rightarrow> 'a outcome \<times> py_object" where
  "python_method m = (\<lambda>(object, w).
     case object of
       None \<Rightarrow> (Undefined, (object, w))
     | Some a \<Rightarrow> (case m (a, w) of (r, (a', w')) \<Rightarrow> (r, (Some a', w'))))"

section \<open>Methods\<close>

text \<open>
  The arguments of a method are what its format string makes of them, or \<open>None\<close>; an argument behind \<open>|\<close> is
  an option.
\<close>

definition parsed :: "'a option \<Rightarrow> ('a \<Rightarrow> py_return api_call) \<Rightarrow> py_return api_call" where
  "parsed args m = (case args of None \<Rightarrow> Pair (Ok (Error Py_interpreter)) | Some x \<Rightarrow> m x)"

definition given :: "'a option \<Rightarrow> 'a \<Rightarrow> 'a" where
  "given arg value = (case arg of None \<Rightarrow> value | Some x \<Rightarrow> x)"

text \<open>
  Subscribing: the callback object is made, and takes its reference, after the lock was released. Its
  number in the table is the one of its function.
\<close>

definition python_cloudi_subscribe :: "ei_encoder \<Rightarrow> (nat \<Rightarrow> bool) \<Rightarrow> (bytes \<times> nat) option \<Rightarrow> py_return api_call" where
  "python_cloudi_subscribe ei callable args =
     parsed args (\<lambda>(pattern, f).
       if \<not> callable f then Pair (Ok (Error (Py_message_decoding ''subscribe: not_callable'')))
       else
         bind_state (allow_threads (\<lambda>(a, w). API_subscribe ei pattern f (a, py_incref f w)))
           (finish_method return_none))"

definition python_cloudi_subscribe_count :: "ei_encoder \<Rightarrow> (bytes \<Rightarrow> nat option) \<Rightarrow> runner \<Rightarrow> bytes option \<Rightarrow> py_return api_call" where
  "python_cloudi_subscribe_count ei dv run args =
     parsed args (\<lambda>pattern.
       bind_state (allow_threads (API_subscribe_count ei dv run pattern))
         (finish_method (\<lambda>p. Ok (Value (Py_int (uint (subscribe_count p)))))))"

text \<open>
  The functions of the callback objects that \<open>unsubscribe\<close> deletes, with the lock released. This is the call
  outside of a running callback of the pattern, whose object would be deleted at the end of the callback.
\<close>

definition removed_functions :: "shared_api \<Rightarrow> bytes \<Rightarrow> nat list" where
  "removed_functions a pattern =
     (case prefix_string (m_api a) of
        Ok pre \<Rightarrow>
          concat (map (\<lambda>f. case f of callback_function_object n \<Rightarrow> [n] | _ \<Rightarrow> [])
            (take 1 (subscribed (lookup (m_api a)) (pre @ pattern))))
      | _ \<Rightarrow> [])"

definition python_cloudi_unsubscribe :: "ei_encoder \<Rightarrow> bytes option \<Rightarrow> py_return api_call" where
  "python_cloudi_unsubscribe ei args =
     parsed args (\<lambda>pattern.
       bind_state
         (allow_threads (\<lambda>(a, w). API_unsubscribe ei pattern (a, fold py_decref (removed_functions a pattern) w)))
         (finish_method return_none))"

type_synonym send_args = "bytes \<times> bytes \<times> u32 option \<times> bytes option \<times> 8 word option"

definition python_cloudi_send_async :: "ei_encoder \<Rightarrow> (bytes \<Rightarrow> nat option) \<Rightarrow> runner \<Rightarrow> send_args option \<Rightarrow> py_return api_call" where
  "python_cloudi_send_async ei dv run args = (\<lambda>(a, w).
     parsed args (\<lambda>(name, request, timeout, request_info, priority).
       bind_state
         (allow_threads
           (API_send_async_full ei dv run name (given request_info []) request
              (given timeout (timeout_async (m_api a))) (given priority (priority_default (m_api a)))))
         (finish_send return_trans_id)) (a, w))"

definition python_cloudi_send_sync :: "ei_encoder \<Rightarrow> (bytes \<Rightarrow> nat option) \<Rightarrow> runner \<Rightarrow> send_args option \<Rightarrow> py_return api_call" where
  "python_cloudi_send_sync ei dv run args = (\<lambda>(a, w).
     parsed args (\<lambda>(name, request, timeout, request_info, priority).
       bind_state
         (allow_threads
           (API_send_sync_full ei dv run name (given request_info []) request
              (given timeout (timeout_sync (m_api a))) (given priority (priority_default (m_api a)))))
         (finish_send return_response)) (a, w))"

definition python_cloudi_mcast_async :: "ei_encoder \<Rightarrow> (bytes \<Rightarrow> nat option) \<Rightarrow> runner \<Rightarrow> send_args option \<Rightarrow> py_return api_call" where
  "python_cloudi_mcast_async ei dv run args = (\<lambda>(a, w).
     parsed args (\<lambda>(name, request, timeout, request_info, priority).
       bind_state
         (allow_threads
           (API_mcast_async_full ei dv run name (given request_info []) request
              (given timeout (timeout_async (m_api a))) (given priority (priority_default (m_api a)))))
         (finish_send return_trans_ids)) (a, w))"

text \<open>A response or forward that was sent leaves the API by an exception, which the method catches.\<close>

definition catching :: "cxx_exception \<Rightarrow> cloudi_status api_call \<Rightarrow> cloudi_status api_call" where
  "catching e m = (\<lambda>s.
     case m s of
       (Raise e', s') \<Rightarrow> if e' = e then (Ok cloudi_success, s') else (Raise e', s')
     | r \<Rightarrow> r)"

type_synonym forward_args = "bytes \<times> bytes \<times> bytes \<times> u32 \<times> 8 word \<times> bytes \<times> bytes"

definition python_cloudi_forward_async :: "ei_encoder \<Rightarrow> (bytes \<Rightarrow> nat option) \<Rightarrow> forward_args option \<Rightarrow> py_return api_call" where
  "python_cloudi_forward_async ei dv args =
     parsed args (\<lambda>(name, request_info, request, timeout, priority, tid, pid).
       if length tid \<noteq> 16 then Pair (Ok (Error Py_assert))
       else
         bind_state
           (allow_threads (catching forward_async_exception
             (API_forward_async ei dv name request_info request timeout priority tid pid)))
           (finish_method return_none))"

definition python_cloudi_forward_sync :: "ei_encoder \<Rightarrow> (bytes \<Rightarrow> nat option) \<Rightarrow> forward_args option \<Rightarrow> py_return api_call" where
  "python_cloudi_forward_sync ei dv args =
     parsed args (\<lambda>(name, request_info, request, timeout, priority, tid, pid).
       if length tid \<noteq> 16 then Pair (Ok (Error Py_assert))
       else
         bind_state
           (allow_threads (catching forward_sync_exception
             (API_forward_sync ei dv name request_info request timeout priority tid pid)))
           (finish_method return_none))"

type_synonym return_args = "bytes \<times> bytes \<times> bytes \<times> bytes \<times> u32 \<times> bytes \<times> bytes"

definition python_cloudi_return_async :: "ei_encoder \<Rightarrow> (bytes \<Rightarrow> nat option) \<Rightarrow> return_args option \<Rightarrow> py_return api_call" where
  "python_cloudi_return_async ei dv args =
     parsed args (\<lambda>(name, pattern, resp_info, resp, timeout, tid, pid).
       if length tid \<noteq> 16 then Pair (Ok (Error Py_assert))
       else
         bind_state
           (allow_threads (catching return_async_exception
             (API_return_async ei dv name pattern resp_info resp timeout tid pid)))
           (finish_method return_none))"

definition python_cloudi_return_sync :: "ei_encoder \<Rightarrow> (bytes \<Rightarrow> nat option) \<Rightarrow> return_args option \<Rightarrow> py_return api_call" where
  "python_cloudi_return_sync ei dv args =
     parsed args (\<lambda>(name, pattern, resp_info, resp, timeout, tid, pid).
       if length tid \<noteq> 16 then Pair (Ok (Error Py_assert))
       else
         bind_state
           (allow_threads (catching return_sync_exception
             (API_return_sync ei dv name pattern resp_info resp timeout tid pid)))
           (finish_method return_none))"

text \<open>
  \<open>consume\<close> is stored through a pointer to \<open>bool\<close> as a byte (format \<open>b\<close>): any value but 0 and 1 is not one of
  a \<open>bool\<close>.
\<close>

definition python_cloudi_recv_async :: "ei_encoder \<Rightarrow> (bytes \<Rightarrow> nat option) \<Rightarrow> runner
    \<Rightarrow> (u32 option \<times> bytes option \<times> byte option) option \<Rightarrow> py_return api_call" where
  "python_cloudi_recv_async ei dv run args = (\<lambda>(a, w).
     parsed args (\<lambda>(timeout, tid, consume).
       if length (given tid (replicate 16 0)) \<noteq> 16 then Pair (Ok (Error Py_assert))
       else if given consume 1 \<notin> {0, 1} then Pair Undefined
       else
         bind_state
           (allow_threads
             (API_recv_async ei dv run (Some (given timeout (timeout_sync (m_api a))))
                (Some (given tid (replicate 16 0))) (Some (given consume 1 = 1))))
           (finish_send return_response)) (a, w))"

definition python_cloudi_poll :: "ei_encoder \<Rightarrow> (bytes \<Rightarrow> nat option) \<Rightarrow> runner \<Rightarrow> 32 word option \<Rightarrow> py_return api_call" where
  "python_cloudi_poll ei dv run args =
     parsed args (\<lambda>timeout.
       bind_state (allow_threads (API_poll ei dv run (sint timeout))) (\<lambda>result.
         if result = cloudi_timeout then Pair (Ok (Value Py_True))
         else if result \<noteq> cloudi_success then Pair (Ok (Error (python_error (return_value result))))
         else Pair (Ok (Value Py_False))))"

definition python_cloudi_shutdown :: "ei_encoder \<Rightarrow> bytes option option \<Rightarrow> py_return api_call" where
  "python_cloudi_shutdown ei args =
     parsed args (\<lambda>reason.
       bind_state (allow_threads (API_shutdown ei (Some (given reason [])))) (finish_method return_none))"

section \<open>Methods that read a member\<close>

definition python_uint :: "(cloudi_instance_t \<Rightarrow> u32) \<Rightarrow> py_return api_call" where
  "python_uint f = read_api (\<lambda>p. Ok (Value (Py_int (uint (f p)))))"

definition python_cloudi_process_index :: "py_return api_call" where
  "python_cloudi_process_index = python_uint process_index"

definition python_cloudi_process_count :: "py_return api_call" where
  "python_cloudi_process_count = python_uint process_count"

definition python_cloudi_process_count_max :: "py_return api_call" where
  "python_cloudi_process_count_max = python_uint process_count_max"

definition python_cloudi_process_count_min :: "py_return api_call" where
  "python_cloudi_process_count_min = python_uint process_count_min"

definition python_cloudi_timeout_initialize :: "py_return api_call" where
  "python_cloudi_timeout_initialize = python_uint timeout_initialize"

definition python_cloudi_timeout_async :: "py_return api_call" where
  "python_cloudi_timeout_async = python_uint timeout_async"

definition python_cloudi_timeout_sync :: "py_return api_call" where
  "python_cloudi_timeout_sync = python_uint timeout_sync"

definition python_cloudi_timeout_terminate :: "py_return api_call" where
  "python_cloudi_timeout_terminate = python_uint timeout_terminate"

text \<open>\<open>Py_BuildValue\<close> with \<open>s\<close>: a null pointer is \<open>None\<close>, and the bytes have to be UTF-8.\<close>

definition python_cloudi_prefix :: "(bytes \<Rightarrow> bool) \<Rightarrow> py_return api_call" where
  "python_cloudi_prefix utf8 = read_api (\<lambda>p.
     if prefix p = None then Ok (Value Py_None)
     else
       bind_outcome (prefix_string p) (\<lambda>s.
         if utf8 s then Ok (Value (Py_str s)) else Ok (Error Py_interpreter)))"

section \<open>The callback class\<close>

text \<open>
  What a call of the Python function gives: no object, with the name of the type of the exception that
  is set, if any; a tuple of two, with what \<open>PyArg_ParseTuple\<close> makes of it; an object of type \<open>bytes\<close>; a
  string, with its UTF-8 encoding unless it has none; or another object. The flags say whether the
  buffer still has an owner after the binding has given its reference to the result back.
\<close>

datatype py_result =
    Raised "string option"
  | Tuple2 "((bytes \<times> bool) \<times> (bytes \<times> bool)) option"
  | Bytes "bytes \<times> bool"
  | Unicode "(bytes \<times> bool) option"
  | Other_object

type_synonym py_function = "py_value list \<Rightarrow> py_result call"

definition callback_args :: "(bytes \<Rightarrow> bool) \<Rightarrow> int \<Rightarrow> request \<Rightarrow> cloudi_instance_t \<Rightarrow> py_value list option outcome" where
  "callback_args utf8 request_type rq p =
     (let buf = buffer_call p
      in bind_outcome (rp_cstr (rq_name rq) buf) (\<lambda>name.
         bind_outcome (rp_cstr (rq_pattern rq) buf) (\<lambda>pattern.
         bind_outcome (rp_get (rq_request_info rq) (unat (rq_request_info_size rq)) buf) (\<lambda>request_info.
         bind_outcome (rp_get (rq_request rq) (unat (rq_request_size rq)) buf) (\<lambda>request.
         bind_outcome (rp_get (rq_trans_id rq) 16 buf) (\<lambda>tid.
         bind_outcome (rp_get (rq_pid rq) (unat (rq_pid_size rq)) buf) (\<lambda>pid.
         if utf8 name \<and> utf8 pattern then
           Ok (Some [Py_int request_type, Py_str name, Py_str pattern, Py_bytes request_info, Py_bytes request,
             Py_int (uint (rq_timeout rq)), Py_int (sint (rq_priority rq)), Py_bytes tid, Py_bytes pid])
         else Ok None)))))))"

text \<open>The exception that the name of a Python exception stands for, in the code's order.\<close>

definition callback_exception :: "string \<Rightarrow> cxx_exception" where
  "callback_exception name =
     (if name = ''ReturnAsyncException'' then return_async_exception
      else if name = ''ReturnSyncException'' then return_sync_exception
      else if name = ''ForwardAsyncException'' then forward_async_exception
      else if name = ''ForwardSyncException'' then forward_sync_exception
      else assert_exception)"

definition exception_valid :: "int \<Rightarrow> string \<Rightarrow> bool" where
  "exception_valid request_type name \<longleftrightarrow>
     request_type = CLOUDI_SYNC \<and> name = ''ReturnSyncException''
     \<or> request_type = CLOUDI_SYNC \<and> name = ''ForwardSyncException''
     \<or> request_type = CLOUDI_ASYNC \<and> name = ''ReturnAsyncException''
     \<or> request_type = CLOUDI_ASYNC \<and> name = ''ForwardAsyncException''"

text \<open>
  The check of a size, as it is written: \<open>static_cast<uint32_t>(size)\<close> is compared with the largest
  \<open>uint32_t\<close>. Then the size is truncated.
\<close>

definition size_invalid :: "nat \<Rightarrow> bool" where
  "size_invalid n \<longleftrightarrow> int n < 0 \<or> (word_of_nat n :: u32) > - 1"

definition response_parts :: "py_result \<Rightarrow> ((bytes \<times> bool) \<times> (bytes \<times> bool)) option" where
  "response_parts result =
     (case result of
        Tuple2 (Some (info, resp)) \<Rightarrow>
          if size_invalid (length (fst info)) \<or> size_invalid (length (fst resp)) then None else Some (info, resp)
      | Bytes resp \<Rightarrow> if size_invalid (length (fst resp)) then None else Some (([], True), resp)
      | Unicode (Some resp) \<Rightarrow> if size_invalid (length (fst resp)) then None else Some (([], True), resp)
      | _ \<Rightarrow> None)"

text \<open>Reading through the pointer to a buffer, after the reference to the result was given back.\<close>

definition response_bytes :: "bytes \<times> bool \<Rightarrow> bytes outcome" where
  "response_bytes part =
     (let n = unat (word_of_nat (length (fst part)) :: u32)
      in if n = 0 \<or> snd part then Ok (take n (fst part)) else Undefined)"

text \<open>The status of a response that could not be sent is ignored.\<close>

definition callback_return :: "ei_encoder \<Rightarrow> (bytes \<Rightarrow> nat option) \<Rightarrow> int \<Rightarrow> bytes \<Rightarrow> bytes \<Rightarrow> bytes \<Rightarrow> bytes
    \<Rightarrow> u32 \<Rightarrow> bytes \<Rightarrow> bytes \<Rightarrow> unit call" where
  "callback_return ei dv request_type name pattern resp_info resp timeout tid pid =
     bind_state
       (if request_type = CLOUDI_ASYNC then cloudi_return_async ei dv name pattern resp_info resp timeout tid pid
        else if request_type = CLOUDI_SYNC then cloudi_return_sync ei dv name pattern resp_info resp timeout tid pid
        else Pair (Ok cloudi_success)) (\<lambda>_. Pair (Ok ()))"

definition callback_respond :: "ei_encoder \<Rightarrow> (bytes \<Rightarrow> nat option) \<Rightarrow> nat \<Rightarrow> int \<Rightarrow> request
    \<Rightarrow> ((bytes \<times> bool) \<times> (bytes \<times> bool)) \<Rightarrow> unit call" where
  "callback_respond ei dv alloc request_type rq parts = (\<lambda>(p, w).
     let buf = buffer_call p
     in if m_alloc buf \<noteq> alloc then (Undefined, (p, w))
        else
          (case bind_outcome (rp_cstr (rq_name rq) buf) (\<lambda>name.
                bind_outcome (rp_cstr (rq_pattern rq) buf) (\<lambda>pattern.
                bind_outcome (rp_get (rq_trans_id rq) 16 buf) (\<lambda>tid.
                bind_outcome (rp_get (rq_pid rq) (unat (rq_pid_size rq)) buf) (\<lambda>pid.
                bind_outcome (response_bytes (fst parts)) (\<lambda>info.
                bind_outcome (response_bytes (snd parts)) (\<lambda>resp.
                Ok (name, pattern, tid, pid, info, resp))))))) of
             Ok (name, pattern, tid, pid, info, resp) \<Rightarrow>
               callback_return ei dv request_type name pattern info resp (rq_timeout rq) tid pid (p, w)
           | _ \<Rightarrow> (Undefined, (p, w))))"

definition callback_result :: "ei_encoder \<Rightarrow> (bytes \<Rightarrow> nat option) \<Rightarrow> nat \<Rightarrow> int \<Rightarrow> request \<Rightarrow> py_result \<Rightarrow> unit call" where
  "callback_result ei dv alloc request_type rq result =
     bind_state (on_os threads_release) (\<lambda>_.
       case result of
         Raised None \<Rightarrow> Pair (Ok ())
       | Raised (Some name) \<Rightarrow>
           if \<not> exception_valid request_type name then Pair (Ok ())
           else Pair (Raise (callback_exception name))
       | _ \<Rightarrow>
           (case response_parts result of
              None \<Rightarrow> Pair (Ok ())
            | Some parts \<Rightarrow> callback_respond ei dv alloc request_type rq parts))"

text \<open>\<open>operator ()\<close>.\<close>

definition python_callback :: "ei_encoder \<Rightarrow> (bytes \<Rightarrow> nat option) \<Rightarrow> (bytes \<Rightarrow> bool) \<Rightarrow> py_function \<Rightarrow> int \<Rightarrow> request
    \<Rightarrow> unit call" where
  "python_callback ei dv utf8 function request_type rq =
     bind_state (on_os threads_acquire) (\<lambda>_ (p, w).
       case callback_args utf8 request_type rq p of
         Ok None \<Rightarrow> on_os threads_release (p, w)
       | Ok (Some args) \<Rightarrow>
           bind_state (function args) (callback_result ei dv (m_alloc (buffer_call p)) request_type rq) (p, w)
       | _ \<Rightarrow> (Undefined, (p, w)))"

text \<open>The callbacks of a Python program: every one is an object of this class.\<close>

definition python_run :: "ei_encoder \<Rightarrow> (bytes \<Rightarrow> nat option) \<Rightarrow> (bytes \<Rightarrow> bool) \<Rightarrow> (nat \<Rightarrow> py_function) \<Rightarrow> runner" where
  "python_run ei dv utf8 functions f request_type rq =
     (case f of
        callback_function_object n \<Rightarrow> python_callback ei dv utf8 (functions n) request_type rq
      | _ \<Rightarrow> Pair Undefined)"

end
