(* ===== verification/Python_Correct.thy ===== *)
theory Python_Correct
  imports Python_Binding
begin

text \<open>
  What the binding for Python guarantees: the interpreter lock is held exactly while Python code may run,
  a request is answered by the value of the Python function, and every status of the API is an exception
  of its own; and where it fails: the value of a function may be read after it was freed, and its size
  is truncated.
\<close>

section \<open>The interpreter lock\<close>

text \<open>A thread that runs Python code, and one that runs code of the API.\<close>

definition in_python :: "interpreter \<Rightarrow> bool" where
  "in_python q \<longleftrightarrow> py_gil q \<and> \<not> py_saved q"

definition in_c :: "interpreter \<Rightarrow> bool" where
  "in_c q \<longleftrightarrow> \<not> py_gil q \<and> py_saved q"

lemma moves_release: "moves in_python in_c R (on_os threads_release)"
  by (auto simp: moves_def on_os_def threads_release_def in_python_def in_c_def)

lemma moves_acquire: "moves in_c in_python R (on_os threads_acquire)"
  by (auto simp: moves_def on_os_def threads_acquire_def in_python_def in_c_def)

lemma moves_allow_threads: "moves in_c in_c in_c m \<Longrightarrow> moves in_python in_python in_c (allow_threads m)"
  unfolding allow_threads_def
  by (intro moves_bind [OF moves_release] moves_bind [of in_c in_c] moves_bind [OF moves_acquire] moves_Pair) simp_all

text \<open>The contract of a Python function; every method meets it.\<close>

definition respects_lock :: "py_function \<Rightarrow> bool" where
  "respects_lock f \<longleftrightarrow> (\<forall>args. moves in_python in_python in_c (f args))"

lemma moves_callback_result:
  "moves in_python in_c in_c (callback_result ei dv alloc rt rq result)"
proof -
  have "same_py (callback_respond ei dv alloc rt rq parts)" for parts
  proof -
    have k: "same_py (callback_return ei dv rt name pattern info resp t tid pid)" for name pattern info resp t tid pid
      unfolding callback_return_def by (intro same_rules) simp_all
    show ?thesis
      by (intro same_pyI) (auto simp: callback_respond_def Let_def dest: same_pyD [OF k] split: if_splits outcome.splits)
  qed
  then show ?thesis
    unfolding callback_result_def
    by (intro moves_bind [OF moves_release])
      (auto intro: moves_Pair moves_same split: py_result.split option.split)
qed

lemma moves_python_callback:
  assumes "respects_lock function"
  shows "moves in_c in_c in_c (python_callback ei dv utf8 function rt rq)"
proof -
  have f: "moves in_python in_c in_c (bind_state (function args) (callback_result ei dv alloc rt rq))" for args alloc
    using assms by (intro moves_bind [of in_python in_python] moves_callback_result) (simp add: respects_lock_def)
  have r: "moves in_python in_c in_c (on_os threads_release)" for s :: "cloudi_instance_t \<times> os"
    by (rule moves_release)
  show ?thesis
    unfolding python_callback_def
  proof (intro moves_bind [OF moves_acquire] movesI, goal_cases)
    case (1 u p w r p' w')
    then show ?case
      using movesD [OF f 1(1)] movesD [OF moves_release 1(1)]
      by (auto split: outcome.splits option.splits)
  qed
qed

lemma moves_python_run:
  assumes "\<And>n. respects_lock (functions n)"
  shows "moves in_c in_c in_c (python_run ei dv utf8 functions f rt rq)"
  unfolding python_run_def using assms
  by (auto intro: moves_python_callback moves_Pair split: callback_function.split)

lemma moves_catching: "moves P Q Q m \<Longrightarrow> moves P Q Q (catching e m)"
proof (rule movesI)
  fix a w r a' w'
  assume m: "moves P Q Q m" and p: "P (py w)" and c: "catching e m (a, w) = (r, (a', w'))"
  obtain x a1 w1 where x: "m (a, w) = (x, (a1, w1))" by (metis prod.collapse)
  from movesD [OF m p x] c x show "lands Q Q r (py w')"
    by (cases x) (auto simp: catching_def split: if_splits)
qed

text \<open>Values that are read, or not defined.\<close>

definition plain :: "'a outcome \<Rightarrow> bool" where
  "plain x \<longleftrightarrow> (\<forall>e. x \<noteq> Raise e) \<and> (\<forall>i. x \<noteq> Exited i)"

lemma plain_Ok [simp]: "plain (Ok x)" "plain Undefined"
  by (simp_all add: plain_def)

lemma plain_bind: "plain m \<Longrightarrow> (\<And>x. plain (f x)) \<Longrightarrow> plain (bind_outcome m f)"
  by (cases m) (auto simp: plain_def)

lemma plain_get: "plain (rp_get a n buf)"
  by (auto simp: plain_def rp_get_def split: if_splits option.splits)

lemma plain_build_bytes: "plain (build_bytes p ptr len)"
  unfolding build_bytes_def by (auto intro!: plain_bind plain_get split: option.split)

lemma plain_get_trans_id: "plain (API_get_trans_id p i)"
  by (auto simp: API_get_trans_id_def split: option.split)

lemma plain_results: "plain (return_trans_id p)" "plain (return_response p)" "plain (return_trans_ids p)" "plain (return_none p)"
  unfolding return_trans_id_def return_response_def return_trans_ids_def return_none_def build_trans_id_def
  by (auto intro!: plain_bind plain_build_bytes plain_get_trans_id)

lemma moves_read_api:
  assumes "\<And>p. plain (f p)"
  shows "moves in_python in_python in_c (read_api f)"
proof (rule movesI)
  fix a w r a' w'
  assume "in_python (py w)" "read_api f (a, w) = (r, (a', w'))"
  then show "lands in_python in_c r (py w')"
    using assms by (cases r) (auto simp: read_api_def on_api_def plain_def split: if_splits)
qed

lemma moves_finish:
  assumes "\<And>p. plain (ok p)"
  shows "moves in_python in_python in_c (finish_method ok result)" "moves in_python in_python in_c (finish_send ok result)"
  unfolding finish_method_def finish_send_def using moves_read_api [OF assms] by (auto intro: moves_Pair)

lemma moves_parsed: "(\<And>x. moves P Q R (m x)) \<Longrightarrow> (\<And>q. P q \<Longrightarrow> Q q) \<Longrightarrow> moves P Q R (parsed args m)"
  unfolding parsed_def by (auto intro: moves_Pair split: option.split)

text \<open>A method: the arguments, a call of the API with the lock released, and the result.\<close>

lemma moves_method:
  assumes "moves in_c in_c in_c m" "\<And>r. moves in_python in_python in_c (k r)"
  shows "moves in_python in_python in_c (bind_state (allow_threads m) k)"
  using moves_bind [OF moves_allow_threads [OF assms(1)]] assms(2) .

lemma in_c_refs [simp]: "in_c (py (py_incref f w)) = in_c (py w)" "in_c (py (py_decref f w)) = in_c (py w)"
  "in_c (py (fold py_decref fs w)) = in_c (py w)"
proof -
  show d: "in_c (py (py_decref f w)) = in_c (py w)" for f w by (simp add: in_c_def py_decref_def)
  show "in_c (py (fold py_decref fs w)) = in_c (py w)" by (induction fs arbitrary: w) (simp_all add: d)
qed (simp add: in_c_def py_incref_def)

lemma moves_subscribing:
  "moves in_c in_c in_c (\<lambda>(a, w). API_subscribe ei pattern f (a, py_incref f w))"
  "moves in_c in_c in_c (\<lambda>(a, w). API_unsubscribe ei pattern (a, fold py_decref (removed_functions a pattern) w))"
  using movesD [OF moves_API_subscribe] movesD [OF moves_API_unsubscribe]
  by (auto intro!: movesI) (metis in_c_refs)+

lemmas method_rules = moves_parsed moves_method moves_finish moves_catching moves_API_calls moves_API_sends
  moves_subscribing moves_if moves_Pair plain_results

lemma moves_sending_methods:
  assumes run: "\<And>f rt rq. moves in_c in_c in_c (run f rt rq)"
  shows "moves in_python in_python in_c (python_cloudi_send_async ei dv run args)"
    "moves in_python in_python in_c (python_cloudi_send_sync ei dv run args)"
    "moves in_python in_python in_c (python_cloudi_mcast_async ei dv run args)"
    "moves in_python in_python in_c (python_cloudi_recv_async ei dv run rargs)"
    "moves in_python in_python in_c (python_cloudi_subscribe_count ei dv run sargs)"
    "moves in_python in_python in_c (python_cloudi_poll ei dv run pargs)"
  unfolding python_cloudi_send_async_def python_cloudi_send_sync_def python_cloudi_mcast_async_def
    python_cloudi_recv_async_def python_cloudi_subscribe_count_def python_cloudi_poll_def
  by (auto intro!: moves_state method_rules run split: prod.split)

lemma moves_answering_methods:
  "moves in_python in_python in_c (python_cloudi_forward_async ei dv fargs)"
  "moves in_python in_python in_c (python_cloudi_forward_sync ei dv fargs)"
  "moves in_python in_python in_c (python_cloudi_return_async ei dv rargs)"
  "moves in_python in_python in_c (python_cloudi_return_sync ei dv rargs)"
  "moves in_python in_python in_c (python_cloudi_shutdown ei sargs)"
  "moves in_python in_python in_c (python_cloudi_subscribe ei callable cargs)"
  "moves in_python in_python in_c (python_cloudi_unsubscribe ei uargs)"
  unfolding python_cloudi_forward_async_def python_cloudi_forward_sync_def python_cloudi_return_async_def
    python_cloudi_return_sync_def python_cloudi_shutdown_def python_cloudi_subscribe_def python_cloudi_unsubscribe_def
  by (auto intro!: method_rules split: prod.split)

text \<open>
  C11: The lock is held exactly while Python code may run: if the subscribed Python functions return with the
  lock held, as they got it, every method called with it releases it for the call of the API, which may
  run those functions again and again, and returns with it; no fatal error of the interpreter happens
  on the way, and only a C++ exception that the binding does not catch leaves the lock released. This
  is the contract that the functions were assumed to meet, so functions may call the methods.
\<close>

theorem python_methods_keep_lock:
  assumes "\<forall>n. respects_lock (functions n)" and "run = python_run ei dv utf8 functions"
  shows "moves in_python in_python in_c (python_cloudi_poll ei dv run timeout)
    \<and> moves in_python in_python in_c (python_cloudi_send_sync ei dv run args)
    \<and> moves in_python in_python in_c (python_cloudi_send_async ei dv run args)
    \<and> moves in_python in_python in_c (python_cloudi_mcast_async ei dv run args)
    \<and> moves in_python in_python in_c (python_cloudi_recv_async ei dv run recv_args)
    \<and> moves in_python in_python in_c (python_cloudi_subscribe_count ei dv run pattern)
    \<and> moves in_python in_python in_c (python_cloudi_subscribe ei callable subscribe_args)
    \<and> moves in_python in_python in_c (python_cloudi_unsubscribe ei pattern)
    \<and> moves in_python in_python in_c (python_cloudi_forward_async ei dv forward_args)
    \<and> moves in_python in_python in_c (python_cloudi_forward_sync ei dv forward_args)
    \<and> moves in_python in_python in_c (python_cloudi_return_async ei dv return_args)
    \<and> moves in_python in_python in_c (python_cloudi_return_sync ei dv return_args)
    \<and> moves in_python in_python in_c (python_cloudi_shutdown ei reason)"
proof -
  have run: "moves in_c in_c in_c (run f rt rq)" for f rt rq
    using moves_python_run assms by blast
  show ?thesis by (intro conjI moves_sending_methods moves_answering_methods run)
qed

text \<open>A thread in Python code, and a function whose value is no response.\<close>

definition python_idle :: os where
  "python_idle = io_idle\<lparr>py := \<lparr>py_gil = True, py_saved = False, py_refs = [], py_unlocked = []\<rparr>\<rparr>"

definition no_response :: "nat \<Rightarrow> py_function" where
  "no_response n args s = (Ok Other_object, s)"

lemma python_idle_py [simp]: "in_python (py python_idle)" "py_refs (py python_idle) = []" "py_unlocked (py python_idle) = []"
  by (simp_all add: python_idle_def in_python_def)

lemma no_response_lock: "respects_lock (no_response n)"
  by (auto simp: respects_lock_def no_response_def moves_def)

theorem python_methods_keep_lock_witness:
  "\<exists>a' w'. python_cloudi_poll ei_format ei_version_format (python_run ei_format ei_version_format (\<lambda>_. True) no_response) (Some 5)
      (new_api\<lparr>m_api := sample_instance\<lparr>terminate := True\<rparr>\<rparr>, python_idle) = (Ok (Value Py_False), (a', w'))
    \<and> in_python (py w')"
proof -
  let ?run = "python_run ei_format ei_version_format (\<lambda>_. True) no_response"
  let ?a = "new_api\<lparr>m_api := sample_instance\<lparr>terminate := True\<rparr>\<rparr>"
  have m: "moves in_python in_python in_c (python_cloudi_poll ei_format ei_version_format ?run (Some 5))"
    using python_methods_keep_lock [of no_response ?run ei_format ei_version_format "\<lambda>_. True" "Some 5"] no_response_lock by blast
  obtain a' w' where r: "python_cloudi_poll ei_format ei_version_format ?run (Some 5) (?a, python_idle) = (Ok (Value Py_False), (a', w'))"
    by (simp add: python_cloudi_poll_def parsed_def allow_threads_def bind_state_def on_os_def threads_release_def
      threads_acquire_def API_poll_def on_api_def cloudi_poll_def poll_request_def python_idle_def new_api_def)
  with movesD [OF m _ r] show ?thesis by auto
qed

section \<open>The value of a function answers its request\<close>

definition acquired :: "os \<Rightarrow> os" where
  "acquired w = w\<lparr>py := (py w)\<lparr>py_gil := True, py_saved := False\<rparr>\<rparr>"

definition released :: "os \<Rightarrow> os" where
  "released w = w\<lparr>py := (py w)\<lparr>py_gil := False, py_saved := True\<rparr>\<rparr>"

lemma lock_steps:
  "in_c (py w) \<Longrightarrow> on_os threads_acquire (s, w) = (Ok (), (s, acquired w))"
  "in_python (py w) \<Longrightarrow> on_os threads_release (s, w) = (Ok (), (s, released w))"
  by (simp_all add: on_os_def threads_acquire_def threads_release_def in_c_def in_python_def acquired_def released_def)

lemma allow_threads_runs:
  assumes "in_python (py w)" and "m (s, released w) = (Ok r, (s', w1))" and "in_c (py w1)"
  shows "allow_threads m (s, w) = (Ok r, (s', acquired w1))"
  using assms lock_steps(1) [of w1 s'] lock_steps(2) [of w s] by (simp add: allow_threads_def bind_state_def)

lemma in_c_released [simp]: "in_c (py (released w))"
  by (simp add: in_c_def released_def)

lemma python_callback_value:
  assumes "in_c (py w)" and "callback_args utf8 rt rq p = Ok (Some args)"
    and "fn args (p, acquired w) = (Ok result, (p1, w1))" and "in_python (py w1)"
    and "\<forall>e. result \<noteq> Raised e"
  shows "python_callback ei dv utf8 fn rt rq (p, w)
    = (case response_parts result of
         None \<Rightarrow> (Ok (), (p1, released w1))
       | Some parts \<Rightarrow> callback_respond ei dv (m_alloc (buffer_call p)) rt rq parts (p1, released w1))"
  using assms
  by (cases result) (auto simp: python_callback_def callback_result_def lock_steps split: option.split)

lemma size_never_invalid: "\<not> size_invalid n"
  by (simp add: size_invalid_def word_not_simps)

lemma response_bytes_short: "length bs < 2 ^ 32 \<Longrightarrow> response_bytes (bs, True) = Ok bs"
  by (simp add: response_bytes_def Let_def unsigned_of_nat take_bit_nat_eq_self)

text \<open>The results that are a response.\<close>

inductive responds :: "py_result \<Rightarrow> bytes \<times> bool \<Rightarrow> bytes \<times> bool \<Rightarrow> bool" where
  "responds (Bytes resp) ([], True) resp"
| "responds (Unicode (Some resp)) ([], True) resp"
| "responds (Tuple2 (Some (info, resp))) info resp"

lemma responds_parts: "responds result info resp \<Longrightarrow> response_parts result = Some (info, resp) \<and> (\<forall>e. result \<noteq> Raised e)"
  by (induction rule: responds.induct) (simp_all add: response_parts_def size_never_invalid)

lemma python_value_spec:
  assumes "(command, rt, own) \<in> {(MESSAGE_SEND_ASYNC, CLOUDI_ASYNC, return_async_exception),
      (MESSAGE_SEND_SYNC, CLOUDI_SYNC, return_sync_exception)}"
    and "rp_cstr (rq_pattern rq) (buffer_call p) = Ok pattern"
    and "lookup_find pattern (lookup p) = Ok (callback_function_object n, t)"
    and "in_c (py w)" and "callback_args utf8 rt rq (p\<lparr>lookup := t\<rparr>) = Ok (Some args)"
    and "functions n args (p\<lparr>lookup := t\<rparr>, acquired w) = (Ok result, (p1, w1))" and "in_python (py w1)"
    and "responds result (info, True) (resp, True)" and "length info < 2 ^ 32" and "length resp < 2 ^ 32"
    and "m_alloc (buffer_call p1) = m_alloc (buffer_call p)" and "shown rq (buffer_call p1) name pattern1 tid pid"
    and "cloudi_return ei dv rt name pattern1 info resp (rq_timeout rq) tid pid (p1, released w1) = (Raise own, s')"
  shows "callback ei dv (python_run ei dv utf8 functions) command rq (p, w) = (Ok (), s')"
proof -
  let ?p = "p\<lparr>lookup := t\<rparr>"
  have parts: "response_parts result = Some ((info, True), (resp, True))" "\<forall>e. result \<noteq> Raised e"
    using responds_parts [OF assms(8)] by auto
  have "python_callback ei dv utf8 (functions n) rt rq (?p, w)
      = callback_respond ei dv (m_alloc (buffer_call ?p)) rt rq ((info, True), (resp, True)) (p1, released w1)"
    using python_callback_value [where fn = "functions n", OF assms(4-7) parts(2)] parts(1) by simp
  also have "\<dots> = callback_return ei dv rt name pattern1 info resp (rq_timeout rq) tid pid (p1, released w1)"
    using assms(9-12) by (simp add: callback_respond_def Let_def shown_def response_bytes_short)
  also have "\<dots> = (Raise own, s')"
    using assms(1,13)
    by (auto simp: callback_return_def cloudi_return_def cloudi_return_async_def cloudi_return_sync_def
      CLOUDI_ASYNC_def CLOUDI_SYNC_def)
  finally have "call_function (python_run ei dv utf8 functions) (callback_function_object n) rt rq (?p, w) = (Raise own, s')"
    by (simp add: call_function_def python_run_def)
  with assms(1-3) show ?thesis
    by (auto simp: callback_def callback_branch_def Let_def message_defs)
qed

text \<open>
  C10: The value of a Python function answers its request: when \<open>callback\<close> dispatches a request to a subscribed
  Python function, the function gets the nine arguments of the request, and if it returns bytes, a
  string or a pair of bytes whose buffers stay alive, \<open>cloudi_return\<close> of the request's own type sends
  that response with the names and identifiers of the request, and once it was sent \<open>callback\<close> returns in
  that state: nothing more is sent.
\<close>

theorem python_value_answers:
  assumes "(command, rt, own) \<in> {(MESSAGE_SEND_ASYNC, CLOUDI_ASYNC, return_async_exception),
      (MESSAGE_SEND_SYNC, CLOUDI_SYNC, return_sync_exception)}"
    and "rp_cstr (rq_pattern rq) (buffer_call p) = Ok pattern"
    and "lookup_find pattern (lookup p) = Ok (callback_function_object n, t)"
    and "in_c (py w)" and "callback_args utf8 rt rq (p\<lparr>lookup := t\<rparr>) = Ok (Some args)"
    and "functions n args (p\<lparr>lookup := t\<rparr>, acquired w) = (Ok result, (p1, w1))" and "in_python (py w1)"
    and "responds result (info, True) (resp, True)" and "length info < 2 ^ 32" and "length resp < 2 ^ 32"
    and "m_alloc (buffer_call p1) = m_alloc (buffer_call p)" and "shown rq (buffer_call p1) name pattern1 tid pid"
    and "cloudi_return ei dv rt name pattern1 info resp (rq_timeout rq) tid pid (p1, released w1) = (Raise own, s')"
  shows "callback ei dv (python_run ei dv utf8 functions) command rq (p, w) = (Ok (), s')"
  using assms by (rule python_value_spec)

text \<open>A request for the subscribed function 7, which returns the byte 9.\<close>

definition python_call_bytes :: bytes where
  "python_call_bytes = [47] @ [0] @ replicate 16 1 @ [131, 97, 1]"

definition python_instance :: cloudi_instance_t where
  "python_instance = sample_instance\<lparr>lookup := [[47] \<mapsto> queue_new (callback_function_object 7)],
     buffer_call := recv_buffer python_call_bytes\<rparr>"

definition python_request :: request where
  "python_request = \<lparr>rq_name = 0, rq_pattern = 0, rq_request_info = 0, rq_request_info_size = 0, rq_request = 0,
     rq_request_size = 1, rq_timeout = 5, rq_priority = 0, rq_trans_id = 2, rq_pid = 18, rq_pid_size = 3\<rparr>"

definition python_nine :: "bool \<Rightarrow> nat \<Rightarrow> py_function" where
  "python_nine alive n args s = (Ok (Bytes ([9], alive)), s)"

definition python_args :: "py_value list" where
  "python_args = [Py_int (-1), Py_str [47], Py_str [47], Py_bytes [], Py_bytes [47], Py_int 5, Py_int 0,
     Py_bytes (replicate 16 1), Py_bytes [131, 97, 1]]"

lemma python_shown: "shown python_request (recv_buffer python_call_bytes) [47] [47] (replicate 16 1) [131, 97, 1]"
proof -
  have h: "holds (recv_buffer python_call_bytes) 0 python_call_bytes"
    by (rule recv_buffer_holds) (simp add: python_call_bytes_def)
  then have "holds (recv_buffer python_call_bytes) 0 ([47] @ [0])" "holds (recv_buffer python_call_bytes) 2 (replicate 16 1)"
      "holds (recv_buffer python_call_bytes) 18 [131, 97, 1]"
    using holds_append [of _ 0 "[47] @ [0]" "replicate 16 1 @ [131, 97, 1]"]
      holds_append [of _ 2 "replicate 16 1" "[131, 97, 1]"]
    by (simp_all add: python_call_bytes_def flip: numeral_2_eq_2)
  then show ?thesis
    using cstr_holds [of _ 0 "[47]"] holds_get [of _ 2 "replicate 16 1"] holds_get [of _ 18 "[131, 97, 1]"]
    by (simp add: shown_def python_request_def flip: numeral_3_eq_3)
qed

lemma python_callback_args:
  assumes "buffer_call p = recv_buffer python_call_bytes"
  shows "callback_args (\<lambda>_. True) CLOUDI_SYNC python_request p = Ok (Some python_args)"
proof -
  have "holds (recv_buffer python_call_bytes) 0 python_call_bytes"
    by (rule recv_buffer_holds) (simp add: python_call_bytes_def)
  then have "holds (recv_buffer python_call_bytes) 0 [47]" "holds (recv_buffer python_call_bytes) 0 []"
    using holds_append [of "recv_buffer python_call_bytes" 0 "[47]" "[0] @ replicate 16 1 @ [131, 97, 1]"]
      holds_append [of "recv_buffer python_call_bytes" 0 "[]" python_call_bytes]
    by (metis append_Cons append_Nil python_call_bytes_def)+
  then have "rp_get 0 1 (recv_buffer python_call_bytes) = Ok [47]" "rp_get 0 0 (recv_buffer python_call_bytes) = Ok []"
    using holds_get [of _ 0 "[47]"] holds_get [of _ 0 "[]"] by simp_all
  with python_shown assms show ?thesis
    by (simp add: callback_args_def shown_def python_request_def python_args_def CLOUDI_SYNC_def)
qed

lemma python_return_sent:
  assumes "wr w = [Wr_count 999]" and "allocs w = []"
  shows "\<exists>s'. cloudi_return ei_format ei_version_format CLOUDI_SYNC [47] [47] [] [9] 5 (replicate 16 1) [131, 97, 1]
    (python_instance\<lparr>lookup := t\<rparr>, w) = (Raise return_sync_exception, s')"
proof -
  let ?p = "python_instance\<lparr>lookup := t\<rparr>"
  let ?st = "return_steps ''return_sync'' [47] [47] [] [9] 5 (replicate 16 1)
      @ [Copy_pid (ei_version_format [131, 97, 1]) [131, 97, 1]]"
  have wf: "send_wf ?p" using sample_send_wf by (simp add: send_wf_def python_instance_def)
  have f: "fits ei_format ?st (header_size (use_header ?p)) (m_size (buffer_send ?p))"
    by (rule return_fits [OF wf ei_format_bounded]) (simp_all add: pid_ok_def ei_version_format_def)
  obtain body where b: "encode ei_format ?st = Some body" "length body \<le> 900"
    by (simp add: return_steps_def be16_def be32_def be32_bytes_def cstr_def ei_version_format_def)
  have "accepts (wr w) (header_size (use_header ?p) + length body)"
    using b(2) header_size_le [of "use_header ?p"] assms(1)
    by (cases "header_size (use_header ?p) + length body") auto
  moreover have "reserves_ok ei_format ?st (header_size (use_header ?p)) (m_maxSize (buffer_send ?p))"
    by (simp add: return_steps_def python_instance_def sample_instance_def sample_buffer_def header_size_def cstr_def
      ei_version_format_def)
  ultimately obtain s' where "send_message ei_format ?st (?p, w) = (Ok cloudi_success, s')"
    using send_message_delivers [OF wf f _ assms(2) b(1)] by auto
  then have "cloudi_return ei_format ei_version_format CLOUDI_SYNC [47] [47] [] [9] 5 (replicate 16 1) [131, 97, 1] (?p, w)
      = (Raise return_sync_exception, s')"
    by (simp add: cloudi_return_def cloudi_return_impl_def throw_on_success_def CLOUDI_ASYNC_def CLOUDI_SYNC_def)
  then show ?thesis ..
qed

theorem python_value_answers_witness:
  "\<exists>s'. callback ei_format ei_version_format (python_run ei_format ei_version_format (\<lambda>_. True) (python_nine True))
    MESSAGE_SEND_SYNC python_request (python_instance, released (python_idle\<lparr>wr := [Wr_count 999]\<rparr>)) = (Ok (), s')"
proof -
  let ?w = "released (python_idle\<lparr>wr := [Wr_count 999]\<rparr>)"
  obtain t where t: "lookup_find [47] (lookup python_instance) = Ok (callback_function_object 7, t)"
    by (simp add: lookup_find_def queue_cycle_def queue_new_def python_instance_def)
  have w: "in_c (py ?w)" "in_python (py (acquired ?w))"
    by (simp_all add: released_def acquired_def in_c_def in_python_def)
  have "wr (released (acquired ?w)) = [Wr_count 999]" "allocs (released (acquired ?w)) = []"
    by (simp_all add: released_def acquired_def python_idle_def io_idle_def)
  then obtain s' where s': "cloudi_return ei_format ei_version_format CLOUDI_SYNC [47] [47] [] [9] 5 (replicate 16 1) [131, 97, 1]
      (python_instance\<lparr>lookup := t\<rparr>, released (acquired ?w)) = (Raise return_sync_exception, s')"
    using python_return_sent by blast
  have sh: "shown python_request (buffer_call (python_instance\<lparr>lookup := t\<rparr>)) [47] [47] (replicate 16 1) [131, 97, 1]"
    using python_shown by (simp add: python_instance_def)
  have args: "callback_args (\<lambda>_. True) CLOUDI_SYNC python_request (python_instance\<lparr>lookup := t\<rparr>) = Ok (Some python_args)"
    by (rule python_callback_args) (simp add: python_instance_def)
  have "callback ei_format ei_version_format (python_run ei_format ei_version_format (\<lambda>_. True) (python_nine True))
    MESSAGE_SEND_SYNC python_request (python_instance, ?w) = (Ok (), s')"
    by (rule python_value_answers [where result = "Bytes ([9], True)" and args = python_args and rt = CLOUDI_SYNC
        and own = return_sync_exception, OF _ _ t w(1) args _ w(2) _ _ _ _ sh])
      (use s' python_shown in \<open>simp_all add: shown_def python_instance_def python_request_def python_nine_def
        responds.intros\<close>)
  then show ?thesis ..
qed

section \<open>The answer of a request is a value\<close>

lemma build_bytes_get:
  assumes "rp_get a (unat len) (buffer_recv p) = Ok bs" and "length bs < 2 ^ 31"
  shows "build_bytes p (Some a) len = Ok (Py_bytes bs)"
proof -
  have "unat len = length bs"
    using assms(1) by (auto simp: rp_get_def mem_read_eq_Some split: if_splits option.splits)
  then have "uint len = int (length bs)" by (simp add: uint_nat)
  then have "sint len = int (length bs)"
    using assms(2) by (simp add: sint_uint signed_take_bit_int_eq_self)
  with assms(1) show ?thesis by (simp add: build_bytes_def)
qed



section \<open>Where the value of a function is lost\<close>



text \<open>
  No response is refused for its size, but its size is truncated: the check of the size compares a
  value that was already converted to 32 bits, so it never fails, and of a response of \<open>n\<close> bytes only the
  first \<open>n mod 2 ^ 32\<close> are sent; one of exactly \<open>2 ^ 32\<close> bytes is sent empty.
\<close>

theorem python_response_truncated:
  "\<not> size_invalid (length resp)
   \<and> response_parts (Bytes (resp, True)) = Some (([], True), (resp, True))
   \<and> response_bytes (resp, True) = Ok (take (length resp mod 2 ^ 32) resp)"
  by (simp add: size_never_invalid response_parts_def response_bytes_def Let_def unsigned_of_nat take_bit_eq_mod)

section \<open>Errors\<close>

lemma python_error_names_distinct:
  "distinct (map (\<lambda>x. return_value (fst x)) python_error_names)" "distinct (map snd python_error_names)"
  by code_simp+

lemma python_error_names_complete:
  "s \<notin> {cloudi_success, cloudi_terminate, cloudi_error_poll_HUP} \<Longrightarrow> \<exists>n. (s, n) \<in> set python_error_names"
  by (cases s) (simp_all add: python_error_names_def)

lemma python_error_names_inj:
  "(s, n) \<in> set python_error_names \<Longrightarrow> (s', n) \<in> set python_error_names \<Longrightarrow> s = s'"
  using python_error_names_distinct(2) inj_onD [of snd "set python_error_names" "(s, n)" "(s', n)"]
  by (simp add: distinct_map)

lemma python_error_listed:
  assumes "(s, n) \<in> set python_error_names"
  shows "python_error (return_value s) = Py_message_decoding n"
proof -
  have "list_all (\<lambda>(s, n). return_value s \<noteq> 110) python_error_names" by code_simp
  then have "return_value s \<noteq> 110" using assms by (auto simp: list_all_iff)
  moreover have "map_of (map (\<lambda>(s, name). (return_value s, name)) python_error_names) (return_value s) = Some n"
    using python_error_names_distinct(1) assms by (intro map_of_is_SomeI) (force simp: comp_def split_beta)+
  ultimately show ?thesis by (simp add: python_error_def)
qed

lemma python_error_status:
  assumes "s \<noteq> cloudi_success"
  shows "python_error (return_value s) = Py_terminate \<and> s \<in> {cloudi_terminate, cloudi_error_poll_HUP}
    \<or> (\<exists>n. (s, n) \<in> set python_error_names \<and> python_error (return_value s) = Py_message_decoding n)"
  using python_error_names_complete [of s] python_error_listed assms by (fastforce simp: python_error_def)

text \<open>
  Every failure of the API is a Python exception of its own: no status but success is reported as
  unknown, and two statuses give the same exception, type and text, only if they are the same number
  (the termination and the end of the connection).
\<close>

theorem python_error_distinct:
  assumes "s \<noteq> cloudi_success" and "s' \<noteq> cloudi_success"
  shows "(python_error (return_value s) = python_error (return_value s') \<longleftrightarrow> return_value s = return_value s')
    \<and> (\<forall>v. python_error (return_value s) \<noteq> Py_unknown v)"
  using python_error_status [OF assms(1)] python_error_status [OF assms(2)] by (auto dest: python_error_names_inj)

theorem python_error_distinct_witness:
  "python_error (return_value cloudi_error_read_EINTR) \<noteq> python_error (return_value cloudi_error_poll_EINTR)"
  using python_error_distinct [of cloudi_error_read_EINTR cloudi_error_poll_EINTR] by simp

end
