(* ===== verification/Python_References.thy ===== *)
theory Python_References
  imports Python_Correct
begin

text \<open>
  The references to Python functions that the binding owns: one for every subscription of a function. They
  are taken and given back while the interpreter lock is released.
\<close>

section \<open>References\<close>

text \<open>What the changes of references do to the interpreter.\<close>

lemma py_decref_fold:
  "py_refs (py (fold py_decref fs w)) = fold remove1 fs (py_refs (py w))"
  "\<not> py_gil (py w) \<Longrightarrow> py_unlocked (py (fold py_decref fs w)) = rev fs @ py_unlocked (py w)"
  by (induction fs arbitrary: w) (simp_all add: py_decref_def)

lemma allow_threads_Ok:
  assumes "allow_threads m (a, w) = (Ok r, (a', w'))"
  shows "\<exists>w1. m (a, released w) = (Ok r, (a', w1)) \<and> w' = acquired w1"
  using assms
  by (auto simp: allow_threads_def bind_state_eq_Ok on_os_def threads_release_def threads_acquire_def released_def
    acquired_def split: if_splits prod.splits)

lemma lock_fields [simp]:
  "py_refs (py (released w)) = py_refs (py w)" "py_refs (py (acquired w)) = py_refs (py w)"
  "py_unlocked (py (released w)) = py_unlocked (py w)" "py_unlocked (py (acquired w)) = py_unlocked (py w)"
  "\<not> py_gil (py (released w))"
  by (simp_all add: released_def acquired_def)

text \<open>The API itself changes no reference.\<close>

lemma API_subscribe_py: "API_subscribe ei pattern f (a, w) = (Ok r, (a', w')) \<Longrightarrow> py w' = py w"
  using movesD [OF moves_API_subscribe [of "\<lambda>q. q = py w"]] by fastforce

lemma API_unsubscribe_py: "API_unsubscribe ei pattern (a, w) = (Ok r, (a', w')) \<Longrightarrow> py w' = py w"
  using movesD [OF moves_API_unsubscribe [of "\<lambda>q. q = py w"]] by fastforce

lemma finish_method_state: "finish_method ok result (a, w) = (Ok r, (a', w')) \<Longrightarrow> a' = a \<and> w' = w"
  by (auto simp: finish_method_def read_api_def on_api_def split: if_splits)

lemma python_subscribe_parts:
  assumes "python_cloudi_subscribe ei callable (Some (pattern, f)) (a, w) = (Ok r, (a', w'))" and "callable f"
  shows "\<exists>result w1. API_subscribe ei pattern f (a, py_incref f (released w)) = (Ok result, (a', w1)) \<and> w' = acquired w1"
proof -
  obtain result a1 w2 where 1: "allow_threads (\<lambda>(a, w). API_subscribe ei pattern f (a, py_incref f w)) (a, w) = (Ok result, (a1, w2))"
    and 2: "finish_method return_none result (a1, w2) = (Ok r, (a', w'))"
    using assms by (auto simp: python_cloudi_subscribe_def parsed_def bind_state_eq_Ok)
  from allow_threads_Ok [OF 1] finish_method_state [OF 2] show ?thesis by auto
qed

lemma python_unsubscribe_parts:
  assumes "python_cloudi_unsubscribe ei (Some pattern) (a, w) = (Ok r, (a', w'))"
  shows "\<exists>result w1. API_unsubscribe ei pattern (a, fold py_decref (removed_functions a pattern) (released w)) = (Ok result, (a', w1))
    \<and> w' = acquired w1"
proof -
  obtain result a1 w2 where 1: "allow_threads (\<lambda>(a, w). API_unsubscribe ei pattern
      (a, fold py_decref (removed_functions a pattern) w)) (a, w) = (Ok result, (a1, w2))"
    and 2: "finish_method return_none result (a1, w2) = (Ok r, (a', w'))"
    using assms by (auto simp: python_cloudi_unsubscribe_def parsed_def bind_state_eq_Ok)
  from allow_threads_Ok [OF 1] finish_method_state [OF 2] show ?thesis by auto
qed

text \<open>
  References are counted without the lock: subscribing a function takes a reference to it after the
  interpreter lock was released, and unsubscribing gives back the references of the deleted callback
  objects in the same way, in every run of these methods that returns.
\<close>

theorem python_references_unlocked:
  "(callable f \<and> python_cloudi_subscribe ei callable (Some (pattern, f)) (a, w) = (Ok r, (a', w'))
      \<longrightarrow> py_refs (py w') = f # py_refs (py w) \<and> py_unlocked (py w') = f # py_unlocked (py w))
   \<and> (python_cloudi_unsubscribe ei (Some pattern) (a, w) = (Ok r, (a', w'))
      \<longrightarrow> py_unlocked (py w') = rev (removed_functions a pattern) @ py_unlocked (py w))"
proof (intro conjI impI)
  assume s: "callable f \<and> python_cloudi_subscribe ei callable (Some (pattern, f)) (a, w) = (Ok r, (a', w'))"
  then obtain result w1 where 1: "API_subscribe ei pattern f (a, py_incref f (released w)) = (Ok result, (a', w1))"
      and 2: "w' = acquired w1"
    using python_subscribe_parts by blast
  show "py_refs (py w') = f # py_refs (py w)" "py_unlocked (py w') = f # py_unlocked (py w)"
    unfolding 2 lock_fields API_subscribe_py [OF 1] by (simp_all add: py_incref_def)
next
  assume "python_cloudi_unsubscribe ei (Some pattern) (a, w) = (Ok r, (a', w'))"
  then obtain result w1 where 1: "API_unsubscribe ei pattern (a, fold py_decref (removed_functions a pattern) (released w)) = (Ok result, (a', w1))"
      and 2: "w' = acquired w1"
    using python_unsubscribe_parts by blast
  show "py_unlocked (py w') = rev (removed_functions a pattern) @ py_unlocked (py w)"
    unfolding 2 lock_fields API_unsubscribe_py [OF 1] by (simp add: py_decref_fold)
qed

text \<open>An object whose program subscribes the function 7.\<close>

definition python_subscriber :: os where
  "python_subscriber = python_idle\<lparr>wr := [Wr_count 999]\<rparr>"

lemma python_subscriber_subscribes:
  "\<exists>a w. python_cloudi_subscribe ei_format (\<lambda>_. True) (Some (cstr ''x'', 7)) (new_api, python_subscriber) = (Ok (Value Py_None), (a, w))"
proof -
  let ?w = "py_incref 7 (released python_subscriber)"
  have "wr ?w = [Wr_count 999]" "allocs ?w = []"
    by (simp_all add: py_incref_def released_def python_subscriber_def python_idle_def io_idle_def)
  then obtain a w where s: "API_subscribe ei_format (cstr ''x'') 7 (new_api, ?w) = (Ok cloudi_success, (a, w))" "\<not> api_freed a"
    using new_api_subscribes by blast
  have "py w = py ?w" by (rule API_subscribe_py [OF s(1)])
  then have "allow_threads (\<lambda>(a, w). API_subscribe ei_format (cstr ''x'') 7 (a, py_incref 7 w)) (new_api, python_subscriber)
      = (Ok cloudi_success, (a, acquired w))"
    using s(1) by (intro allow_threads_runs) (simp_all add: python_subscriber_def)
  with s(2) show ?thesis
    by (simp add: python_cloudi_subscribe_def parsed_def finish_method_def read_api_def on_api_def return_none_def)
qed

theorem python_references_unlocked_witness:
  "\<exists>a w. python_cloudi_subscribe ei_format (\<lambda>_. True) (Some (cstr ''x'', 7)) (new_api, python_subscriber) = (Ok (Value Py_None), (a, w))
    \<and> py_unlocked (py w) = [7]"
proof -
  obtain a w where s: "python_cloudi_subscribe ei_format (\<lambda>_. True) (Some (cstr ''x'', 7)) (new_api, python_subscriber)
      = (Ok (Value Py_None), (a, w))"
    using python_subscriber_subscribes by blast
  have "py_unlocked (py w) = 7 # py_unlocked (py python_subscriber)"
    using python_references_unlocked [of "\<lambda>_. True" 7 ei_format "cstr ''x''" new_api python_subscriber] s by blast
  with s show ?thesis by (auto simp: python_subscriber_def)
qed

lemma count_list_remove1: "count_list (remove1 y xs) x = count_list xs x - (if x = y then 1 else 0)"
  by (induction xs) (auto simp: count_list_0_iff)

text \<open>
  The states of an object that a Python program can reach: by its methods, by requests, which turn the
  queue of their pattern, and by anything that changes neither the table nor the references.
\<close>

inductive python_step :: "shared_api \<times> os \<Rightarrow> shared_api \<times> os \<Rightarrow> bool" where
  subscribes: "\<forall>p. length (subscribed (lookup (m_api a)) p) < 2 ^ 64 - 1 \<Longrightarrow>
    python_cloudi_subscribe ei callable args (a, w) = (Ok r, (a', w')) \<Longrightarrow> python_step (a, w) (a', w')"
| unsubscribes: "python_cloudi_unsubscribe ei pattern (a, w) = (Ok r, (a', w')) \<Longrightarrow> python_step (a, w) (a', w')"
| dispatches: "lookup_find pattern (lookup (m_api a)) = Ok (f, t) \<Longrightarrow>
    python_step (a, w) (a\<lparr>m_api := (m_api a)\<lparr>lookup := t\<rparr>\<rparr>, w)"
| calls: "lookup p = lookup (m_api a) \<Longrightarrow> py_refs (py w') = py_refs (py w) \<Longrightarrow>
    python_step (a, w) (a\<lparr>m_api := p\<rparr>, w')"

definition python_start :: "shared_api \<times> os \<Rightarrow> bool" where
  "python_start = (\<lambda>(a, w). api_start a \<and> py_refs (py w) = [])"

abbreviation python_reachable :: "shared_api \<times> os \<Rightarrow> bool" where
  "python_reachable \<equiv> reach python_start python_step"

definition references_inv :: "shared_api \<times> os \<Rightarrow> bool" where
  "references_inv = (\<lambda>(a, w).
     let S = subscribed (lookup (m_api a))
     in lookup_wf (lookup (m_api a)) \<and> finite {p. S p \<noteq> []} \<and> (\<forall>p. \<forall>f \<in> set (S p). is_object f)
        \<and> (\<forall>f. count_list (py_refs (py w)) f = subscriptions f S))"

lemma python_subscribe_inv:
  assumes "references_inv (a, w)" and "\<forall>p. length (subscribed (lookup (m_api a)) p) < 2 ^ 64 - 1"
    and "python_cloudi_subscribe ei callable args (a, w) = (Ok r, (a', w'))"
  shows "references_inv (a', w')"
proof (cases "\<exists>pattern f. args = Some (pattern, f) \<and> callable f")
  case False
  then have "a' = a \<and> w' = w" using assms(3) by (cases args) (auto simp: python_cloudi_subscribe_def parsed_def)
  with assms(1) show ?thesis by simp
next
  case True
  then obtain pattern f where f: "args = Some (pattern, f)" "callable f" by blast
  obtain result w1 where 1: "API_subscribe ei pattern f (a, py_incref f (released w)) = (Ok result, (a', w1))"
      and 2: "w' = acquired w1"
    using python_subscribe_parts assms(3) f by blast
  obtain pre p where p: "a' = a\<lparr>m_count := m_count a + 1, m_api := p\<rparr>"
      "lookup p = lookup_insert (pre @ pattern) (callback_function_object f) (lookup (m_api a))"
    using API_subscribe_lookup [OF 1] by blast
  let ?S = "subscribed (lookup (m_api a))" and ?q = "pre @ pattern"
  have S: "subscribed (lookup p) = ?S(?q := ?S ?q @ [callback_function_object f])"
    by (simp add: p(2) tbl.ins_callbacks fun_eq_iff)
  have inv: "lookup_wf (lookup (m_api a))" "finite {p. ?S p \<noteq> []}" "\<forall>p. \<forall>f \<in> set (?S p). is_object f"
      "\<forall>f. count_list (py_refs (py w)) f = subscriptions f ?S"
    using assms(1) by (simp_all add: references_inv_def Let_def)
  have "lookup_wf (lookup p)" using inv(1) assms(2) by (simp add: p(2) tbl.ins_wf)
  moreover have "py_refs (py w') = f # py_refs (py w)"
    unfolding 2 lock_fields API_subscribe_py [OF 1] by (simp add: py_incref_def)
  moreover have "subscriptions g (subscribed (lookup p)) = subscriptions g ?S + (if g = f then 1 else 0)" for g
    using subscriptions_update [OF inv(2), of g ?q "?S ?q @ [callback_function_object f]"]
    by (simp add: S function_count_def)
  ultimately show ?thesis
    using inv table_sum_update(2) [OF inv(2), of "\<lambda>_. 0" ?q "?S ?q @ [callback_function_object f]"]
    by (auto simp: references_inv_def Let_def p(1) S)
qed

lemma python_unsubscribe_inv:
  assumes "references_inv (a, w)" and "python_cloudi_unsubscribe ei args (a, w) = (Ok r, (a', w'))"
  shows "references_inv (a', w')"
proof (cases args)
  case None
  then have "a' = a \<and> w' = w" using assms(2) by (simp add: python_cloudi_unsubscribe_def parsed_def)
  with assms(1) show ?thesis by simp
next
  case (Some pattern)
  let ?S = "subscribed (lookup (m_api a))"
  have inv: "lookup_wf (lookup (m_api a))" "finite {p. ?S p \<noteq> []}" "\<forall>p. \<forall>f \<in> set (?S p). is_object f"
      "\<forall>f. count_list (py_refs (py w)) f = subscriptions f ?S"
    using assms(1) by (simp_all add: references_inv_def Let_def)
  obtain result w1 where 1: "API_unsubscribe ei pattern (a, fold py_decref (removed_functions a pattern) (released w)) = (Ok result, (a', w1))"
      and 2: "w' = acquired w1"
    using python_unsubscribe_parts assms(2) Some by blast
  obtain pre t where p: "prefix_string (m_api a) = Ok pre" "lookup (m_api a') = t" "lookup_wf t"
      "subscribed t = ?S(pre @ pattern := tl (?S (pre @ pattern)))"
    using API_unsubscribe_lookup [OF 1 inv(1)] by auto
  let ?q = "pre @ pattern"
  have refs: "py_refs (py w') = fold remove1 (removed_functions a pattern) (py_refs (py w))"
    unfolding 2 lock_fields API_unsubscribe_py [OF 1] py_decref_fold by simp
  have "count_list (py_refs (py w')) g = subscriptions g (subscribed t)" for g
  proof (cases "?S ?q")
    case Nil
    then have "?S(?q := tl (?S ?q)) = ?S" by (simp add: fun_eq_iff)
    with Nil refs inv(4) p(1) show ?thesis by (simp add: p(4) removed_functions_def)
  next
    case (Cons x xs)
    then obtain n where n: "x = callback_function_object n" using inv(3) by (metis is_object.elims(2) list.set_intros(1))
    have "py_refs (py w') = remove1 n (py_refs (py w))" using refs Cons n p(1) by (simp add: removed_functions_def)
    moreover have "subscriptions g (subscribed t) + (if g = n then 1 else 0) = subscriptions g ?S"
      using subscriptions_update [OF inv(2), of g ?q "tl (?S ?q)"] Cons n
      by (auto simp: p(4) function_count_def split: if_splits)
    ultimately show ?thesis using inv(4) by (auto simp: count_list_remove1)
  qed
  moreover have "\<forall>q. \<forall>f \<in> set (subscribed t q). is_object f"
    using inv(3) by (auto simp: p(4)) (metis list.sel(2) list.set_sel(2))
  ultimately show ?thesis
    using inv p(2,3) table_sum_update(2) [OF inv(2), of "\<lambda>_. 0" ?q "tl (?S ?q)"]
    by (simp add: references_inv_def Let_def p(4))
qed

lemma python_dispatch_inv:
  assumes "references_inv (a, w)" and "lookup_find pattern (lookup (m_api a)) = Ok (f, t)"
  shows "references_inv (a\<lparr>m_api := (m_api a)\<lparr>lookup := t\<rparr>\<rparr>, w)"
proof -
  let ?S = "subscribed (lookup (m_api a))"
  have inv: "lookup_wf (lookup (m_api a))" "finite {p. ?S p \<noteq> []}" "\<forall>p. \<forall>f \<in> set (?S p). is_object f"
      "\<forall>f. count_list (py_refs (py w)) f = subscriptions f ?S"
    using assms(1) by (simp_all add: references_inv_def Let_def)
  have t: "lookup_wf t" "subscribed t = ?S(pattern := rotate1 (?S pattern))"
    using tbl.fnd_ok [OF inv(1), of pattern] assms(2) by auto
  have "subscriptions g (subscribed t) = subscriptions g ?S" for g
    using subscriptions_update [OF inv(2), of g pattern "rotate1 (?S pattern)"]
    by (simp add: t(2) function_count_def count_list_rotate1)
  then show ?thesis
    using inv t table_sum_update(2) [OF inv(2), of "\<lambda>_. 0" pattern "rotate1 (?S pattern)"]
    by (auto simp: references_inv_def Let_def)
qed

interpretation python: invariant python_start python_step references_inv
proof
  fix s
  assume "python_start s"
  then show "references_inv s"
    by (auto simp: python_start_def api_start_def references_inv_def Let_def subscriptions_def table_sum_def subscribed_def)
next
  fix s s'
  assume "python_step s s'" "references_inv s"
  then show "references_inv s'"
  proof cases
    case (subscribes a ei callable args w r a' w')
    with \<open>references_inv s\<close> python_subscribe_inv show ?thesis by blast
  next
    case (unsubscribes ei pattern a w r a' w')
    with \<open>references_inv s\<close> python_unsubscribe_inv show ?thesis by blast
  next
    case (dispatches pattern a f t w)
    with \<open>references_inv s\<close> python_dispatch_inv show ?thesis by blast
  next
    case (calls p a w' w)
    with \<open>references_inv s\<close> show ?thesis by (simp add: references_inv_def)
  qed
qed



end
