(* ===== verification/Port_Types.thy ===== *)
theory Port_Types
  imports Ei
begin

text \<open>
  The typed calls of the port (\<^verbatim>\<open>port.cpp\<close>): for every type that a port function can name, the size
  of an argument in the request, the value the C++ call gets, and the terms that encode a returned
  value. The Erlang side of the same table (\<^verbatim>\<open>cloudi_os_spawn_hrl.h\<close>) encodes the arguments; the
  two are shown to agree. The library theory of \<open>ei\<close> is the parameter of the encoding.
\<close>

section \<open>Model\<close>

text \<open>
  The types, with the suffixes of the macros. A value is an integer, the eight bytes of a double
  (\<open>V_float\<close> is the \<open>float\<close> that such a double is converted to), a pointer into the request buffer
  with a length (in bytes, or in 32-bit numbers), or returned text.
\<close>

datatype port_type =
    T_void | T_char | T_uchar | T_bool | T_int8 | T_uint8 | T_int16 | T_uint16 | T_int32 | T_uint32
  | T_int64 | T_uint64 | T_time | T_float | T_double | T_pchar_len | T_puint32_len
  | T_pchar_len_t | T_pchar_len_t_free | T_pchar_len_t_nofree | T_pchar | T_pchar_free | T_pchar_nofree

datatype port_value =
    V_void | V_int int | V_double bytes | V_float bytes | V_pchar nat u32 | V_puint32 nat u32
  | V_text bytes

text \<open>The types of a fixed size, and whether an integer is signed.\<close>

fun fixed_size :: "port_type \<Rightarrow> nat option" where
  "fixed_size T_char = Some 1"
| "fixed_size T_uchar = Some 1"
| "fixed_size T_bool = Some 1"
| "fixed_size T_int8 = Some 1"
| "fixed_size T_uint8 = Some 1"
| "fixed_size T_int16 = Some 2"
| "fixed_size T_uint16 = Some 2"
| "fixed_size T_int32 = Some 4"
| "fixed_size T_uint32 = Some 4"
| "fixed_size T_int64 = Some 8"
| "fixed_size T_uint64 = Some 8"
| "fixed_size T_time = Some 8"
| "fixed_size T_float = Some 8"
| "fixed_size T_double = Some 8"
| "fixed_size _ = None"

fun signed_type :: "port_type \<Rightarrow> bool" where
  "signed_type T_char = True"
| "signed_type T_int8 = True"
| "signed_type T_int16 = True"
| "signed_type T_int32 = True"
| "signed_type T_int64 = True"
| "signed_type _ = False"

text \<open>\<open>*((T *) &(buffer[offset]))\<close>: the checked index, then the bytes of the object.\<close>

definition read_at :: "byte realloc_ptr \<Rightarrow> nat \<Rightarrow> nat \<Rightarrow> bytes outcome" where
  "read_at buf off n = (if off < m_size buf then rp_get off n buf else Raise assert_exception)"

definition le_signed :: "bytes \<Rightarrow> int" where
  "le_signed bs =
     (let v = int (le_nat bs) in if v < 2 ^ (8 * length bs - 1) then v else v - 2 ^ (8 * length bs))"

text \<open>
  \<open>GET_TYPE_SIZE_FROM_TYPE_...\<close>. A type without the macro does not compile as an argument.
\<close>

definition type_size :: "port_type \<Rightarrow> nat \<Rightarrow> byte realloc_ptr \<Rightarrow> nat outcome" where
  "type_size t off buf =
     (case fixed_size t of
        Some n \<Rightarrow> Ok n
      | None \<Rightarrow>
          if t = T_pchar_len then bind_outcome (read_at buf off 4) (\<lambda>bs. Ok (4 + le_nat bs))
          else if t = T_puint32_len then bind_outcome (read_at buf off 4) (\<lambda>bs. Ok (4 + le_nat bs * 4))
          else Undefined)"

text \<open>\<open>GET_FUNCTION_ARGUMENT_FROM_TYPE_...\<close>\<close>

definition get_argument :: "byte realloc_ptr \<Rightarrow> port_type \<Rightarrow> nat \<Rightarrow> port_value outcome" where
  "get_argument buf t off =
     (case fixed_size t of
        Some n \<Rightarrow>
          bind_outcome (read_at buf off n) (\<lambda>bs.
            Ok (if t = T_double then V_double bs
                else if t = T_float then V_float bs
                else if signed_type t then V_int (le_signed bs)
                else V_int (int (le_nat bs))))
      | None \<Rightarrow>
          if t \<in> {T_pchar_len, T_puint32_len} then
            (if \<not> off + 4 < m_size buf then Raise assert_exception
             else bind_outcome (read_at buf off 4) (\<lambda>bs.
               Ok ((if t = T_pchar_len then V_pchar else V_puint32) (off + 4) (u32_of bs))))
          else Undefined)"

text \<open>
  The offsets \<open>offset_arg0\<close>, \<open>offset_arg1\<close>, \<dots> of a call: each argument but the last moves the next
  one. Then the arguments.
\<close>

fun argument_offsets :: "port_type list \<Rightarrow> nat \<Rightarrow> byte realloc_ptr \<Rightarrow> nat list outcome" where
  "argument_offsets [] off buf = Ok []"
| "argument_offsets [t] off buf = Ok [off]"
| "argument_offsets (t # t' # ts) off buf =
     bind_outcome (type_size t off buf) (\<lambda>n.
     bind_outcome (argument_offsets (t' # ts) (off + n) buf) (\<lambda>offs. Ok (off # offs)))"

fun get_arguments :: "byte realloc_ptr \<Rightarrow> port_type list \<Rightarrow> nat list \<Rightarrow> port_value list outcome" where
  "get_arguments buf (t # ts) (off # offs) =
     bind_outcome (get_argument buf t off) (\<lambda>v.
     bind_outcome (get_arguments buf ts offs) (\<lambda>vs. Ok (v # vs)))"
| "get_arguments buf _ _ = Ok []"

text \<open>
  \<open>STORE_RETURN_VALUE_TYPE_...\<close>: the reply is \<open>{Cmd, Value}\<close>. The variants with \<open>free\<close> release the
  returned block after it was encoded.
\<close>

definition store_value :: "port_type \<Rightarrow> port_value \<Rightarrow> emit_step list" where
  "store_value t v =
     (if t = T_void then [Encode (ei_atom (cstr ''ok''))]
      else
        (case v of
           V_int i \<Rightarrow>
             if t = T_uchar then [Encode (ei_char (word_of_int i))]
             else if t = T_bool then [Encode (ei_boolean (i \<noteq> 0))]
             else if t = T_int64 then [Encode (ei_longlong i)]
             else if t \<in> {T_uint64, T_time} then [Encode (ei_ulonglong (nat i))]
             else if t \<in> {T_char, T_int8, T_int16, T_int32} then [Encode (ei_long i)]
             else [Encode (ei_ulong (nat i))]
         | V_double d \<Rightarrow> [Encode (ei_double d)]
         | V_text s \<Rightarrow>
             if t \<in> {T_pchar_len_t, T_pchar_len_t_free, T_pchar_len_t_nofree}
             then [Reserve (length s), Encode (ei_binary s)]
             else [Reserve (length s + 1), Encode (ei_string s)]
         | _ \<Rightarrow> []))"

definition store_return_value :: "port_type \<Rightarrow> nat \<Rightarrow> port_value \<Rightarrow> emit_step list" where
  "store_return_value t cmd v =
     [Encode ei_version, Encode (ei_tuple_header 2), Encode (ei_ulong cmd)] @ store_value t v"

section \<open>The Erlang side\<close>

text \<open>
  \<open>ENCODE_ARGUMENT_AS_BINARY_FROM_TYPE_...\<close> with \<open>encode_uint8\<close> and \<open>encode_uint32\<close>: integers at the
  width of their type, binaries and lists of 32-bit numbers behind their number of elements.
\<close>

datatype erl_argument = E_int int | E_float bytes | E_binary bytes | E_uint32s "u32 list"

definition encode_uint8 :: "bytes \<Rightarrow> bytes" where
  "encode_uint8 value = u32_bytes (word_of_nat (length value)) @ value"

definition encode_uint32 :: "u32 list \<Rightarrow> bytes" where
  "encode_uint32 value =
     u32_bytes (word_of_nat (length (concat (map u32_bytes value)) div 4)) @ concat (map u32_bytes value)"

fun encode_argument :: "port_type \<Rightarrow> erl_argument \<Rightarrow> bytes" where
  "encode_argument t (E_int i) =
     (case fixed_size t of Some n \<Rightarrow> nat_le n (nat (i mod 2 ^ (8 * n))) | None \<Rightarrow> [])"
| "encode_argument t (E_float d) = d"
| "encode_argument t (E_binary bs) = encode_uint8 bs"
| "encode_argument t (E_uint32s ns) = encode_uint32 ns"

fun encode_arguments :: "port_type list \<Rightarrow> erl_argument list \<Rightarrow> bytes" where
  "encode_arguments (t # ts) (a # as) = encode_argument t a @ encode_arguments ts as"
| "encode_arguments _ _ = []"

definition encode_call :: "nat \<Rightarrow> port_type list \<Rightarrow> erl_argument list \<Rightarrow> bytes" where
  "encode_call cmd ts as = nat_le 2 cmd @ encode_arguments ts as"

text \<open>The Erlang terms that a type can carry.\<close>

definition int_type :: "port_type \<Rightarrow> bool" where
  "int_type t \<longleftrightarrow> fixed_size t \<noteq> None \<and> t \<noteq> T_float \<and> t \<noteq> T_double"

definition int_range :: "port_type \<Rightarrow> int \<Rightarrow> bool" where
  "int_range t i \<longleftrightarrow>
     (case fixed_size t of
        None \<Rightarrow> False
      | Some n \<Rightarrow>
          if signed_type t then - (2 ^ (8 * n - 1)) \<le> i \<and> i < 2 ^ (8 * n - 1) else 0 \<le> i \<and> i < 2 ^ (8 * n))"

fun argument_ok :: "port_type \<Rightarrow> erl_argument \<Rightarrow> bool" where
  "argument_ok t (E_int i) = (int_type t \<and> int_range t i)"
| "argument_ok t (E_float d) = (t \<in> {T_float, T_double} \<and> length d = 8)"
| "argument_ok t (E_binary bs) = (t = T_pchar_len \<and> length bs < 2 ^ 32)"
| "argument_ok t (E_uint32s ns) = (t = T_puint32_len \<and> length ns < 2 ^ 32)"

text \<open>The value that the C++ function gets for an argument: the number, or where the text is.\<close>

fun argument_shown :: "byte realloc_ptr \<Rightarrow> port_type \<Rightarrow> erl_argument \<Rightarrow> port_value \<Rightarrow> bool" where
  "argument_shown buf t (E_int i) v = (v = V_int i)"
| "argument_shown buf t (E_float d) v = (v = (if t = T_float then V_float d else V_double d))"
| "argument_shown buf t (E_binary bs) v =
     (\<exists>off. v = V_pchar off (word_of_nat (length bs)) \<and> rp_get off (length bs) buf = Ok bs)"
| "argument_shown buf t (E_uint32s ns) v =
     (\<exists>off. v = V_puint32 off (word_of_nat (length ns))
        \<and> rp_get off (4 * length ns) buf = Ok (concat (map u32_bytes ns)))"

section \<open>Facts\<close>

lemma length_concat_u32_bytes [simp]: "length (concat (map u32_bytes ns)) = 4 * length ns"
  by (induction ns) auto

lemma le_signed_round_trip:
  assumes "0 < n" and "- (2 ^ (8 * n - 1)) \<le> i" and "i < 2 ^ (8 * n - 1)"
  shows "le_signed (nat_le n (nat (i mod 2 ^ (8 * n)))) = i"
proof -
  have p: "(2 :: int) ^ (8 * n) = 2 * 2 ^ (8 * n - 1)"
    using assms(1) by (metis Suc_diff_1 mult_pos_pos power_Suc zero_less_numeral)
  have "nat (i mod 2 ^ (8 * n)) < 2 ^ (8 * n)" by (simp add: nat_less_iff)
  then have v: "int (le_nat (nat_le n (nat (i mod 2 ^ (8 * n))))) = i mod 2 ^ (8 * n)"
    by (simp add: le_nat_nat_le power_mult)
  show ?thesis
  proof (cases "0 \<le> i")
    case True
    then have "i mod 2 ^ (8 * n) = i" using assms(3) p by (intro mod_pos_pos_trivial) auto
    with v assms(3) show ?thesis by (simp add: le_signed_def)
  next
    case False
    then have "i mod 2 ^ (8 * n) = i + 2 ^ (8 * n)"
      using assms(2) p by (intro mod_pos_pos_trivial [of "i + 2 ^ (8 * n)" "2 ^ (8 * n)", simplified]) auto
    with v assms(2) p False show ?thesis by (simp add: le_signed_def)
  qed
qed

lemma le_unsigned_round_trip:
  assumes "0 \<le> i" and "i < 2 ^ (8 * n)"
  shows "int (le_nat (nat_le n (nat (i mod 2 ^ (8 * n))))) = i"
proof -
  have "nat i < 2 ^ (8 * n)" using assms by (simp add: nat_less_iff)
  with assms show ?thesis by (simp add: le_nat_nat_le power_mult)
qed

lemma read_at_ok:
  "rp_wf buf \<Longrightarrow> off < m_size buf \<Longrightarrow> off + n \<le> m_size buf \<Longrightarrow> mem_read off n (m_p buf) = Some bs \<Longrightarrow>
   read_at buf off n = Ok bs"
  by (simp add: read_at_def rp_get_def rp_wf_def)

lemma fixed_size_pos: "fixed_size t = Some n \<Longrightarrow> 0 < n"
  by (cases t) auto

lemma argument_int:
  assumes "rp_wf buf" and "argument_ok t (E_int i)" and "encode_argument t (E_int i) = enc"
    and "mem_read off (length enc) (m_p buf) = Some enc" and "off + length enc < m_size buf"
  shows "type_size t off buf = Ok (length enc) \<and> get_argument buf t off = Ok (V_int i)"
proof -
  obtain n where n: "fixed_size t = Some n" "t \<noteq> T_double" "t \<noteq> T_float" "int_range t i"
    using assms(2) by (auto simp: int_type_def)
  then have e: "enc = nat_le n (nat (i mod 2 ^ (8 * n)))" "length enc = n" using assms(3) by auto
  then have r: "read_at buf off n = Ok enc" using read_at_ok [OF assms(1)] assms(4,5) by simp
  have "(if signed_type t then V_int (le_signed enc) else V_int (int (le_nat enc))) = V_int i"
    using n le_signed_round_trip [OF fixed_size_pos [OF n(1)], of i] le_unsigned_round_trip [of i n] e(1)
    by (auto simp: int_range_def)
  with n e(2) r show ?thesis by (simp add: type_size_def get_argument_def)
qed

lemma argument_counted:
  assumes "rp_wf buf" and "mem_read off (4 + length d) (m_p buf) = Some (u32_bytes (word_of_nat k) @ d)"
    and "off + 4 + length d < m_size buf" and "k < 2 ^ 32"
  shows "read_at buf off 4 = Ok (u32_bytes (word_of_nat k))" and "le_nat (u32_bytes (word_of_nat k)) = k"
    and "rp_get (off + 4) (length d) buf = Ok d"
proof -
  have m: "mem_read off 4 (m_p buf) = Some (u32_bytes (word_of_nat k))"
    "mem_read (off + 4) (length d) (m_p buf) = Some d"
    using mem_read_split [OF assms(2)] by simp_all
  with assms show "read_at buf off 4 = Ok (u32_bytes (word_of_nat k))"
    by (intro read_at_ok) simp_all
  from m(2) assms(1,3) show "rp_get (off + 4) (length d) buf = Ok d"
    by (simp add: rp_get_def rp_wf_def)
  show "le_nat (u32_bytes (word_of_nat k)) = k"
    using assms(4) by (simp add: u32_bytes_def le_nat_nat_le unat_of_nat take_bit_eq_mod)
qed

lemma argument_step:
  assumes "rp_wf buf" and "argument_ok t a" and "encode_argument t a = enc"
    and "mem_read off (length enc) (m_p buf) = Some enc" and "off + length enc < m_size buf"
  shows "type_size t off buf = Ok (length enc)
    \<and> (\<exists>v. get_argument buf t off = Ok v \<and> argument_shown buf t a v)"
proof (cases a)
  case (E_int i)
  with argument_int [of buf t i enc off] assms show ?thesis by simp
next
  case (E_float d)
  with assms have d: "enc = d" "length d = 8" "t = T_float \<or> t = T_double" by auto
  then have "read_at buf off 8 = Ok d" using read_at_ok [OF assms(1)] assms(4,5) by simp
  with d E_float show ?thesis by (auto simp: type_size_def get_argument_def)
next
  case (E_binary bs)
  with assms have t: "t = T_pchar_len" "length bs < 2 ^ 32"
    "enc = u32_bytes (word_of_nat (length bs)) @ bs" by (auto simp: encode_uint8_def)
  with argument_counted [OF assms(1), of off bs "length bs"] assms(4,5) E_binary show ?thesis
    by (simp add: type_size_def get_argument_def)
next
  case (E_uint32s ns)
  with assms have t: "t = T_puint32_len" "length ns < 2 ^ 32"
    "enc = u32_bytes (word_of_nat (length ns)) @ concat (map u32_bytes ns)" by (auto simp: encode_uint32_def)
  with argument_counted [OF assms(1), of off "concat (map u32_bytes ns)" "length ns"] assms(4,5) E_uint32s
  show ?thesis by (simp add: type_size_def get_argument_def mult.commute)
qed

lemma arguments_decoded:
  assumes "rp_wf buf" and "list_all2 argument_ok ts as"
    and "mem_read off (length (encode_arguments ts as)) (m_p buf) = Some (encode_arguments ts as)"
    and "off + length (encode_arguments ts as) < m_size buf"
  shows "\<exists>offs vs. argument_offsets ts off buf = Ok offs \<and> get_arguments buf ts offs = Ok vs
    \<and> length vs = length as \<and> (\<forall>k < length as. argument_shown buf (ts ! k) (as ! k) (vs ! k))"
  using assms
proof (induction ts arbitrary: as off)
  case Nil
  then show ?case by simp
next
  case (Cons t ts)
  then obtain a as' where as: "as = a # as'" "argument_ok t a" "list_all2 argument_ok ts as'"
    by (auto simp: list_all2_Cons1)
  let ?e = "encode_argument t a" and ?es = "encode_arguments ts as'"
  have m: "mem_read off (length ?e) (m_p buf) = Some ?e"
    "mem_read (off + length ?e) (length ?es) (m_p buf) = Some ?es"
    using mem_read_split [of off "length ?e" "length ?es" "m_p buf" "?e @ ?es"] Cons.prems(3) as(1)
    by simp_all
  obtain v where v: "type_size t off buf = Ok (length ?e)" "get_argument buf t off = Ok v"
    "argument_shown buf t a v"
    using argument_step [OF Cons.prems(1) as(2) refl m(1)] Cons.prems(4) as(1) by auto
  obtain offs vs where o: "argument_offsets ts (off + length ?e) buf = Ok offs"
    "get_arguments buf ts offs = Ok vs" "length vs = length as'"
    "\<forall>k < length as'. argument_shown buf (ts ! k) (as' ! k) (vs ! k)"
    using Cons.IH [OF Cons.prems(1) as(3) m(2)] Cons.prems(4) as(1) by auto
  have "argument_offsets (t # ts) off buf = Ok (off # offs)"
    using o(1) v(1) by (cases ts) auto
  with v o as show ?case
    by (intro exI [of _ "off # offs"] exI [of _ "v # vs"]) (auto simp: less_Suc_eq_0_disj)
qed

end
