(* ===== verification/Sys.thy ===== *)
theory Sys
  imports Os_Io
begin

text \<open>
  The system calls of the port program beyond reading, writing and polling (which are those of the
  theory \<open>Os_Io\<close>): processes, descriptors, sockets, limits and users. The answers are the
  environment's, in the order in which the calls ask for them; every call is recorded.
\<close>

datatype sockaddr = Addr_inet u16 | Addr_local bytes

datatype syscall =
    Sys_pipe | Sys_dup2 int int | Sys_close int | Sys_fork | Sys_socket int int
  | Sys_setsockopt int | Sys_connect int sockaddr | Sys_write int bytes
  | Sys_getrlimit int | Sys_setrlimit int u64 u64
  | Sys_getpwnam bytes | Sys_getgrnam bytes | Sys_setgid u32 | Sys_setuid u32
  | Sys_chroot bytes | Sys_chdir bytes | Sys_nice int
  | Sys_execve bytes "bytes list" "bytes list" | Sys_getpid | Sys_kill int int | Sys_waitpid int

text \<open>
  \<open>pipes\<close> answers \<open>pipe\<close> with its two descriptors, \<open>rets\<close> every call that returns an \<open>int\<close>. The
  resource limits and the two user databases are looked up, \<open>None\<close> for an error. \<open>self\<close> is the
  process identifier. \<open>exits\<close> answers \<open>waitpid\<close> with how the process ended.
\<close>

datatype wait_status = W_exited int | W_signaled int | W_stopped

record sys =
  io :: os
  pipes :: "(errno + int \<times> int) list"
  rets :: "(errno + int) list"
  limits :: "int \<Rightarrow> (u64 \<times> u64) option"
  passwd :: "bytes \<Rightarrow> (u32 \<times> u32) option"
  groups :: "bytes \<Rightarrow> u32 option"
  self :: nat
  exits :: "(errno + wait_status) list"
  trace :: "syscall list"

definition sys_log :: "syscall \<Rightarrow> sys \<Rightarrow> sys" where
  "sys_log c s = s\<lparr>trace := trace s @ [c]\<rparr>"

definition sys_int :: "syscall \<Rightarrow> sys \<Rightarrow> (errno + int) outcome \<times> sys" where
  "sys_int c s =
     (case rets s of
        [] \<Rightarrow> (Blocked, s)
      | r # rs \<Rightarrow> (Ok r, sys_log c (s\<lparr>rets := rs\<rparr>)))"

definition c_pipe :: "sys \<Rightarrow> (errno + int \<times> int) outcome \<times> sys" where
  "c_pipe s =
     (case pipes s of
        [] \<Rightarrow> (Blocked, s)
      | r # rs \<Rightarrow> (Ok r, sys_log Sys_pipe (s\<lparr>pipes := rs\<rparr>)))"

definition c_waitpid :: "int \<Rightarrow> sys \<Rightarrow> (errno + wait_status) outcome \<times> sys" where
  "c_waitpid pid s =
     (case exits s of
        [] \<Rightarrow> (Blocked, s)
      | r # rs \<Rightarrow> (Ok r, sys_log (Sys_waitpid pid) (s\<lparr>exits := rs\<rparr>)))"

text \<open>A call whose result is not looked at.\<close>

definition sys_ignored :: "syscall \<Rightarrow> sys \<Rightarrow> unit outcome \<times> sys" where
  "sys_ignored c s = (Ok (), sys_log c s)"

text \<open>A call on the input and output part of the system.\<close>

definition on_io :: "(os \<Rightarrow> 'a outcome \<times> os) \<Rightarrow> sys \<Rightarrow> 'a outcome \<times> sys" where
  "on_io f s = (case f (io s) of (r, w) \<Rightarrow> (r, s\<lparr>io := w\<rparr>))"

lemma on_io_simps [simp]: "f (io s) = (r, w) \<Longrightarrow> on_io f s = (r, s\<lparr>io := w\<rparr>)"
  by (simp add: on_io_def)

text \<open>
  A call whose failure ends the computation with a status: \<open>fail\<close> translates \<open>errno\<close> and \<open>k\<close> goes
  on with the result.
\<close>

definition or_fail :: "(errno \<Rightarrow> 'b) \<Rightarrow> ('s \<Rightarrow> (errno + 'a) outcome \<times> 's)
    \<Rightarrow> ('a \<Rightarrow> 's \<Rightarrow> 'b outcome \<times> 's) \<Rightarrow> 's \<Rightarrow> 'b outcome \<times> 's" where
  "or_fail fail m k =
     bind_state m (\<lambda>r. case r of Inl e \<Rightarrow> Pair (Ok (fail e)) | Inr x \<Rightarrow> k x)"

lemma or_fail_Ok:
  "or_fail fail m k s = (Ok r, s') \<longleftrightarrow>
   (\<exists>e. m s = (Ok (Inl e), s') \<and> r = fail e) \<or> (\<exists>y s1. m s = (Ok (Inr y), s1) \<and> k y s1 = (Ok r, s'))"
  unfolding or_fail_def bind_state_eq_Ok split_sum_ex
  by (simp only: sum.case prod.inject outcome.inject ex_disj_distrib) blast

section \<open>The calls that a computation makes\<close>

text \<open>A computation extends the trace, and only with calls of one kind.\<close>

definition logs :: "(syscall \<Rightarrow> bool) \<Rightarrow> (sys \<Rightarrow> 'a outcome \<times> sys) \<Rightarrow> bool" where
  "logs P m \<longleftrightarrow> (\<forall>s r s'. m s = (r, s') \<longrightarrow> (\<exists>cs. trace s' = trace s @ cs \<and> (\<forall>c \<in> set cs. P c)))"

lemma logsI:
  "(\<And>s r s'. m s = (r, s') \<Longrightarrow> \<exists>cs. trace s' = trace s @ cs \<and> (\<forall>c \<in> set cs. P c)) \<Longrightarrow> logs P m"
  by (simp add: logs_def)

lemma logsD: "logs P m \<Longrightarrow> m s = (r, s') \<Longrightarrow> \<exists>cs. trace s' = trace s @ cs \<and> (\<forall>c \<in> set cs. P c)"
  by (simp add: logs_def)

named_theorems logs_rules

lemma logs_Pair [logs_rules]: "logs P (Pair r)"
  by (simp add: logs_def)

lemma logs_sys_int [logs_rules]: "P c \<Longrightarrow> logs P (sys_int c)"
  by (auto simp: logs_def sys_int_def sys_log_def split: list.splits)

lemma bind_state_stop:
  "m s = (x, s1) \<Longrightarrow> (\<And>y. x \<noteq> Ok y) \<Longrightarrow> bind_state m f s = (r, s') \<Longrightarrow> s' = s1"
  by (auto simp: bind_state_def split: outcome.splits)

lemma logs_c_waitpid [logs_rules]: "P (Sys_waitpid pid) \<Longrightarrow> logs P (c_waitpid pid)"
  by (auto simp: logs_def c_waitpid_def sys_log_def split: list.splits)

lemma logs_sys_ignored [logs_rules]: "P c \<Longrightarrow> logs P (sys_ignored c)"
  by (auto simp: logs_def sys_ignored_def sys_log_def)

lemma logs_bind [logs_rules]:
  assumes m: "logs P m" and f: "\<And>x. logs P (f x)"
  shows "logs P (bind_state m f)"
proof (rule logsI)
  fix s r s'
  assume b: "bind_state m f s = (r, s')"
  obtain x s1 where x: "m s = (x, s1)" by fastforce
  obtain cs where cs: "trace s1 = trace s @ cs" "\<forall>c \<in> set cs. P c" using logsD [OF m x] by blast
  show "\<exists>cs. trace s' = trace s @ cs \<and> (\<forall>c \<in> set cs. P c)"
  proof (cases "\<exists>y. x = Ok y")
    case True
    then obtain y where Ok: "x = Ok y" by blast
    with b x have "f y s1 = (r, s')" by simp
    from logsD [OF f this] obtain ds where "trace s' = trace s1 @ ds" "\<forall>c \<in> set ds. P c" by blast
    with cs show ?thesis by (intro exI [of _ "cs @ ds"]) auto
  next
    case False
    with bind_state_stop [OF x _ b] have "s' = s1" by blast
    with cs show ?thesis by blast
  qed
qed

lemma logs_mono: "logs P m \<Longrightarrow> (\<And>c. P c \<Longrightarrow> Q c) \<Longrightarrow> logs Q m"
  by (rule logsI) (blast dest: logsD)

text \<open>
  A call that the first part of a computation cannot make is made by the second, after the first
  has succeeded.
\<close>

lemma logs_bind_reached:
  assumes m: "logs P m" and f: "\<And>x. logs Q (f x)"
    and b: "bind_state m f s = (r, s')" and t: "trace s' = trace s @ cs" and c: "c \<in> set cs" "\<not> P c"
  shows "\<exists>x s1 cs1 cs2. m s = (Ok x, s1) \<and> trace s1 = trace s @ cs1 \<and> (\<forall>c \<in> set cs1. P c) \<and> cs = cs1 @ cs2
    \<and> f x s1 = (r, s') \<and> trace s' = trace s1 @ cs2 \<and> c \<in> set cs2"
proof -
  obtain x s1 where x: "m s = (x, s1)" by fastforce
  obtain cs1 where cs1: "trace s1 = trace s @ cs1" "\<forall>c \<in> set cs1. P c" using logsD [OF m x] by blast
  show ?thesis
  proof (cases "\<exists>y. x = Ok y")
    case True
    then obtain y where Ok: "x = Ok y" by blast
    with b x have fy: "f y s1 = (r, s')" by simp
    from logsD [OF f this] obtain ds where ds: "trace s' = trace s1 @ ds" by blast
    with t cs1 have "cs = cs1 @ ds" by simp
    with x Ok fy ds cs1 c show ?thesis by auto
  next
    case False
    with bind_state_stop [OF x _ b] have "s' = s1" by blast
    with cs1 c t show ?thesis by auto
  qed
qed

end
