(* ===== verification/Port.thy ===== *)
theory Port
  imports Port_Types Sys
begin

text \<open>
  The port library of the spawning program (\<^verbatim>\<open>port.cpp\<close>, namespace \<open>GEPD\<close>): framed commands on
  descriptors 3 and 4, the dispatch of a command to a port function, the capture of output
  streams line by line, and the wait loop over all descriptors. The state is the globals and the
  buffers that \<open>main\<close> passes down; the functions of the port are a table, a parameter of the
  dispatch.
\<close>

section \<open>Commands\<close>

definition gepd_read_exact :: "nat \<Rightarrow> os \<Rightarrow> (exit_status \<times> bytes) outcome \<times> os" where
  "gepd_read_exact len w =
     read_loop gepd_errno_read gepd_read_null gepd_read_overflow gepd_success 3 len [] w"

definition gepd_write_exact :: "byte realloc_ptr \<Rightarrow> nat \<Rightarrow> os \<Rightarrow> exit_status outcome \<times> os" where
  "gepd_write_exact buf len w =
     (case rp_get 0 len buf of
        Ok bs \<Rightarrow> write_loop gepd_errno_write gepd_write_null gepd_write_overflow gepd_success 4 bs 0 w
      | _ \<Rightarrow> (Undefined, w))"

text \<open>The answer of \<open>reserve\<close> is not looked at: a message past the maximum is read past the block.\<close>

definition read_cmd :: "byte realloc_ptr \<Rightarrow> os \<Rightarrow> (exit_status \<times> byte realloc_ptr) outcome \<times> os" where
  "read_cmd buf w =
     (case gepd_read_exact 4 w of
        (Ok (status, lengthData), w1) \<Rightarrow>
          if status \<noteq> gepd_success then (Ok (status, buf), w1)
          else
            (let len = unat (be32_of (lengthData ! 0) (lengthData ! 1) (lengthData ! 2) (lengthData ! 3))
             in case c_reserve len buf w1 of
                  (Ok (_, buf'), w2) \<Rightarrow>
                    (case gepd_read_exact len w2 of
                       (Ok (status, body), w3) \<Rightarrow>
                         (case rp_put 0 body buf' of
                            Ok buf'' \<Rightarrow> (Ok (status, buf''), w3)
                          | _ \<Rightarrow> (Undefined, w3))
                     | (_, w3) \<Rightarrow> (Blocked, w3))
                | (_, w2) \<Rightarrow> (Blocked, w2))
      | (_, w1) \<Rightarrow> (Blocked, w1))"

definition write_cmd :: "byte realloc_ptr \<Rightarrow> nat \<Rightarrow> os \<Rightarrow> (exit_status \<times> byte realloc_ptr) outcome \<times> os" where
  "write_cmd buf len w =
     (if m_size buf < 4 then (Raise assert_exception, w)
      else
        (case rp_put 0 (be32_bytes (word_of_nat len)) buf of
           Ok buf' \<Rightarrow>
             (case gepd_write_exact buf' ((len + 4) mod 2 ^ 32) w of
                (Ok status, w') \<Rightarrow> (Ok (status, buf'), w')
              | (Undefined, w') \<Rightarrow> (Undefined, w')
              | (_, w') \<Rightarrow> (Blocked, w'))
         | _ \<Rightarrow> (Undefined, w)))"

text \<open>
  The status of a failed encoding, and a whole message: the terms from offset 4 on, then
  \<open>write_cmd\<close> with what is between.
\<close>

definition encode_status :: "cloudi_status \<Rightarrow> exit_status" where
  "encode_status st =
     (if st = cloudi_success then gepd_success
      else if st = cloudi_error_write_overflow then gepd_write_overflow
      else gepd_ei_encode_error)"

definition emit_cmd :: "ei_encoder \<Rightarrow> emit_step list \<Rightarrow> byte realloc_ptr \<Rightarrow> os
    \<Rightarrow> (exit_status \<times> byte realloc_ptr) outcome \<times> os" where
  "emit_cmd ei steps buf w =
     (case emit ei steps 4 buf w of
        (Ok (st, index, buf'), w') \<Rightarrow>
          if st \<noteq> cloudi_success then (Ok (encode_status st, buf'), w') else write_cmd buf' (index - 4) w'
      | (Raise e, w') \<Rightarrow> (Raise e, w')
      | (Undefined, w') \<Rightarrow> (Undefined, w')
      | (Exited i, w') \<Rightarrow> (Exited i, w')
      | (Blocked, w') \<Rightarrow> (Blocked, w'))"

definition invalid_function :: bytes where
  "invalid_function = cstr ''Invalid function call''"

definition reply_error_string :: "nat \<Rightarrow> bytes \<Rightarrow> emit_step list" where
  "reply_error_string cmd str =
     [Encode ei_version, Encode (ei_tuple_header 3), Encode (ei_atom (cstr ''error'')),
      Encode (ei_ulong cmd), Reserve (length str + 1), Encode (ei_string str)]"

section \<open>State\<close>

record pollfd =
  pfd :: int
  events :: nat
  revents :: nat

definition POLLIN :: nat where "POLLIN = 1"
definition POLLPRI :: nat where "POLLPRI = 2"
definition POLLERR :: nat where "POLLERR = 8"
definition POLLHUP :: nat where "POLLHUP = 16"
definition POLLNVAL :: nat where "POLLNVAL = 32"

definition has_event :: "nat \<Rightarrow> nat \<Rightarrow> bool" where
  "has_event r ev \<longleftrightarrow> r AND ev \<noteq> 0"

definition INDEX_STDOUT :: nat where "INDEX_STDOUT = 0"
definition INDEX_STDERR :: nat where "INDEX_STDERR = 1"
definition INDEX_ERLANG :: nat where "INDEX_ERLANG = 2"

text \<open>
  The globals \<open>fds\<close> and \<open>nfds\<close>, the buffers of \<open>main\<close> and the static indexes of \<open>wait\<close>. A program
  extends the record with its own globals.
\<close>

record port =
  fds :: "pollfd realloc_ptr"
  nfds :: nat
  erlang_buffer :: "byte realloc_ptr"
  stream1 :: "byte realloc_ptr"
  stream2 :: "byte realloc_ptr"
  index_stream1 :: nat
  index_stream2 :: nat

type_synonym ('x, 'a) port_call = "'x port_scheme \<times> sys \<Rightarrow> 'a outcome \<times> 'x port_scheme \<times> sys"

text \<open>An entry of \<open>PORT_FUNCTIONS\<close>: the argument types, the return type and the C++ function.\<close>

record 'x port_function =
  argv_types :: "port_type list"
  return_type :: port_type
  function_body :: "port_value list \<Rightarrow> ('x, port_value) port_call"

section \<open>The dispatch\<close>

text \<open>
  A call that works on the command buffer and the input and output.
\<close>

definition with_buffer :: "(byte realloc_ptr \<Rightarrow> os \<Rightarrow> ('a \<times> byte realloc_ptr) outcome \<times> os)
    \<Rightarrow> ('x, 'a) port_call" where
  "with_buffer f = (\<lambda>(p, s).
     case on_io (f (erlang_buffer p)) s of
       (Ok (a, buf), s') \<Rightarrow> (Ok a, (p\<lparr>erlang_buffer := buf\<rparr>, s'))
     | (Raise e, s') \<Rightarrow> (Raise e, (p, s'))
     | (Undefined, s') \<Rightarrow> (Undefined, (p, s'))
     | (Exited i, s') \<Rightarrow> (Exited i, (p, s'))
     | (Blocked, s') \<Rightarrow> (Blocked, (p, s')))"

text \<open>\<open>CREATE_FUNCTION\<close>: one case of the switch.\<close>

definition call_port_function :: "ei_encoder \<Rightarrow> nat \<Rightarrow> 'x port_function \<Rightarrow> ('x, exit_status) port_call" where
  "call_port_function ei cmd f = (\<lambda>(p, s).
     case bind_outcome (argument_offsets (argv_types f) 2 (erlang_buffer p))
            (get_arguments (erlang_buffer p) (argv_types f)) of
       Ok vs \<Rightarrow>
         bind_state (function_body f vs)
           (\<lambda>r. with_buffer (emit_cmd ei (store_return_value (return_type f) cmd r))) (p, s)
     | Raise e \<Rightarrow> (Raise e, (p, s))
     | _ \<Rightarrow> (Undefined, (p, s)))"

definition consume_erlang :: "ei_encoder \<Rightarrow> (nat \<Rightarrow> 'x port_function option) \<Rightarrow> nat \<Rightarrow> ('x, exit_status) port_call" where
  "consume_erlang ei fns r =
     (if has_event r POLLERR then Pair (Ok gepd_poll_ERR)
      else if has_event r POLLHUP then Pair (Ok gepd_erlang_exit)
      else if has_event r POLLNVAL then Pair (Ok gepd_poll_NVAL)
      else
        bind_state (with_buffer read_cmd) (\<lambda>status.
          if status \<noteq> gepd_success then Pair (Ok status)
          else (\<lambda>(p, s).
            case rp_get 0 2 (erlang_buffer p) of
              Ok bs \<Rightarrow>
                (let cmd = le_nat bs
                 in case fns cmd of
                      Some f \<Rightarrow> call_port_function ei cmd f (p, s)
                    | None \<Rightarrow> with_buffer (emit_cmd ei (reply_error_string cmd invalid_function)) (p, s))
            | _ \<Rightarrow> (Undefined, (p, s)))))"

section \<open>Output streams\<close>

definition gepd_data_ready :: "os \<Rightarrow> (exit_status \<times> bool option) outcome \<times> os" where
  "gepd_data_ready w =
     (case c_poll 1 w of
        (Ok (Inl e), w') \<Rightarrow> (Ok (gepd_errno_poll e, None), w')
      | (Ok (Inr rs), w') \<Rightarrow> (Ok (gepd_success, Some (poll_count rs = 1)), w')
      | (_, w') \<Rightarrow> (Blocked, w'))"

definition c_grow :: "'a realloc_ptr \<Rightarrow> os \<Rightarrow> (bool \<times> 'a realloc_ptr) \<times> os" where
  "c_grow p w =
     (let ok = (case allocs w of [] \<Rightarrow> True | b # _ \<Rightarrow> b);
          w' = (if m_size p * 2 mod 2 ^ 64 \<le> m_maxSize p then w\<lparr>allocs := tl (allocs w)\<rparr> else w)
      in (rp_grow ok p, w'))"

text \<open>
  The loop of \<open>consume_stream\<close> and \<open>flush_stream\<close>: read what fits; while a read fills the stream
  and the stream can grow, go on if more is ready. It returns \<open>readBytes\<close> (or the error), the
  stream and \<open>i\<close>. \<open>ready\<close> stays true when polling fails.
\<close>

function stream_read :: "int \<Rightarrow> byte realloc_ptr \<Rightarrow> nat \<Rightarrow> os
    \<Rightarrow> ((errno + nat) \<times> byte realloc_ptr \<times> nat) outcome \<times> os" where
  "stream_read fd stm i w =
     (if \<not> i < m_size stm then (Raise assert_exception, w)
      else
        (let left = m_size stm - i
         in case c_read fd left w of
              (Ok (Inl e), w1) \<Rightarrow> (Ok (Inl e, stm, i), w1)
            | (Ok (Inr bs), w1) \<Rightarrow>
                (case rp_put i bs stm of
                   Ok stm1 \<Rightarrow>
                     if length bs \<noteq> left then (Ok (Inr (length bs), stm1, i), w1)
                     else
                       (case c_grow stm1 w1 of
                          ((False, stm2), w2) \<Rightarrow> (Ok (Inr (length bs), stm2, i), w2)
                        | ((True, stm2), w2) \<Rightarrow>
                            (case gepd_data_ready w2 of
                               (Ok (_, ready), w3) \<Rightarrow>
                                 if ready = Some False then (Ok (Inr (length bs), stm2, i + left), w3)
                                 else stream_read fd stm2 (i + left) w3
                             | (_, w3) \<Rightarrow> (Blocked, w3)))
                 | _ \<Rightarrow> (Undefined, w1))
            | (_, w1) \<Rightarrow> (Blocked, w1)))"
  by pat_completeness auto

lemma c_read_polls': "c_read fd n w = (r, w') \<Longrightarrow> polls w' = polls w"
  by (auto simp: c_read_def split: list.splits rd_answer.splits)

lemma c_grow_polls: "c_grow p w = (r, w') \<Longrightarrow> polls w' = polls w"
  by (auto simp: c_grow_def Let_def split: if_splits)

lemma gepd_data_ready_polls: "gepd_data_ready w = (Ok r, w') \<Longrightarrow> length (polls w') < length (polls w)"
  by (auto simp: gepd_data_ready_def c_poll_def split: list.splits poll_answer.splits)

termination stream_read
proof (relation "measure (\<lambda>(fd, stm, i, w). length (polls w))", goal_cases)
  case 1
  show ?case by simp
next
  case (2 fd stm i w)
  then show ?case
    by (metis (no_types, lifting) c_read_polls' c_grow_polls gepd_data_ready_polls case_prod_conv in_measure)
qed

declare stream_read.simps [simp del]

text \<open>The scan for the last newline among the first \<open>n\<close> bytes of the stream.\<close>

fun last_newline :: "byte realloc_ptr \<Rightarrow> nat \<Rightarrow> nat option outcome" where
  "last_newline stm 0 = Ok None"
| "last_newline stm (Suc j) =
     bind_outcome (rp_at stm j) (\<lambda>b. if b = 10 then Ok (Some j) else last_newline stm j)"

text \<open>
  The message of a stream: \<open>{Name, Pid, Text}\<close> with the first \<open>n\<close> bytes of the stream as text.
\<close>

definition send_stream :: "ei_encoder \<Rightarrow> string \<Rightarrow> nat \<Rightarrow> byte realloc_ptr \<Rightarrow> nat \<Rightarrow> byte realloc_ptr \<Rightarrow> os
    \<Rightarrow> (exit_status \<times> byte realloc_ptr) outcome \<times> os" where
  "send_stream ei name pid stm n sbuf w =
     (case emit ei [Encode ei_version, Encode (ei_tuple_header 3), Encode (ei_atom (cstr name)),
                    Encode (ei_ulong pid), Reserve ((n + 1) mod 2 ^ 64)] 4 sbuf w of
        (Ok (st, index, sbuf1), w1) \<Rightarrow>
          if st \<noteq> cloudi_success then (Ok (encode_status st, sbuf1), w1)
          else
            (case rp_get 0 n stm of
               Ok contents \<Rightarrow>
                 (case emit ei [Encode (ei_string contents)] index sbuf1 w1 of
                    (Ok (st, index, sbuf2), w2) \<Rightarrow>
                      if st \<noteq> cloudi_success then (Ok (encode_status st, sbuf2), w2)
                      else write_cmd sbuf2 (index - 4) w2
                  | (Raise e, w2) \<Rightarrow> (Raise e, w2)
                  | (Undefined, w2) \<Rightarrow> (Undefined, w2)
                  | (Exited k, w2) \<Rightarrow> (Exited k, w2)
                  | (Blocked, w2) \<Rightarrow> (Blocked, w2))
             | _ \<Rightarrow> (Undefined, w1))
      | (Raise e, w1) \<Rightarrow> (Raise e, w1)
      | (Undefined, w1) \<Rightarrow> (Undefined, w1)
      | (Exited k, w1) \<Rightarrow> (Exited k, w1)
      | (Blocked, w1) \<Rightarrow> (Blocked, w1))"

text \<open>
  Both stream functions return the status with the new \<open>revents\<close>, send buffer, stream and index.
\<close>

record stream_result =
  sr_status :: exit_status
  sr_revents :: nat
  sr_send :: "byte realloc_ptr"
  sr_stream :: "byte realloc_ptr"
  sr_index :: nat

text \<open>What happens after the scan: the lines are sent, the rest is moved to the front.\<close>

definition consume_lines :: "ei_encoder \<Rightarrow> string \<Rightarrow> nat \<Rightarrow> byte realloc_ptr \<Rightarrow> byte realloc_ptr \<Rightarrow> nat \<Rightarrow> os
    \<Rightarrow> stream_result outcome \<times> os" where
  "consume_lines ei name pid sbuf stm i w =
     (let result = (\<lambda>st sb sm k. \<lparr>sr_status = st, sr_revents = 0, sr_send = sb, sr_stream = sm, sr_index = k\<rparr>)
      in case last_newline stm i of
           Ok None \<Rightarrow> (Ok (result gepd_success sbuf stm i), w)
         | Ok (Some nl) \<Rightarrow>
             (case send_stream ei name pid stm (nl + 1) sbuf w of
                (Ok (status, sbuf'), w1) \<Rightarrow>
                  if status \<noteq> gepd_success then (Ok (result status sbuf' stm i), w1)
                  else if nl = i - 1 then (Ok (result gepd_success sbuf' stm 0), w1)
                  else
                    (case rp_move True (nl + 1) (i - nl - 1) 0 stm of
                       Ok (_, stm') \<Rightarrow> (Ok (result gepd_success sbuf' stm' (i - nl - 1)), w1)
                     | _ \<Rightarrow> (Undefined, w1))
              | (Raise e, w1) \<Rightarrow> (Raise e, w1)
              | (Blocked, w1) \<Rightarrow> (Blocked, w1)
              | (_, w1) \<Rightarrow> (Undefined, w1))
         | Raise e \<Rightarrow> (Raise e, w)
         | _ \<Rightarrow> (Undefined, w))"

definition consume_stream :: "ei_encoder \<Rightarrow> int \<Rightarrow> nat \<Rightarrow> string \<Rightarrow> nat \<Rightarrow> byte realloc_ptr \<Rightarrow> byte realloc_ptr
    \<Rightarrow> nat \<Rightarrow> os \<Rightarrow> stream_result outcome \<times> os" where
  "consume_stream ei fd r name pid sbuf stm i w =
     (let stop = (\<lambda>st. \<lparr>sr_status = st, sr_revents = r, sr_send = sbuf, sr_stream = stm, sr_index = i\<rparr>)
      in if has_event r POLLERR then (Ok (stop gepd_poll_ERR), w)
         else if has_event r POLLHUP then (Ok (stop gepd_poll_HUP), w)
         else if has_event r POLLNVAL then (Ok (stop gepd_poll_NVAL), w)
         else
           (case stream_read fd stm i w of
              (Ok (readBytes, stm1, i1), w1) \<Rightarrow>
                (case readBytes of
                   Inl e \<Rightarrow>
                     (Ok \<lparr>sr_status = gepd_errno_read e, sr_revents = 0, sr_send = sbuf, sr_stream = stm1,
                           sr_index = i1\<rparr>, w1)
                 | Inr n \<Rightarrow>
                     if n = 0 \<and> i1 = 0 then
                       (Ok \<lparr>sr_status = gepd_success, sr_revents = 0, sr_send = sbuf, sr_stream = stm1,
                             sr_index = i1\<rparr>, w1)
                     else consume_lines ei name pid sbuf stm1 (i1 + n) w1)
            | (Raise e, w1) \<Rightarrow> (Raise e, w1)
            | (Blocked, w1) \<Rightarrow> (Blocked, w1)
            | (_, w1) \<Rightarrow> (Undefined, w1)))"

text \<open>
  \<open>total = i - 1\<close> is a \<open>size_t\<close>: nothing read at index 0 is excluded except after a read error,
  where it wraps.
\<close>

definition flush_stream :: "ei_encoder \<Rightarrow> int \<Rightarrow> nat \<Rightarrow> string \<Rightarrow> nat \<Rightarrow> byte realloc_ptr \<Rightarrow> byte realloc_ptr
    \<Rightarrow> nat \<Rightarrow> os \<Rightarrow> stream_result outcome \<times> os" where
  "flush_stream ei fd r name pid sbuf stm i w =
     (let result = (\<lambda>st sb sm k. \<lparr>sr_status = st, sr_revents = r, sr_send = sb, sr_stream = sm, sr_index = k\<rparr>)
      in if \<not> has_event r POLLIN then (Ok (result gepd_success sbuf stm i), w)
         else
           (case stream_read fd stm i w of
              (Ok (readBytes, stm1, i1), w1) \<Rightarrow>
                if readBytes = Inr 0 \<and> i1 = 0 then (Ok (result gepd_success sbuf stm1 i1), w1)
                else
                  (let i2 = (case readBytes of Inl _ \<Rightarrow> i1 | Inr n \<Rightarrow> i1 + n);
                       total = (if i2 = 0 then 2 ^ 64 - 1 else i2 - 1)
                   in case send_stream ei name pid stm1 total sbuf w1 of
                        (Ok (status, sbuf'), w2) \<Rightarrow> (Ok (result status sbuf' stm1 0), w2)
                      | (Raise e, w2) \<Rightarrow> (Raise e, w2)
                      | (Blocked, w2) \<Rightarrow> (Blocked, w2)
                      | (_, w2) \<Rightarrow> (Undefined, w2))
            | (Raise e, w1) \<Rightarrow> (Raise e, w1)
            | (Blocked, w1) \<Rightarrow> (Blocked, w1)
            | (_, w1) \<Rightarrow> (Undefined, w1)))"

section \<open>Initialisation and the wait loop\<close>

definition store_standard_fd :: "int \<Rightarrow> sys \<Rightarrow> (exit_status + int) outcome \<times> sys" where
  "store_standard_fd fd_in =
     or_fail (Inl \<circ> gepd_errno_pipe) c_pipe (\<lambda>(fds0, fds1).
     or_fail (Inl \<circ> gepd_errno_dup) (sys_int (Sys_dup2 fds1 fd_in)) (\<lambda>_.
     or_fail (Inl \<circ> gepd_errno_close) (sys_int (Sys_close fds1)) (\<lambda>_.
     Pair (Ok (Inr fds0)))))"

definition on_sys :: "(sys \<Rightarrow> 'a outcome \<times> sys) \<Rightarrow> ('x, 'a) port_call" where
  "on_sys f = (\<lambda>(p, s). case f s of (r, s') \<Rightarrow> (r, (p, s')))"

text \<open>The three assignments to an entry of \<open>fds\<close>.\<close>

definition set_pollfd :: "nat \<Rightarrow> int \<Rightarrow> ('x, unit) port_call" where
  "set_pollfd k fd = (\<lambda>(p, s).
     case rp_assign (fds p) k \<lparr>pfd = fd, events = POLLIN OR POLLPRI, revents = 0\<rparr> of
       Ok t \<Rightarrow> (Ok (), (p\<lparr>fds := t\<rparr>, s))
     | Raise e \<Rightarrow> (Raise e, (p, s))
     | _ \<Rightarrow> (Undefined, (p, s)))"

definition move_fds :: "('x, unit) port_call" where
  "move_fds = (\<lambda>(p, s).
     if nfds p = 0 then (Ok (), (p, s))
     else
       (let ok = (case allocs (io s) of [] \<Rightarrow> True | b # _ \<Rightarrow> b);
            s' = (if m_size (fds p) \<le> nfds p + 3 \<and> nfds p + 3 \<le> m_maxSize (fds p)
                  then s\<lparr>io := (io s)\<lparr>allocs := tl (allocs (io s))\<rparr>\<rparr> else s)
        in case rp_move ok 0 (nfds p) 3 (fds p) of
             Ok (_, t) \<Rightarrow> (Ok (), (p\<lparr>fds := t\<rparr>, s'))
           | Blocked \<Rightarrow> (Blocked, (p, s'))
           | _ \<Rightarrow> (Undefined, (p, s'))))"

definition gepd_init :: "('x, exit_status) port_call" where
  "gepd_init =
     bind_state move_fds (\<lambda>_.
     bind_state (on_sys (store_standard_fd 1)) (\<lambda>r1.
     case r1 of
       Inl status \<Rightarrow> Pair (Ok status)
     | Inr fd1 \<Rightarrow>
         bind_state (set_pollfd INDEX_STDOUT fd1) (\<lambda>_.
         bind_state (on_sys (store_standard_fd 2)) (\<lambda>r2.
         case r2 of
           Inl status \<Rightarrow> Pair (Ok status)
         | Inr fd2 \<Rightarrow>
             bind_state (set_pollfd INDEX_STDERR fd2) (\<lambda>_.
             bind_state (set_pollfd INDEX_ERLANG 3) (\<lambda>_.
             (\<lambda>(p, s). (Ok gepd_success, (p\<lparr>nfds := nfds p + 3\<rparr>, s)))))))))"

text \<open>
  \<open>poll\<close> on all descriptors stores the events it reports. The statuses of one round of \<open>wait\<close>:
  \<open>Inl\<close> leaves the loop with a status, \<open>Inr\<close> is what is left of \<open>count\<close>.
\<close>

definition store_revents :: "nat list \<Rightarrow> pollfd realloc_ptr \<Rightarrow> pollfd realloc_ptr outcome" where
  "store_revents rs t =
     bind_outcome (rp_get 0 (length rs) t) (\<lambda>ps.
     rp_put 0 (map2 (\<lambda>pf r. pf\<lparr>revents := r\<rparr>) ps rs) t)"

definition poll_fds :: "('x, exit_status + nat) port_call" where
  "poll_fds = (\<lambda>(p, s).
     case c_poll (nfds p) (io s) of
       (Ok (Inl e), w) \<Rightarrow> (Ok (Inl (gepd_errno_poll e)), (p, s\<lparr>io := w\<rparr>))
     | (Ok (Inr rs), w) \<Rightarrow>
         (case store_revents rs (fds p) of
            Ok t \<Rightarrow>
              (Ok (if poll_count rs = 0 then Inl gepd_timeout else Inr (poll_count rs)),
               (p\<lparr>fds := t\<rparr>, s\<lparr>io := w\<rparr>))
          | _ \<Rightarrow> (Undefined, (p, s\<lparr>io := w\<rparr>)))
     | (_, w) \<Rightarrow> (Blocked, (p, s\<lparr>io := w\<rparr>)))"

text \<open>An entry of \<open>fds\<close>, and its \<open>revents\<close> set.\<close>

definition pollfd_at :: "nat \<Rightarrow> ('x, pollfd) port_call" where
  "pollfd_at k = (\<lambda>(p, s). (rp_at (fds p) k, (p, s)))"

definition set_revents :: "nat \<Rightarrow> nat \<Rightarrow> ('x, unit) port_call" where
  "set_revents k r = (\<lambda>(p, s).
     case bind_outcome (rp_at (fds p) k) (\<lambda>pf. rp_assign (fds p) k (pf\<lparr>revents := r\<rparr>)) of
       Ok t \<Rightarrow> (Ok (), (p\<lparr>fds := t\<rparr>, s))
     | Raise e \<Rightarrow> (Raise e, (p, s))
     | _ \<Rightarrow> (Undefined, (p, s)))"

definition wait_erlang :: "ei_encoder \<Rightarrow> (nat \<Rightarrow> 'x port_function option) \<Rightarrow> nat \<Rightarrow> ('x, exit_status + nat) port_call" where
  "wait_erlang ei fns count =
     bind_state (pollfd_at INDEX_ERLANG) (\<lambda>pf.
     if \<not> (0 < count \<and> revents pf \<noteq> 0) then Pair (Ok (Inr count))
     else
       bind_state (if has_event (revents pf) POLLERR \<or> has_event (revents pf) POLLHUP
                     \<or> has_event (revents pf) POLLNVAL then Pair (Ok ()) else set_revents INDEX_ERLANG 0) (\<lambda>_.
       bind_state (consume_erlang ei fns (revents pf)) (\<lambda>status.
       Pair (Ok (if status \<noteq> gepd_success then Inl status else Inr (count - 1))))))"

text \<open>
  One of the two own streams: the entry of \<open>fds\<close>, the name, and the stream and its index in the
  state (\<open>get\<close> and \<open>put\<close>). The processes of the spawning program use the same step on theirs.
\<close>

definition stream_step :: "(int \<Rightarrow> nat \<Rightarrow> string \<Rightarrow> nat \<Rightarrow> byte realloc_ptr \<Rightarrow> byte realloc_ptr \<Rightarrow> nat \<Rightarrow> os
      \<Rightarrow> stream_result outcome \<times> os) \<Rightarrow> nat \<Rightarrow> string \<Rightarrow> (sys \<Rightarrow> nat)
    \<Rightarrow> ('x port_scheme \<Rightarrow> byte realloc_ptr \<times> nat)
    \<Rightarrow> (byte realloc_ptr \<times> nat \<Rightarrow> 'x port_scheme \<Rightarrow> 'x port_scheme) \<Rightarrow> nat \<Rightarrow> ('x, exit_status + nat) port_call" where
  "stream_step f k name pid get put count =
     bind_state (pollfd_at k) (\<lambda>pf.
     if \<not> (0 < count \<and> revents pf \<noteq> 0) then Pair (Ok (Inr count))
     else
       bind_state (\<lambda>(p, s).
         case on_io (f (pfd pf) (revents pf) name (pid s) (erlang_buffer p) (fst (get p)) (snd (get p))) s of
           (Ok r, s') \<Rightarrow> (Ok r, (put (sr_stream r, sr_index r) (p\<lparr>erlang_buffer := sr_send r\<rparr>), s'))
         | (Raise e, s') \<Rightarrow> (Raise e, (p, s'))
         | (Blocked, s') \<Rightarrow> (Blocked, (p, s'))
         | (_, s') \<Rightarrow> (Undefined, (p, s'))) (\<lambda>r.
       bind_state (set_revents k (sr_revents r)) (\<lambda>_.
       Pair (Ok (if sr_status r \<noteq> gepd_success then Inl (sr_status r) else Inr (count - 1))))))"

definition wait_round :: "ei_encoder \<Rightarrow> (nat \<Rightarrow> 'x port_function option) \<Rightarrow> ('x, exit_status + nat) port_call" where
  "wait_round ei fns =
     (let go = (\<lambda>r k. case r of Inl status \<Rightarrow> Pair (Ok (Inl status)) | Inr count \<Rightarrow> k count)
      in bind_state poll_fds (\<lambda>r. go r (\<lambda>count.
         bind_state (wait_erlang ei fns count) (\<lambda>r. go r (\<lambda>count.
         bind_state (stream_step (consume_stream ei) INDEX_STDERR ''stderr'' self
             (\<lambda>p. (stream2 p, index_stream2 p))
             (\<lambda>(t, i) p. p\<lparr>stream2 := t, index_stream2 := i\<rparr>) count) (\<lambda>r. go r (\<lambda>count.
         stream_step (consume_stream ei) INDEX_STDOUT ''stdout'' self
             (\<lambda>p. (stream1 p, index_stream1 p))
             (\<lambda>(t, i) p. p\<lparr>stream1 := t, index_stream1 := i\<rparr>) count)))))))"

text \<open>
  \<open>wait\<close> repeats the round until it fails or events of other descriptors are left, whose number it
  passes back with the status \<open>ready\<close>. The loop may run forever: \<open>None\<close>.
\<close>

partial_function (option) wait_loop :: "ei_encoder \<Rightarrow> (nat \<Rightarrow> 'x port_function option) \<Rightarrow> 'x port_scheme \<times> sys
    \<Rightarrow> ((exit_status \<times> nat) outcome \<times> 'x port_scheme \<times> sys) option" where
  "wait_loop ei fns st =
     (case wait_round ei fns st of
        (Ok (Inl status), st') \<Rightarrow> Some (Ok (status, 0), st')
      | (Ok (Inr count), st') \<Rightarrow>
          if 0 < count then Some (Ok (gepd_ready, count), st') else wait_loop ei fns st'
      | (Raise e, st') \<Rightarrow> Some (Raise e, st')
      | (Undefined, st') \<Rightarrow> Some (Undefined, st')
      | (Exited i, st') \<Rightarrow> Some (Exited i, st')
      | (Blocked, st') \<Rightarrow> Some (Blocked, st'))"

definition gepd_wait :: "ei_encoder \<Rightarrow> (nat \<Rightarrow> 'x port_function option) \<Rightarrow> ('x, exit_status \<times> nat) port_call" where
  "gepd_wait ei fns st = (case wait_loop ei fns st of None \<Rightarrow> (Blocked, st) | Some r \<Rightarrow> r)"

text \<open>
  The objects \<open>fds (4, 65536)\<close>, \<open>buffer (32768, 4194304)\<close> and \<open>stream (1, 16384)\<close>, as the
  constructor of \<open>realloc_ptr\<close> leaves them (its sizes are in bytes, a \<open>pollfd\<close> has 8).
\<close>

definition gepd_array :: "nat \<Rightarrow> nat \<Rightarrow> 'a realloc_ptr" where
  "gepd_array initialSize maxSize =
     \<lparr>m_initialSize = initialSize, m_size = initialSize, m_maxSize = maxSize,
      m_p = (\<lambda>_. None), m_alloc = initialSize\<rparr>"

definition gepd_state :: port where
  "gepd_state =
     \<lparr>fds = gepd_array 32 524288, nfds = 0, erlang_buffer = gepd_array 32768 4194304,
      stream1 = gepd_array 1 16384, stream2 = gepd_array 1 16384, index_stream1 = 0, index_stream2 = 0\<rparr>"

definition default_main :: "ei_encoder \<Rightarrow> (nat \<Rightarrow> unit port_function option) \<Rightarrow> sys \<Rightarrow> exit_status outcome \<times> port \<times> sys" where
  "default_main ei fns s =
     bind_state gepd_init (\<lambda>status.
       if status \<noteq> gepd_success then Pair (Ok status)
       else bind_state (gepd_wait ei fns) (\<lambda>r. Pair (Ok (fst r)))) (gepd_state, s)"

lemma gepd_state_new:
  "realloc_ptr_new 8 4 65536 = Some (fds gepd_state)"
  "realloc_ptr_new 1 32768 4194304 = Some (erlang_buffer gepd_state)"
  "realloc_ptr_new 1 1 16384 = Some (stream1 gepd_state)"
  "realloc_ptr_new 1 1 16384 = Some (stream2 gepd_state)"
  by (simp_all add: realloc_ptr_new_def gepd_state_def gepd_array_def greater_pow2_def
    int_shift_one_def count_bits.simps)

end
