(* ===== verification/Port_Correct.thy ===== *)
theory Port_Correct
  imports Port
begin

text \<open>
  What the port library guarantees: a command reaches its function with the arguments that were
  sent, an unknown command is answered, complete lines of output are forwarded and the rest is
  kept; and where the capture of output goes wrong.
\<close>

section \<open>Messages\<close>

interpretation port_reader: framed_reader
  "\<lambda>fd n. read_loop gepd_errno_read gepd_read_null gepd_read_overflow gepd_success fd n []" gepd_success
proof (rule framed_reader_read_loop)
  show "gepd_errno_read e \<noteq> gepd_success" for e
    using gepd_errno_read_map.conv_nonzero [of e] by (metis exit_value.simps(1))
qed simp

lemma read_cmd_frame:
  assumes "rp_wf buf" and "\<not> dgram w 3" and "stream (rd w 3) = wire True body @ rest"
    and "length body < 2 ^ 32" and "can_reserve (length body) buf w"
  shows "\<exists>buf' w'. read_cmd buf w = (Ok (gepd_success, buf'), w') \<and> rp_wf buf'
    \<and> length body < m_size buf' \<and> mem_read 0 (length body) (m_p buf') = Some body
    \<and> m_size buf \<le> m_size buf' \<and> stream (rd w' 3) = rest \<and> wr w' = wr w \<and> written w' = written w"
proof -
  let ?len = "word_of_nat (length body) :: u32"
  have l: "length body = unat ?len" using assms(4) by (simp add: unat_of_nat take_bit_eq_mod)
  have st: "stream (rd w 3) = be32_bytes ?len @ body @ rest" using assms(3) by (simp add: wire_def)
  obtain b0 b1 b2 b3 as1 as2 where h: "gepd_read_exact 4 w = (Ok (gepd_success, [b0, b1, b2, b3]), set_rd 3 as1 w)"
      "be32_of b0 b1 b2 b3 = ?len" "stream as1 = body @ rest"
    using port_reader.read_frame [OF assms(2) st l] unfolding gepd_read_exact_def by blast
  let ?w = "set_rd 3 as1 w"
  have cr: "can_reserve (length body) buf ?w"
    using assms(5) by (simp add: can_reserve_def alloc_ok_def)
  obtain q bs where q: "c_reserve (length body) buf ?w = (Ok (True, q), ?w\<lparr>allocs := bs\<rparr>)" "rp_wf q"
      "length body < m_size q" "m_size buf \<le> m_size q"
    using c_reserve_cases [OF assms(1), of "length body" ?w] assms(4) cr by (fastforce simp: rp_extends_def)
  let ?v = "?w\<lparr>allocs := bs\<rparr>"
  have "\<not> dgram ?v 3" "stream (rd ?v 3) = body @ rest" using assms(2) h(3) by simp_all
  then obtain as where r: "gepd_read_exact (length body) ?v = (Ok (gepd_success, body), set_rd 3 as ?v)"
      "stream as = rest"
    using port_reader.rdx_stream [of ?v 3 "length body"] unfolding gepd_read_exact_def by auto
  have p: "rp_put 0 body q = Ok (q\<lparr>m_p := mem_write 0 body (m_p q)\<rparr>)"
    using q by (intro rp_put_ok) simp_all
  from h q(1) r p have "read_cmd buf w = (Ok (gepd_success, q\<lparr>m_p := mem_write 0 body (m_p q)\<rparr>), set_rd 3 as ?v)"
    by (simp add: read_cmd_def h(2) flip: l)
  moreover have "rp_wf (q\<lparr>m_p := mem_write 0 body (m_p q)\<rparr>)" using rp_wf_put [OF q(2) p] by simp
  ultimately show ?thesis using q(3,4) r(2) by simp
qed

lemma write_cmd_message:
  assumes "rp_wf buf" and "4 + length body \<le> m_size buf"
    and "mem_read 4 (length body) (m_p buf) = Some body" and "4 + length body < 2 ^ 32"
  shows "\<exists>buf'. rp_wf buf' \<and> m_size buf' = m_size buf \<and> m_maxSize buf' = m_maxSize buf
    \<and> write_cmd buf (length body) w
      = (case write_loop gepd_errno_write gepd_write_null gepd_write_overflow gepd_success 4
                (wire True body) 0 w of
           (Ok status, w') \<Rightarrow> (Ok (status, buf'), w')
         | (Undefined, w') \<Rightarrow> (Undefined, w')
         | (_, w') \<Rightarrow> (Blocked, w'))"
proof -
  let ?hdr = "be32_bytes (word_of_nat (length body))"
  let ?q = "buf\<lparr>m_p := mem_write 0 ?hdr (m_p buf)\<rparr>"
  have q: "rp_put 0 ?hdr buf = Ok ?q" using rp_put_ok [OF assms(1), of 0 ?hdr] assms(2) by simp
  then have wf: "rp_wf ?q" using rp_wf_put [OF assms(1)] by blast
  have "mem_read 0 4 (m_p ?q) = Some ?hdr" "mem_read 4 (length body) (m_p ?q) = Some body"
    using assms(3) by (simp_all add: mem_read_write_disjoint)
  then have "mem_read 0 (4 + length body) (m_p ?q) = Some (?hdr @ body)"
    using mem_read_append [of 0 4 "m_p ?q" ?hdr "length body" body] by simp
  then have g: "rp_get 0 (4 + length body) ?q = Ok (wire True body)"
    using assms(2) wf by (simp add: rp_get_def rp_wf_def wire_def)
  have n: "(length body + 4) mod 2 ^ 32 = 4 + length body" using assms(4) by simp
  show ?thesis
    using q wf g n assms(2) by (intro exI [of _ ?q]) (simp add: write_cmd_def gepd_write_exact_def)
qed

lemma write_loop_no_undefined: "write_loop err null overflow success fd bs tot w \<noteq> (Undefined, w')"
proof (induction err null overflow success fd bs tot w arbitrary: w' rule: write_loop.induct)
  case (1 err null overflow success fd bs tot w)
  show ?case
    by (subst write_loop.simps)
      (use 1 in \<open>auto simp: c_write_def split: list.splits wr_answer.splits if_splits\<close>)
qed

lemma gepd_errno_write_success [simp]: "gepd_errno_write e \<noteq> gepd_success"
  using gepd_errno_write_map.conv_nonzero [of e] by (metis exit_value.simps(1))

lemma encode_length:
  "fits ei ss index cap \<Longrightarrow> encode ei ss = Some bs \<Longrightarrow> index < 2 ^ 31 \<Longrightarrow> index + length bs < 2 ^ 31"
  by (induction ei ss index cap arbitrary: bs rule: fits.induct)
    (fastforce split: option.splits)+

text \<open>
  A message of the port: the terms behind their length. On success exactly that was sent on
  descriptor 4; a write that never ends is the only other way out.
\<close>

definition cmd_result :: "bytes option \<Rightarrow> byte realloc_ptr \<Rightarrow> os
    \<Rightarrow> (exit_status \<times> byte realloc_ptr) outcome \<times> os \<Rightarrow> bool" where
  "cmd_result enc buf w r \<longleftrightarrow>
     (\<exists>w'. r = (Blocked, w'))
     \<or> (\<exists>status buf' as bs ws. r = (Ok (status, buf'), w\<lparr>allocs := as, wr := bs, written := ws\<rparr>)
          \<and> rp_wf buf' \<and> m_size buf \<le> m_size buf' \<and> m_maxSize buf' = m_maxSize buf
          \<and> (\<forall>fd. fd \<noteq> 4 \<longrightarrow> sent (w\<lparr>written := ws\<rparr>) fd = sent w fd)
          \<and> (status = gepd_success \<longrightarrow>
               (\<exists>body. enc = Some body \<and> sent (w\<lparr>written := ws\<rparr>) 4 = sent w 4 @ wire True body)))"

lemma emit_cmd_result:
  assumes "rp_wf buf" and "fits ei steps 4 (m_size buf)" and "4 \<le> m_size buf"
  shows "cmd_result (encode ei steps) buf w (emit_cmd ei steps buf w)"
proof -
  obtain st index buf1 as where e: "emit ei steps 4 buf w = (Ok (st, index, buf1), w\<lparr>allocs := as\<rparr>)"
      "rp_wf buf1" "m_size buf \<le> m_size buf1" "m_maxSize buf1 = m_maxSize buf" "emit_status st"
      "st = cloudi_success \<longrightarrow> (\<exists>body. encode ei steps = Some body \<and> index = 4 + length body
         \<and> index \<le> m_size buf1 \<and> mem_read 4 (length body) (m_p buf1) = Some body)"
    using emit_fits [OF assms] unfolding emit_result_def by metis
  show ?thesis
  proof (cases "st = cloudi_success")
    case False
    then have "encode_status st \<noteq> gepd_success" by (simp add: encode_status_def)
    with False e show ?thesis
      unfolding cmd_result_def
      by (intro disjI2 exI [of _ "encode_status st"] exI [of _ buf1] exI [of _ as] exI [of _ "wr w"]
          exI [of _ "written w"]) (simp add: emit_cmd_def)
  next
    case True
    with e obtain body where b: "encode ei steps = Some body" "index = 4 + length body"
        "4 + length body \<le> m_size buf1" "mem_read 4 (length body) (m_p buf1) = Some body"
      by auto
    have "4 + length body < 2 ^ 32" using encode_length [OF assms(2) b(1)] by simp
    let ?w = "w\<lparr>allocs := as\<rparr>"
    let ?l = "write_loop gepd_errno_write gepd_write_null gepd_write_overflow gepd_success 4 (wire True body) 0 ?w"
    obtain q where q: "rp_wf q" "m_size q = m_size buf1" "m_maxSize q = m_maxSize buf1"
        "write_cmd buf1 (length body) ?w = (case ?l of
           (Ok status, w') \<Rightarrow> (Ok (status, q), w') | (Undefined, w') \<Rightarrow> (Undefined, w') | (_, w') \<Rightarrow> (Blocked, w'))"
      using write_cmd_message [OF e(2) b(3,4) \<open>4 + length body < 2 ^ 32\<close>] by blast
    have c: "emit_cmd ei steps buf w = write_cmd buf1 (length body) ?w"
      using True e(1) b(2) by (simp add: emit_cmd_def)
    show ?thesis
    proof (cases "\<exists>status w'. ?l = (Ok status, w')")
      case False
      then have "\<exists>w'. emit_cmd ei steps buf w = (Blocked, w')"
        using c q(4) by (auto simp: write_loop_no_undefined split: prod.splits outcome.splits)
      then show ?thesis by (simp add: cmd_result_def)
    next
      case True
      then obtain status w' where l: "?l = (Ok status, w')" by blast
      obtain k bs ws where k: "k \<le> length (wire True body)" "w' = ?w\<lparr>wr := bs, written := ws\<rparr>"
          "sent w' 4 = sent ?w 4 @ take k (wire True body)"
          "\<forall>fd. fd \<noteq> 4 \<longrightarrow> sent w' fd = sent ?w fd"
          "if k = length (wire True body) then status = gepd_success
           else status = gepd_write_null \<or> (\<exists>e. status = gepd_errno_write e)"
        using write_loop_sent [OF l] by auto
      have s: "sent w' fd = sent (w\<lparr>written := ws\<rparr>) fd" "sent ?w fd = sent w fd" for fd
        using k(2) by (auto simp: sent_def)
      have "status = gepd_success \<Longrightarrow> k = length (wire True body)"
        using k(5) by (auto split: if_splits dest: sym [of gepd_success])
      with c q k e(2-4) l b(1) show ?thesis
        unfolding cmd_result_def s
        by (intro disjI2 exI [of _ status] exI [of _ q] exI [of _ as] exI [of _ bs] exI [of _ ws]) auto
    qed
  qed
qed

section \<open>Commands\<close>

lemma rp_get_prefix:
  "rp_wf buf \<Longrightarrow> k \<le> n \<Longrightarrow> n \<le> m_size buf \<Longrightarrow> mem_read 0 n (m_p buf) = Some bs \<Longrightarrow>
   rp_get 0 k buf = Ok (take k bs)"
  using mem_read_split(1) [of 0 k "n - k" "m_p buf" bs] by (simp add: rp_get_def rp_wf_def)

lemma le_nat_cmd: "cmd < 2 ^ 16 \<Longrightarrow> le_nat (nat_le 2 cmd) = cmd"
  by (simp add: le_nat_nat_le)

lemma with_buffer_ok [simp]:
  "f (erlang_buffer p) (io s) = (Ok (a, buf), w) \<Longrightarrow>
   with_buffer f (p, s) = (Ok a, (p\<lparr>erlang_buffer := buf\<rparr>, s\<lparr>io := w\<rparr>))"
  by (simp add: with_buffer_def on_io_def)

text \<open>A command in the input: what is on the wire, and that the buffer can take it.\<close>

definition command_arrives :: "bytes \<Rightarrow> bytes \<Rightarrow> byte realloc_ptr \<Rightarrow> os \<Rightarrow> bool" where
  "command_arrives msg rest buf w \<longleftrightarrow>
     rp_wf buf \<and> \<not> dgram w 3 \<and> stream (rd w 3) = wire True msg @ rest \<and> length msg < 2 ^ 32
     \<and> can_reserve (length msg) buf w"

definition plain_event :: "nat \<Rightarrow> bool" where
  "plain_event r \<longleftrightarrow> \<not> has_event r POLLERR \<and> \<not> has_event r POLLHUP \<and> \<not> has_event r POLLNVAL"

lemma consume_erlang_read:
  assumes "command_arrives msg rest (erlang_buffer p) (io s)" and "plain_event r"
    and "msg = nat_le 2 cmd @ args" and "cmd < 2 ^ 16"
  shows "\<exists>buf w. consume_erlang ei fns r (p, s)
      = (case fns cmd of
           Some f \<Rightarrow> call_port_function ei cmd f (p\<lparr>erlang_buffer := buf\<rparr>, s\<lparr>io := w\<rparr>)
         | None \<Rightarrow> with_buffer (emit_cmd ei (reply_error_string cmd invalid_function))
                     (p\<lparr>erlang_buffer := buf\<rparr>, s\<lparr>io := w\<rparr>))
    \<and> rp_wf buf \<and> length msg < m_size buf \<and> mem_read 0 (length msg) (m_p buf) = Some msg
    \<and> m_size (erlang_buffer p) \<le> m_size buf
    \<and> stream (rd w 3) = rest \<and> wr w = wr (io s) \<and> written w = written (io s)"
proof -
  obtain buf w where b: "read_cmd (erlang_buffer p) (io s) = (Ok (gepd_success, buf), w)" "rp_wf buf"
      "length msg < m_size buf" "mem_read 0 (length msg) (m_p buf) = Some msg"
      "m_size (erlang_buffer p) \<le> m_size buf" "stream (rd w 3) = rest" "wr w = wr (io s)" "written w = written (io s)"
    using read_cmd_frame [of "erlang_buffer p" "io s" msg rest] assms(1)
    unfolding command_arrives_def by blast
  have "rp_get 0 2 buf = Ok (take 2 msg)"
    using rp_get_prefix [OF b(2) _ _ b(4)] b(3) assms(3) by simp
  then have "rp_get 0 2 buf = Ok (nat_le 2 cmd)" using assms(3) by simp
  with b assms(2,4) show ?thesis
    by (intro exI [of _ buf] exI [of _ w]) (simp add: consume_erlang_def plain_event_def le_nat_cmd)
qed

lemma consume_erlang_call:
  assumes "command_arrives (encode_call cmd (argv_types f) as) rest (erlang_buffer p) (io s)"
    and "plain_event r" and "cmd < 2 ^ 16" and "fns cmd = Some f"
    and "list_all2 argument_ok (argv_types f) as"
  shows "\<exists>buf w vs. consume_erlang ei fns r (p, s)
      = bind_state (function_body f vs)
          (\<lambda>v. with_buffer (emit_cmd ei (store_return_value (return_type f) cmd v)))
          (p\<lparr>erlang_buffer := buf\<rparr>, s\<lparr>io := w\<rparr>)
    \<and> length vs = length as \<and> (\<forall>k < length as. argument_shown buf (argv_types f ! k) (as ! k) (vs ! k))
    \<and> rp_wf buf \<and> stream (rd w 3) = rest \<and> wr w = wr (io s) \<and> written w = written (io s)"
proof -
  let ?args = "encode_arguments (argv_types f) as" and ?msg = "encode_call cmd (argv_types f) as"
  obtain buf w where b: "consume_erlang ei fns r (p, s)
      = call_port_function ei cmd f (p\<lparr>erlang_buffer := buf\<rparr>, s\<lparr>io := w\<rparr>)"
      "rp_wf buf" "length ?msg < m_size buf" "mem_read 0 (length ?msg) (m_p buf) = Some ?msg"
      "stream (rd w 3) = rest" "wr w = wr (io s)" "written w = written (io s)"
    using consume_erlang_read [OF assms(1,2) encode_call_def assms(3), of ei fns] assms(4) by auto
  have "mem_read 2 (length ?args) (m_p buf) = Some ?args"
    using mem_read_split(2) [of 0 2 "length ?args" "m_p buf" ?msg] b(4) by (simp add: encode_call_def numeral_2_eq_2)
  then obtain offs vs where v: "argument_offsets (argv_types f) 2 buf = Ok offs"
      "get_arguments buf (argv_types f) offs = Ok vs" "length vs = length as"
      "\<forall>k < length as. argument_shown buf (argv_types f ! k) (as ! k) (vs ! k)"
    using arguments_decoded [OF b(2) assms(5), of 2] b(3) by (auto simp: encode_call_def)
  with b show ?thesis
    by (intro exI [of _ buf] exI [of _ w] exI [of _ vs]) (simp add: call_port_function_def)
qed

lemma reply_error_fits:
  assumes "ei_bounded ei" and "32768 \<le> cap" and "cmd < 2 ^ 16"
  shows "fits ei (reply_error_string cmd invalid_function) 4 cap"
proof (rule fits_bound_fits [OF _ assms(1), of _ 4 cap])
  show "fits_bound (reply_error_string cmd invalid_function) 4 cap"
    using assms(2) by (simp add: reply_error_string_def invalid_function_def)
qed simp_all

text \<open>
  C13: A port call arrives: whatever arguments the Erlang side encodes for a port function (each in
  the range of its type), however their bytes are cut into chunks, the dispatcher calls that
  function with exactly those numbers and with pointers to exactly those texts, leaves the input
  at the next command, and replies with the function's result.
\<close>

theorem port_call_dispatched:
  assumes "command_arrives (encode_call cmd (argv_types f) as) rest (erlang_buffer p) (io s)"
    and "plain_event r" and "cmd < 2 ^ 16" and "fns cmd = Some f"
    and "list_all2 argument_ok (argv_types f) as"
  shows "\<exists>buf w vs. consume_erlang ei fns r (p, s)
      = bind_state (function_body f vs)
          (\<lambda>v. with_buffer (emit_cmd ei (store_return_value (return_type f) cmd v)))
          (p\<lparr>erlang_buffer := buf\<rparr>, s\<lparr>io := w\<rparr>)
    \<and> length vs = length as \<and> (\<forall>k < length as. argument_shown buf (argv_types f ! k) (as ! k) (vs ! k))
    \<and> stream (rd w 3) = rest \<and> written w = written (io s)"
  using consume_erlang_call [OF assms(1-3), of fns ei] assms(4,5) by blast

definition sample_sys :: sys where
  "sample_sys = \<lparr>io = io_idle, pipes = [], rets = [], limits = (\<lambda>_. None), passwd = (\<lambda>_. None),
     groups = (\<lambda>_. None), self = 42, exits = [], trace = []\<rparr>"

definition sample_function :: "unit port_function" where
  "sample_function = \<lparr>argv_types = [T_int32, T_pchar_len], return_type = T_int32,
     function_body = (\<lambda>vs. Pair (Ok (V_int (int (length vs)))))\<rparr>"

definition sample_call :: bytes where
  "sample_call = [0, 0, 0, 12, 1, 0, 254, 255, 255, 255, 2, 0, 0, 0, 104, 105]"

lemma gepd_state_wf:
  "rp_wf (fds gepd_state)" "rp_wf (erlang_buffer gepd_state)" "rp_wf (stream1 gepd_state)"
  "rp_wf (stream2 gepd_state)"
proof -
  have "(32 :: nat) = 2 ^ 5" "(1 :: nat) = 2 ^ 0" by simp_all
  then have "is_pow2 32" "is_pow2 1" by (metis is_pow2_def)+
  then show "rp_wf (fds gepd_state)" "rp_wf (erlang_buffer gepd_state)" "rp_wf (stream1 gepd_state)"
    "rp_wf (stream2 gepd_state)"
    by (simp_all add: rp_wf_def gepd_state_def gepd_array_def)
qed

lemma nat_le_2_4:
  "nat_le 2 v = [word_of_nat (v mod 256), word_of_nat (v div 256 mod 256)]"
  "nat_le 4 v = [word_of_nat (v mod 256), word_of_nat (v div 256 mod 256),
     word_of_nat (v div 256 div 256 mod 256), word_of_nat (v div 256 div 256 div 256 mod 256)]"
proof -
  have n: "(2 :: nat) = Suc (Suc 0)" "(4 :: nat) = Suc (Suc (Suc (Suc 0)))" by simp_all
  show "nat_le 2 v = [word_of_nat (v mod 256), word_of_nat (v div 256 mod 256)]"
    by (subst n(1)) (simp only: nat_le.simps)
  show "nat_le 4 v = [word_of_nat (v mod 256), word_of_nat (v div 256 mod 256),
     word_of_nat (v div 256 div 256 mod 256), word_of_nat (v div 256 div 256 div 256 mod 256)]"
    by (subst n(2)) (simp only: nat_le.simps)
qed

lemma sample_call_encoded: "wire True (encode_call 1 [T_int32, T_pchar_len] [E_int (-2), E_binary [104, 105]]) = sample_call"
  by (simp add: encode_call_def encode_uint8_def wire_def be32_bytes_def sample_call_def u32_bytes_def nat_le_2_4)

theorem port_call_dispatched_witness:
  "\<exists>buf w n. consume_erlang ei_format [1 \<mapsto> sample_function] POLLIN
       (gepd_state, sample_sys\<lparr>io := io_idle\<lparr>rd := (\<lambda>_. [Rd_data sample_call])\<rparr>\<rparr>)
     = with_buffer (emit_cmd ei_format (store_return_value T_int32 1 (V_int 2)))
         (gepd_state\<lparr>erlang_buffer := buf\<rparr>, sample_sys\<lparr>io := w\<rparr>)
   \<and> rp_get n 2 buf = Ok [104, 105] \<and> stream (rd w 3) = []"
proof -
  let ?s = "sample_sys\<lparr>io := io_idle\<lparr>rd := (\<lambda>_. [Rd_data sample_call])\<rparr>\<rparr>"
  let ?as = "[E_int (-2), E_binary [104, 105]]"
  have len: "length (encode_call 1 (argv_types sample_function) ?as) = 12"
    by (simp add: encode_call_def encode_uint8_def sample_function_def)
  have "command_arrives (encode_call 1 (argv_types sample_function) ?as) [] (erlang_buffer gepd_state) (io ?s)"
    unfolding command_arrives_def len
    using sample_call_encoded
    by (simp add: gepd_state_wf sample_function_def can_reserve_def gepd_state_def gepd_array_def io_idle_def
      gepd_state_wf(2) [unfolded gepd_state_def gepd_array_def, simplified] sample_call_def)
  moreover have "plain_event POLLIN"
    by (simp add: plain_event_def has_event_def POLLIN_def POLLERR_def POLLHUP_def POLLNVAL_def)
  moreover have "list_all2 argument_ok (argv_types sample_function) ?as"
    by (simp add: sample_function_def int_type_def int_range_def)
  ultimately obtain buf w vs where c: "consume_erlang ei_format [1 \<mapsto> sample_function] POLLIN (gepd_state, ?s)
      = bind_state (function_body sample_function vs)
          (\<lambda>v. with_buffer (emit_cmd ei_format (store_return_value (return_type sample_function) 1 v)))
          (gepd_state\<lparr>erlang_buffer := buf\<rparr>, ?s\<lparr>io := w\<rparr>)" "length vs = 2"
      "\<forall>k < 2. argument_shown buf (argv_types sample_function ! k) (?as ! k) (vs ! k)" "stream (rd w 3) = []"
    using port_call_dispatched [of 1 sample_function ?as "[]" gepd_state ?s POLLIN "[1 \<mapsto> sample_function]" ei_format]
    by auto
  have "argument_shown buf T_pchar_len (E_binary [104, 105]) (vs ! 1)"
    using c(3) [rule_format, of 1] by (simp add: sample_function_def)
  then obtain n where "rp_get n 2 buf = Ok [104, 105]" by (auto simp: numeral_2_eq_2)
  with c show ?thesis
    by (intro exI [of _ buf] exI [of _ w] exI [of _ n]) (simp add: sample_function_def)
qed

text \<open>
  C23: A command number that names no port function is answered, and the program goes on: with an
  encoder that keeps the documented sizes, the dispatcher returns (unless the reply is never
  accepted), touches no other descriptor, and a successful return has sent exactly the framed term
  \<open>{error, Cmd, "Invalid function call"}\<close>.
\<close>

theorem unknown_command_answered:
  assumes "command_arrives (nat_le 2 cmd @ args) rest (erlang_buffer p) (io s)"
    and "plain_event r" and "cmd < 2 ^ 16" and "fns cmd = None" and "ei_bounded ei"
    and "32768 \<le> m_size (erlang_buffer p)" and "consume_erlang ei fns r (p, s) = (res, p', s')"
  shows "res = Blocked \<or> (\<exists>status. res = Ok status \<and> stream (rd (io s') 3) = rest
    \<and> (\<forall>fd. fd \<noteq> 4 \<longrightarrow> sent (io s') fd = sent (io s) fd)
    \<and> (status = gepd_success \<longrightarrow>
        (\<exists>reply. encode ei (reply_error_string cmd (cstr ''Invalid function call'')) = Some reply
           \<and> sent (io s') 4 = sent (io s) 4 @ wire True reply)))"
proof -
  obtain buf w where b: "consume_erlang ei fns r (p, s)
      = with_buffer (emit_cmd ei (reply_error_string cmd invalid_function)) (p\<lparr>erlang_buffer := buf\<rparr>, s\<lparr>io := w\<rparr>)"
      "rp_wf buf" "m_size (erlang_buffer p) \<le> m_size buf" "stream (rd w 3) = rest" "written w = written (io s)"
    using consume_erlang_read [OF assms(1,2) refl assms(3), of ei fns] assms(4) by auto
  have "cmd_result (encode ei (reply_error_string cmd invalid_function)) buf w
      (emit_cmd ei (reply_error_string cmd invalid_function) buf w)"
    using b(2,3) assms(6) reply_error_fits [OF assms(5) _ assms(3)] by (intro emit_cmd_result) auto
  then show ?thesis
  proof (unfold cmd_result_def, elim disjE exE conjE)
    fix w'
    assume "emit_cmd ei (reply_error_string cmd invalid_function) buf w = (Blocked, w')"
    with b(1) assms(7) show ?thesis by (simp add: with_buffer_def on_io_def)
  next
    fix status buf' as bs ws
    assume e: "emit_cmd ei (reply_error_string cmd invalid_function) buf w
        = (Ok (status, buf'), w\<lparr>allocs := as, wr := bs, written := ws\<rparr>)"
      "\<forall>fd. fd \<noteq> 4 \<longrightarrow> sent (w\<lparr>written := ws\<rparr>) fd = sent w fd"
      "status = gepd_success \<longrightarrow> (\<exists>body. encode ei (reply_error_string cmd invalid_function) = Some body
         \<and> sent (w\<lparr>written := ws\<rparr>) 4 = sent w 4 @ wire True body)"
    have "res = Ok status" "io s' = w\<lparr>allocs := as, wr := bs, written := ws\<rparr>"
      using e(1) b(1) assms(7) by (auto simp: with_buffer_def on_io_def)
    then show ?thesis using e(2,3) b(4,5) by (simp add: sent_def invalid_function_def)
  qed
qed

lemma plain_POLLIN: "plain_event POLLIN"
  by (simp add: plain_event_def has_event_def POLLIN_def POLLERR_def POLLHUP_def POLLNVAL_def)

theorem unknown_command_answered_witness:
  "case consume_erlang ei_format (\<lambda>_. None :: unit port_function option) POLLIN
       (gepd_state, sample_sys\<lparr>io := io_idle\<lparr>rd := (\<lambda>_. [Rd_data [0, 0, 0, 2], Rd_data [9, 0]]),
          wr := [Wr_count 3, Wr_count 100]\<rparr>\<rparr>) of
     (res, p', s') \<Rightarrow> res = Blocked \<or> (\<exists>status. res = Ok status \<and> stream (rd (io s') 3) = []
       \<and> (\<forall>fd. fd \<noteq> 4 \<longrightarrow> sent (io s') fd = [])
       \<and> (status = gepd_success \<longrightarrow> (\<exists>reply. encode ei_format
             (reply_error_string 9 (cstr ''Invalid function call'')) = Some reply
           \<and> sent (io s') 4 = wire True reply)))"
proof -
  let ?w = "io_idle\<lparr>rd := (\<lambda>_. [Rd_data [0, 0, 0, 2], Rd_data [9, 0]]), wr := [Wr_count 3, Wr_count 100]\<rparr>"
  let ?s = "sample_sys\<lparr>io := ?w\<rparr>"
  obtain res p' s' where c: "consume_erlang ei_format (\<lambda>_. None :: unit port_function option) POLLIN (gepd_state, ?s)
      = (res, p', s')"
    by (metis prod_cases3)
  have l: "length (nat_le 2 9 @ []) = 2" by simp
  have "command_arrives (nat_le 2 9 @ []) [] (erlang_buffer gepd_state) (io ?s)"
    unfolding command_arrives_def l
    by (simp add: gepd_state_wf can_reserve_def gepd_state_def gepd_array_def io_idle_def wire_def
      be32_bytes_def nat_le_2_4 gepd_state_wf(2) [unfolded gepd_state_def gepd_array_def, simplified])
  then have "res = Blocked \<or> (\<exists>status. res = Ok status \<and> stream (rd (io s') 3) = []
    \<and> (\<forall>fd. fd \<noteq> 4 \<longrightarrow> sent (io s') fd = sent (io ?s) fd)
    \<and> (status = gepd_success \<longrightarrow>
        (\<exists>reply. encode ei_format (reply_error_string 9 (cstr ''Invalid function call'')) = Some reply
           \<and> sent (io s') 4 = sent (io ?s) 4 @ wire True reply)))"
    using unknown_command_answered [of 9 "[]" "[]", OF _ plain_POLLIN _ refl ei_format_bounded _ c]
    by (simp add: gepd_state_def gepd_array_def)
  then show ?thesis using c by (simp add: sent_def io_idle_def)
qed

section \<open>Output streams\<close>

text \<open>The complete lines of a text, and what is after its last newline.\<close>

definition complete_lines :: "bytes \<Rightarrow> bytes" where
  "complete_lines xs = rev (dropWhile (\<lambda>b. b \<noteq> 10) (rev xs))"

definition partial_line :: "bytes \<Rightarrow> bytes" where
  "partial_line xs = rev (takeWhile (\<lambda>b. b \<noteq> 10) (rev xs))"

lemma lines_append: "complete_lines xs @ partial_line xs = xs"
  by (metis complete_lines_def partial_line_def rev_append rev_rev_ident takeWhile_dropWhile_id)

lemma complete_lines_Nil [simp]: "complete_lines xs = [] \<longleftrightarrow> 10 \<notin> set xs"
  by (auto simp: complete_lines_def)

lemma complete_lines_snoc:
  "complete_lines (xs @ [b]) = (if b = 10 then xs @ [b] else complete_lines xs)"
  by (simp add: complete_lines_def)

lemma last_newline_spec:
  assumes "rp_wf stm" and "n \<le> m_size stm" and "mem_read 0 n (m_p stm) = Some xs"
  shows "last_newline stm n = Ok (if 10 \<in> set xs then Some (length (complete_lines xs) - 1) else None)"
  using assms(2,3)
proof (induction n arbitrary: xs)
  case 0
  then show ?case by simp
next
  case (Suc j)
  then obtain ys b where xs: "xs = ys @ [b]" "length ys = j"
    by (metis length_append_singleton length_rev mem_read_eq_Some nat.simps(3) old.nat.inject rev_exhaust list.size(3))
  have m: "mem_read 0 j (m_p stm) = Some ys" "m_p stm j = Some b"
    using Suc.prems(2) xs by (auto simp: mem_read_eq_Some nth_append)
  then have "rp_at stm j = Ok b" using Suc.prems(1) assms(1) by (simp add: rp_at_def rp_wf_def)
  with Suc.IH [OF _ m(1)] Suc.prems(1) xs show ?case by (auto simp: complete_lines_snoc)
qed

lemma emit_append:
  "emit ei (xs @ ys) index buf w =
     (case emit ei xs index buf w of
        (Ok (st, index', buf'), w') \<Rightarrow>
          if st = cloudi_success then emit ei ys index' buf' w' else (Ok (st, index', buf'), w')
      | (Raise e, w') \<Rightarrow> (Raise e, w')
      | (Undefined, w') \<Rightarrow> (Undefined, w')
      | (Exited k, w') \<Rightarrow> (Exited k, w')
      | (Blocked, w') \<Rightarrow> (Blocked, w'))"
  by (induction ei xs index buf w rule: emit.induct)
    (simp_all split: option.splits outcome.splits prod.splits bool.splits del: Nat.add_diff_assoc)

text \<open>The message \<open>{Name, Pid, Text}\<close>.\<close>

definition stream_steps :: "string \<Rightarrow> nat \<Rightarrow> bytes \<Rightarrow> emit_step list" where
  "stream_steps name pid xs =
     [Encode ei_version, Encode (ei_tuple_header 3), Encode (ei_atom (cstr name)), Encode (ei_ulong pid),
      Reserve (length xs + 1), Encode (ei_string xs)]"

lemma send_stream_emit:
  assumes "rp_get 0 n stm = Ok xs" and "n = length xs" and "n < 2 ^ 63"
  shows "send_stream ei name pid stm n sbuf w = emit_cmd ei (stream_steps name pid xs) sbuf w"
proof -
  have "stream_steps name pid xs = [Encode ei_version, Encode (ei_tuple_header 3), Encode (ei_atom (cstr name)),
      Encode (ei_ulong pid), Reserve ((n + 1) mod 2 ^ 64)] @ [Encode (ei_string xs)]"
    using assms(2,3) by (simp add: stream_steps_def)
  with assms(1) show ?thesis
    unfolding send_stream_def emit_cmd_def
    by (simp only: emit_append outcome.case) (simp split: outcome.splits prod.splits add: emit_append)
qed

definition stream_holds :: "byte realloc_ptr \<Rightarrow> bytes \<Rightarrow> bool" where
  "stream_holds stm xs \<longleftrightarrow>
     rp_wf stm \<and> length xs \<le> m_size stm \<and> mem_read 0 (length xs) (m_p stm) = Some xs"

definition send_ok :: "ei_encoder \<Rightarrow> string \<Rightarrow> byte realloc_ptr \<Rightarrow> bool" where
  "send_ok ei name sbuf \<longleftrightarrow> ei_bounded ei \<and> length name \<le> 255 \<and> rp_wf sbuf \<and> 32768 \<le> m_size sbuf"

lemma stream_holds_write:
  assumes "stream_holds stm xs" and "length xs + length bs \<le> m_size stm"
  shows "rp_put (length xs) bs stm = Ok (stm\<lparr>m_p := mem_write (length xs) bs (m_p stm)\<rparr>)"
    and "stream_holds (stm\<lparr>m_p := mem_write (length xs) bs (m_p stm)\<rparr>) (xs @ bs)"
proof -
  show p: "rp_put (length xs) bs stm = Ok (stm\<lparr>m_p := mem_write (length xs) bs (m_p stm)\<rparr>)"
    using assms by (intro rp_put_ok) (simp_all add: stream_holds_def)
  have "mem_read 0 (length xs) (mem_write (length xs) bs (m_p stm)) = Some xs"
    using assms(1) by (simp add: stream_holds_def mem_read_write_disjoint)
  then have "mem_read 0 (length xs + length bs) (mem_write (length xs) bs (m_p stm)) = Some (xs @ bs)"
    using mem_read_append [of 0 "length xs" _ xs "length bs" bs] by simp
  moreover have "rp_wf (stm\<lparr>m_p := mem_write (length xs) bs (m_p stm)\<rparr>)"
    using assms(1) rp_wf_put [OF _ p] by (simp add: stream_holds_def)
  ultimately show "stream_holds (stm\<lparr>m_p := mem_write (length xs) bs (m_p stm)\<rparr>) (xs @ bs)"
    using assms(2) by (simp add: stream_holds_def)
qed

lemma stream_get:
  "stream_holds stm xs \<Longrightarrow> n \<le> length xs \<Longrightarrow> rp_get 0 n stm = Ok (take n xs)"
  by (auto simp: stream_holds_def intro: rp_get_prefix)

lemma stream_steps_fits:
  assumes "ei_bounded ei" and "length name \<le> 255" and "32768 \<le> cap" and "length xs \<le> 16384"
  shows "fits ei (stream_steps name pid xs) 4 cap"
proof (rule fits_bound_fits [OF _ assms(1), of _ 4 cap])
  show "fits_bound (stream_steps name pid xs) 4 cap"
    using assms(2-4) by (simp add: stream_steps_def)
qed simp_all

lemma send_stream_result:
  assumes "stream_holds stm xs" and "n \<le> length xs" and "length xs \<le> 16384" and "send_ok ei name sbuf"
  shows "cmd_result (encode ei (stream_steps name pid (take n xs))) sbuf w (send_stream ei name pid stm n sbuf w)"
proof -
  have "send_stream ei name pid stm n sbuf w = emit_cmd ei (stream_steps name pid (take n xs)) sbuf w"
    using assms(2,3) by (intro send_stream_emit stream_get [OF assms(1,2)]) auto
  moreover have "fits ei (stream_steps name pid (take n xs)) 4 (m_size sbuf)"
    using assms(3,4) by (intro stream_steps_fits) (auto simp: send_ok_def)
  ultimately show ?thesis
    using emit_cmd_result [of sbuf ei "stream_steps name pid (take n xs)" w] assms(4) by (simp add: send_ok_def)
qed

lemma sent_update [simp]: "sent (w\<lparr>allocs := as, wr := bs, written := ws\<rparr>) = sent (w\<lparr>written := ws\<rparr>)"
  by (simp add: sent_def fun_eq_iff)

text \<open>What a step of the capture leaves, for the text \<open>xs\<close> it has.\<close>

definition lines_forwarded :: "ei_encoder \<Rightarrow> string \<Rightarrow> nat \<Rightarrow> bytes \<Rightarrow> os \<Rightarrow> stream_result outcome \<times> os \<Rightarrow> bool" where
  "lines_forwarded ei name pid xs w r \<longleftrightarrow>
     fst r = Blocked
     \<or> (\<exists>sr. fst r = Ok sr \<and> sr_revents sr = 0 \<and> rp_wf (sr_send sr)
          \<and> (\<forall>fd. fd \<noteq> 4 \<longrightarrow> sent (snd r) fd = sent w fd)
          \<and> (sr_status sr = gepd_success \<longrightarrow>
               stream_holds (sr_stream sr) (partial_line xs) \<and> sr_index sr = length (partial_line xs)
               \<and> (if 10 \<in> set xs
                  then \<exists>msg. encode ei (stream_steps name pid (complete_lines xs)) = Some msg
                         \<and> sent (snd r) 4 = sent w 4 @ wire True msg
                  else sent (snd r) 4 = sent w 4)))"

lemma stream_holds_move:
  assumes "stream_holds stm (ys @ zs)" and "0 < length ys"
  shows "\<exists>b stm'. rp_move True (length ys) (length zs) 0 stm = Ok (b, stm') \<and> stream_holds stm' zs"
proof -
  have s: "rp_wf stm" "length ys + length zs \<le> m_size stm"
    "mem_read (length ys) (length zs) (m_p stm) = Some zs"
    using assms(1) mem_read_split(2) [of 0 "length ys" "length zs" "m_p stm" "ys @ zs"]
    by (simp_all add: stream_holds_def)
  have n: "length zs < m_size stm" using s(2) assms(2) by linarith
  then have r: "rp_reserve True (length zs) stm = Some (True, stm)" by (simp add: rp_reserve_def)
  have "m_size stm \<le> 2 ^ 63" using s(1) by (simp add: rp_wf_def)
  with n have "length zs < 2 ^ 63" by linarith
  then have "rp_move True (length ys) (length zs) 0 stm
      = Ok (True, stm\<lparr>m_p := mem_copy (m_p stm) (length ys) (length zs) 0 (m_p stm)\<rparr>)"
    using s r by (simp add: rp_move_def rp_wf_def)
  moreover have "stream_holds (stm\<lparr>m_p := mem_copy (m_p stm) (length ys) (length zs) 0 (m_p stm)\<rparr>) zs"
    using s rp_wf_mem_copy [OF s(1), of 0 "length zs"] by (simp add: stream_holds_def mem_read_copy)
  ultimately show ?thesis by blast
qed

lemma consume_lines_forwards:
  assumes "stream_holds stm xs" and "length xs \<le> 16384" and "send_ok ei name sbuf"
  shows "lines_forwarded ei name pid xs w (consume_lines ei name pid sbuf stm (length xs) w)"
proof (cases "10 \<in> set xs")
  case False
  then have "partial_line xs = xs" "last_newline stm (length xs) = Ok None"
    using lines_append [of xs] last_newline_spec [of stm "length xs" xs] assms(1) complete_lines_Nil [of xs]
    by (metis append_Nil, auto simp: stream_holds_def)
  with False assms show ?thesis by (simp add: consume_lines_def lines_forwarded_def send_ok_def)
next
  case True
  let ?ys = "complete_lines xs" and ?zs = "partial_line xs"
  have l: "xs = ?ys @ ?zs" by (simp add: lines_append)
  then have len: "length xs = length ?ys + length ?zs" by (metis length_append)
  have y: "0 < length ?ys" using True by simp
  have nl: "last_newline stm (length xs) = Ok (Some (length ?ys - 1))"
    using last_newline_spec [of stm "length xs" xs] assms(1) True by (simp add: stream_holds_def)
  have t: "take (length ?ys) xs = ?ys" by (metis l append_eq_conv_conj)
  let ?r = "send_stream ei name pid stm (length ?ys) sbuf w"
  have "cmd_result (encode ei (stream_steps name pid ?ys)) sbuf w ?r"
    using send_stream_result [OF assms(1) _ assms(2,3), of "length ?ys" pid w] len t by simp
  then show ?thesis
  proof (unfold cmd_result_def, elim disjE exE conjE)
    fix w'
    assume "?r = (Blocked, w')"
    with nl y show ?thesis by (simp add: consume_lines_def lines_forwarded_def)
  next
    fix status sbuf' as bs ws
    assume e: "?r = (Ok (status, sbuf'), w\<lparr>allocs := as, wr := bs, written := ws\<rparr>)" "rp_wf sbuf'"
      "\<forall>fd. fd \<noteq> 4 \<longrightarrow> sent (w\<lparr>written := ws\<rparr>) fd = sent w fd"
      "status = gepd_success \<longrightarrow> (\<exists>body. encode ei (stream_steps name pid ?ys) = Some body
         \<and> sent (w\<lparr>written := ws\<rparr>) 4 = sent w 4 @ wire True body)"
    obtain b stm' where m: "rp_move True (length ?ys) (length ?zs) 0 stm = Ok (b, stm')" "stream_holds stm' ?zs"
      using stream_holds_move [of stm ?ys ?zs] assms(1) y l by auto
    have z: "?zs = [] \<Longrightarrow> stream_holds stm ?zs" using assms(1) by (simp add: stream_holds_def)
    have eq: "length ?ys - 1 = length xs - 1 \<longleftrightarrow> length ?zs = 0" using y unfolding len by linarith
    have rest: "length xs - (length ?ys - 1) - 1 = length ?zs" "Suc (length ?ys - 1) = length ?ys"
      using y unfolding len by linarith+
    show ?thesis
      using nl e m z True eq rest
      by (cases "?zs = []") (simp_all add: consume_lines_def lines_forwarded_def Let_def)
  qed
qed

lemma stream_read_short:
  assumes "stream_holds stm xs" and "c_read fd (m_size stm - length xs) w = (Ok (Inr bs), w1)"
    and "length bs < m_size stm - length xs"
  shows "stream_read fd stm (length xs) w
    = (Ok (Inr (length bs), stm\<lparr>m_p := mem_write (length xs) bs (m_p stm)\<rparr>, length xs), w1)"
  using assms(2,3) stream_holds_write(1) [OF assms(1), of bs]
  by (subst stream_read.simps) simp

lemma c_read_sent: "c_read fd n w = (r, w') \<Longrightarrow> sent w' = sent w"
  by (rule sent_cong) (auto simp: c_read_def split: list.splits rd_answer.splits)

lemma consume_stream_short:
  assumes "stream_holds stm old" and "m_size stm \<le> 16384" and "send_ok ei name sbuf" and "plain_event r"
    and "c_read fd (m_size stm - length old) w = (Ok (Inr bs), w1)"
    and "length bs < m_size stm - length old"
  shows "lines_forwarded ei name pid (old @ bs) w
    (consume_stream ei fd r name pid sbuf stm (length old) w)"
proof -
  let ?stm = "stm\<lparr>m_p := mem_write (length old) bs (m_p stm)\<rparr>"
  note rd = stream_read_short [OF assms(1,5,6)]
  have h: "stream_holds ?stm (old @ bs)" using stream_holds_write(2) [OF assms(1), of bs] assms(6) by simp
  show ?thesis
  proof (cases "old @ bs = []")
    case True
    then have "consume_stream ei fd r name pid sbuf stm (length old) w
        = (Ok \<lparr>sr_status = gepd_success, sr_revents = 0, sr_send = sbuf, sr_stream = ?stm, sr_index = 0\<rparr>, w1)"
      using rd assms(4) by (simp add: consume_stream_def plain_event_def Let_def)
    with True h assms(3) c_read_sent [OF assms(5)] show ?thesis
      by (simp add: lines_forwarded_def send_ok_def partial_line_def)
  next
    case False
    then have "consume_stream ei fd r name pid sbuf stm (length old) w
        = consume_lines ei name pid sbuf ?stm (length (old @ bs)) w1"
      using rd assms(4) by (auto simp: consume_stream_def plain_event_def Let_def)
    moreover have "length (old @ bs) \<le> 16384" using assms(2,6) by simp
    moreover have "lines_forwarded ei name pid (old @ bs) w1 = lines_forwarded ei name pid (old @ bs) w"
      using c_read_sent [OF assms(5)] by (simp add: lines_forwarded_def fun_eq_iff)
    ultimately show ?thesis
      using consume_lines_forwards [OF h _ assms(3), of pid w1] by metis
  qed
qed

text \<open>
  C14: Captured output is forwarded by lines and nothing is lost or repeated: if a read of a
  process's output does not fill the stream, then (unless the write of the message never ends) the
  capture returns; on success it has sent exactly the complete lines of what was kept from before
  and what was read, as one message that names the stream and the process, and keeps exactly the
  incomplete last line, and no message is sent when there is no newline.
\<close>

theorem consume_stream_forwards_lines:
  assumes "stream_holds stm old" and "m_size stm \<le> 16384" and "send_ok ei name sbuf" and "plain_event r"
    and "c_read fd (m_size stm - length old) w = (Ok (Inr bs), w1)"
    and "length bs < m_size stm - length old"
  shows "\<exists>res w'. consume_stream ei fd r name pid sbuf stm (length old) w = (res, w') \<and>
    (res = Blocked
     \<or> (\<exists>sr. res = Ok sr \<and> (sr_status sr = gepd_success \<longrightarrow>
          stream_holds (sr_stream sr) (partial_line (old @ bs))
          \<and> sr_index sr = length (partial_line (old @ bs))
          \<and> (if 10 \<in> set (old @ bs)
             then \<exists>msg. encode ei (stream_steps name pid (complete_lines (old @ bs))) = Some msg
                    \<and> sent w' 4 = sent w 4 @ wire True msg
             else sent w' 4 = sent w 4))))"
  using consume_stream_short [OF assms, of pid] unfolding lines_forwarded_def
  by (metis prod.collapse)

definition sample_stream :: "byte realloc_ptr" where
  "sample_stream = \<lparr>m_initialSize = 1, m_size = 8, m_maxSize = 16384,
     m_p = mem_write 0 [97, 98] (\<lambda>_. None), m_alloc = 8\<rparr>"

lemma sample_stream_holds: "stream_holds sample_stream [97, 98]"
proof -
  have "(8 :: nat) = 2 ^ 3" "(1 :: nat) = 2 ^ 0" by simp_all
  then have "is_pow2 8" "is_pow2 1" by (metis is_pow2_def)+
  moreover have "mem_read 0 (Suc (Suc 0)) (mem_write 0 [97, 98 :: byte] (\<lambda>_. None)) = Some [97, 98]"
    by (rule mem_read_write_same) simp
  ultimately show ?thesis
    by (simp add: stream_holds_def rp_wf_def sample_stream_def mem_write_def [of 0 "[97, 98]"])
qed

lemma sample_send_ok: "send_ok ei_format ''stdout'' (erlang_buffer gepd_state)"
  using gepd_state_wf(2) ei_format_bounded by (simp add: send_ok_def gepd_state_def gepd_array_def)

theorem consume_stream_forwards_lines_witness:
  "\<exists>res w'. consume_stream ei_format 7 POLLIN ''stdout'' 5 (erlang_buffer gepd_state) sample_stream 2
       (io_idle\<lparr>rd := (\<lambda>_. [Rd_data [10, 99]]), wr := [Wr_count 99]\<rparr>) = (res, w') \<and>
     (res = Blocked
      \<or> (\<exists>sr. res = Ok sr \<and> (sr_status sr = gepd_success \<longrightarrow>
           stream_holds (sr_stream sr) [99] \<and> sr_index sr = 1
           \<and> (\<exists>msg. encode ei_format (stream_steps ''stdout'' 5 [97, 98, 10]) = Some msg
                \<and> sent w' 4 = wire True msg))))"
proof -
  let ?w = "io_idle\<lparr>rd := (\<lambda>_. [Rd_data [10, 99]]), wr := [Wr_count 99]\<rparr>"
  have r: "c_read 7 (m_size sample_stream - length [97 :: byte, 98]) ?w = (Ok (Inr [10, 99]), set_rd 7 [] ?w)"
    by (simp add: c_read_def sample_stream_def io_idle_def)
  have l: "complete_lines ([97, 98] @ [10, 99]) = [97, 98, 10]" "partial_line ([97, 98] @ [10, 99]) = [99]"
    by (simp_all add: complete_lines_def partial_line_def)
  have "m_size sample_stream \<le> 16384" "length [10 :: byte, 99] < m_size sample_stream - length [97 :: byte, 98]"
    by (simp_all add: sample_stream_def)
  from consume_stream_forwards_lines [OF sample_stream_holds this(1) sample_send_ok plain_POLLIN r this(2), of 5]
  show ?thesis unfolding l by (simp add: sent_def io_idle_def numeral_2_eq_2)
qed

end
