(* ===== verification/Port_Limits.thy ===== *)
theory Port_Limits
  imports Port_Correct
begin

text \<open>
  Where the capture of output (\<^verbatim>\<open>port.cpp\<close>) departs from forwarding lines: a read that exactly
  fills the stream, a line that is longer than the stream can grow, and the flush of a process
  that has ended.
\<close>

lemma stream_read_full:
  assumes "rp_wf stm" and "i < m_size stm" and "c_read fd (m_size stm - i) w = (Ok (Inr bs), w1)"
    and "length bs = m_size stm - i"
  shows "stream_read fd stm i w =
    (case c_grow (stm\<lparr>m_p := mem_write i bs (m_p stm)\<rparr>) w1 of
       ((False, stm2), w2) \<Rightarrow> (Ok (Inr (length bs), stm2, i), w2)
     | ((True, stm2), w2) \<Rightarrow>
         (case gepd_data_ready w2 of
            (Ok (_, ready), w3) \<Rightarrow>
              if ready = Some False then (Ok (Inr (length bs), stm2, i + (m_size stm - i)), w3)
              else stream_read fd stm2 (i + (m_size stm - i)) w3
          | (_, w3) \<Rightarrow> (Blocked, w3)))"
  using assms rp_put_ok [OF assms(1), of i bs]
  by (subst stream_read.simps) (simp add: Let_def)

lemma last_newline_fresh: "0 < n \<Longrightarrow> n \<le> m_size stm \<Longrightarrow> m_p stm (n - 1) = None \<Longrightarrow> last_newline stm n = Undefined"
  by (cases n) (auto simp: rp_at_def)

lemma consume_lines_fresh:
  "0 < n \<Longrightarrow> n \<le> m_size stm \<Longrightarrow> m_p stm (n - 1) = None \<Longrightarrow>
   consume_lines ei name pid sbuf stm n w = (Undefined, w)"
  by (simp add: consume_lines_def last_newline_fresh)

text \<open>
  A read that exactly fills the stream is counted twice: if the bytes read are just as many as
  the stream had room for, the stream can still grow, and no more data is ready, then the loop has
  already added them to the index when it stops, the function adds them again, and the scan for a
  newline starts in memory that was never written.
\<close>

theorem consume_stream_double_count:
  assumes "rp_wf stm" and "i < m_size stm" and "2 * m_size stm \<le> m_maxSize stm" and "plain_event r"
    and "m_maxSize stm < 2 ^ 63"
    and "c_read fd (m_size stm - i) w = (Ok (Inr bs), w1)" and "length bs = m_size stm - i"
    and "allocs w1 = []" and "polls w1 = Poll_events [0] # ps"
  shows "fst (consume_stream ei fd r name pid sbuf stm i w) = Undefined"
proof -
  let ?stm1 = "stm\<lparr>m_p := mem_write i bs (m_p stm)\<rparr>"
  let ?stm2 = "rp_realloc (2 * m_size stm) ?stm1"
  have "m_size stm * 2 mod 2 ^ 64 = 2 * m_size stm" using assms(3,5) by simp
  then have g: "c_grow ?stm1 w1 = ((True, ?stm2), w1\<lparr>allocs := []\<rparr>)"
    using assms(3,8) by (simp add: c_grow_def rp_grow_def mult.commute)
  have d: "gepd_data_ready (w1\<lparr>allocs := []\<rparr>) = (Ok (gepd_success, Some False), w1\<lparr>allocs := [], polls := ps\<rparr>)"
    using assms(9) by (simp add: gepd_data_ready_def c_poll_def poll_count_def)
  have sr: "stream_read fd stm i w = (Ok (Inr (length bs), ?stm2, m_size stm), w1\<lparr>allocs := [], polls := ps\<rparr>)"
    using stream_read_full [OF assms(1,2,6,7)] g d assms(2) by simp
  have n: "m_size stm \<noteq> 0" "length bs \<noteq> 0" using assms(2,7) by auto
  have "m_p ?stm2 (m_size stm + length bs - 1) = None"
    using assms(1,2,7) by (auto simp: rp_realloc_def rp_wf_def)
  then have "consume_lines ei name pid sbuf ?stm2 (m_size stm + length bs) (w1\<lparr>allocs := [], polls := ps\<rparr>)
      = (Undefined, w1\<lparr>allocs := [], polls := ps\<rparr>)"
    using assms(2,7) by (intro consume_lines_fresh) (auto simp: rp_realloc_def)
  with sr n assms(4) show ?thesis by (simp add: consume_stream_def plain_event_def Let_def)
qed

theorem consume_stream_double_count_witness:
  "fst (consume_stream ei_format 7 POLLIN ''stdout'' 5 (erlang_buffer gepd_state) (stream1 gepd_state) 0
     (io_idle\<lparr>rd := (\<lambda>_. [Rd_data [10]]), polls := [Poll_events [0]]\<rparr>)) = Undefined"
proof -
  let ?w = "io_idle\<lparr>rd := (\<lambda>_. [Rd_data [10]]), polls := [Poll_events [0]]\<rparr>"
  have "c_read 7 (m_size (stream1 gepd_state) - 0) ?w = (Ok (Inr [10]), set_rd 7 [] ?w)"
    by (simp add: c_read_def io_idle_def gepd_state_def gepd_array_def)
  from consume_stream_double_count [OF gepd_state_wf(3) _ _ plain_POLLIN _ this] show ?thesis
    by (simp add: gepd_state_def gepd_array_def io_idle_def)
qed

text \<open>
  A line longer than the stream can grow ends the program: when a stream of the maximal size
  is filled without a newline, the capture succeeds and leaves the index at the size of the
  stream; the next output of that process then fails the bounds check of the array, whatever it is.
\<close>

theorem long_line_aborts:
  assumes "stream_holds stm old" and "length old < m_size stm" and "m_maxSize stm < 2 * m_size stm"
    and "m_size stm < 2 ^ 63" and "plain_event r"
    and "c_read fd (m_size stm - length old) w = (Ok (Inr bs), w1)"
    and "length bs = m_size stm - length old" and "10 \<notin> set (old @ bs)"
  shows "\<exists>sr w'. consume_stream ei fd r name pid sbuf stm (length old) w = (Ok sr, w')
    \<and> sr_status sr = gepd_success \<and> sr_index sr = m_size stm
    \<and> (\<forall>r' sbuf' v. plain_event r' \<longrightarrow>
         consume_stream ei fd r' name pid sbuf' (sr_stream sr) (sr_index sr) v = (Raise assert_exception, v))"
proof -
  let ?stm = "stm\<lparr>m_p := mem_write (length old) bs (m_p stm)\<rparr>"
  have h: "stream_holds ?stm (old @ bs)" using stream_holds_write(2) [OF assms(1), of bs] assms(2,7) by simp
  have wf: "rp_wf stm" using assms(1) by (simp add: stream_holds_def)
  have l: "length (old @ bs) = m_size stm" using assms(2,7) by simp
  have "m_size stm * 2 mod 2 ^ 64 = m_size stm * 2" using assms(4) by simp
  then have "c_grow ?stm w1 = ((False, ?stm), w1)"
    using assms(3) by (simp add: c_grow_def rp_grow_def Let_def mult.commute)
  then have sr: "stream_read fd stm (length old) w = (Ok (Inr (length bs), ?stm, length old), w1)"
    using stream_read_full [OF wf assms(2,6,7)] by simp
  have "last_newline ?stm (length (old @ bs)) = Ok None"
    using last_newline_spec [of ?stm "length (old @ bs)" "old @ bs"] h assms(8) by (simp add: stream_holds_def)
  moreover have "length bs \<noteq> 0" using assms(2,7) by simp
  moreover have "length old + length bs = m_size stm" using assms(2,7) by simp
  ultimately have "consume_stream ei fd r name pid sbuf stm (length old) w
      = (Ok \<lparr>sr_status = gepd_success, sr_revents = 0, sr_send = sbuf, sr_stream = ?stm, sr_index = m_size stm\<rparr>, w1)"
    using sr assms(5) by (simp add: consume_stream_def consume_lines_def plain_event_def Let_def)
  moreover have "consume_stream ei fd r' name pid sbuf' ?stm (m_size stm) v = (Raise assert_exception, v)"
    if "plain_event r'" for r' sbuf' v
    using that by (simp add: consume_stream_def plain_event_def stream_read.simps [of _ _ "m_size stm"])
  ultimately show ?thesis by auto
qed

theorem long_line_aborts_witness:
  "\<exists>sr w'. consume_stream ei_format 7 POLLIN ''stdout'' 5 (erlang_buffer gepd_state)
       (sample_stream\<lparr>m_maxSize := 8\<rparr>) 2 (io_idle\<lparr>rd := (\<lambda>_. [Rd_data [99, 100, 101, 102, 103, 104, 105]])\<rparr>) = (Ok sr, w')
     \<and> sr_index sr = 8
     \<and> consume_stream ei_format 7 POLLIN ''stdout'' 5 (erlang_buffer gepd_state) (sr_stream sr) 8 w'
        = (Raise assert_exception, w')"
proof -
  let ?w = "io_idle\<lparr>rd := (\<lambda>_. [Rd_data [99, 100, 101, 102, 103, 104, 105]])\<rparr>"
  let ?stm = "sample_stream\<lparr>m_maxSize := 8\<rparr>"
  have "stream_holds ?stm [97, 98]"
    using sample_stream_holds by (simp add: stream_holds_def rp_wf_def sample_stream_def)
  moreover have "c_read 7 (m_size ?stm - length [97 :: byte, 98]) ?w
      = (Ok (Inr [99, 100, 101, 102, 103, 104]), set_rd 7 [Rd_data [105]] ?w)"
    by (simp add: c_read_def io_idle_def sample_stream_def)
  moreover have "length [97 :: byte, 98] < m_size ?stm" "m_maxSize ?stm < 2 * m_size ?stm" "m_size ?stm < 2 ^ 63"
    "length [99 :: byte, 100, 101, 102, 103, 104] = m_size ?stm - length [97 :: byte, 98]"
    "m_size ?stm = 8" by (simp_all add: sample_stream_def)
  ultimately obtain sr w' where "consume_stream ei_format 7 POLLIN ''stdout'' 5 (erlang_buffer gepd_state) ?stm
        (length [97 :: byte, 98]) ?w = (Ok sr, w')" "sr_index sr = 8"
      "\<forall>r' sbuf' v. plain_event r' \<longrightarrow>
         consume_stream ei_format 7 r' ''stdout'' 5 sbuf' (sr_stream sr) (sr_index sr) v = (Raise assert_exception, v)"
    using long_line_aborts [of ?stm "[97, 98]" POLLIN 7 ?w "[99, 100, 101, 102, 103, 104]" "set_rd 7 [Rd_data [105]] ?w"
        ei_format "''stdout''" 5 "erlang_buffer gepd_state"] plain_POLLIN
    by auto
  then show ?thesis using plain_POLLIN by (auto simp: numeral_2_eq_2)
qed

text \<open>
  The flush of a process that has ended drops a byte: on a short read it returns (unless the
  write never ends), and on success it has sent everything that was kept and read except its last
  byte, and the index starts over.
\<close>

theorem flush_stream_drops_last:
  assumes "stream_holds stm old" and "m_size stm \<le> 16384" and "send_ok ei name sbuf"
    and "has_event r POLLIN" and "c_read fd (m_size stm - length old) w = (Ok (Inr bs), w1)"
    and "length bs < m_size stm - length old" and "old @ bs \<noteq> []"
  shows "\<exists>res w'. flush_stream ei fd r name pid sbuf stm (length old) w = (res, w') \<and>
    (res = Blocked
     \<or> (\<exists>sr. res = Ok sr \<and> sr_index sr = 0 \<and> (sr_status sr = gepd_success \<longrightarrow>
          (\<exists>msg. encode ei (stream_steps name pid (butlast (old @ bs))) = Some msg
             \<and> sent w' 4 = sent w 4 @ wire True msg))))"
proof -
  let ?stm = "stm\<lparr>m_p := mem_write (length old) bs (m_p stm)\<rparr>" and ?xs = "old @ bs"
  have h: "stream_holds ?stm ?xs" using stream_holds_write(2) [OF assms(1), of bs] assms(6) by simp
  let ?r = "send_stream ei name pid ?stm (length ?xs - 1) sbuf w1"
  have z: "\<not> (length bs = 0 \<and> length old = 0)" "length old + length bs \<noteq> 0" using assms(7) by auto
  then have f: "flush_stream ei fd r name pid sbuf stm (length old) w
      = (case ?r of
           (Ok (status, sbuf'), w2) \<Rightarrow>
             (Ok \<lparr>sr_status = status, sr_revents = r, sr_send = sbuf', sr_stream = ?stm, sr_index = 0\<rparr>, w2)
         | (Raise e, w2) \<Rightarrow> (Raise e, w2) | (Blocked, w2) \<Rightarrow> (Blocked, w2) | (_, w2) \<Rightarrow> (Undefined, w2))"
    using stream_read_short [OF assms(1,5,6)] assms(4) by (auto simp: flush_stream_def Let_def)
  have "cmd_result (encode ei (stream_steps name pid (take (length ?xs - 1) ?xs))) sbuf w1 ?r"
    using assms(2,6) by (intro send_stream_result [OF h _ _ assms(3)]) auto
  then have "cmd_result (encode ei (stream_steps name pid (butlast ?xs))) sbuf w1 ?r"
    by (simp only: butlast_conv_take)
  then show ?thesis
    using c_read_sent [OF assms(5)] unfolding cmd_result_def f by (elim disjE exE conjE) auto
qed

theorem flush_stream_drops_last_witness:
  "\<exists>res w'. flush_stream ei_format 7 POLLIN ''stdout'' 5 (erlang_buffer gepd_state) sample_stream 2
       (io_idle\<lparr>rd := (\<lambda>_. [Rd_data [10, 99]]), wr := [Wr_count 99]\<rparr>) = (res, w') \<and>
     (res = Blocked
      \<or> (\<exists>sr. res = Ok sr \<and> sr_index sr = 0 \<and> (sr_status sr = gepd_success \<longrightarrow>
           (\<exists>msg. encode ei_format (stream_steps ''stdout'' 5 [97, 98, 10]) = Some msg
             \<and> sent w' 4 = wire True msg))))"
proof -
  let ?w = "io_idle\<lparr>rd := (\<lambda>_. [Rd_data [10, 99]]), wr := [Wr_count 99]\<rparr>"
  have "c_read 7 (m_size sample_stream - length [97 :: byte, 98]) ?w = (Ok (Inr [10, 99]), set_rd 7 [] ?w)"
    by (simp add: c_read_def sample_stream_def io_idle_def)
  from flush_stream_drops_last [OF sample_stream_holds _ sample_send_ok _ this, of POLLIN 5] show ?thesis
    by (simp add: sample_stream_def has_event_def POLLIN_def sent_def io_idle_def numeral_2_eq_2)
qed

end
