(* ===== verification/Port_Client.thy ===== *)
theory Port_Client
  imports Port
begin

text \<open>
  What the port library promises to a program built on it: the locale \<open>port_client\<close> has the
  program's invariant and a relation between states, which must not depend on what the library
  changes on its own (the buffers, and the events that \<open>poll\<close> reports) and which the program's port
  functions must keep. Then the whole wait loop keeps them.
\<close>

section \<open>What a call keeps\<close>

definition keeps :: "('p \<Rightarrow> bool) \<Rightarrow> ('p \<Rightarrow> 'p \<Rightarrow> bool) \<Rightarrow> ('p \<times> sys \<Rightarrow> 'a outcome \<times> 'p \<times> sys) \<Rightarrow> bool" where
  "keeps I R m \<longleftrightarrow> (\<forall>p s r p' s'. I p \<longrightarrow> m (p, s) = (Ok r, (p', s')) \<longrightarrow> I p' \<and> R p p')"

lemma keepsI:
  "(\<And>p s r p' s'. I p \<Longrightarrow> m (p, s) = (Ok r, (p', s')) \<Longrightarrow> I p' \<and> R p p') \<Longrightarrow> keeps I R m"
  by (simp add: keeps_def)

lemma keepsD: "keeps I R m \<Longrightarrow> I p \<Longrightarrow> m (p, s) = (Ok r, (p', s')) \<Longrightarrow> I p' \<and> R p p'"
  unfolding keeps_def by blast

text \<open>The same descriptors with other events.\<close>

definition same_descriptors :: "pollfd realloc_ptr \<Rightarrow> pollfd realloc_ptr \<Rightarrow> bool" where
  "same_descriptors t t' \<longleftrightarrow>
     t' = t\<lparr>m_p := m_p t'\<rparr> \<and> (\<forall>i. map_option pfd (m_p t' i) = map_option pfd (m_p t i))"

lemma rp_at_assign_revents:
  assumes "bind_outcome (rp_at t k) (\<lambda>pf. rp_assign t k (pf\<lparr>revents := r\<rparr>)) = Ok t'"
  shows "same_descriptors t t'"
  using assms by (auto simp: rp_at_def rp_assign_def same_descriptors_def split: if_splits option.splits)

lemma store_revents_same:
  assumes "store_revents rs t = Ok t'"
  shows "same_descriptors t t'"
proof -
  obtain ps where ps: "rp_get 0 (length rs) t = Ok ps"
    "rp_put 0 (map2 (\<lambda>pf r. pf\<lparr>revents := r\<rparr>) ps rs) t = Ok t'"
    using assms unfolding store_revents_def by (cases "rp_get 0 (length rs) t") simp_all
  then have "length ps = length rs" "\<forall>i < length rs. m_p t i = Some (ps ! i)"
    by (auto simp: rp_get_def mem_read_eq_Some split: if_splits option.splits)
  with ps(2) show ?thesis by (auto simp: rp_put_def same_descriptors_def mem_write_def split: if_splits)
qed

section \<open>The contract\<close>

locale port_client =
  fixes I :: "'x port_scheme \<Rightarrow> bool"
    and R :: "'x port_scheme \<Rightarrow> 'x port_scheme \<Rightarrow> bool"
    and fns :: "nat \<Rightarrow> 'x port_function option"
  assumes R_refl: "R p p"
    and R_trans: "R p q \<Longrightarrow> R q r \<Longrightarrow> R p r"
    and I_buffer: "I p \<Longrightarrow> I (p\<lparr>erlang_buffer := b\<rparr>) \<and> R p (p\<lparr>erlang_buffer := b\<rparr>)"
    and I_stream1: "I p \<Longrightarrow> I (p\<lparr>stream1 := t, index_stream1 := i\<rparr>) \<and> R p (p\<lparr>stream1 := t, index_stream1 := i\<rparr>)"
    and I_stream2: "I p \<Longrightarrow> I (p\<lparr>stream2 := t, index_stream2 := i\<rparr>) \<and> R p (p\<lparr>stream2 := t, index_stream2 := i\<rparr>)"
    and I_fds: "I p \<Longrightarrow> same_descriptors (fds p) f \<Longrightarrow> I (p\<lparr>fds := f\<rparr>) \<and> R p (p\<lparr>fds := f\<rparr>)"
    and I_function: "fns cmd = Some g \<Longrightarrow> I p \<Longrightarrow> function_body g vs (p, s) = (Ok v, (p', s')) \<Longrightarrow> I p' \<and> R p p'"
begin

lemma keeps_Pair: "keeps I R (Pair r)"
  by (simp add: keeps_def R_refl)

lemma keeps_bind:
  assumes "keeps I R m" "\<And>x. keeps I R (f x)"
  shows "keeps I R (bind_state m f)"
proof (rule keepsI)
  fix p s r p' s'
  assume p: "I p" and b: "bind_state m f (p, s) = (Ok r, (p', s'))"
  from b obtain x p1 s1 where m: "m (p, s) = (Ok x, (p1, s1))" "f x (p1, s1) = (Ok r, (p', s'))"
    by (auto simp: bind_state_eq_Ok)
  with keepsD [OF assms(1) p m(1)] keepsD [OF assms(2) _ m(2)] show "I p' \<and> R p p'" using R_trans by blast
qed

lemma keeps_with_buffer: "keeps I R (with_buffer f)"
  by (rule keepsI) (auto simp: with_buffer_def I_buffer split: prod.splits outcome.splits)

lemma keeps_on_sys: "keeps I R (on_sys f)"
  by (rule keepsI) (auto simp: on_sys_def R_refl split: prod.splits)

lemma keeps_pollfd_at: "keeps I R (pollfd_at k)"
  by (rule keepsI) (auto simp: pollfd_at_def R_refl)

lemma keeps_set_revents: "keeps I R (set_revents k r)"
  by (rule keepsI)
    (auto simp: set_revents_def dest: rp_at_assign_revents intro: I_fds [THEN conjunct1] I_fds [THEN conjunct2]
      split: outcome.splits)

lemma keeps_poll_fds: "keeps I R poll_fds"
  by (rule keepsI)
    (auto simp: poll_fds_def R_refl dest: store_revents_same intro: I_fds [THEN conjunct1] I_fds [THEN conjunct2]
      split: prod.splits outcome.splits sum.splits)

lemmas keeps_basic = keeps_Pair keeps_bind keeps_with_buffer keeps_on_sys keeps_pollfd_at keeps_set_revents
  keeps_poll_fds

lemma keeps_call: "fns cmd = Some g \<Longrightarrow> keeps I R (call_port_function ei cmd g)"
proof (rule keepsI)
  fix p s r p' s'
  assume g: "fns cmd = Some g" and p: "I p" and c: "call_port_function ei cmd g (p, s) = (Ok r, (p', s'))"
  have "keeps I R (function_body g vs)" for vs using I_function [OF g] by (auto simp: keeps_def)
  then have k: "keeps I R (bind_state (function_body g vs)
      (\<lambda>r. with_buffer (emit_cmd ei (store_return_value (return_type g) cmd r))))" for vs
    by (intro keeps_basic)
  from c obtain vs where "bind_state (function_body g vs)
      (\<lambda>r. with_buffer (emit_cmd ei (store_return_value (return_type g) cmd r))) (p, s) = (Ok r, (p', s'))"
    by (auto simp: call_port_function_def split: outcome.splits)
  from keepsD [OF k p this] show "I p' \<and> R p p'" .
qed

lemma keeps_dispatch:
  "keeps I R (\<lambda>(p, s). case rp_get 0 2 (erlang_buffer p) of
      Ok bs \<Rightarrow> (let cmd = le_nat bs in case fns cmd of
          Some f \<Rightarrow> call_port_function ei cmd f (p, s)
        | None \<Rightarrow> with_buffer (emit_cmd ei (reply_error_string cmd invalid_function)) (p, s))
    | _ \<Rightarrow> (Undefined, (p, s)))"
  by (rule keepsI)
    (auto simp: Let_def split: outcome.splits option.splits
      dest: keepsD [OF keeps_call] keepsD [OF keeps_with_buffer])

lemma keeps_consume_erlang: "keeps I R (consume_erlang ei fns r)"
  unfolding consume_erlang_def by (auto intro!: keeps_basic keeps_dispatch)

lemma keeps_wait_erlang: "keeps I R (wait_erlang ei fns count)"
  unfolding wait_erlang_def by (auto intro!: keeps_basic keeps_consume_erlang)

lemma keeps_stream_step:
  assumes "\<And>p x. I p \<Longrightarrow> I (put x p) \<and> R p (put x p)"
  shows "keeps I R (stream_step f k name pid get put count)"
proof -
  have "keeps I R (\<lambda>(p, s).
      case on_io (f (pfd pf) (revents pf) name (pid s) (erlang_buffer p) (fst (get p)) (snd (get p))) s of
        (Ok r, s') \<Rightarrow> (Ok r, (put (sr_stream r, sr_index r) (p\<lparr>erlang_buffer := sr_send r\<rparr>), s'))
      | (Raise e, s') \<Rightarrow> (Raise e, (p, s'))
      | (Blocked, s') \<Rightarrow> (Blocked, (p, s'))
      | (_, s') \<Rightarrow> (Undefined, (p, s')))" for pf
    by (rule keepsI)
      (auto split: prod.splits outcome.splits intro: assms [THEN conjunct1] I_buffer [THEN conjunct1]
        R_trans [OF I_buffer [THEN conjunct2] assms [THEN conjunct2]])
  then show ?thesis unfolding stream_step_def by (auto intro!: keeps_basic)
qed

lemma keeps_wait_round: "keeps I R (wait_round ei fns)"
proof -
  have "keeps I R (stream_step (consume_stream ei) INDEX_STDERR ''stderr'' self
      (\<lambda>p. (stream2 p, index_stream2 p)) (\<lambda>(t, i) p. p\<lparr>stream2 := t, index_stream2 := i\<rparr>) count)"
    "keeps I R (stream_step (consume_stream ei) INDEX_STDOUT ''stdout'' self
      (\<lambda>p. (stream1 p, index_stream1 p)) (\<lambda>(t, i) p. p\<lparr>stream1 := t, index_stream1 := i\<rparr>) count)" for count
    by (rule keeps_stream_step, auto simp: I_stream1 I_stream2)+
  then show ?thesis
    unfolding wait_round_def Let_def
    by (auto intro!: keeps_basic keeps_wait_erlang split: sum.splits)
qed

lemma wait_loop_keeps:
  assumes "wait_loop ei fns (p, s) = Some (Ok r, (p', s'))" "I p"
  shows "I p' \<and> R p p'"
proof -
  have "gs = fns \<longrightarrow> I (fst st) \<longrightarrow> (\<forall>r p' s'. out = (Ok r, (p', s')) \<longrightarrow> I p' \<and> R (fst st) p')"
    if "wait_loop ei' gs st = Some out" for ei' gs st out
  proof (rule wait_loop.raw_induct [OF _ that], goal_cases)
    case (1 loop ei gs st out)
    show ?case
    proof (intro impI allI)
      fix r p' s'
      assume gs: "gs = fns" and p: "I (fst st)" and out: "out = (Ok r, (p', s'))"
      obtain x p1 s1 where x: "wait_round ei fns st = (Ok x, (p1, s1))"
        using 1(2) gs out by (auto split: prod.splits outcome.splits)
      with keepsD [OF keeps_wait_round, of "fst st" ei "snd st"] p have p1: "I p1" "R (fst st) p1" by auto
      from 1(2) gs out x consider "(p1, s1) = (p', s')" | "loop ei fns (p1, s1) = Some (Ok r, (p', s'))"
        by (auto split: sum.splits if_splits)
      then show "I p' \<and> R (fst st) p'"
      proof cases
        case 2
        from 1(1) [OF this] p1(1) have "I p'" "R p1 p'" by auto
        with p1(2) show ?thesis using R_trans by blast
      qed (use p1 in simp)
    qed
  qed
  with assms show ?thesis by fastforce
qed

end

end
