(* ===== verification/Copy_Ptr.thy ===== *)
theory Copy_Ptr
  imports Prelude State_Machine
begin

text \<open>
  The owning pointer of both programs (\<^verbatim>\<open>copy_ptr.hpp\<close>): copying one moves the object, from a
  constant reference too. Objects live in a heap; deleting one that is not there is undefined
  behaviour. The \<open>std::vector\<close> of such pointers that the spawning program keeps is modelled with
  the assignments that \<open>push_back\<close> and \<open>erase\<close> make.
\<close>

section \<open>Model\<close>

type_synonym pointer = "nat option"
type_synonym 'a heap = "nat \<Rightarrow> 'a option"

text \<open>\<open>delete\<close>: the objects whose destructors run, and the heap after them.\<close>

definition c_delete :: "pointer \<Rightarrow> 'a heap \<Rightarrow> ('a list \<times> 'a heap) outcome" where
  "c_delete p h =
     (case p of
        None \<Rightarrow> Ok ([], h)
      | Some a \<Rightarrow> (case h a of None \<Rightarrow> Undefined | Some x \<Rightarrow> Ok ([x], h(a := None))))"

text \<open>The members: \<open>release\<close> returns the pointer and what is left, \<open>reset\<close> the new pointer.\<close>

definition cp_release :: "pointer \<Rightarrow> pointer \<times> pointer" where
  "cp_release p = (p, None)"

definition cp_reset :: "pointer \<Rightarrow> pointer \<Rightarrow> 'a heap \<Rightarrow> (pointer \<times> 'a list \<times> 'a heap) outcome" where
  "cp_reset p q h =
     (if q \<noteq> p then bind_outcome (c_delete p h) (\<lambda>(xs, h'). Ok (q, xs, h')) else Ok (p, [], h))"

definition cp_copy :: "pointer \<Rightarrow> pointer \<times> pointer" where
  "cp_copy src = cp_release src"

definition cp_assign :: "pointer \<Rightarrow> pointer \<Rightarrow> 'a heap \<Rightarrow> (pointer \<times> pointer \<times> 'a list \<times> 'a heap) outcome" where
  "cp_assign dst src h =
     (case cp_release src of (t, src') \<Rightarrow>
        bind_outcome (cp_reset dst t h) (\<lambda>(dst', xs, h'). Ok (dst', src', xs, h')))"

text \<open>\<open>x = x\<close> releases the object before it is looked at.\<close>

definition cp_self_assign :: "pointer \<Rightarrow> 'a heap \<Rightarrow> (pointer \<times> 'a list \<times> 'a heap) outcome" where
  "cp_self_assign p h = (case cp_release p of (t, p') \<Rightarrow> cp_reset p' t h)"

definition cp_deref :: "pointer \<Rightarrow> 'a heap \<Rightarrow> 'a outcome" where
  "cp_deref p h =
     (case p of
        None \<Rightarrow> Raise assert_exception
      | Some a \<Rightarrow> (case h a of None \<Rightarrow> Undefined | Some x \<Rightarrow> Ok x))"

text \<open>
  A program over variables that hold such pointers: \<open>vars x = None\<close> if \<open>x\<close> is out of scope. \<open>New\<close>
  takes an address that \<open>operator new\<close> has found free.
\<close>

datatype 'a cp_op =
    Op_new nat nat 'a
  | Op_copy nat nat
  | Op_assign nat nat
  | Op_reset nat
  | Op_destroy nat

record 'a cp_state =
  vars :: "nat \<Rightarrow> pointer option"
  objects :: "'a heap"
  deleted :: "'a list"

fun cp_exec :: "'a cp_op \<Rightarrow> 'a cp_state \<Rightarrow> 'a cp_state outcome" where
  "cp_exec (Op_new x a v) s =
     Ok (s\<lparr>vars := (vars s)(x \<mapsto> Some a), objects := (objects s)(a \<mapsto> v)\<rparr>)"
| "cp_exec (Op_copy x y) s =
     (case vars s y of
        None \<Rightarrow> Undefined
      | Some src \<Rightarrow>
          (case cp_copy src of (p, src') \<Rightarrow> Ok (s\<lparr>vars := (vars s)(y \<mapsto> src', x \<mapsto> p)\<rparr>)))"
| "cp_exec (Op_assign x y) s =
     (case (vars s x, vars s y) of
        (Some dst, Some src) \<Rightarrow>
          (if x = y then
             bind_outcome (cp_self_assign dst (objects s)) (\<lambda>(p, xs, h).
               Ok (s\<lparr>vars := (vars s)(x \<mapsto> p), objects := h, deleted := deleted s @ xs\<rparr>))
           else
             bind_outcome (cp_assign dst src (objects s)) (\<lambda>(dst', src', xs, h).
               Ok (s\<lparr>vars := (vars s)(x \<mapsto> dst', y \<mapsto> src'), objects := h, deleted := deleted s @ xs\<rparr>)))
      | _ \<Rightarrow> Undefined)"
| "cp_exec (Op_reset x) s =
     (case vars s x of
        None \<Rightarrow> Undefined
      | Some p \<Rightarrow>
          bind_outcome (cp_reset p None (objects s)) (\<lambda>(q, xs, h).
            Ok (s\<lparr>vars := (vars s)(x \<mapsto> q), objects := h, deleted := deleted s @ xs\<rparr>)))"
| "cp_exec (Op_destroy x) s =
     (case vars s x of
        None \<Rightarrow> Undefined
      | Some p \<Rightarrow>
          bind_outcome (c_delete p (objects s)) (\<lambda>(xs, h).
            Ok (s\<lparr>vars := (vars s)(x := None), objects := h, deleted := deleted s @ xs\<rparr>)))"

text \<open>
  The operations that C++ allows: names in scope, new names for constructors, free addresses for
  new objects.
\<close>

fun cp_allowed :: "'a cp_op \<Rightarrow> 'a cp_state \<Rightarrow> bool" where
  "cp_allowed (Op_new x a v) s \<longleftrightarrow> vars s x = None \<and> objects s a = None"
| "cp_allowed (Op_copy x y) s \<longleftrightarrow> vars s x = None \<and> vars s y \<noteq> None"
| "cp_allowed (Op_assign x y) s \<longleftrightarrow> vars s x \<noteq> None \<and> vars s y \<noteq> None"
| "cp_allowed (Op_reset x) s \<longleftrightarrow> vars s x \<noteq> None"
| "cp_allowed (Op_destroy x) s \<longleftrightarrow> vars s x \<noteq> None"

definition cp_start :: "'a cp_state \<Rightarrow> bool" where
  "cp_start s \<longleftrightarrow> s = \<lparr>vars = (\<lambda>_. None), objects = (\<lambda>_. None), deleted = []\<rparr>"

abbreviation cp_reachable :: "'a cp_state \<Rightarrow> bool" where
  "cp_reachable \<equiv> reach cp_start (command_step cp_allowed cp_exec)"

section \<open>Ownership\<close>

text \<open>Every pointer points to a live object, no two to the same, and every object has an owner.\<close>

definition owned :: "'a cp_state \<Rightarrow> bool" where
  "owned s \<longleftrightarrow>
     (\<forall>x a. vars s x = Some (Some a) \<longrightarrow> objects s a \<noteq> None)
     \<and> (\<forall>x y a. vars s x = Some (Some a) \<longrightarrow> vars s y = Some (Some a) \<longrightarrow> x = y)
     \<and> (\<forall>a. objects s a \<noteq> None \<longrightarrow> (\<exists>x. vars s x = Some (Some a)))"

lemma ownedD:
  assumes "owned s"
  shows "vars s x = Some (Some a) \<Longrightarrow> \<exists>v. objects s a = Some v"
    and "vars s x = Some (Some a) \<Longrightarrow> vars s y = Some (Some a) \<Longrightarrow> x = y"
    and "objects s a = Some v \<Longrightarrow> \<exists>x. vars s x = Some (Some a)"
  using assms unfolding owned_def by blast+

lemma delete_owned:
  assumes "owned s" and "vars s x = Some p"
  shows "\<exists>xs h. c_delete p (objects s) = Ok (xs, h)
    \<and> h = (case p of None \<Rightarrow> objects s | Some a \<Rightarrow> (objects s)(a := None))"
  using assms ownedD(1) [OF assms(1), of x] by (cases p) (fastforce simp: c_delete_def)+

lemma owned_new:
  "owned s \<Longrightarrow> vars s x = None \<Longrightarrow> objects s a = None \<Longrightarrow>
   owned (s\<lparr>vars := (vars s)(x \<mapsto> Some a), objects := (objects s)(a \<mapsto> v)\<rparr>)"
  unfolding owned_def by (auto split: if_splits) (metis option.distinct(1))+

lemma owned_move:
  "owned s \<Longrightarrow> vars s y = Some src \<Longrightarrow> vars s x = None \<or> vars s x = Some None \<Longrightarrow> x \<noteq> y \<Longrightarrow>
   owned (s\<lparr>vars := (vars s)(y \<mapsto> None, x \<mapsto> src)\<rparr>)"
  unfolding owned_def by (auto split: if_splits) (metis option.inject option.distinct(1))+

lemma owned_delete:
  assumes "owned s" and "vars s x = Some p" and "q = None \<or> q = Some None"
  shows "owned (s\<lparr>vars := (vars s)(x := q),
     objects := (case p of None \<Rightarrow> objects s | Some a \<Rightarrow> (objects s)(a := None)), deleted := ds\<rparr>)"
  using assms unfolding owned_def
  by (auto split: option.splits if_splits) (metis option.inject option.distinct(1))+

lemma cp_exec_owned:
  assumes "owned s" and "cp_allowed c s"
  shows "\<exists>s'. cp_exec c s = Ok s' \<and> owned s'"
proof (cases c)
  case (Op_new x a v)
  with assms owned_new [of s x a v] show ?thesis by simp
next
  case (Op_copy x y)
  with assms(2) obtain src where y: "vars s y = Some src" "vars s x = None" "x \<noteq> y"
    by (cases "x = y") auto
  with Op_copy owned_move [OF assms(1) y(1), of x] show ?thesis
    by (simp add: cp_copy_def cp_release_def)
next
  case (Op_assign x y)
  with assms(2) obtain dst src where v: "vars s x = Some dst" "vars s y = Some src" by auto
  show ?thesis
  proof (cases "x = y")
    case True
    have "s\<lparr>vars := (vars s)(x \<mapsto> dst), objects := objects s, deleted := deleted s\<rparr> = s"
      using v by (simp add: fun_upd_idem)
    with True v Op_assign assms(1) show ?thesis
      by (cases dst) (simp_all add: cp_self_assign_def cp_release_def cp_reset_def c_delete_def)
  next
    case False
    show ?thesis
    proof (cases "src = dst")
      case True
      then have "src = None" using v False ownedD(2) [OF assms(1), of x _ y] by (cases src) auto
      with True v have "(vars s)(x \<mapsto> dst, y \<mapsto> None) = vars s" by (auto simp: fun_eq_iff)
      with True v False Op_assign assms(1) \<open>src = None\<close> show ?thesis
        by (simp add: cp_assign_def cp_release_def cp_reset_def)
    next
      case ne: False
      obtain xs h where d: "c_delete dst (objects s) = Ok (xs, h)"
          "h = (case dst of None \<Rightarrow> objects s | Some a \<Rightarrow> (objects s)(a := None))"
        using delete_owned [OF assms(1) v(1)] by blast
      let ?t = "s\<lparr>vars := (vars s)(x := Some None), objects := h, deleted := deleted s @ xs\<rparr>"
      have "owned ?t" using owned_delete [OF assms(1) v(1), of "Some None" "deleted s @ xs"] d(2) by simp
      then have "owned (?t\<lparr>vars := (vars ?t)(y \<mapsto> None, x \<mapsto> src)\<rparr>)"
        using v False by (intro owned_move) simp_all
      moreover have "?t\<lparr>vars := (vars ?t)(y \<mapsto> None, x \<mapsto> src)\<rparr>
          = s\<lparr>vars := (vars s)(x \<mapsto> src, y \<mapsto> None), objects := h, deleted := deleted s @ xs\<rparr>"
        using False by (cases s) (auto simp: fun_eq_iff)
      ultimately have "owned (s\<lparr>vars := (vars s)(x \<mapsto> src, y \<mapsto> None), objects := h, deleted := deleted s @ xs\<rparr>)"
        by metis
      then show ?thesis
        using v False ne Op_assign d(1) by (simp add: cp_assign_def cp_release_def cp_reset_def)
    qed
  qed
next
  case (Op_reset x)
  with assms(2) obtain p where p: "vars s x = Some p" by auto
  obtain xs h where d: "c_delete p (objects s) = Ok (xs, h)"
      "h = (case p of None \<Rightarrow> objects s | Some a \<Rightarrow> (objects s)(a := None))"
    using delete_owned [OF assms(1) p] by blast
  from owned_delete [OF assms(1) p, of "Some None"] d p Op_reset assms(1) show ?thesis
    by (cases p) (auto simp: cp_reset_def c_delete_def fun_upd_idem)
next
  case (Op_destroy x)
  with assms(2) obtain p where p: "vars s x = Some p" by auto
  obtain xs h where d: "c_delete p (objects s) = Ok (xs, h)"
      "h = (case p of None \<Rightarrow> objects s | Some a \<Rightarrow> (objects s)(a := None))"
    using delete_owned [OF assms(1) p] by blast
  from owned_delete [OF assms(1) p, of None "deleted s @ xs"] d p Op_destroy show ?thesis by simp
qed

interpretation cp: command_machine cp_start cp_allowed cp_exec owned
proof
  fix s :: "'a cp_state"
  assume "cp_start s"
  then show "owned s" by (simp add: cp_start_def owned_def)
qed (rule cp_exec_owned)

section \<open>A vector of pointers\<close>

text \<open>
  \<open>erase\<close> assigns every later element to its predecessor and destroys the last one. \<open>push_back\<close>
  copies its argument; when the block is full, the elements are copied to a new block and the old
  ones, now null, are destroyed.
\<close>

fun vector_shift :: "pointer list \<Rightarrow> 'a heap \<Rightarrow> (pointer list \<times> 'a list \<times> 'a heap) outcome" where
  "vector_shift [] h = Undefined"
| "vector_shift [p] h = bind_outcome (c_delete p h) (\<lambda>(xs, h'). Ok ([], xs, h'))"
| "vector_shift (p # q # ps) h =
     bind_outcome (cp_assign p q h) (\<lambda>(p', q', xs, h1).
     bind_outcome (vector_shift (q' # ps) h1) (\<lambda>(ps', ys, h2). Ok (p' # ps', xs @ ys, h2)))"

definition vector_erase :: "nat \<Rightarrow> pointer list \<Rightarrow> 'a heap \<Rightarrow> (pointer list \<times> 'a list \<times> 'a heap) outcome" where
  "vector_erase k v h =
     bind_outcome (vector_shift (drop k v) h) (\<lambda>(ps, xs, h'). Ok (take k v @ ps, xs, h'))"

definition vector_push_back :: "bool \<Rightarrow> pointer list \<Rightarrow> pointer \<Rightarrow> 'a heap
    \<Rightarrow> (pointer list \<times> pointer \<times> 'a list \<times> 'a heap) outcome" where
  "vector_push_back full v x h =
     (case cp_copy x of (p, x') \<Rightarrow>
        if full then
          bind_outcome
            (foldl (\<lambda>r q. bind_outcome r (\<lambda>(xs, h). bind_outcome (c_delete q h) (\<lambda>(ys, h'). Ok (xs @ ys, h'))))
               (Ok ([], h)) (map (snd \<circ> cp_copy) v))
            (\<lambda>(xs, h'). Ok (map (fst \<circ> cp_copy) v @ [p], x', xs, h'))
        else Ok (v @ [p], x', [], h))"

lemma vector_shift_null: "vector_shift (None # map Some as) h = Ok (map Some as, [], h)"
proof (induction as)
  case (Cons a as)
  then show ?case by (simp add: cp_assign_def cp_release_def cp_reset_def c_delete_def)
qed (simp add: c_delete_def)

lemma vector_shift_deletes:
  assumes "h a = Some x" and "a \<notin> set as"
  shows "vector_shift (Some a # map Some as) h = Ok (map Some as, [x], h(a := None))"
  using assms
  by (cases as) (auto simp: c_delete_def cp_assign_def cp_release_def cp_reset_def vector_shift_null)

lemma vector_erase_deletes:
  assumes "k < length as" and "distinct as" and "h (as ! k) = Some x"
  shows "vector_erase k (map Some as) h
    = Ok (map Some (take k as @ drop (Suc k) as), [x], h(as ! k := None))"
proof -
  have "drop k as = as ! k # drop (Suc k) as" using assms(1) by (simp add: Cons_nth_drop_Suc)
  moreover have "as ! k \<notin> set (drop (Suc k) as)"
    using assms(1,2) by (metis calculation distinct.simps(2) distinct_drop)
  ultimately show ?thesis
    using vector_shift_deletes [of h "as ! k" x] assms(3) by (simp add: vector_erase_def drop_map take_map)
qed

lemma vector_push_back_moves:
  "vector_push_back full v x h = Ok (v @ [x], None, [], h)"
proof -
  have "foldl (\<lambda>r q. bind_outcome r (\<lambda>(xs, h). bind_outcome (c_delete q h) (\<lambda>(ys, h'). Ok (xs @ ys, h'))))
      (Ok ([], h)) (map (snd \<circ> cp_copy) v) = Ok ([], h)"
    by (induction v) (simp_all add: cp_copy_def cp_release_def c_delete_def)
  moreover have "map (fst \<circ> cp_copy) v = v" by (induction v) (simp_all add: cp_copy_def cp_release_def)
  ultimately show ?thesis by (simp add: vector_push_back_def cp_copy_def cp_release_def)
qed

section \<open>Properties\<close>

text \<open>
  C27: The pointers never free an object twice or use a freed one: in every state that a program
  over them reaches by constructing, copying, assigning (to itself too), resetting and destroying
  pointers, each object has exactly one owner and each pointer a live object, and every further
  operation that the language allows is defined.
\<close>

theorem copy_ptr_safe:
  assumes "cp_reachable s"
  shows "owned s \<and> (\<forall>c. cp_allowed c s \<longrightarrow> (\<exists>s'. cp_exec c s = Ok s' \<and> owned s'))"
  using cp.command_reach [OF assms] .

theorem copy_ptr_safe_witness:
  "\<exists>s. cp_reachable s \<and> vars s 1 = Some (Some 7) \<and> owned s
     \<and> (\<exists>s'. cp_exec (Op_destroy 1) s = Ok s' \<and> deleted s' = [True])"
proof -
  let ?s0 = "\<lparr>vars = (\<lambda>_. None), objects = (\<lambda>_. None), deleted = []\<rparr> :: bool cp_state"
  let ?s1 = "\<lparr>vars = [0 \<mapsto> Some 7], objects = [7 \<mapsto> True], deleted = []\<rparr>"
  let ?s2 = "\<lparr>vars = [0 \<mapsto> None, 1 \<mapsto> Some 7], objects = [7 \<mapsto> True], deleted = []\<rparr>"
  have "cp_start ?s0" by (simp add: cp_start_def)
  moreover have "command_step cp_allowed cp_exec ?s0 ?s1"
    unfolding command_step_def by (rule exI [of _ "Op_new 0 7 True"]) simp
  moreover have "command_step cp_allowed cp_exec ?s1 ?s2"
    unfolding command_step_def by (rule exI [of _ "Op_copy 1 0"]) (simp add: cp_copy_def cp_release_def)
  ultimately have r: "cp_reachable ?s2" by (blast intro: reach.intros)
  moreover have "cp_exec (Op_destroy 1) ?s2
      = Ok \<lparr>vars = [0 \<mapsto> None], objects = (\<lambda>_. None), deleted = [True]\<rparr>"
    by (simp add: c_delete_def fun_eq_iff)
  ultimately show ?thesis
    using copy_ptr_safe [OF r] by (intro exI [of _ ?s2]) simp
qed

text \<open>
  Erasing a process from the vector destroys exactly that process, once, and keeps the others
  in order: the assignments that shift the later pointers move the objects and delete nothing else.
\<close>

theorem vector_erase_deletes_once:
  assumes "k < length as" and "distinct as" and "h (as ! k) = Some x"
  shows "vector_erase k (map Some as) h
    = Ok (map Some (take k as @ drop (Suc k) as), [x], h(as ! k := None))"
  using assms by (rule vector_erase_deletes)

theorem vector_erase_deletes_once_witness:
  "vector_erase 1 [Some 4, Some 5, Some 6] (\<lambda>a. Some (a + 1)) = Ok ([Some 4, Some 6], [6], (\<lambda>a. Some (a + 1))(5 := None))"
  using vector_erase_deletes_once [of 1 "[4, 5, 6]" "\<lambda>a. Some (a + 1)" 6] by simp

end
