(* ===== verification/Os_Limits.thy ===== *)
theory Os_Limits
  imports Sys Buffers
begin

text \<open>
  The resource limits of a spawned process (\<^verbatim>\<open>cloudi_os_rlimit.cpp\<close>): the request is a sequence of
  records in the command buffer, each a limit type, a format and one or two 64-bit values; the
  Erlang side (\<^verbatim>\<open>cloudi_core_i_os_process.erl\<close>) writes it. The platform is Linux, which has every
  limit of the list but \<open>RLIMIT_VMEM\<close>.
\<close>

section \<open>Model\<close>

definition RLIMIT_CPU :: int where "RLIMIT_CPU = 0"
definition RLIMIT_FSIZE :: int where "RLIMIT_FSIZE = 1"
definition RLIMIT_DATA :: int where "RLIMIT_DATA = 2"
definition RLIMIT_STACK :: int where "RLIMIT_STACK = 3"
definition RLIMIT_CORE :: int where "RLIMIT_CORE = 4"
definition RLIMIT_RSS :: int where "RLIMIT_RSS = 5"
definition RLIMIT_NPROC :: int where "RLIMIT_NPROC = 6"
definition RLIMIT_NOFILE :: int where "RLIMIT_NOFILE = 7"
definition RLIMIT_MEMLOCK :: int where "RLIMIT_MEMLOCK = 8"
definition RLIMIT_AS :: int where "RLIMIT_AS = 9"
definition RLIMIT_SIGPENDING :: int where "RLIMIT_SIGPENDING = 11"
definition RLIMIT_MSGQUEUE :: int where "RLIMIT_MSGQUEUE = 12"
definition RLIMIT_NICE :: int where "RLIMIT_NICE = 13"
definition RLIMIT_RTPRIO :: int where "RLIMIT_RTPRIO = 14"
definition RLIMIT_RTTIME :: int where "RLIMIT_RTTIME = 15"
definition RLIM_INFINITY :: u64 where "RLIM_INFINITY = 0xffffffffffffffff"

lemmas rlimit_defs = RLIMIT_CPU_def RLIMIT_FSIZE_def RLIMIT_DATA_def RLIMIT_STACK_def RLIMIT_CORE_def
  RLIMIT_RSS_def RLIMIT_NPROC_def RLIMIT_NOFILE_def RLIMIT_MEMLOCK_def RLIMIT_AS_def
  RLIMIT_SIGPENDING_def RLIMIT_MSGQUEUE_def RLIMIT_NICE_def RLIMIT_RTPRIO_def RLIMIT_RTTIME_def

definition CLOUDI_RLIMITS_CURRENT_ONLY :: byte where "CLOUDI_RLIMITS_CURRENT_ONLY = 1"
definition CLOUDI_RLIMITS_MAXIMUM_ONLY :: byte where "CLOUDI_RLIMITS_MAXIMUM_ONLY = 2"
definition CLOUDI_RLIMITS_CURRENT_MAXIMUM :: byte where "CLOUDI_RLIMITS_CURRENT_MAXIMUM = 3"
definition CLOUDI_RLIMITS_VALUE_INFINITY :: u64 where "CLOUDI_RLIMITS_VALUE_INFINITY = 0xffffffffffffffff"

text \<open>The cases of the \<open>switch\<close> of \<open>type_value\<close>; any other value fails its assertion.\<close>

definition resource_types :: "(byte \<times> int) list" where
  "resource_types =
     [(1, RLIMIT_AS), (2, RLIMIT_CORE), (3, RLIMIT_CPU), (4, RLIMIT_DATA), (5, RLIMIT_FSIZE),
      (6, RLIMIT_MEMLOCK), (7, RLIMIT_MSGQUEUE), (8, RLIMIT_NICE), (9, RLIMIT_NOFILE),
      (10, RLIMIT_NPROC), (11, RLIMIT_RSS), (12, RLIMIT_RTPRIO), (13, RLIMIT_RTTIME),
      (14, RLIMIT_SIGPENDING), (15, RLIMIT_STACK)]"

definition type_value :: "byte \<Rightarrow> int outcome" where
  "type_value v = (case map_of resource_types v of Some r \<Rightarrow> Ok r | None \<Rightarrow> Raise assert_exception)"

definition rlimit_value :: "u64 \<Rightarrow> u64" where
  "rlimit_value v = (if v = CLOUDI_RLIMITS_VALUE_INFINITY then RLIM_INFINITY else v)"

text \<open>\<open>getrlimit\<close>: the limit that is not in the request is kept.\<close>

definition c_getrlimit :: "int \<Rightarrow> sys \<Rightarrow> (u64 \<times> u64) option \<times> sys" where
  "c_getrlimit ty s = (limits s ty, sys_log (Sys_getrlimit ty) s)"

definition c_setrlimit :: "int \<Rightarrow> u64 \<Rightarrow> u64 \<Rightarrow> sys \<Rightarrow> (errno + int) outcome \<times> sys" where
  "c_setrlimit ty cur mx s =
     (case sys_int (Sys_setrlimit ty cur mx) s of
        (Ok (Inr r), s') \<Rightarrow> (Ok (Inr r), s'\<lparr>limits := (limits s')(ty := Some (cur, mx))\<rparr>)
      | x \<Rightarrow> x)"

definition rlimit_current_get :: "int \<Rightarrow> sys \<Rightarrow> u64 option \<times> sys" where
  "rlimit_current_get ty s = (case c_getrlimit ty s of (v, s') \<Rightarrow> (map_option fst v, s'))"

definition rlimit_maximum_get :: "int \<Rightarrow> sys \<Rightarrow> u64 option \<times> sys" where
  "rlimit_maximum_get ty s = (case c_getrlimit ty s of (v, s') \<Rightarrow> (map_option snd v, s'))"

text \<open>One record: the pair of limits to set, or \<open>None\<close> when \<open>getrlimit\<close> fails, and its size.\<close>

definition rlimit_element :: "byte realloc_ptr \<Rightarrow> nat \<Rightarrow> byte \<Rightarrow> int \<Rightarrow> sys
    \<Rightarrow> ((u64 \<times> u64) option \<times> nat) outcome \<times> sys" where
  "rlimit_element buf off fmt ty s =
     (let value = (\<lambda>k. bind_outcome (rp_get (off + k) 8 buf) (\<lambda>bs. Ok (rlimit_value (u64_of bs))))
      in if fmt = CLOUDI_RLIMITS_CURRENT_ONLY then
           (case value 0 of
              Ok cur \<Rightarrow> (case rlimit_maximum_get ty s of (m, s') \<Rightarrow> (Ok (map_option (Pair cur) m, 8), s'))
            | _ \<Rightarrow> (Undefined, s))
         else if fmt = CLOUDI_RLIMITS_MAXIMUM_ONLY then
           (case value 0 of
              Ok mx \<Rightarrow> (case rlimit_current_get ty s of (c, s') \<Rightarrow> (Ok (map_option (\<lambda>c. (c, mx)) c, 8), s'))
            | _ \<Rightarrow> (Undefined, s))
         else if fmt = CLOUDI_RLIMITS_CURRENT_MAXIMUM then
           (case bind_outcome (value 0) (\<lambda>cur. bind_outcome (value 8) (\<lambda>mx. Ok (cur, mx))) of
              Ok v \<Rightarrow> (Ok (Some v, 16), s)
            | _ \<Rightarrow> (Undefined, s))
         else (Raise assert_exception, s))"

text \<open>
  \<open>rlimit\<close> on the \<open>len\<close> bytes at \<open>off\<close> of the command buffer; \<open>i\<close> is its index. Reading past \<open>len\<close>
  reads what follows in the buffer.
\<close>

function rlimit_loop :: "byte realloc_ptr \<Rightarrow> nat \<Rightarrow> nat \<Rightarrow> nat \<Rightarrow> sys \<Rightarrow> int outcome \<times> sys" where
  "rlimit_loop buf off len i s =
     (if \<not> i < len then (Ok 0, s)
      else
        (case rp_get (off + i) 2 buf of
           Ok hdr \<Rightarrow>
             (case type_value (hdr ! 0) of
                Ok ty \<Rightarrow>
                  (case rlimit_element buf (off + i + 2) (hdr ! 1) ty s of
                     (Ok (None, n), s1) \<Rightarrow> (Ok (- 1), s1)
                   | (Ok (Some (cur, mx), n), s1) \<Rightarrow>
                       (case c_setrlimit ty cur mx s1 of
                          (Ok (Inl e), s2) \<Rightarrow> (Ok (- 1), s2)
                        | (Ok (Inr r), s2) \<Rightarrow> rlimit_loop buf off len (i + 2 + n) s2
                        | (_, s2) \<Rightarrow> (Blocked, s2))
                   | (Raise e, s1) \<Rightarrow> (Raise e, s1)
                   | (_, s1) \<Rightarrow> (Undefined, s1))
              | _ \<Rightarrow> (Raise assert_exception, s))
         | _ \<Rightarrow> (Undefined, s)))"
  by pat_completeness auto
termination
  by (relation "measure (\<lambda>(buf, off, len, i, s). len - i)") auto

declare rlimit_loop.simps [simp del]

definition rlimit :: "byte realloc_ptr \<Rightarrow> nat \<Rightarrow> nat \<Rightarrow> sys \<Rightarrow> int outcome \<times> sys" where
  "rlimit buf off len s = rlimit_loop buf off len 0 s"

section \<open>The Erlang side\<close>

datatype limit_key =
    L_as | L_core | L_cpu | L_data | L_fsize | L_memlock | L_msgqueue | L_nice | L_nofile | L_nproc
  | L_rss | L_rtprio | L_rttime | L_sigpending | L_stack | L_vmem

datatype limit_value = Infinity | Value nat

datatype limit_values =
    Current limit_value
  | Maximum limit_value
  | Current_maximum limit_value limit_value

fun limit_type :: "limit_key \<Rightarrow> byte" where
  "limit_type L_as = 1"
| "limit_type L_core = 2"
| "limit_type L_cpu = 3"
| "limit_type L_data = 4"
| "limit_type L_fsize = 5"
| "limit_type L_memlock = 6"
| "limit_type L_msgqueue = 7"
| "limit_type L_nice = 8"
| "limit_type L_nofile = 9"
| "limit_type L_nproc = 10"
| "limit_type L_rss = 11"
| "limit_type L_rtprio = 12"
| "limit_type L_rttime = 13"
| "limit_type L_sigpending = 14"
| "limit_type L_stack = 15"
| "limit_type L_vmem = 16"

fun limit_format_list_value :: "limit_value \<Rightarrow> u64" where
  "limit_format_list_value Infinity = 0xffffffffffffffff"
| "limit_format_list_value (Value n) = word_of_nat n"

fun limit_format_list_type :: "limit_key \<times> limit_values \<Rightarrow> bytes" where
  "limit_format_list_type (k, Current c) = [limit_type k, 1] @ u64_bytes (limit_format_list_value c)"
| "limit_format_list_type (k, Maximum m) = [limit_type k, 2] @ u64_bytes (limit_format_list_value m)"
| "limit_format_list_type (k, Current_maximum c m) =
     [limit_type k, 3] @ u64_bytes (limit_format_list_value c) @ u64_bytes (limit_format_list_value m)"

definition limit_format :: "(limit_key \<times> limit_values) list \<Rightarrow> bytes" where
  "limit_format ls = concat (map limit_format_list_type ls)"

section \<open>What the request means\<close>

text \<open>The limits of the platform, by name.\<close>

fun resource_of :: "limit_key \<Rightarrow> int" where
  "resource_of L_as = RLIMIT_AS"
| "resource_of L_core = RLIMIT_CORE"
| "resource_of L_cpu = RLIMIT_CPU"
| "resource_of L_data = RLIMIT_DATA"
| "resource_of L_fsize = RLIMIT_FSIZE"
| "resource_of L_memlock = RLIMIT_MEMLOCK"
| "resource_of L_msgqueue = RLIMIT_MSGQUEUE"
| "resource_of L_nice = RLIMIT_NICE"
| "resource_of L_nofile = RLIMIT_NOFILE"
| "resource_of L_nproc = RLIMIT_NPROC"
| "resource_of L_rss = RLIMIT_RSS"
| "resource_of L_rtprio = RLIMIT_RTPRIO"
| "resource_of L_rttime = RLIMIT_RTTIME"
| "resource_of L_sigpending = RLIMIT_SIGPENDING"
| "resource_of L_stack = RLIMIT_STACK"
| "resource_of L_vmem = - 1"

fun limit_word :: "limit_value \<Rightarrow> u64" where
  "limit_word Infinity = RLIM_INFINITY"
| "limit_word (Value n) = word_of_nat n"

text \<open>
  The request as a sequence of system calls: the missing half of a limit is asked for, then the
  limit is set; the first failure ends it with \<open>- 1\<close>.
\<close>

fun wanted_limit :: "limit_key \<Rightarrow> limit_values \<Rightarrow> sys \<Rightarrow> (u64 \<times> u64) option \<times> sys" where
  "wanted_limit k (Current c) s =
     (map_option (\<lambda>(_, m). (limit_word c, m)) (limits s (resource_of k)), sys_log (Sys_getrlimit (resource_of k)) s)"
| "wanted_limit k (Maximum m) s =
     (map_option (\<lambda>(c, _). (c, limit_word m)) (limits s (resource_of k)), sys_log (Sys_getrlimit (resource_of k)) s)"
| "wanted_limit k (Current_maximum c m) s = (Some (limit_word c, limit_word m), s)"

fun apply_limits :: "(limit_key \<times> limit_values) list \<Rightarrow> sys \<Rightarrow> int outcome \<times> sys" where
  "apply_limits [] s = (Ok 0, s)"
| "apply_limits ((k, v) # ls) s =
     (case wanted_limit k v s of
        (None, s1) \<Rightarrow> (Ok (- 1), s1)
      | (Some (cur, mx), s1) \<Rightarrow>
          (case c_setrlimit (resource_of k) cur mx s1 of
             (Ok (Inl e), s2) \<Rightarrow> (Ok (- 1), s2)
           | (Ok (Inr r), s2) \<Rightarrow> apply_limits ls s2
           | (_, s2) \<Rightarrow> (Blocked, s2)))"

lemma type_value_limit: "k \<noteq> L_vmem \<Longrightarrow> type_value (limit_type k) = Ok (resource_of k)"
  by (cases k) (simp_all add: type_value_def resource_types_def)

lemma rlimit_value_word: "rlimit_value (limit_format_list_value v) = limit_word v"
  by (cases v) (simp_all add: rlimit_value_def CLOUDI_RLIMITS_VALUE_INFINITY_def RLIM_INFINITY_def)

lemma length_limit_format_list_type:
  "length (limit_format_list_type (k, v)) = (case v of Current_maximum _ _ \<Rightarrow> 18 | _ \<Rightarrow> 10)"
  by (cases v) simp_all

lemma rlimit_element_limit:
  assumes "holds buf off (limit_format_list_type (k, v))"
  shows "\<exists>fmt. rp_get off 2 buf = Ok [limit_type k, fmt]
    \<and> rlimit_element buf (off + 2) fmt ty s
      = (case v of
           Current c \<Rightarrow> (case rlimit_maximum_get ty s of (m, s') \<Rightarrow> (Ok (map_option (Pair (limit_word c)) m, 8), s'))
         | Maximum m \<Rightarrow> (case rlimit_current_get ty s of (c, s') \<Rightarrow> (Ok (map_option (\<lambda>c. (c, limit_word m)) c, 8), s'))
         | Current_maximum c m \<Rightarrow> (Ok (Some (limit_word c, limit_word m), 16), s))"
proof -
  have g: "rp_get off 2 buf = Ok [a, b]" if "holds buf off ([a, b] @ xs)" for a b xs
    using that [unfolded holds_append] holds_get [of buf off "[a, b]"] by (simp add: numeral_2_eq_2)
  have u: "rp_get o' 8 buf = Ok (u64_bytes x)" if "holds buf o' (u64_bytes x)" for o' x
    using holds_get [OF that] by simp
  note defs = rlimit_element_def CLOUDI_RLIMITS_CURRENT_ONLY_def CLOUDI_RLIMITS_MAXIMUM_ONLY_def
    CLOUDI_RLIMITS_CURRENT_MAXIMUM_def Let_def rlimit_value_word
  show ?thesis
  proof (cases v)
    case (Current c)
    with assms have h: "holds buf off ([limit_type k, 1] @ u64_bytes (limit_format_list_value c))" by simp
    then have "holds buf (off + 2) (u64_bytes (limit_format_list_value c))"
      by (simp only: holds_append) (simp add: numeral_2_eq_2)
    with Current g [OF h] show ?thesis
      by (intro exI [of _ 1]) (simp add: defs u del: add_2_eq_Suc')
  next
    case (Maximum m)
    with assms have h: "holds buf off ([limit_type k, 2] @ u64_bytes (limit_format_list_value m))" by simp
    then have "holds buf (off + 2) (u64_bytes (limit_format_list_value m))"
      by (simp only: holds_append) (simp add: numeral_2_eq_2)
    with Maximum g [OF h] show ?thesis
      by (intro exI [of _ 2]) (simp add: defs u del: add_2_eq_Suc')
  next
    case (Current_maximum c m)
    with assms have h: "holds buf off ([limit_type k, 3] @ u64_bytes (limit_format_list_value c)
        @ u64_bytes (limit_format_list_value m))" by simp
    then have "holds buf (off + 2) (u64_bytes (limit_format_list_value c))"
      "holds buf (off + 2 + 8) (u64_bytes (limit_format_list_value m))"
      by (simp_all only: holds_append) (simp_all add: numeral_2_eq_2)
    with Current_maximum g [OF h] show ?thesis
      by (intro exI [of _ 3]) (simp add: defs u del: add_2_eq_Suc')
  qed
qed

lemma rlimit_loop_applies:
  assumes "holds buf (off + i) (limit_format ls)" and "len = i + length (limit_format ls)"
    and "\<forall>(k, v) \<in> set ls. k \<noteq> L_vmem"
  shows "rlimit_loop buf off len i s = apply_limits ls s"
  using assms
proof (induction ls arbitrary: i s)
  case Nil
  then show ?case by (simp add: rlimit_loop.simps [of _ _ _ i] limit_format_def)
next
  case (Cons l ls)
  obtain k v where l: "l = (k, v)" by (cases l)
  let ?n = "length (limit_format_list_type (k, v))"
  have f: "limit_format (l # ls) = limit_format_list_type (k, v) @ limit_format ls"
    using l by (simp add: limit_format_def)
  have h: "holds buf (off + i) (limit_format_list_type (k, v))" "holds buf (off + (i + ?n)) (limit_format ls)"
    using Cons.prems(1) unfolding f by (simp_all only: holds_append add.assoc)
  have k: "type_value (limit_type k) = Ok (resource_of k)"
    using Cons.prems(3) l by (intro type_value_limit) auto
  have n: "2 < ?n" by (cases v) simp_all
  have lt: "i < len" using Cons.prems(2) n unfolding f by (simp only: length_append)
  have IH: "rlimit_loop buf off len (i + ?n) s2 = apply_limits ls s2" for s2
    using Cons.IH [OF h(2)] Cons.prems(2,3) unfolding f by simp
  obtain fmt where e: "rp_get (off + i) 2 buf = Ok [limit_type k, fmt]"
    "rlimit_element buf (off + i + 2) fmt (resource_of k) s
      = (case v of
           Current c \<Rightarrow> (case rlimit_maximum_get (resource_of k) s of
             (m, s') \<Rightarrow> (Ok (map_option (Pair (limit_word c)) m, 8), s'))
         | Maximum m \<Rightarrow> (case rlimit_current_get (resource_of k) s of
             (c, s') \<Rightarrow> (Ok (map_option (\<lambda>c. (c, limit_word m)) c, 8), s'))
         | Current_maximum c m \<Rightarrow> (Ok (Some (limit_word c, limit_word m), 16), s))"
    using rlimit_element_limit [OF h(1)] by blast
  obtain m where m: "?n = m + 2" using n by (metis le_add_diff_inverse2 less_imp_le)
  have w: "rlimit_element buf (off + i + 2) fmt (resource_of k) s
      = (case wanted_limit k v s of (x, s1) \<Rightarrow> (Ok (x, m), s1))"
    using m unfolding e(2)
    by (cases v) (simp_all add: rlimit_maximum_get_def rlimit_current_get_def c_getrlimit_def option.map_comp
      comp_def case_prod_unfold)
  obtain x s1 where x: "wanted_limit k v s = (x, s1)" by fastforce
  have IH': "rlimit_loop buf off len (i + 2 + m) s2 = apply_limits ls s2" for s2
    using IH [of s2] m by (simp add: add.commute add.left_commute)
  show ?case
    unfolding l
    by (subst rlimit_loop.simps)
      (use lt e(1) k w x IH' in \<open>simp split: option.splits prod.splits outcome.splits sum.splits\<close>)
qed

section \<open>Property\<close>

text \<open>
  C24: Resource limits are applied as configured: for every list of limits that the Erlang side
  formats (for the limits of the platform) and every behaviour of the operating system, \<open>rlimit\<close>
  performs exactly the system calls that the list asks for, in its order, asking for the half of a
  limit that is not given, with \<open>infinity\<close> as no limit, and stops with \<open>- 1\<close> at the first failure.
\<close>

theorem rlimit_refines:
  assumes "holds buf off (limit_format ls)" and "\<forall>(k, v) \<in> set ls. k \<noteq> L_vmem"
  shows "rlimit buf off (length (limit_format ls)) s = apply_limits ls s"
  using rlimit_loop_applies [of buf off 0 ls "length (limit_format ls)" s] assms by (simp add: rlimit_def)

definition limit_buffer :: "bytes \<Rightarrow> byte realloc_ptr" where
  "limit_buffer bs = \<lparr>m_initialSize = 64, m_size = 64, m_maxSize = 64, m_p = mem_write 0 bs (\<lambda>_. None), m_alloc = 64\<rparr>"

lemma limit_buffer_holds: "length bs \<le> 64 \<Longrightarrow> holds (limit_buffer bs) 0 bs"
proof -
  have "(64 :: nat) = 2 ^ 6" by simp
  then have "is_pow2 64" by (metis is_pow2_def)
  then show "length bs \<le> 64 \<Longrightarrow> holds (limit_buffer bs) 0 bs"
    by (simp add: holds_def limit_buffer_def rp_wf_def) (simp add: mem_write_def)
qed

definition limit_sys :: sys where
  "limit_sys = \<lparr>io = \<lparr>rd = (\<lambda>_. []), dgram = (\<lambda>_. False), wr = [], polls = [], clock = [], allocs = [], written = [],
       py = no_interpreter\<rparr>,
     pipes = [], rets = [Inr 0, Inr 0], limits = (\<lambda>_. Some (5, 9)), passwd = (\<lambda>_. None),
     groups = (\<lambda>_. None), self = 42, exits = [], trace = []\<rparr>"

theorem rlimit_refines_witness:
  "fst (rlimit (limit_buffer (limit_format [(L_nofile, Current (Value 7)), (L_core, Current_maximum (Value 0) Infinity)]))
     0 28 limit_sys) = Ok 0
   \<and> trace (snd (rlimit (limit_buffer (limit_format
        [(L_nofile, Current (Value 7)), (L_core, Current_maximum (Value 0) Infinity)])) 0 28 limit_sys))
     = [Sys_getrlimit RLIMIT_NOFILE, Sys_setrlimit RLIMIT_NOFILE 7 9, Sys_setrlimit RLIMIT_CORE 0 RLIM_INFINITY]"
proof -
  let ?ls = "[(L_nofile, Current (Value 7)), (L_core, Current_maximum (Value 0) Infinity)]"
  have l: "length (limit_format ?ls) = 28" by (simp add: limit_format_def)
  have "rlimit (limit_buffer (limit_format ?ls)) 0 28 limit_sys = apply_limits ?ls limit_sys"
    using rlimit_refines [of "limit_buffer (limit_format ?ls)" 0 ?ls limit_sys]
      limit_buffer_holds [of "limit_format ?ls"] l by simp
  then show ?thesis
    by (simp add: c_setrlimit_def sys_int_def sys_log_def limit_sys_def)
qed

end
