(* ===== verification/Os_Owner.thy ===== *)
theory Os_Owner
  imports Sys Buffers
begin

text \<open>
  The user and group of a spawned process (\<^verbatim>\<open>cloudi_os_owner.cpp\<close>): \<open>owner_get\<close> looks the names up,
  before the file system may change under a new root directory, and \<open>owner_set\<close> gives up the
  privileges, the group first.
\<close>

section \<open>Model\<close>

text \<open>
  \<open>uid_t\<close> and \<open>gid_t\<close> have 32 bits. The names are pointers into the command buffer with their
  lengths, which count the terminating NUL.
\<close>

definition owner_get :: "byte realloc_ptr \<Rightarrow> u64 \<Rightarrow> nat \<Rightarrow> nat \<Rightarrow> u64 \<Rightarrow> nat \<Rightarrow> nat \<Rightarrow> sys
    \<Rightarrow> (int \<times> u64 \<times> u64) outcome \<times> sys" where
  "owner_get buf user_i user_str user_str_len group_i group_str group_str_len s =
     (let uid = (ucast user_i :: u32);
          gid = (ucast group_i :: u32);
          fail = (\<lambda>s. (Ok (- 1, user_i, group_i), s));
          group_step = (\<lambda>uid gid s.
            if gid = 0 \<and> 1 < group_str_len then
              (case rp_cstr group_str buf of
                 Ok name \<Rightarrow>
                   (case groups s name of
                      None \<Rightarrow> fail (sys_log (Sys_getgrnam name) s)
                    | Some g \<Rightarrow> (Ok (0, ucast (uid :: u32), ucast g), sys_log (Sys_getgrnam name) s))
               | _ \<Rightarrow> (Undefined, s))
            else (Ok (0, ucast uid, ucast (gid :: u32)), s))
      in if uid = 0 \<and> 1 < user_str_len then
           (case rp_cstr user_str buf of
              Ok name \<Rightarrow>
                (case passwd s name of
                   None \<Rightarrow> fail (sys_log (Sys_getpwnam name) s)
                 | Some (u, g) \<Rightarrow>
                     group_step u (if gid = 0 \<and> group_str_len = 1 then g else gid) (sys_log (Sys_getpwnam name) s))
            | _ \<Rightarrow> (Undefined, s))
         else group_step uid gid s)"

definition owner_set :: "u64 \<Rightarrow> u64 \<Rightarrow> sys \<Rightarrow> int outcome \<times> sys" where
  "owner_set user_i group_i =
     (let uid = (ucast user_i :: u32);
          gid = (ucast group_i :: u32);
          user_step = (if 0 < uid then or_fail (\<lambda>_. - 1) (sys_int (Sys_setuid uid)) (\<lambda>_. Pair (Ok 0))
                       else Pair (Ok 0))
      in if 0 < gid then or_fail (\<lambda>_. - 1) (sys_int (Sys_setgid gid)) (\<lambda>_. user_step) else user_step)"

section \<open>Properties\<close>

text \<open>The calls that \<open>owner_set\<close> makes for a user and a group, the group first.\<close>

definition privilege_calls :: "u32 \<Rightarrow> u32 \<Rightarrow> syscall list" where
  "privilege_calls uid gid =
     (if gid = 0 then [] else [Sys_setgid gid]) @ (if uid = 0 then [] else [Sys_setuid uid])"

lemma or_fail_sys_int:
  "or_fail fail (sys_int c) k s =
     (case rets s of
        [] \<Rightarrow> (Blocked, s)
      | Inl e # rs \<Rightarrow> (Ok (fail e), sys_log c (s\<lparr>rets := rs\<rparr>))
      | Inr x # rs \<Rightarrow> k x (sys_log c (s\<lparr>rets := rs\<rparr>)))"
  by (simp add: or_fail_def sys_int_def bind_state_def split: list.splits sum.splits)

lemma owner_set_calls:
  assumes "owner_set user_i group_i s = (Ok r, s')"
  shows "\<exists>k \<le> length (privilege_calls (ucast user_i) (ucast group_i)).
      trace s' = trace s @ take k (privilege_calls (ucast user_i) (ucast group_i))
      \<and> (r = 0 \<longrightarrow> k = length (privilege_calls (ucast user_i) (ucast group_i)))
      \<and> r \<in> {0, - 1}"
  using assms unfolding owner_set_def privilege_calls_def Let_def
  by (cases "(ucast group_i :: u32) = 0"; cases "(ucast user_i :: u32) = 0")
    (auto simp: or_fail_sys_int sys_log_def word_gt_0 split: list.splits sum.splits if_splits
      intro: exI [of _ 0] exI [of _ 1] exI [of _ 2])

text \<open>
  Privileges are dropped in the right order: \<open>owner_set\<close> calls \<open>setgid\<close> before \<open>setuid\<close> (after
  \<open>setuid\<close> the group could not be changed), calls nothing after a failure, and returns 0 only if
  every call that the two identifiers ask for has been made.
\<close>

theorem owner_set_order:
  assumes "owner_set user_i group_i s = (Ok r, s')"
  shows "\<exists>k. trace s' = trace s @ take k (privilege_calls (ucast user_i) (ucast group_i))
    \<and> (r = 0 \<longrightarrow> trace s' = trace s @ privilege_calls (ucast user_i) (ucast group_i)) \<and> r \<in> {0, - 1}"
  using owner_set_calls [OF assms] by (metis take_all le_refl)

definition owner_sys :: sys where
  "owner_sys = \<lparr>io = \<lparr>rd = (\<lambda>_. []), dgram = (\<lambda>_. False), wr = [], polls = [], clock = [], allocs = [], written = [],
       py = no_interpreter\<rparr>,
     pipes = [], rets = [Inr 0, Inr 0], limits = (\<lambda>_. None), passwd = [cstr ''web'' \<mapsto> (33, 34)],
     groups = (\<lambda>_. None), self = 42, exits = [], trace = []\<rparr>"

theorem owner_set_order_witness:
  "owner_set 33 34 owner_sys = (Ok 0, owner_sys\<lparr>rets := [], trace := [Sys_setgid 34, Sys_setuid 33]\<rparr>)
   \<and> (\<exists>k. [Sys_setgid 34, Sys_setuid 33] = take k (privilege_calls 33 34))"
proof -
  have "owner_set 33 34 owner_sys = (Ok 0, owner_sys\<lparr>rets := [], trace := [Sys_setgid 34, Sys_setuid 33]\<rparr>)"
    by (simp add: owner_set_def or_fail_sys_int sys_log_def owner_sys_def)
  moreover from owner_set_order [OF this] obtain k where
      "trace (owner_sys\<lparr>rets := [], trace := [Sys_setgid 34, Sys_setuid 33]\<rparr>)
        = trace owner_sys @ take k (privilege_calls (ucast (33 :: u64)) (ucast (34 :: u64)))" by blast
  then have "[Sys_setgid 34, Sys_setuid 33] = take k (privilege_calls 33 34)" by (simp add: owner_sys_def)
  ultimately show ?thesis by blast
qed


end
