(* ===== verification/Spawn_Child.thy ===== *)
theory Spawn_Child
  imports Port Os_Limits Os_Owner
begin

text \<open>
  The child process of \<open>spawn\<close> (\<^verbatim>\<open>cloudi_os_spawn.cpp\<close>): from \<open>fork\<close> to \<open>execve\<close>. Every failure ends the
  process with \<open>_exit\<close> and a status (\<open>Exited\<close>); a successful \<open>execve\<close> does not return (\<open>Blocked\<close>, with the
  call as the last one of the trace).
\<close>

section \<open>Arguments\<close>

text \<open>
  The arguments of \<open>spawn\<close>: texts and port numbers are in the command buffer, given by offset and
  length.
\<close>

record spawn_args =
  sa_protocol :: int
  sa_socket_path :: "nat \<times> nat"
  sa_ports :: "nat \<times> nat"
  sa_rlimits :: "nat \<times> nat"
  sa_user_i :: u64
  sa_user_str :: "nat \<times> nat"
  sa_group_i :: u64
  sa_group_str :: "nat \<times> nat"
  sa_nice :: int
  sa_chroot :: "nat \<times> nat"
  sa_directory :: "nat \<times> nat"
  sa_filename :: "nat \<times> nat"
  sa_argv :: "nat \<times> nat"
  sa_env :: "nat \<times> nat"

definition PF_LOCAL :: int where "PF_LOCAL = 1"
definition PF_INET :: int where "PF_INET = 2"
definition SOCK_STREAM :: int where "SOCK_STREAM = 1"
definition SOCK_DGRAM :: int where "SOCK_DGRAM = 2"

text \<open>The domain and the type of the sockets, and whether their messages have a header.\<close>

definition protocol_sockets :: "int \<Rightarrow> (int \<times> int \<times> bool) option" where
  "protocol_sockets protocol =
     (if protocol = 116 then Some (PF_INET, SOCK_STREAM, True)
      else if protocol = 117 then Some (PF_INET, SOCK_DGRAM, False)
      else if protocol = 108 then Some (PF_LOCAL, SOCK_STREAM, True)
      else None)"

section \<open>Tables of strings\<close>

text \<open>
  \<open>execve_argv\<close> and \<open>execve_env\<close>: the text is NUL-terminated strings one after the other. The table is
  allocated for the NULs from index 1 on (its first entries and the final null are \<open>extra\<close>), and
  filled with the start of the text and what follows each NUL before the last byte. Writing more
  entries than allocated is undefined, fewer fail the assertion.
\<close>

definition nul_count :: "bytes \<Rightarrow> nat" where
  "nul_count bs = length (filter (\<lambda>i. bs ! i = 0) [1..<length bs])"

definition string_starts :: "bytes \<Rightarrow> nat list" where
  "string_starts bs = 0 # map Suc (filter (\<lambda>i. bs ! i = 0) [0..<length bs - 1])"

definition string_at :: "bytes \<Rightarrow> nat \<Rightarrow> bytes" where
  "string_at bs i = takeWhile (\<lambda>b. b \<noteq> 0) (drop i bs)"

definition string_table :: "bytes \<Rightarrow> bytes list outcome" where
  "string_table bs =
     (if bs = [] then Undefined
      else if last bs \<noteq> 0 then Raise assert_exception
      else if nul_count bs = 0 then Ok []
      else if nul_count bs < length (string_starts bs) then Undefined
      else if nul_count bs \<noteq> length (string_starts bs) then Raise assert_exception
      else Ok (map (string_at bs) (string_starts bs)))"

section \<open>Steps of the child\<close>

type_synonym 'a child = "sys \<Rightarrow> 'a outcome \<times> sys"

definition or_exit :: "(errno \<Rightarrow> int) \<Rightarrow> (errno + 'a) child \<Rightarrow> 'a child" where
  "or_exit code m = bind_state m (\<lambda>r. case r of Inl e \<Rightarrow> Pair (Exited (code e)) | Inr x \<Rightarrow> Pair (Ok x))"

definition exit_close :: "errno \<Rightarrow> int" where
  "exit_close e = spawn_value (spawn_errno_close e)"

definition exit_dup :: "errno \<Rightarrow> int" where
  "exit_dup e = spawn_value (spawn_errno_dup e)"

definition exit_invalid :: "errno \<Rightarrow> int" where
  "exit_invalid e = spawn_value spawn_invalid_input"

fun close_all :: "int list \<Rightarrow> unit child" where
  "close_all [] = Pair (Ok ())"
| "close_all (fd # rest) = bind_state (or_exit exit_close (sys_int (Sys_close fd))) (\<lambda>_. close_all rest)"

text \<open>The pipes become descriptors 1 and 2.\<close>

definition child_pipe :: "int \<times> int \<Rightarrow> int \<Rightarrow> unit child" where
  "child_pipe = (\<lambda>(fd0, fd1) target.
     bind_state (or_exit exit_dup (sys_int (Sys_dup2 fd1 target))) (\<lambda>_.
     close_all [fd0, fd1]))"

definition pid_message_steps :: "nat \<Rightarrow> emit_step list" where
  "pid_message_steps pid =
     [Encode ei_version, Encode (ei_tuple_header 2), Encode (ei_atom (cstr ''pid'')), Encode (ei_ulong pid)]"

text \<open>\<open>getpid\<close> always succeeds: the environment's next answer has to be a number.\<close>

definition c_getpid :: "nat child" where
  "c_getpid = bind_state (sys_int Sys_getpid) (\<lambda>r. case r of Inl _ \<Rightarrow> Pair Blocked | Inr pid \<Rightarrow> Pair (Ok (nat pid)))"

text \<open>
  The message in its 1024 byte array, with the big-endian length in front for a stream socket. A
  message that does not fit is written past the array.
\<close>

definition child_pid_message :: "ei_encoder \<Rightarrow> bool \<Rightarrow> bytes child" where
  "child_pid_message ei use_header =
     bind_state c_getpid (\<lambda>pid.
     case encode ei (pid_message_steps pid) of
       None \<Rightarrow> Pair (Exited (exit_value gepd_ei_encode_error))
     | Some body \<Rightarrow>
         if 1024 < length (wire use_header body) then Pair Undefined else Pair (Ok (wire use_header body)))"

text \<open>\<open>snprintf (\<dots>, "%d", \<dots>)\<close>.\<close>

fun decimal :: "nat \<Rightarrow> bytes" where
  "decimal n = (if n < 10 then [word_of_nat (48 + n)] else decimal (n div 10) @ [word_of_nat (48 + n mod 10)])"

declare decimal.simps [simp del]

definition decimal_int :: "int \<Rightarrow> bytes" where
  "decimal_int i = (if i < 0 then 45 # decimal (nat (- i)) else decimal (nat i))"

definition socket_address :: "int \<Rightarrow> bytes \<Rightarrow> u32 \<Rightarrow> sockaddr outcome" where
  "socket_address domain socket_path port =
     (if domain = PF_INET then Ok (Addr_inet (ucast port))
      else if 94 < length socket_path then Raise assert_exception
      else if socket_path = [] then Undefined
      else Ok (Addr_local (butlast socket_path @ decimal_int (sint port))))"

text \<open>The socket of thread \<open>i\<close> becomes descriptor \<open>i + 3\<close>.\<close>

definition child_socket :: "int \<Rightarrow> int \<Rightarrow> bytes \<Rightarrow> bytes \<Rightarrow> nat \<Rightarrow> u32 \<Rightarrow> unit child" where
  "child_socket domain type socket_path pid_message i port =
     bind_state (or_exit (\<lambda>e. spawn_value (spawn_errno_socket e)) (sys_int (Sys_socket domain type))) (\<lambda>sockfd.
     bind_state (if domain = PF_INET \<and> type = SOCK_STREAM
                 then or_exit (\<lambda>_. spawn_value spawn_socket_unknown) (sys_int (Sys_setsockopt sockfd))
                 else Pair (Ok 0)) (\<lambda>_.
     bind_state (if sockfd \<noteq> int i + 3
                 then bind_state (or_exit exit_dup (sys_int (Sys_dup2 sockfd (int i + 3)))) (\<lambda>_.
                      or_exit exit_close (sys_int (Sys_close sockfd)))
                 else Pair (Ok 0)) (\<lambda>_.
     bind_state (Pair (socket_address domain socket_path port)) (\<lambda>addr.
     bind_state (or_exit (\<lambda>e. spawn_value (spawn_errno_connect e))
                   (sys_int (Sys_connect (int i + 3) addr))) (\<lambda>_.
     if i = 0 then
       bind_state (or_exit (\<lambda>e. exit_value (spawn_errno_write e)) (sys_int (Sys_write 3 pid_message)))
         (\<lambda>_. Pair (Ok ()))
     else Pair (Ok ()))))))"

fun child_sockets :: "int \<Rightarrow> int \<Rightarrow> bytes \<Rightarrow> bytes \<Rightarrow> nat \<Rightarrow> u32 list \<Rightarrow> unit child" where
  "child_sockets domain type socket_path pid_message i [] = Pair (Ok ())"
| "child_sockets domain type socket_path pid_message i (port # ports) =
     bind_state (child_socket domain type socket_path pid_message i port)
       (\<lambda>_. child_sockets domain type socket_path pid_message (Suc i) ports)"

text \<open>The loads of 32-bit numbers from the command buffer.\<close>

fun u32s_of :: "bytes \<Rightarrow> u32 list" where
  "u32s_of (a # b # c # d # bs) = u32_of [a, b, c, d] # u32s_of bs"
| "u32s_of _ = []"

text \<open>
  The rest of the child: the owner is looked up, the root directory changed, the limits and the
  priority set, the privileges dropped, the working directory changed, the program executed.
\<close>

definition child_chroot :: "byte realloc_ptr \<Rightarrow> spawn_args \<Rightarrow> unit child" where
  "child_chroot buf a =
     (if 1 < snd (sa_chroot a) then
        bind_state (Pair (rp_cstr (fst (sa_chroot a)) buf)) (\<lambda>dir.
        bind_state (or_exit exit_invalid (sys_int (Sys_chroot dir))) (\<lambda>_.
        if snd (sa_directory a) = 1
        then bind_state (or_exit exit_invalid (sys_int (Sys_chdir (cstr ''/'')))) (\<lambda>_. Pair (Ok ()))
        else Pair (Ok ())))
      else Pair (Ok ()))"

definition child_nice :: "spawn_args \<Rightarrow> unit child" where
  "child_nice a =
     (if sa_nice a \<noteq> 0 then bind_state (or_exit exit_invalid (sys_int (Sys_nice (sa_nice a)))) (\<lambda>_. Pair (Ok ()))
      else Pair (Ok ()))"

definition child_directory :: "byte realloc_ptr \<Rightarrow> spawn_args \<Rightarrow> unit child" where
  "child_directory buf a =
     (if 1 < snd (sa_directory a) then
        bind_state (Pair (rp_cstr (fst (sa_directory a)) buf)) (\<lambda>dir.
        bind_state (or_exit exit_invalid (sys_int (Sys_chdir dir))) (\<lambda>_. Pair (Ok ())))
      else Pair (Ok ()))"

text \<open>A result that is not 0 ends the child.\<close>

definition require_zero :: "int child \<Rightarrow> unit child" where
  "require_zero m =
     bind_state m (\<lambda>r. if r \<noteq> 0 then Pair (Exited (spawn_value spawn_invalid_input)) else Pair (Ok ()))"

definition child_exec :: "byte realloc_ptr \<Rightarrow> spawn_args \<Rightarrow> bytes list \<Rightarrow> bytes list \<Rightarrow> unit child" where
  "child_exec buf a argv env =
     bind_state (Pair (rp_cstr (fst (sa_filename a)) buf)) (\<lambda>filename.
     bind_state (sys_int (Sys_execve filename (filename # argv) env)) (\<lambda>r.
     case r of
       Inl e \<Rightarrow> Pair (Exited (spawn_value (spawn_errno_exec e)))
     | Inr _ \<Rightarrow> Pair Blocked))"

definition child_finish :: "byte realloc_ptr \<Rightarrow> spawn_args \<Rightarrow> bytes list \<Rightarrow> bytes list \<Rightarrow> unit child" where
  "child_finish buf a argv env =
     bind_state (owner_get buf (sa_user_i a) (fst (sa_user_str a)) (snd (sa_user_str a))
                   (sa_group_i a) (fst (sa_group_str a)) (snd (sa_group_str a))) (\<lambda>(r, user_i, group_i).
     bind_state (require_zero (Pair (Ok r))) (\<lambda>_.
     bind_state (child_chroot buf a) (\<lambda>_.
     bind_state (require_zero (rlimit buf (fst (sa_rlimits a)) (snd (sa_rlimits a)))) (\<lambda>_.
     bind_state (child_nice a) (\<lambda>_.
     bind_state (require_zero (owner_set user_i group_i)) (\<lambda>_.
     bind_state (child_directory buf a) (\<lambda>_.
     child_exec buf a argv env)))))))"

definition spawn_child :: "ei_encoder \<Rightarrow> 'x port_scheme \<Rightarrow> spawn_args \<Rightarrow> int \<Rightarrow> int \<Rightarrow> bool
    \<Rightarrow> int \<times> int \<Rightarrow> int \<times> int \<Rightarrow> unit child" where
  "spawn_child ei p a domain type use_header fds_stdout fds_stderr =
     (let buf = erlang_buffer p;
          load = (\<lambda>x. Pair (rp_get (fst x) (snd x) buf))
      in bind_state (Pair (rp_get 0 (nfds p) (fds p))) (\<lambda>pfs.
         bind_state (close_all (map pfd pfs)) (\<lambda>_.
         bind_state (child_pipe fds_stdout 1) (\<lambda>_.
         bind_state (child_pipe fds_stderr 2) (\<lambda>_.
         bind_state (child_pid_message ei use_header) (\<lambda>pid_message.
         bind_state (load (sa_socket_path a)) (\<lambda>socket_path.
         bind_state (load (fst (sa_ports a), 4 * snd (sa_ports a))) (\<lambda>ports.
         bind_state (child_sockets domain type socket_path pid_message 0 (u32s_of ports)) (\<lambda>_.
         bind_state (load (sa_argv a)) (\<lambda>argv.
         bind_state (Pair (string_table argv)) (\<lambda>execve_argv.
         bind_state (load (sa_env a)) (\<lambda>env.
         bind_state (Pair (string_table env)) (\<lambda>execve_env.
         child_finish buf a execve_argv execve_env)))))))))))))"

end
