(* ===== verification/Spawn_Exec.thy ===== *)
theory Spawn_Exec
  imports Spawn_Child
begin

text \<open>
  What the child process of \<open>spawn\<close> guarantees: the tables of arguments and environment variables
  are the lists that were sent, and the program is executed as the last call, after the privileges
  have been given up.
\<close>

section \<open>Tables of strings\<close>

text \<open>The text for a list of strings.\<close>

definition nul_terminated :: "bytes list \<Rightarrow> bytes" where
  "nul_terminated ss = concat (map (\<lambda>s. s @ [0]) ss)"

lemma nul_terminated_simps [simp]:
  "nul_terminated [] = []"
  "nul_terminated (s # ss) = s @ 0 # nul_terminated ss"
  by (simp_all add: nul_terminated_def)

text \<open>The indexes of the NULs, and what they are after a first string.\<close>

definition nul_indexes :: "bytes \<Rightarrow> nat list" where
  "nul_indexes bs = filter (\<lambda>i. bs ! i = 0) [0..<length bs]"

lemma nul_indexes_Nil [simp]: "nul_indexes [] = []"
  by (simp add: nul_indexes_def)

lemma nul_indexes_free: "0 \<notin> set s \<Longrightarrow> nul_indexes s = []"
  by (auto simp: nul_indexes_def filter_empty_conv in_set_conv_nth)

lemma upt_split_at: "k \<le> n \<Longrightarrow> [0..<n] = [0..<k] @ map (\<lambda>i. k + i) [0..<n - k]"
  by (simp add: list_eq_iff_nth_eq nth_append)

lemma nul_indexes_append:
  "nul_indexes (xs @ ys) = nul_indexes xs @ map (\<lambda>i. length xs + i) (nul_indexes ys)"
proof -
  have "filter (\<lambda>i. (xs @ ys) ! i = 0) [0..<length xs] = filter (\<lambda>i. xs ! i = 0) [0..<length xs]"
    by (rule filter_cong) (auto simp: nth_append)
  then show ?thesis
    unfolding nul_indexes_def
    by (subst upt_split_at [of "length xs"]) (simp_all add: filter_map o_def)
qed

lemma nul_indexes_string [simp]:
  assumes "0 \<notin> set s"
  shows "nul_indexes (s @ 0 # bs) = length s # map (\<lambda>i. Suc (length s) + i) (nul_indexes bs)"
proof -
  have "nul_indexes [0] = [0]" by (simp add: nul_indexes_def)
  then have "nul_indexes (0 # bs) = 0 # map Suc (nul_indexes bs)" using nul_indexes_append [of "[0]" bs] by simp
  then show ?thesis using nul_indexes_append [of s "0 # bs"] nul_indexes_free [OF assms] by simp
qed

lemma length_nul_indexes:
  "\<forall>s \<in> set ss. 0 \<notin> set s \<Longrightarrow> length (nul_indexes (nul_terminated ss)) = length ss"
  by (induction ss) simp_all

lemma nul_terminated_snoc: "ss \<noteq> [] \<Longrightarrow> nul_terminated ss = butlast (nul_terminated ss) @ [0]"
proof (induction ss rule: list_nonempty_induct)
  case (cons s ss)
  then have "nul_terminated ss \<noteq> []" by (cases ss) simp_all
  with cons show ?case by (simp add: butlast_append)
qed simp

lemma string_starts_alt: "bs \<noteq> [] \<Longrightarrow> string_starts bs = 0 # map Suc (nul_indexes (butlast bs))"
  by (auto simp: string_starts_def nul_indexes_def nth_butlast intro!: filter_cong)

lemma nul_count_alt: "bs \<noteq> [] \<Longrightarrow> bs ! 0 \<noteq> 0 \<Longrightarrow> nul_count bs = length (nul_indexes bs)"
  by (simp add: nul_count_def nul_indexes_def upt_conv_Cons)

lemma string_starts_Cons:
  assumes "0 \<notin> set s" "bs \<noteq> []"
  shows "string_starts (s @ 0 # bs) = 0 # map (\<lambda>i. Suc (length s) + i) (string_starts bs)"
  using assms by (simp add: string_starts_alt butlast_append o_def)

lemma string_at_append:
  "0 \<notin> set s \<Longrightarrow> string_at (s @ 0 # bs) 0 = s"
  "string_at (s @ 0 # bs) (Suc (length s + i)) = string_at bs i"
  by (simp_all add: string_at_def takeWhile_append)

lemma strings_at_starts:
  assumes "ss \<noteq> []" "\<forall>s \<in> set ss. 0 \<notin> set s"
  shows "map (string_at (nul_terminated ss)) (string_starts (nul_terminated ss)) = ss"
  using assms
proof (induction ss rule: list_nonempty_induct)
  case (single s)
  then show ?case by (simp add: string_starts_alt nul_indexes_free string_at_append)
next
  case (cons s ss)
  then have "nul_terminated ss \<noteq> []" by (cases ss) simp_all
  with cons show ?case by (simp add: string_starts_Cons string_at_append o_def)
qed

lemma length_string_starts:
  "ss \<noteq> [] \<Longrightarrow> \<forall>s \<in> set ss. 0 \<notin> set s \<Longrightarrow> length (string_starts (nul_terminated ss)) = length ss"
  by (metis strings_at_starts length_map)

text \<open>
  The argument and environment tables of the executed program are the lists that were sent: a
  text of NUL-terminated strings, the first of them not empty, gives exactly these strings, with the
  table allocated for as many entries as are written; a single NUL gives the empty list.
\<close>

theorem string_table_round_trip:
  assumes "\<forall>s \<in> set ss. 0 \<notin> set s" "ss \<noteq> []" "hd ss \<noteq> []"
  shows "string_table (nul_terminated ss) = Ok ss \<and> string_table [0] = Ok []"
proof -
  let ?bs = "nul_terminated ss"
  have "?bs ! 0 \<noteq> 0" "?bs \<noteq> []" using assms by (cases ss; cases "hd ss"; auto)+
  then have "nul_count ?bs = length ss" using assms by (simp add: nul_count_alt length_nul_indexes)
  moreover have "last ?bs = 0" using nul_terminated_snoc [OF assms(2)] by (metis last_snoc)
  ultimately have "string_table ?bs = Ok ss"
    using assms \<open>?bs \<noteq> []\<close> by (simp add: string_table_def length_string_starts strings_at_starts)
  moreover have "string_table [0] = Ok []" by (simp add: string_table_def nul_count_def)
  ultimately show ?thesis ..
qed

theorem string_table_round_trip_witness:
  "string_table (cstr ''-p'' @ [0] @ [0] @ cstr ''80'' @ [0]) = Ok [cstr ''-p'', [], cstr ''80'']"
  using string_table_round_trip [of "[cstr ''-p'', [], cstr ''80'']"] by (simp add: cstr_def)

text \<open>
  An empty first string overflows the table: the NUL at index 0 is not counted when the table is
  allocated but starts an entry when it is filled, so one entry is written past the array.
\<close>

theorem string_table_empty_first:
  assumes "\<forall>s \<in> set ss. 0 \<notin> set s" "ss \<noteq> []"
  shows "string_table (nul_terminated ([] # ss)) = Undefined"
proof -
  let ?bs = "nul_terminated ([] # ss)"
  have "nul_indexes ?bs = 0 # map Suc (nul_indexes (nul_terminated ss))"
    using nul_indexes_string [of "[]" "nul_terminated ss"] by simp
  moreover have "nul_indexes ?bs = 0 # filter (\<lambda>i. ?bs ! i = 0) [1..<length ?bs]"
    by (simp add: nul_indexes_def upt_conv_Cons del: upt_Suc)
  ultimately have "nul_count ?bs = length ss"
    using length_nul_indexes [OF assms(1)] by (metis length_map list.inject nul_count_def)
  moreover have "length (string_starts ?bs) = Suc (length ss)"
    using length_string_starts [of "[] # ss"] assms by simp
  moreover have "last ?bs = 0" using nul_terminated_snoc [of "[] # ss"] by (metis last_snoc list.distinct(1))
  ultimately show ?thesis using assms by (simp add: string_table_def)
qed

theorem string_table_empty_first_witness: "string_table [0, 97, 0] = Undefined"
  using string_table_empty_first [of "[[97]]"] by simp

section \<open>From the owner to \<open>execve\<close>\<close>

text \<open>The kinds of calls of the parts of \<open>child_finish\<close>.\<close>

fun is_lookup :: "syscall \<Rightarrow> bool" where
  "is_lookup (Sys_getpwnam name) = True"
| "is_lookup (Sys_getgrnam name) = True"
| "is_lookup _ = False"

fun is_limit :: "syscall \<Rightarrow> bool" where
  "is_limit (Sys_getrlimit r) = True"
| "is_limit (Sys_setrlimit r c m) = True"
| "is_limit _ = False"

fun is_directory :: "syscall \<Rightarrow> bool" where
  "is_directory (Sys_chroot d) = True"
| "is_directory (Sys_chdir d) = True"
| "is_directory _ = False"

fun is_nice :: "syscall \<Rightarrow> bool" where
  "is_nice (Sys_nice n) = True"
| "is_nice _ = False"

fun is_privilege :: "syscall \<Rightarrow> bool" where
  "is_privilege (Sys_setgid g) = True"
| "is_privilege (Sys_setuid u) = True"
| "is_privilege _ = False"

fun is_exec :: "syscall \<Rightarrow> bool" where
  "is_exec (Sys_execve f v e) = True"
| "is_exec _ = False"

lemma logs_or_exit [logs_rules]: "logs P m \<Longrightarrow> logs P (or_exit code m)"
  unfolding or_exit_def by (intro logs_rules) (auto intro: logs_rules split: sum.splits)

lemma logs_require_zero [logs_rules]: "logs P m \<Longrightarrow> logs P (require_zero m)"
  unfolding require_zero_def by (intro logs_rules) (auto intro: logs_rules)

lemma logs_owner_get: "logs is_lookup (owner_get buf ui us ul gi gs gl)"
  by (rule logsI)
    (auto simp: owner_get_def Let_def sys_log_def split: if_splits option.splits outcome.splits prod.splits)

lemma logs_owner_set: "logs is_privilege (owner_set ui gi)"
  unfolding owner_set_def Let_def or_fail_def
  by (auto intro!: logs_rules split: sum.splits)

lemma logs_rlimit_element: "logs is_limit (rlimit_element buf off fmt ty)"
  by (rule logsI)
    (auto simp: rlimit_element_def rlimit_maximum_get_def rlimit_current_get_def c_getrlimit_def Let_def
      sys_log_def split: if_splits outcome.splits prod.splits)

lemma logs_c_setrlimit: "logs is_limit (c_setrlimit ty cur mx)"
  by (rule logsI) (auto simp: c_setrlimit_def sys_int_def sys_log_def split: list.splits sum.splits)

lemma rlimit_loop_calls:
  "rlimit_loop buf off len i s = (r, s') \<Longrightarrow> \<exists>cs. trace s' = trace s @ cs \<and> (\<forall>c \<in> set cs. is_limit c)"
proof (induction buf off len i s arbitrary: r s' rule: rlimit_loop.induct)
  case (1 buf off len i s)
  have trans: "\<exists>cs. trace u = trace s @ cs \<and> (\<forall>c \<in> set cs. is_limit c)"
    if "\<exists>cs. trace t = trace s @ cs \<and> (\<forall>c \<in> set cs. is_limit c)"
       "\<exists>cs. trace u = trace t @ cs \<and> (\<forall>c \<in> set cs. is_limit c)" for t u
    using that by (metis append.assoc UnE set_append)
  consider "s' = s" | x s1 fmt ty where "rlimit_element buf (off + i + 2) fmt ty s = (x, s1)" "s' = s1"
    | hdr ty cur mx n s1 y where
        "i < len" "rp_get (off + i) 2 buf = Ok hdr" "type_value (hdr ! 0) = Ok ty"
        "rlimit_element buf (off + i + 2) (hdr ! 1) ty s = (Ok (Some (cur, mx), n), s1)"
        "c_setrlimit ty cur mx s1 = (y, s')"
    | hdr ty cur mx n s1 y s2 where
        "i < len" "rp_get (off + i) 2 buf = Ok hdr" "type_value (hdr ! 0) = Ok ty"
        "rlimit_element buf (off + i + 2) (hdr ! 1) ty s = (Ok (Some (cur, mx), n), s1)"
        "c_setrlimit ty cur mx s1 = (Ok (Inr y), s2)" "rlimit_loop buf off len (i + 2 + n) s2 = (r, s')"
    using 1(2)
    by (subst (asm) rlimit_loop.simps)
      (auto split: if_splits outcome.splits prod.splits option.splits sum.splits)
  then show ?case
  proof cases
    case 2
    then show ?thesis using logsD [OF logs_rlimit_element] by blast
  next
    case 3
    then show ?thesis
      using trans [OF logsD [OF logs_rlimit_element] logsD [OF logs_c_setrlimit]] by blast
  next
    case 4
    then have "\<exists>cs. trace s' = trace s2 @ cs \<and> (\<forall>c \<in> set cs. is_limit c)"
      using 1(1) [OF _ 4(2,3) 4(4) [symmetric] refl refl refl refl 4(5) [symmetric] refl refl 4(6)] by simp
    with 4 show ?thesis
      using trans [OF trans [OF logsD [OF logs_rlimit_element] logsD [OF logs_c_setrlimit]]] by blast
  qed auto
qed

lemma logs_rlimit: "logs is_limit (rlimit buf off len)"
  by (rule logsI) (simp add: rlimit_def rlimit_loop_calls)

lemma logs_child_chroot: "logs is_directory (child_chroot buf a)"
  unfolding child_chroot_def by (auto intro!: logs_rules)

lemma logs_child_nice: "logs is_nice (child_nice a)"
  unfolding child_nice_def by (auto intro!: logs_rules)

lemma logs_child_directory: "logs is_directory (child_directory buf a)"
  unfolding child_directory_def by (auto intro!: logs_rules)

lemma logs_child_exec: "logs is_exec (child_exec buf a argv env)"
  unfolding child_exec_def by (auto intro!: logs_rules split: sum.splits)

lemmas child_logs =
  logs_owner_get logs_require_zero [OF logs_owner_set] logs_require_zero [OF logs_rlimit]
  logs_child_chroot logs_child_nice logs_child_directory logs_child_exec

lemma child_parts_log [logs_rules]:
  "logs (\<lambda>_. True) (require_zero (owner_set ui gi))"
  "logs (\<lambda>_. True) (require_zero (rlimit buf off len))"
  "logs (\<lambda>_. True) (child_chroot buf a)"
  "logs (\<lambda>_. True) (child_nice a)"
  "logs (\<lambda>_. True) (child_directory buf a)"
  "logs (\<lambda>_. True) (child_exec buf a argv env)"
  by (rule logs_mono, rule child_logs, simp)+

lemma require_zero_Ok: "require_zero m s = (Ok x, s') \<longleftrightarrow> m s = (Ok 0, s')"
  by (cases x) (auto simp: require_zero_def bind_state_eq_Ok split: if_splits)

lemma child_exec_calls:
  assumes "child_exec buf a argv env s = (r, s')" "trace s' = trace s @ cs" "cs \<noteq> []"
  shows "\<exists>f. cs = [Sys_execve f (f # argv) env]"
proof -
  obtain f where "rp_cstr (fst (sa_filename a)) buf = Ok f"
    using assms by (cases "rp_cstr (fst (sa_filename a)) buf") (auto simp: child_exec_def)
  with assms show ?thesis
    by (auto simp: child_exec_def bind_state_def sys_int_def sys_log_def split: list.splits sum.splits)
qed

text \<open>From the privileges on: every call after them is a change of directory or the execution.\<close>

lemma privileges_to_exec:
  assumes b: "bind_state (require_zero (owner_set ui gi)) (\<lambda>_. bind_state (child_directory buf a)
      (\<lambda>_. child_exec buf a argv env)) s = (r, s')"
    and t: "trace s' = trace s @ cs" and e: "c \<in> set cs" "is_exec c"
  shows "\<exists>post f. cs = privilege_calls (ucast ui) (ucast gi) @ post @ [Sys_execve f (f # argv) env]
    \<and> (\<forall>c \<in> set post. is_directory c) \<and> c = Sys_execve f (f # argv) env"
proof -
  have np: "\<not> is_privilege c" "\<not> is_directory c" using e(2) by (cases c; simp)+
  obtain u s1 cs1 cs2 where 1: "require_zero (owner_set ui gi) s = (Ok u, s1)" "trace s1 = trace s @ cs1"
      "cs = cs1 @ cs2" "bind_state (child_directory buf a) (\<lambda>_. child_exec buf a argv env) s1 = (r, s')"
      "trace s' = trace s1 @ cs2" "c \<in> set cs2"
    using logs_bind_reached [OF child_logs(2) _ b t e(1) np(1), of "\<lambda>_. True"] by (blast intro: logs_rules)
  obtain v s2 cs3 cs4 where 2: "trace s2 = trace s1 @ cs3" "\<forall>c \<in> set cs3. is_directory c"
      "cs2 = cs3 @ cs4" "child_exec buf a argv env s2 = (r, s')" "trace s' = trace s2 @ cs4" "c \<in> set cs4"
    using logs_bind_reached [OF child_logs(6) _ 1(4,5,6) np(2), of "\<lambda>_. True"] by (blast intro: logs_rules)
  have "cs1 = privilege_calls (ucast ui) (ucast gi)"
    using 1(1,2) owner_set_calls [of ui gi s 0 s1] by (auto simp: require_zero_Ok)
  moreover obtain f where "cs4 = [Sys_execve f (f # argv) env]" using child_exec_calls [OF 2(4,5)] 2(6) by fastforce
  ultimately show ?thesis using 1(3) 2(2,3,6) by auto
qed

text \<open>
  C16: The program runs with the owner that was asked for: if the child gets to \<open>execve\<close>, it is the
  last call, with the file name and then the arguments; the user and the group have been looked up;
  and right before it the privileges have been given up with all the calls of \<open>owner_set\<close>, in order,
  followed by at most the change of the working directory. Nothing before gives up privileges or
  executes anything.
\<close>

theorem exec_after_privileges:
  assumes "child_finish buf a argv env s = (r, s')" "trace s' = trace s @ cs" "c \<in> set cs" "is_exec c"
  shows "\<exists>ui gi s1 before after f.
    owner_get buf (sa_user_i a) (fst (sa_user_str a)) (snd (sa_user_str a))
      (sa_group_i a) (fst (sa_group_str a)) (snd (sa_group_str a)) s = (Ok (0, ui, gi), s1)
    \<and> cs = before @ privilege_calls (ucast ui) (ucast gi) @ after @ [Sys_execve f (f # argv) env]
    \<and> (\<forall>c \<in> set before. \<not> is_privilege c \<and> \<not> is_exec c) \<and> (\<forall>c \<in> set after. is_directory c)"
proof -
  let ?get = "owner_get buf (sa_user_i a) (fst (sa_user_str a)) (snd (sa_user_str a))
      (sa_group_i a) (fst (sa_group_str a)) (snd (sa_group_str a))"
  let ?k4 = "\<lambda>ui gi. bind_state (require_zero (owner_set ui gi)) (\<lambda>_. bind_state (child_directory buf a)
      (\<lambda>_. child_exec buf a argv env))"
  let ?k3 = "\<lambda>ui gi. bind_state (child_nice a) (\<lambda>_. ?k4 ui gi)"
  let ?k2 = "\<lambda>ui gi. bind_state (require_zero (rlimit buf (fst (sa_rlimits a)) (snd (sa_rlimits a)))) (\<lambda>_. ?k3 ui gi)"
  let ?k1 = "\<lambda>ui gi. bind_state (child_chroot buf a) (\<lambda>_. ?k2 ui gi)"
  let ?k0 = "\<lambda>(r, ui, gi). bind_state (require_zero (Pair (Ok r))) (\<lambda>_. ?k1 ui gi)"
  have np: "\<not> is_lookup c" "\<not> is_directory c" "\<not> is_limit c" "\<not> is_nice c" using assms(4) by (cases c; simp)+
  have b: "bind_state ?get ?k0 s = (r, s')" using assms(1) by (simp add: child_finish_def)
  have k0: "logs (\<lambda>_. True) (?k0 x)" for x by (auto split: prod.split intro!: logs_rules)
  obtain z ui gi s1 cs1 ds1 where 1: "?get s = (Ok (z, ui, gi), s1)" "\<forall>c \<in> set cs1. is_lookup c" "cs = cs1 @ ds1"
      "?k0 (z, ui, gi) s1 = (r, s')" "trace s' = trace s1 @ ds1" "c \<in> set ds1"
    using logs_bind_reached [OF logs_owner_get k0 b assms(2,3) np(1)] by fast
  have z: "z = 0"
    using 1(4,5,6) by (cases "z = 0") (auto simp: require_zero_def bind_state_def)
  with 1(4) have k1: "?k1 ui gi s1 = (r, s')" by (simp add: require_zero_def)
  obtain s2 cs2 ds2 where 2: "\<forall>c \<in> set cs2. is_directory c" "ds1 = cs2 @ ds2"
      "?k2 ui gi s2 = (r, s')" "trace s' = trace s2 @ ds2" "c \<in> set ds2"
    using logs_bind_reached [OF logs_child_chroot _ k1 1(5,6) np(2), of "\<lambda>_. True"] by (blast intro: logs_rules)
  obtain s3 cs3 ds3 where 3: "\<forall>c \<in> set cs3. is_limit c" "ds2 = cs3 @ ds3"
      "?k3 ui gi s3 = (r, s')" "trace s' = trace s3 @ ds3" "c \<in> set ds3"
    using logs_bind_reached [OF child_logs(3) _ 2(3,4,5) np(3), of "\<lambda>_. True"] by (blast intro: logs_rules)
  obtain s4 cs4 ds4 where 4: "\<forall>c \<in> set cs4. is_nice c" "ds3 = cs4 @ ds4"
      "?k4 ui gi s4 = (r, s')" "trace s' = trace s4 @ ds4" "c \<in> set ds4"
    using logs_bind_reached [OF logs_child_nice _ 3(3,4,5) np(4), of "\<lambda>_. True"] by (blast intro: logs_rules)
  obtain post f where 5: "ds4 = privilege_calls (ucast ui) (ucast gi) @ post @ [Sys_execve f (f # argv) env]"
      "\<forall>c \<in> set post. is_directory c"
    using privileges_to_exec [OF 4(3,4,5) assms(4)] by blast
  have "\<not> is_privilege c \<and> \<not> is_exec c" if "is_lookup c \<or> is_directory c \<or> is_limit c \<or> is_nice c" for c
    using that by (cases c) simp_all
  with 1(2) 2(1) 3(1) 4(1) have "\<forall>c \<in> set (cs1 @ cs2 @ cs3 @ cs4). \<not> is_privilege c \<and> \<not> is_exec c" by auto
  with 1(1,3) 2(2) 3(2) 4(2) 5 z show ?thesis
    by (intro exI [of _ ui] exI [of _ gi] exI [of _ s1] exI [of _ "cs1 @ cs2 @ cs3 @ cs4"] exI [of _ post]
        exI [of _ f]) simp
qed

definition exec_buffer :: "byte realloc_ptr" where
  "exec_buffer = (let bs = cstr ''/run'' @ [0] @ cstr ''web'' @ [0]
     in \<lparr>m_initialSize = 16, m_size = 16, m_maxSize = 64,
         m_p = (\<lambda>i. if i < length bs then Some (bs ! i) else None), m_alloc = 16\<rparr>)"

definition exec_args :: spawn_args where
  "exec_args = \<lparr>sa_protocol = 116, sa_socket_path = (4, 1), sa_ports = (0, 0), sa_rlimits = (0, 0),
     sa_user_i = 0, sa_user_str = (5, 4), sa_group_i = 0, sa_group_str = (4, 1), sa_nice = 0,
     sa_chroot = (4, 1), sa_directory = (4, 1), sa_filename = (0, 5), sa_argv = (4, 1), sa_env = (4, 1)\<rparr>"

definition exec_sys :: sys where
  "exec_sys = owner_sys\<lparr>rets := [Inr 0, Inr 0, Inr 0]\<rparr>"

lemma exec_buffer_strings:
  "rp_cstr 5 exec_buffer = Ok (cstr ''web'')" "rp_cstr 0 exec_buffer = Ok (cstr ''/run'')"
  by code_simp+

lemma exec_sys_run:
  "child_finish exec_buffer exec_args [] [] exec_sys
    = (Blocked, exec_sys\<lparr>rets := [], trace := [Sys_getpwnam (cstr ''web''), Sys_setgid 34, Sys_setuid 33,
        Sys_execve (cstr ''/run'') [cstr ''/run''] []]\<rparr>)"
  by (simp add: child_finish_def owner_get_def exec_args_def exec_sys_def owner_sys_def exec_buffer_strings
    require_zero_def child_chroot_def rlimit_def rlimit_loop.simps child_nice_def owner_set_def or_fail_sys_int
    child_directory_def child_exec_def sys_int_def sys_log_def bind_state_def)

theorem exec_after_privileges_witness:
  "\<exists>before after f. [Sys_getpwnam (cstr ''web''), Sys_setgid 34, Sys_setuid 33,
      Sys_execve (cstr ''/run'') [cstr ''/run''] []]
    = before @ privilege_calls 33 34 @ after @ [Sys_execve f [f] []]
    \<and> (\<forall>c \<in> set before. \<not> is_privilege c \<and> \<not> is_exec c) \<and> (\<forall>c \<in> set after. is_directory c)"
proof -
  have get: "owner_get exec_buffer 0 5 4 0 4 1 exec_sys = (Ok (0, 33, 34), sys_log (Sys_getpwnam (cstr ''web'')) exec_sys)"
    by (simp add: owner_get_def exec_sys_def owner_sys_def exec_buffer_strings)
  show ?thesis
    using exec_after_privileges [OF exec_sys_run, of "[Sys_getpwnam (cstr ''web''), Sys_setgid 34, Sys_setuid 33,
        Sys_execve (cstr ''/run'') [cstr ''/run''] []]" "Sys_execve (cstr ''/run'') [cstr ''/run''] []"] get
    by (auto simp: exec_args_def exec_sys_def owner_sys_def)
qed

end
