(* ===== verification/Spawn.thy ===== *)
theory Spawn
  imports Spawn_Child
begin

text \<open>
  The spawning program (\<^verbatim>\<open>cloudi_os_spawn.cpp\<close>): the table of processes, whose output pipes are
  entries of the port's \<open>fds\<close>, the port function \<open>spawn\<close>, and \<open>main\<close>, which forwards the output of
  the processes and removes the ones that have ended.
\<close>

section \<open>Processes\<close>

record process_data =
  m_pid :: nat
  m_index_stdout :: int
  m_index_stderr :: int
  m_index_stream1 :: nat
  m_index_stream2 :: nat
  m_stream1 :: "byte realloc_ptr"
  m_stream2 :: "byte realloc_ptr"

definition process_data_new :: "nat \<Rightarrow> int \<Rightarrow> int \<Rightarrow> process_data" where
  "process_data_new pid index_stdout index_stderr =
     \<lparr>m_pid = pid, m_index_stdout = index_stdout, m_index_stderr = index_stderr,
      m_index_stream1 = 0, m_index_stream2 = 0,
      m_stream1 = gepd_array 1 16384, m_stream2 = gepd_array 1 16384\<rparr>"

record spawn_state = port +
  processes :: "process_data list"

type_synonym 'a spawn_call = "spawn_state \<times> sys \<Rightarrow> 'a outcome \<times> spawn_state \<times> sys"

text \<open>An \<open>int\<close> index passed as a \<open>size_t\<close>.\<close>

definition size_index :: "int \<Rightarrow> nat" where
  "size_index i = nat (i mod 2 ^ 64)"

text \<open>The status of an ended process, and the message that reports it on the standard error output.\<close>

definition exit_code :: "wait_status \<Rightarrow> int outcome" where
  "exit_code w =
     (case w of
        W_exited code \<Rightarrow> Ok code
      | W_signaled sig \<Rightarrow> Ok (sig + 128)
      | W_stopped \<Rightarrow> Raise assert_exception)"

definition exit_report :: "nat \<Rightarrow> int \<Rightarrow> bytes list" where
  "exit_report pid status =
     [cstr ''OS pid '', decimal pid, cstr '' exited with '',
      (case spawn_status_string status of Some error \<Rightarrow> cstr error | None \<Rightarrow> decimal_int status), [10]]"

fun write_cerr :: "bytes list \<Rightarrow> sys \<Rightarrow> unit outcome \<times> sys" where
  "write_cerr [] = Pair (Ok ())"
| "write_cerr (t # ts) = bind_state (sys_ignored (Sys_write 2 t)) (\<lambda>_. write_cerr ts)"

text \<open>\<open>~process_data\<close>\<close>

definition process_kill :: "process_data \<Rightarrow> sys \<Rightarrow> unit outcome \<times> sys" where
  "process_kill d =
     bind_state (sys_ignored (Sys_kill (int (m_pid d)) 9)) (\<lambda>_.
     bind_state (c_waitpid (int (m_pid d))) (\<lambda>r.
     case r of
       Inl e \<Rightarrow> Pair (Raise assert_exception)
     | Inr w \<Rightarrow>
         bind_state (Pair (exit_code w)) (\<lambda>status.
         if status \<noteq> 0 then write_cerr (exit_report (m_pid d) status) else Pair (Ok ()))))"

definition process_destroy :: "process_data \<Rightarrow> unit spawn_call" where
  "process_destroy d = (\<lambda>(p, s). on_sys (process_kill d) (p\<lparr>nfds := (nfds p + 2 ^ 64 - 2) mod 2 ^ 64\<rparr>, s))"

definition process_close :: "process_data \<Rightarrow> unit spawn_call" where
  "process_close d =
     bind_state (pollfd_at (size_index (m_index_stdout d))) (\<lambda>pf.
     bind_state (on_sys (sys_ignored (Sys_close (pfd pf)))) (\<lambda>_.
     bind_state (pollfd_at (size_index (m_index_stderr d))) (\<lambda>pf.
     on_sys (sys_ignored (Sys_close (pfd pf))))))"

text \<open>\<open>fds[i] = fds[j]\<close>\<close>

definition copy_pollfd :: "int \<Rightarrow> int \<Rightarrow> unit spawn_call" where
  "copy_pollfd i j =
     bind_state (pollfd_at (size_index j)) (\<lambda>pf. (\<lambda>(p, s).
     case rp_assign (fds p) (size_index i) pf of
       Ok t \<Rightarrow> (Ok (), (p\<lparr>fds := t\<rparr>, s))
     | Raise e \<Rightarrow> (Raise e, (p, s))
     | _ \<Rightarrow> (Undefined, (p, s))))"

definition shifted :: "process_data \<Rightarrow> process_data" where
  "shifted d = d\<lparr>m_index_stdout := m_index_stdout d - 2, m_index_stderr := m_index_stderr d - 2\<rparr>"

definition set_process :: "nat \<Rightarrow> process_data \<Rightarrow> spawn_state \<Rightarrow> spawn_state" where
  "set_process k d p = p\<lparr>processes := (processes p)[k := d]\<rparr>"

definition process_shift :: "nat \<Rightarrow> unit spawn_call" where
  "process_shift k = (\<lambda>(p, s).
     let d = processes p ! k; d' = shifted d
     in bind_state (copy_pollfd (m_index_stdout d') (m_index_stdout d)) (\<lambda>_.
        copy_pollfd (m_index_stderr d') (m_index_stderr d)) (set_process k d' p, s))"

text \<open>
  \<open>check\<close> and \<open>flush\<close>, which differ in what they do with a stream: the status, 0 when both streams are
  done, and what is left of \<open>count\<close>.
\<close>

definition process_streams :: "(int \<Rightarrow> nat \<Rightarrow> string \<Rightarrow> nat \<Rightarrow> byte realloc_ptr \<Rightarrow> byte realloc_ptr \<Rightarrow> nat \<Rightarrow> os
      \<Rightarrow> stream_result outcome \<times> os) \<Rightarrow> nat \<Rightarrow> nat \<Rightarrow> (exit_status \<times> nat) spawn_call" where
  "process_streams f k count = (\<lambda>(p, s).
     let d = processes p ! k
     in bind_state (stream_step f (size_index (m_index_stderr d)) ''stderr'' (\<lambda>_. m_pid d)
          (\<lambda>p. (m_stream2 (processes p ! k), m_index_stream2 (processes p ! k)))
          (\<lambda>(t, i) p. set_process k ((processes p ! k)\<lparr>m_stream2 := t, m_index_stream2 := i\<rparr>) p) count) (\<lambda>r.
        case r of
          Inl status \<Rightarrow> Pair (Ok (status, count))
        | Inr count1 \<Rightarrow>
            bind_state (stream_step f (size_index (m_index_stdout d)) ''stdout'' (\<lambda>_. m_pid d)
              (\<lambda>p. (m_stream1 (processes p ! k), m_index_stream1 (processes p ! k)))
              (\<lambda>(t, i) p. set_process k ((processes p ! k)\<lparr>m_stream1 := t, m_index_stream1 := i\<rparr>) p) count1) (\<lambda>r.
            case r of
              Inl status \<Rightarrow> Pair (Ok (status, count1))
            | Inr count2 \<Rightarrow> Pair (Ok (gepd_success, count2)))) (p, s))"

definition process_check :: "ei_encoder \<Rightarrow> nat \<Rightarrow> nat \<Rightarrow> (exit_status \<times> nat) spawn_call" where
  "process_check ei = process_streams (consume_stream ei)"

definition process_flush :: "ei_encoder \<Rightarrow> nat \<Rightarrow> nat \<Rightarrow> (exit_status \<times> nat) spawn_call" where
  "process_flush ei = process_streams (flush_stream ei)"

section \<open>Removal\<close>

text \<open>
  A process that has ended: its descriptors are closed, the entries of the later processes move
  down, and erasing it from the vector runs its destructor.
\<close>

fun shift_from :: "nat \<Rightarrow> nat \<Rightarrow> unit spawn_call" where
  "shift_from k 0 = Pair (Ok ())"
| "shift_from k (Suc n) = bind_state (process_shift k) (\<lambda>_. shift_from (Suc k) n)"

definition process_erase :: "nat \<Rightarrow> unit spawn_call" where
  "process_erase k = (\<lambda>(p, s).
     process_destroy (processes p ! k) (p\<lparr>processes := take k (processes p) @ drop (Suc k) (processes p)\<rparr>, s))"

definition process_reap :: "nat \<Rightarrow> unit spawn_call" where
  "process_reap k = (\<lambda>(p, s).
     bind_state (process_close (processes p ! k)) (\<lambda>_.
     bind_state (shift_from (Suc k) (length (processes p) - Suc k)) (\<lambda>_.
     process_erase k)) (p, s))"

text \<open>The static destructor of \<open>processes\<close>, at the end of the program.\<close>

fun destroy_each :: "process_data list \<Rightarrow> unit spawn_call" where
  "destroy_each [] = Pair (Ok ())"
| "destroy_each (d # ds) = bind_state (process_destroy d) (\<lambda>_. destroy_each ds)"

definition destroy_processes :: "unit spawn_call" where
  "destroy_processes = (\<lambda>(p, s). destroy_each (processes p) (p\<lparr>processes := []\<rparr>, s))"

section \<open>The port function\<close>

definition spawn_argv_types :: "port_type list" where
  "spawn_argv_types =
     [T_char, T_pchar_len, T_puint32_len, T_pchar_len, T_uint64, T_pchar_len, T_uint64, T_pchar_len,
      T_int32, T_pchar_len, T_pchar_len, T_pchar_len, T_pchar_len, T_pchar_len]"

definition spawn_arguments :: "port_value list \<Rightarrow> spawn_args option" where
  "spawn_arguments vs =
     (let num = (\<lambda>v. case v of V_int i \<Rightarrow> i | _ \<Rightarrow> 0);
          txt_at = (\<lambda>v. case v of V_pchar off n \<Rightarrow> (off, unat n) | V_puint32 off n \<Rightarrow> (off, unat n) | _ \<Rightarrow> (0, 0))
      in if length vs \<noteq> 14 then None
         else Some \<lparr>sa_protocol = num (vs ! 0), sa_socket_path = txt_at (vs ! 1), sa_ports = txt_at (vs ! 2),
           sa_rlimits = txt_at (vs ! 3), sa_user_i = word_of_int (num (vs ! 4)), sa_user_str = txt_at (vs ! 5),
           sa_group_i = word_of_int (num (vs ! 6)), sa_group_str = txt_at (vs ! 7), sa_nice = num (vs ! 8),
           sa_chroot = txt_at (vs ! 9), sa_directory = txt_at (vs ! 10), sa_filename = txt_at (vs ! 11),
           sa_argv = txt_at (vs ! 12), sa_env = txt_at (vs ! 13)\<rparr>)"

text \<open>
  The parent: the write ends are closed, the two read ends become the last entries of \<open>fds\<close> and the
  process the last one of the table. \<open>exit\<close> runs the static destructors.
\<close>

definition reserve_fds :: "nat \<Rightarrow> bool spawn_call" where
  "reserve_fds n = (\<lambda>(p, s).
     case c_reserve n (fds p) (io s) of
       (Ok (b, t), w) \<Rightarrow> (Ok b, (p\<lparr>fds := t\<rparr>, s\<lparr>io := w\<rparr>))
     | (_, w) \<Rightarrow> (Blocked, (p, s\<lparr>io := w\<rparr>)))"

definition add_process :: "int \<Rightarrow> int \<Rightarrow> int \<Rightarrow> int spawn_call" where
  "add_process pid fd_stdout fd_stderr = (\<lambda>(p, s).
     let index_stdout = nfds p; index_stderr = nfds p + 1
     in bind_state (reserve_fds (nfds p + 2)) (\<lambda>ok.
        if \<not> ok then bind_state destroy_processes (\<lambda>_. Pair (Exited (spawn_value spawn_out_of_memory)))
        else
          bind_state (set_pollfd index_stdout fd_stdout) (\<lambda>_.
          bind_state (set_pollfd index_stderr fd_stderr) (\<lambda>_. (\<lambda>(p, s).
          (Ok pid, (p\<lparr>nfds := nfds p + 2,
             processes := processes p @ [process_data_new (nat pid) (int index_stdout) (int index_stderr)]\<rparr>, s)))))) (p, s))"

definition spawn_fork :: "ei_encoder \<Rightarrow> spawn_args \<Rightarrow> int \<Rightarrow> int \<Rightarrow> bool \<Rightarrow> int \<times> int \<Rightarrow> int \<times> int \<Rightarrow> int spawn_call" where
  "spawn_fork ei a domain type use_header fds_stdout fds_stderr =
     or_fail (\<lambda>e. spawn_value (spawn_errno_fork e)) (on_sys (sys_int Sys_fork)) (\<lambda>pid.
     if pid = 0 then
       (\<lambda>(p, s). bind_state (on_sys (spawn_child ei p a domain type use_header fds_stdout fds_stderr))
                   (\<lambda>_. Pair Blocked) (p, s))
     else
       or_fail exit_close (on_sys (sys_int (Sys_close (snd fds_stdout)))) (\<lambda>_.
       or_fail exit_close (on_sys (sys_int (Sys_close (snd fds_stderr)))) (\<lambda>_.
       add_process pid (fst fds_stdout) (fst fds_stderr))))"

definition spawn :: "ei_encoder \<Rightarrow> spawn_args \<Rightarrow> int spawn_call" where
  "spawn ei a =
     (case protocol_sockets (sa_protocol a) of
        None \<Rightarrow> Pair (Ok (spawn_value spawn_invalid_input))
      | Some (domain, type, use_header) \<Rightarrow>
          or_fail (\<lambda>e. spawn_value (spawn_errno_pipe e)) (on_sys c_pipe) (\<lambda>fds_stdout.
          or_fail (\<lambda>e. spawn_value (spawn_errno_pipe e)) (on_sys c_pipe) (\<lambda>fds_stderr.
          spawn_fork ei a domain type use_header fds_stdout fds_stderr)))"

definition spawn_function :: "ei_encoder \<Rightarrow> unit spawn_state_ext port_function" where
  "spawn_function ei =
     \<lparr>argv_types = spawn_argv_types, return_type = T_int32,
      function_body = (\<lambda>vs. case spawn_arguments vs of
          None \<Rightarrow> Pair Undefined
        | Some a \<Rightarrow> bind_state (spawn ei a) (\<lambda>r. Pair (Ok (V_int r))))\<rparr>"

definition spawn_functions :: "ei_encoder \<Rightarrow> nat \<Rightarrow> unit spawn_state_ext port_function option" where
  "spawn_functions ei cmd = (if cmd = 1 then Some (spawn_function ei) else None)"

section \<open>The main loop\<close>

text \<open>
  The loop over the processes while events are left: \<open>n\<close> processes from \<open>itr\<close> on. \<open>Some\<close> is a status
  that ends the program.
\<close>

fun process_loop :: "ei_encoder \<Rightarrow> nat \<Rightarrow> nat \<Rightarrow> nat \<Rightarrow> exit_status option spawn_call" where
  "process_loop ei 0 itr count = Pair (Ok None)"
| "process_loop ei (Suc n) itr count =
     (if count = 0 then Pair (Ok None)
      else
        bind_state (process_check ei itr count) (\<lambda>(status, count1).
        if status = gepd_success then process_loop ei n (Suc itr) count1
        else if status \<noteq> gepd_error_HUP then Pair (Ok (Some status))
        else
          bind_state (process_flush ei itr count1) (\<lambda>(status, count2).
          if status \<noteq> gepd_success then Pair (Ok (Some status))
          else bind_state (process_reap itr) (\<lambda>_. process_loop ei n itr count2))))"

definition process_events :: "ei_encoder \<Rightarrow> nat \<Rightarrow> exit_status option spawn_call" where
  "process_events ei count = (\<lambda>(p, s). process_loop ei (length (processes p)) 0 count (p, s))"

partial_function (option) main_loop :: "ei_encoder \<Rightarrow> spawn_state \<times> sys
    \<Rightarrow> (exit_status outcome \<times> spawn_state \<times> sys) option" where
  "main_loop ei st =
     (case wait_loop ei (spawn_functions ei) st of
        None \<Rightarrow> None
      | Some (Ok (status, count), st1) \<Rightarrow>
          if status \<noteq> gepd_ready then Some (Ok status, st1)
          else
            (case process_events ei count st1 of
               (Ok None, st2) \<Rightarrow> main_loop ei st2
             | (Ok (Some status), st2) \<Rightarrow> Some (Ok status, st2)
             | (Raise e, st2) \<Rightarrow> Some (Raise e, st2)
             | (Undefined, st2) \<Rightarrow> Some (Undefined, st2)
             | (Exited i, st2) \<Rightarrow> Some (Exited i, st2)
             | (Blocked, st2) \<Rightarrow> Some (Blocked, st2))
      | Some (Raise e, st1) \<Rightarrow> Some (Raise e, st1)
      | Some (Undefined, st1) \<Rightarrow> Some (Undefined, st1)
      | Some (Exited i, st1) \<Rightarrow> Some (Exited i, st1)
      | Some (Blocked, st1) \<Rightarrow> Some (Blocked, st1))"

definition spawn_main_state :: spawn_state where
  "spawn_main_state = port.extend gepd_state \<lparr>processes = []\<rparr>"

text \<open>\<open>main\<close>: its status is the exit status of the program; then the static destructors run.\<close>

definition spawn_main :: "ei_encoder \<Rightarrow> sys \<Rightarrow> exit_status outcome \<times> spawn_state \<times> sys" where
  "spawn_main ei s =
     bind_state gepd_init (\<lambda>status.
     bind_state (if status \<noteq> gepd_success then Pair (Ok status)
                 else (\<lambda>st. case main_loop ei st of None \<Rightarrow> (Blocked, st) | Some r \<Rightarrow> r)) (\<lambda>status.
     bind_state destroy_processes (\<lambda>_. Pair (Ok status)))) (spawn_main_state, s)"

end
