(* ===== verification/Spawn_Table.thy ===== *)
theory Spawn_Table
  imports Spawn Port_Client
begin

text \<open>
  The table of processes as a list of processes with their two descriptors: the detailed state, where
  every process knows the indexes of its entries in \<open>fds\<close> and removing one moves all later entries,
  implements appending to and deleting from that list.
\<close>

section \<open>Invariant and abstraction\<close>

text \<open>Process number \<open>k\<close> has the entries \<open>3 + 2 * k\<close> and \<open>4 + 2 * k\<close>, behind the three of the port.\<close>

definition process_indexes :: "nat \<Rightarrow> process_data \<Rightarrow> bool" where
  "process_indexes k d \<longleftrightarrow> m_index_stdout d = 3 + 2 * int k \<and> m_index_stderr d = 4 + 2 * int k"

definition table_inv :: "spawn_state \<Rightarrow> bool" where
  "table_inv p \<longleftrightarrow>
     rp_wf (fds p) \<and> m_maxSize (fds p) = 524288
     \<and> nfds p = 3 + 2 * length (processes p) \<and> nfds p \<le> m_size (fds p)
     \<and> (\<forall>i < nfds p. m_p (fds p) i \<noteq> None)
     \<and> (\<forall>k < length (processes p). process_indexes k (processes p ! k))"

definition descriptor :: "spawn_state \<Rightarrow> nat \<Rightarrow> int" where
  "descriptor p i = pfd (the (m_p (fds p) i))"

definition table_entry :: "spawn_state \<Rightarrow> nat \<Rightarrow> nat \<times> int \<times> int" where
  "table_entry p k = (m_pid (processes p ! k), descriptor p (3 + 2 * k), descriptor p (4 + 2 * k))"

definition table :: "spawn_state \<Rightarrow> (nat \<times> int \<times> int) list" where
  "table p = map (table_entry p) [0..<length (processes p)]"

lemma length_table [simp]: "length (table p) = length (processes p)"
  by (simp add: table_def)

lemma nth_table [simp]: "k < length (processes p) \<Longrightarrow> table p ! k = table_entry p k"
  by (simp add: table_def)

lemma table_eqI:
  assumes "length (processes p) = length T" "\<And>k. k < length T \<Longrightarrow> table_entry p k = T ! k"
  shows "table p = T"
  using assms by (simp add: list_eq_iff_nth_eq)

text \<open>An index of the invariant is below the size of the array, so that no conversion changes it.\<close>

lemma size_index_small: "0 \<le> i \<Longrightarrow> i < 2 ^ 64 \<Longrightarrow> size_index i = nat i"
  by (simp add: size_index_def)

lemma table_inv_index:
  assumes "table_inv p" "k < length (processes p)"
  shows "size_index (m_index_stdout (processes p ! k)) = 3 + 2 * k"
    "size_index (m_index_stderr (processes p ! k)) = 4 + 2 * k"
    "m_index_stdout (processes p ! k) = 3 + 2 * int k" "m_index_stderr (processes p ! k) = 4 + 2 * int k"
    "4 + 2 * k < nfds p" "nfds p \<le> m_size (fds p)" "nfds p < 2 ^ 64"
proof -
  show n: "4 + 2 * k < nfds p" "nfds p \<le> m_size (fds p)" using assms by (auto simp: table_inv_def)
  then show "nfds p < 2 ^ 64" using assms by (auto simp: table_inv_def rp_wf_def)
  moreover show "m_index_stdout (processes p ! k) = 3 + 2 * int k"
      "m_index_stderr (processes p ! k) = 4 + 2 * int k"
    using assms by (auto simp: table_inv_def process_indexes_def)
  ultimately show "size_index (m_index_stdout (processes p ! k)) = 3 + 2 * k"
      "size_index (m_index_stderr (processes p ! k)) = 4 + 2 * k"
    using n by (auto simp: size_index_small nat_add_distrib nat_mult_distrib)
qed

lemma table_inv_cell: "table_inv p \<Longrightarrow> i < nfds p \<Longrightarrow> m_p (fds p) i \<noteq> None"
  unfolding table_inv_def by blast

lemma pollfd_at_ok:
  assumes "rp_wf (fds p)" "i < m_size (fds p)" "m_p (fds p) i = Some pf"
  shows "pollfd_at i (p, s) = (Ok pf, (p, s))"
  using assms by (simp add: pollfd_at_def rp_at_def rp_wf_def)

section \<open>Removing a process\<close>

text \<open>The array with one cell changed.\<close>

definition set_cell :: "nat \<Rightarrow> pollfd option \<Rightarrow> spawn_state \<Rightarrow> spawn_state" where
  "set_cell i c p = p\<lparr>fds := (fds p)\<lparr>m_p := (m_p (fds p))(i := c)\<rparr>\<rparr>"

lemma copy_pollfd_ok:
  assumes "rp_wf (fds p)" "i < m_size (fds p)" "j < m_size (fds p)" "m_p (fds p) j \<noteq> None" "m_size (fds p) \<le> 2 ^ 63"
  shows "copy_pollfd (int i) (int j) (p, s) = (Ok (), (set_cell i (m_p (fds p) j) p, s))"
proof -
  have "size_index (int i) = i" "size_index (int j) = j"
    using assms by (simp_all add: size_index_small)
  then show ?thesis
    using assms by (auto simp: copy_pollfd_def pollfd_at_ok rp_assign_def rp_wf_def set_cell_def)
qed

lemma process_shift_ok:
  assumes wf: "rp_wf (fds p)" and d: "processes p ! k = d" "process_indexes k d" and k: "0 < k" "4 + 2 * k < m_size (fds p)"
    and c: "m_p (fds p) (3 + 2 * k) \<noteq> None" "m_p (fds p) (4 + 2 * k) \<noteq> None"
  shows "process_shift k (p, s)
    = (Ok (), (set_cell (2 + 2 * k) (m_p (fds p) (4 + 2 * k)) (set_cell (1 + 2 * k) (m_p (fds p) (3 + 2 * k))
        (set_process k (shifted d) p)), s))"
proof -
  let ?p = "set_process k (shifted d) p"
  let ?q = "set_cell (1 + 2 * k) (m_p (fds p) (3 + 2 * k)) ?p"
  have sz: "m_size (fds p) \<le> 2 ^ 63" using wf by (simp add: rp_wf_def)
  have i: "m_index_stdout (shifted d) = int (1 + 2 * k)" "m_index_stdout d = int (3 + 2 * k)"
      "m_index_stderr (shifted d) = int (2 + 2 * k)" "m_index_stderr d = int (4 + 2 * k)"
    using d(2) by (simp_all add: shifted_def process_indexes_def)
  have q: "fds ?p = fds p" "m_size (fds ?q) = m_size (fds p)" "m_p (fds ?q) (4 + 2 * k) = m_p (fds p) (4 + 2 * k)"
    by (simp_all add: set_process_def set_cell_def)
  have "rp_wf (fds ?q)" using wf k by (auto simp: rp_wf_def set_cell_def set_process_def)
  then have "copy_pollfd (int (2 + 2 * k)) (int (4 + 2 * k)) (?q, s)
      = (Ok (), (set_cell (2 + 2 * k) (m_p (fds p) (4 + 2 * k)) ?q, s))"
    using copy_pollfd_ok [of ?q "2 + 2 * k" "4 + 2 * k" s] k c sz by (simp only: q) simp
  moreover have "copy_pollfd (int (1 + 2 * k)) (int (3 + 2 * k)) (?p, s) = (Ok (), (?q, s))"
    using copy_pollfd_ok [of ?p "1 + 2 * k" "3 + 2 * k" s] wf k c sz by (simp only: q) simp
  ultimately show ?thesis
    unfolding process_shift_def prod.case Let_def d(1) i bind_state_def by simp
qed

text \<open>All later processes: every cell from that of process \<open>k\<close> on moves down by two.\<close>

definition move_cells :: "nat \<Rightarrow> nat \<Rightarrow> (nat \<Rightarrow> 'c) \<Rightarrow> nat \<Rightarrow> 'c" where
  "move_cells k n m = (\<lambda>i. if 1 + 2 * k \<le> i \<and> i < 1 + 2 * (k + n) then m (i + 2) else m i)"

lemma move_cells_Suc:
  "move_cells (Suc k) n (m(1 + 2 * k := m (3 + 2 * k), 2 + 2 * k := m (4 + 2 * k))) = move_cells k (Suc n) m"
proof
  fix i
  consider "i < 1 + 2 * k" | "i = 1 + 2 * k" | "i = 2 + 2 * k" | "3 + 2 * k \<le> i" by linarith
  then show "move_cells (Suc k) n (m(1 + 2 * k := m (3 + 2 * k), 2 + 2 * k := m (4 + 2 * k))) i
      = move_cells k (Suc n) m i"
    by cases (auto simp: move_cells_def numeral_eq_Suc)
qed

lemma shift_from_ok:
  assumes "rp_wf (fds p)" "0 < k" "k + n = length (processes p)" "2 + 2 * (k + n) < m_size (fds p)"
    and "\<And>i. i < 3 + 2 * (k + n) \<Longrightarrow> m_p (fds p) i \<noteq> None"
    and "\<And>j. k \<le> j \<Longrightarrow> j < k + n \<Longrightarrow> process_indexes j (processes p ! j)"
  shows "shift_from k n (p, s) = (Ok (),
    (p\<lparr>fds := (fds p)\<lparr>m_p := move_cells k n (m_p (fds p))\<rparr>,
       processes := take k (processes p) @ map shifted (drop k (processes p))\<rparr>, s))"
  using assms
proof (induction n arbitrary: k p)
  case 0
  have "move_cells k 0 m = m" for m :: "nat \<Rightarrow> pollfd option" by (auto simp: move_cells_def fun_eq_iff)
  with 0 show ?case by simp
next
  case (Suc n)
  let ?d = "processes p ! k"
  let ?m = "m_p (fds p)"
  define q where "q = set_cell (2 + 2 * k) (?m (4 + 2 * k)) (set_cell (1 + 2 * k) (?m (3 + 2 * k))
      (set_process k (shifted ?d) p))"
  have step: "process_shift k (p, s) = (Ok (), (q, s))"
    using Suc.prems unfolding q_def by (intro process_shift_ok) auto
  have fds_q: "fds q = (fds p)\<lparr>m_p := ?m(1 + 2 * k := ?m (3 + 2 * k), 2 + 2 * k := ?m (4 + 2 * k))\<rparr>"
    and ps_q: "processes q = (processes p)[k := shifted ?d]"
    by (simp_all add: q_def set_cell_def set_process_def)
  have "shift_from (Suc k) n (q, s) = (Ok (),
      (q\<lparr>fds := (fds q)\<lparr>m_p := move_cells (Suc k) n (m_p (fds q))\<rparr>,
         processes := take (Suc k) (processes q) @ map shifted (drop (Suc k) (processes q))\<rparr>, s))"
  proof (rule Suc.IH)
    show "rp_wf (fds q)" using Suc.prems(1,4) by (auto simp: fds_q rp_wf_def)
    show "m_p (fds q) i \<noteq> None" if "i < 3 + 2 * (Suc k + n)" for i
      using that Suc.prems(5) by (auto simp: fds_q)
    show "process_indexes j (processes q ! j)" if "Suc k \<le> j" "j < Suc k + n" for j
      using that Suc.prems(6) [of j] by (simp add: ps_q)
  qed (use Suc.prems in \<open>simp_all add: fds_q ps_q\<close>)
  moreover have "take (Suc k) (processes q) @ map shifted (drop (Suc k) (processes q))
      = take k (processes p) @ map shifted (drop k (processes p))"
    using Suc.prems(3) by (simp add: ps_q take_Suc_conv_app_nth flip: Cons_nth_drop_Suc)
  moreover have "q\<lparr>fds := f, processes := ps\<rparr> = p\<lparr>fds := f, processes := ps\<rparr>" for f ps
    by (cases p) (simp add: q_def set_cell_def set_process_def)
  moreover have "(fds q)\<lparr>m_p := move_cells (Suc k) n (m_p (fds q))\<rparr> = (fds p)\<lparr>m_p := move_cells k (Suc n) ?m\<rparr>"
    using move_cells_Suc [of k n ?m] by (simp add: fds_q)
  ultimately show ?case using step by simp
qed

text \<open>The destructor: the calls that it makes, whatever the process answers.\<close>

lemma write_cerr_trace: "write_cerr ts s = (Ok (), s\<lparr>trace := trace s @ map (Sys_write 2) ts\<rparr>)"
  by (induction ts arbitrary: s) (simp_all add: sys_ignored_def sys_log_def bind_state_def)

definition kill_calls :: "nat \<Rightarrow> bytes list \<Rightarrow> syscall list" where
  "kill_calls pid report = [Sys_kill (int pid) 9, Sys_waitpid (int pid)] @ map (Sys_write 2) report"

lemma process_kill_ok:
  assumes "exits s = Inr w # es" "exit_code w = Ok status"
  shows "process_kill d s = (Ok (), s\<lparr>exits := es, trace := trace s @
    kill_calls (m_pid d) (if status = 0 then [] else exit_report (m_pid d) status)\<rparr>)"
  using assms
  by (simp add: process_kill_def bind_state_def sys_ignored_def sys_log_def c_waitpid_def write_cerr_trace
    kill_calls_def)

lemma process_kill_trace:
  assumes "process_kill d s = (Ok u, s')"
  shows "\<exists>report. trace s' = trace s @ kill_calls (m_pid d) report"
  using assms
  by (auto simp: process_kill_def bind_state_def sys_ignored_def sys_log_def c_waitpid_def write_cerr_trace
    kill_calls_def split: list.splits sum.splits outcome.splits if_splits)

lemma process_close_ok:
  assumes "table_inv p" "k < length (processes p)"
  shows "process_close (processes p ! k) (p, s)
    = (Ok (), (p, s\<lparr>trace := trace s @ [Sys_close (descriptor p (3 + 2 * k)), Sys_close (descriptor p (4 + 2 * k))]\<rparr>))"
proof -
  note i = table_inv_index [OF assms]
  have wf: "rp_wf (fds p)" and c: "\<And>i. i < nfds p \<Longrightarrow> m_p (fds p) i \<noteq> None"
    using assms(1) by (simp_all add: table_inv_def)
  obtain a b where ab: "m_p (fds p) (3 + 2 * k) = Some a" "m_p (fds p) (4 + 2 * k) = Some b"
    using c [of "3 + 2 * k"] c [of "4 + 2 * k"] i(5) by auto
  have "pollfd_at (3 + 2 * k) (p, s) = (Ok a, (p, s))" "pollfd_at (4 + 2 * k) (p, s) = (Ok b, (p, s))" for s
    using wf ab i(5,6) by (auto intro!: pollfd_at_ok)
  then show ?thesis
    using i(1,2) ab by (simp add: process_close_def bind_state_def on_sys_def sys_ignored_def sys_log_def descriptor_def)
qed

text \<open>The state after the removal of process \<open>k\<close>.\<close>

definition reaped :: "nat \<Rightarrow> spawn_state \<Rightarrow> spawn_state" where
  "reaped k p = p\<lparr>nfds := nfds p - 2,
     fds := (fds p)\<lparr>m_p := move_cells (Suc k) (length (processes p) - Suc k) (m_p (fds p))\<rparr>,
     processes := take k (processes p) @ map shifted (drop (Suc k) (processes p))\<rparr>"

lemma table_inv_reaped:
  assumes "table_inv p" "k < length (processes p)"
  shows "table_inv (reaped k p)"
proof -
  let ?n = "length (processes p)"
  have "rp_wf (fds (reaped k p))"
    using assms by (auto simp: table_inv_def reaped_def rp_wf_def move_cells_def)
  moreover have "m_p (fds (reaped k p)) i \<noteq> None" if "i < nfds (reaped k p)" for i
    using that assms by (auto simp: table_inv_def reaped_def move_cells_def)
  moreover have "process_indexes j (processes (reaped k p) ! j)" if "j < ?n - 1" for j
  proof (cases "j < k")
    case False
    with that have "process_indexes (Suc j) (processes p ! Suc j)" using assms(1) by (simp add: table_inv_def)
    then show ?thesis
      using False that assms(2)
      by (simp add: reaped_def nth_append process_indexes_def shifted_def min_def)
  qed (use assms in \<open>simp add: table_inv_def reaped_def nth_append\<close>)
  ultimately show ?thesis using assms by (auto simp: table_inv_def reaped_def)
qed

lemma table_reaped:
  assumes "k < length (processes p)"
  shows "table (reaped k p) = take k (table p) @ drop (Suc k) (table p)"
proof (rule table_eqI)
  fix j
  assume j: "j < length (take k (table p) @ drop (Suc k) (table p))"
  show "table_entry (reaped k p) j = (take k (table p) @ drop (Suc k) (table p)) ! j"
  proof (cases "j < k")
    case True
    then show ?thesis
      using assms by (simp add: nth_append table_entry_def descriptor_def reaped_def move_cells_def)
  next
    case False
    then have "move_cells (Suc k) (length (processes p) - Suc k) m (3 + 2 * j) = m (3 + 2 * Suc j)"
      "move_cells (Suc k) (length (processes p) - Suc k) m (4 + 2 * j) = m (4 + 2 * Suc j)" for m :: "nat \<Rightarrow> pollfd option"
      using j assms by (auto simp: move_cells_def numeral_eq_Suc)
    then show ?thesis
      using False j assms
      by (simp add: nth_append table_entry_def descriptor_def reaped_def shifted_def min_def)
  qed
qed (use assms in \<open>simp add: reaped_def\<close>)

lemma reap_prefix:
  assumes "table_inv p" "k < length (processes p)"
  shows "process_reap k (p, s) = on_sys (process_kill (processes p ! k)) (reaped k p,
    s\<lparr>trace := trace s @ [Sys_close (descriptor p (3 + 2 * k)), Sys_close (descriptor p (4 + 2 * k))]\<rparr>)"
proof -
  let ?n = "length (processes p) - Suc k"
  let ?p = "p\<lparr>fds := (fds p)\<lparr>m_p := move_cells (Suc k) ?n (m_p (fds p))\<rparr>,
       processes := take (Suc k) (processes p) @ map shifted (drop (Suc k) (processes p))\<rparr>"
  have "shift_from (Suc k) ?n (p, s) = (Ok (), (?p, s))" for s
    using assms by (intro shift_from_ok) (auto simp: table_inv_def)
  moreover have "processes ?p ! k = processes p ! k" using assms(2) by (simp add: nth_append)
  moreover have "(nfds p + 2 ^ 64 - 2) mod 2 ^ 64 = nfds p - 2"
  proof -
    have "nfds p + 2 ^ 64 - 2 = (nfds p - 2) + 2 ^ 64" "nfds p - 2 < 2 ^ 64"
      using table_inv_index(5,7) [OF assms] by simp_all
    then show ?thesis by (simp only: mod_add_self2 mod_less)
  qed
  moreover have "(?p\<lparr>processes := take k (processes ?p) @ drop (Suc k) (processes ?p)\<rparr>)\<lparr>nfds := nfds p - 2\<rparr> = reaped k p"
    using assms(2) by (cases p) (simp add: reaped_def min_def)
  ultimately show ?thesis
    by (simp add: process_reap_def process_close_ok [OF assms] process_erase_def process_destroy_def)
qed

lemma process_reap_ok:
  assumes "table_inv p" "k < length (processes p)" "process_reap k (p, s) = (Ok u, (p', s'))"
  shows "p' = reaped k p"
    "\<exists>report. trace s' = trace s @ [Sys_close (descriptor p (3 + 2 * k)), Sys_close (descriptor p (4 + 2 * k))]
      @ kill_calls (m_pid (processes p ! k)) report"
  using assms(3) process_kill_trace
  by (fastforce simp: reap_prefix [OF assms(1,2)] on_sys_def split: prod.splits)+

section \<open>Adding a process\<close>

lemma set_pollfd_ok:
  assumes "rp_wf (fds p)" "i < m_size (fds p)"
  shows "set_pollfd i fd (p, s) = (Ok (), (set_cell i (Some \<lparr>pfd = fd, events = POLLIN OR POLLPRI, revents = 0\<rparr>) p, s))"
  using assms by (simp add: set_pollfd_def rp_assign_def rp_wf_def set_cell_def)

lemma rp_wf_set_cell: "rp_wf (fds p) \<Longrightarrow> i < m_size (fds p) \<Longrightarrow> rp_wf (fds (set_cell i (Some c) p))"
  by (auto simp: rp_wf_def set_cell_def)

text \<open>The array grown for two more entries.\<close>

lemma reserve_fds_ok:
  assumes "table_inv p" "reserve_fds (nfds p + 2) (p, s) = (Ok b, (p', s'))"
  shows "\<exists>t. p' = p\<lparr>fds := t\<rparr> \<and> rp_wf t \<and> rp_extends (fds p) t \<and> (b \<longrightarrow> nfds p + 2 < m_size t)"
proof -
  have wf: "rp_wf (fds p)" "nfds p + 2 < 2 ^ 63"
    using assms(1) by (auto simp: table_inv_def rp_wf_def)
  obtain r t w where t: "c_reserve (nfds p + 2) (fds p) (io s) = (Ok (r, t), w)" "rp_wf t" "rp_extends (fds p) t"
      "r \<longrightarrow> nfds p + 2 < m_size t"
    using c_reserve_cases [OF wf, of "io s"] by blast
  then have "p' = p\<lparr>fds := t\<rparr>" "b = r" using assms(2) by (simp_all add: reserve_fds_def)
  with t show ?thesis by (intro exI [of _ t]) simp
qed

text \<open>The state after a process was added, in an array \<open>t\<close> that has room for its entries.\<close>

definition entry :: "int \<Rightarrow> pollfd option" where
  "entry fd = Some \<lparr>pfd = fd, events = POLLIN OR POLLPRI, revents = 0\<rparr>"

definition added :: "pollfd realloc_ptr \<Rightarrow> int \<Rightarrow> int \<Rightarrow> int \<Rightarrow> spawn_state \<Rightarrow> spawn_state" where
  "added t pid out err p = (set_cell (nfds p + 1) (entry err) (set_cell (nfds p) (entry out) (p\<lparr>fds := t\<rparr>)))
     \<lparr>nfds := nfds p + 2, processes := processes p @ [process_data_new (nat pid) (int (nfds p)) (int (nfds p + 1))]\<rparr>"

definition has_room :: "spawn_state \<Rightarrow> pollfd realloc_ptr \<Rightarrow> bool" where
  "has_room p t \<longleftrightarrow> rp_wf t \<and> rp_extends (fds p) t \<and> nfds p + 2 < m_size t"

lemma add_process_added:
  assumes inv: "table_inv p" and a: "add_process pid out err (p, s) = (Ok r, (p', s'))"
  shows "\<exists>t. has_room p t \<and> r = pid \<and> p' = added t pid out err p"
proof -
  let ?n = "nfds p"
  obtain ok p1 s1 where res: "reserve_fds (?n + 2) (p, s) = (Ok ok, (p1, s1))"
    using a by (auto simp: add_process_def Let_def bind_state_eq_Ok)
  then have ok using a by (cases ok) (auto simp: add_process_def Let_def bind_state_eq_Ok)
  obtain t where t: "p1 = p\<lparr>fds := t\<rparr>" "rp_wf t" "rp_extends (fds p) t" "?n + 2 < m_size t"
    using reserve_fds_ok [OF inv res] \<open>ok\<close> by blast
  have q1: "set_pollfd ?n out (p1, s1) = (Ok (), (set_cell ?n (entry out) p1, s1))"
    unfolding entry_def using t by (intro set_pollfd_ok) simp_all
  have q2: "set_pollfd (?n + 1) err (set_cell ?n (entry out) p1, s1)
      = (Ok (), (set_cell (?n + 1) (entry err) (set_cell ?n (entry out) p1), s1))"
    unfolding entry_def using t by (intro set_pollfd_ok rp_wf_set_cell) (simp_all add: set_cell_def)
  have "add_process pid out err (p, s) = (Ok pid, (added t pid out err p, s1))"
    using res \<open>ok\<close> q1 q2 by (simp add: add_process_def Let_def bind_state_def added_def t(1) set_cell_def)
  note eq = trans [OF a [symmetric] this]
  have "r = pid" using arg_cong [OF eq, of fst] by simp
  moreover have "p' = added t pid out err p" using arg_cong [OF eq, of "fst \<circ> snd"] by (simp only: o_def snd_conv fst_conv)
  ultimately show ?thesis using t by (auto simp: has_room_def)
qed

lemma added_fields:
  "m_p (fds (added t pid out err p)) = (m_p t)(nfds p := entry out, nfds p + 1 := entry err)"
  "m_size (fds (added t pid out err p)) = m_size t" "m_maxSize (fds (added t pid out err p)) = m_maxSize t"
  "nfds (added t pid out err p) = nfds p + 2"
  "processes (added t pid out err p) = processes p @ [process_data_new (nat pid) (int (nfds p)) (int (nfds p + 1))]"
  by (simp_all add: added_def set_cell_def)

lemma has_room_old: "table_inv p \<Longrightarrow> has_room p t \<Longrightarrow> i < nfds p \<Longrightarrow> m_p t i = m_p (fds p) i"
  by (simp add: has_room_def rp_extends_def table_inv_def)

lemma table_inv_added:
  assumes "table_inv p" "has_room p t"
  shows "table_inv (added t pid out err p)"
proof -
  let ?p = "added t pid out err p"
  have n: "nfds p = 3 + 2 * length (processes p)" using assms(1) by (simp add: table_inv_def)
  have "rp_wf (fds ?p)"
    using assms(2) by (auto simp: has_room_def rp_wf_def added_def set_cell_def)
  moreover have "process_indexes k (processes ?p ! k)" if "k < length (processes ?p)" for k
    using that assms(1) n
    by (auto simp: added_fields nth_append table_inv_def process_indexes_def process_data_new_def less_Suc_eq)
  moreover have "m_p (fds ?p) i \<noteq> None" if i: "i < nfds ?p" for i
  proof (cases "i < nfds p")
    case True
    with assms show ?thesis using table_inv_cell [OF assms(1) True] by (simp add: added_fields has_room_old)
  next
    case False
    with i have "i = nfds p \<or> i = nfds p + 1" unfolding added_fields(4) by linarith
    then show ?thesis by (auto simp: added_fields entry_def)
  qed
  moreover have "m_maxSize (fds ?p) = 524288" "nfds ?p = 3 + 2 * length (processes ?p)" "nfds ?p \<le> m_size (fds ?p)"
    using assms n by (simp_all add: added_fields has_room_def rp_extends_def table_inv_def)
  ultimately show ?thesis unfolding table_inv_def by blast
qed

lemma table_added:
  assumes "table_inv p" "has_room p t"
  shows "table (added t pid out err p) = table p @ [(nat pid, out, err)]"
proof (rule table_eqI)
  fix k
  assume "k < length (table p @ [(nat pid, out, err)])"
  moreover have n: "nfds p = 3 + 2 * length (processes p)" using assms(1) by (simp add: table_inv_def)
  moreover note has_room_old [OF assms, of "3 + 2 * k"] has_room_old [OF assms, of "4 + 2 * k"]
  ultimately show "table_entry (added t pid out err p) k = (table p @ [(nat pid, out, err)]) ! k"
    by (cases "k < length (processes p)")
      (simp_all add: table_entry_def descriptor_def added_fields nth_append process_data_new_def entry_def less_Suc_eq)
qed (simp add: added_fields)

lemma add_process_ok:
  assumes "table_inv p" and "add_process pid out err (p, s) = (Ok r, (p', s'))"
  shows "r = pid \<and> table_inv p' \<and> table p' = table p @ [(nat pid, out, err)]"
  using add_process_added [OF assms] table_inv_added [OF assms(1)] table_added [OF assms(1)] by blast

end
