(* ===== verification/Spawn_Correct.thy ===== *)
theory Spawn_Correct
  imports Spawn_Table Spawn_Exec Port_Correct
begin

text \<open>
  The spawning program implements a list of processes: spawning appends, a process that has ended is
  deleted, and nothing else happens to the list in any run of the main loop. The port library's part
  of the argument is the locale \<open>port_client\<close>, interpreted here on the program's definitions.
\<close>

section \<open>The port function\<close>

lemma on_sys_Ok: "on_sys m (p, s) = (Ok x, st) \<longleftrightarrow> (\<exists>s1. m s = (Ok x, s1) \<and> st = (p, s1))"
  by (auto simp: on_sys_def split: prod.splits)

lemma or_fail_on_sys:
  "or_fail fail (on_sys m) k (p, s) = (Ok r, st') \<longleftrightarrow>
   (\<exists>e s1. m s = (Ok (Inl e), s1) \<and> r = fail e \<and> st' = (p, s1))
   \<or> (\<exists>y s1. m s = (Ok (Inr y), s1) \<and> k y (p, s1) = (Ok r, st'))"
  unfolding or_fail_Ok on_sys_Ok by blast

lemma c_pipe_Ok: "c_pipe s = (Ok x, s1) \<Longrightarrow> pipes s = x # pipes s1"
  by (auto simp: c_pipe_def sys_log_def split: list.splits)

lemma spawn_fork_ok:
  assumes inv: "table_inv p" and f: "spawn_fork ei a domain type h out err (p, s) = (Ok r, (p', s'))"
  shows "p' = p \<and> r \<in> range spawn_value \<or> r \<noteq> 0 \<and> table_inv p' \<and> table p' = table p @ [(nat r, fst out, fst err)]"
proof -
  from f consider e s1 where "p' = p" "r = spawn_value (spawn_errno_fork e)"
    | pid s1 where "(if pid = 0 then
          (\<lambda>(p, s). bind_state (on_sys (spawn_child ei p a domain type h out err)) (\<lambda>_. Pair Blocked) (p, s))
        else or_fail exit_close (on_sys (sys_int (Sys_close (snd out)))) (\<lambda>_.
             or_fail exit_close (on_sys (sys_int (Sys_close (snd err)))) (\<lambda>_.
             add_process pid (fst out) (fst err)))) (p, s1) = (Ok r, (p', s'))"
    unfolding spawn_fork_def or_fail_on_sys by blast
  then show ?thesis
  proof cases
    case (2 pid s1)
    have pid: "pid \<noteq> 0"
    proof
      assume "pid = 0"
      with 2 show False by (auto simp: bind_state_eq_Ok)
    qed
    with 2 consider "p' = p" "r \<in> range exit_close"
      | s2 where "add_process pid (fst out) (fst err) (p, s2) = (Ok r, (p', s'))"
      by (auto simp: or_fail_on_sys)
    then show ?thesis
    proof cases
      case 2
      with add_process_ok [OF inv 2] pid show ?thesis by auto
    qed (auto simp: exit_close_def)
  qed auto
qed

lemma spawn_ok:
  assumes inv: "table_inv p" and f: "spawn ei a (p, s) = (Ok r, (p', s'))"
  shows "p' = p \<and> r \<in> range spawn_value \<or>
    (\<exists>out err. take 2 (pipes s) = [Inr out, Inr err] \<and> r \<noteq> 0 \<and> table_inv p'
      \<and> table p' = table p @ [(nat r, fst out, fst err)])"
proof (cases "protocol_sockets (sa_protocol a)")
  case (Some v)
  obtain domain type h where v: "v = (domain, type, h)" by (cases v)
  with f Some consider e where "p' = p" "r = spawn_value (spawn_errno_pipe e)"
    | out err s1 s2 where "c_pipe s = (Ok (Inr out), s1)" "c_pipe s1 = (Ok (Inr err), s2)"
        "spawn_fork ei a domain type h out err (p, s2) = (Ok r, (p', s'))"
    by (auto simp: spawn_def or_fail_on_sys)
  then show ?thesis
  proof cases
    case 2
    then have "take 2 (pipes s) = [Inr out, Inr err]" by (simp add: c_pipe_Ok)
    with spawn_fork_ok [OF inv 2(3)] show ?thesis by blast
  qed auto
next
  case None
  then have "(Ok (spawn_value spawn_invalid_input), (p, s)) = (Ok r, (p', s'))" using f by (simp add: spawn_def)
  then show ?thesis by blast
qed

section \<open>The list of processes\<close>

inductive table_change :: "(nat \<times> int \<times> int) list \<Rightarrow> (nat \<times> int \<times> int) list \<Rightarrow> bool" where
  spawned: "table_change T (T @ [e])"
| ended: "k < length T \<Longrightarrow> table_change T (take k T @ drop (Suc k) T)"

definition table_rel :: "spawn_state \<Rightarrow> spawn_state \<Rightarrow> bool" where
  "table_rel p q \<longleftrightarrow> table_change\<^sup>*\<^sup>* (table p) (table q)"

lemma table_rel_same: "table p = table q \<Longrightarrow> table_rel p q"
  by (simp add: table_rel_def)

text \<open>What the table does not depend on.\<close>

lemma table_frame [simp]:
  "table_inv (p\<lparr>erlang_buffer := b\<rparr>) = table_inv p" "table (p\<lparr>erlang_buffer := b\<rparr>) = table p"
  "table_inv (p\<lparr>stream1 := t, index_stream1 := i\<rparr>) = table_inv p" "table (p\<lparr>stream1 := t, index_stream1 := i\<rparr>) = table p"
  "table_inv (p\<lparr>stream2 := t, index_stream2 := i\<rparr>) = table_inv p" "table (p\<lparr>stream2 := t, index_stream2 := i\<rparr>) = table p"
  by (simp_all add: table_inv_def table_def table_entry_def descriptor_def cong: map_cong)

lemma table_same_descriptors:
  assumes "table_inv p" "same_descriptors (fds p) f"
  shows "table_inv (p\<lparr>fds := f\<rparr>)" "table (p\<lparr>fds := f\<rparr>) = table p"
proof -
  obtain m where f: "f = (fds p)\<lparr>m_p := m\<rparr>" and c: "\<And>i. map_option pfd (m_p f i) = map_option pfd (m_p (fds p) i)"
    using assms(2) by (auto simp: same_descriptors_def)
  have none: "m_p f i = None \<longleftrightarrow> m_p (fds p) i = None" for i using c [of i] by (metis option.map_disc_iff)
  then have "rp_wf f" using assms(1) by (simp add: f rp_wf_def table_inv_def)
  moreover have "m_size f = m_size (fds p)" "m_maxSize f = m_maxSize (fds p)" by (simp_all add: f)
  ultimately show "table_inv (p\<lparr>fds := f\<rparr>)" using assms(1) none by (simp add: table_inv_def)
  have "pfd (the (m_p f i)) = pfd (the (m_p (fds p) i))" if "i < nfds p" for i
    using c [of i] table_inv_cell [OF assms(1) that] none [of i] by (auto simp: map_option_case split: option.splits)
  then show "table (p\<lparr>fds := f\<rparr>) = table p"
    using assms(1) by (intro table_eqI) (auto simp: table_entry_def descriptor_def table_inv_def)
qed

lemma table_rel_spawn:
  assumes "table_inv p" "spawn ei a (p, s) = (Ok r, (p', s'))"
  shows "table_inv p' \<and> table_rel p p'"
  using spawn_ok [OF assms] assms(1) by (auto simp: table_rel_def intro!: r_into_rtranclp [of table_change] table_change.spawned)

interpretation spawn_client: port_client table_inv table_rel "spawn_functions ei" for ei
proof (unfold_locales, goal_cases)
  case (2 p q r)
  then show ?case by (simp add: table_rel_def)
next
  case (6 p f)
  then show ?case by (simp add: table_same_descriptors table_rel_same)
next
  case (7 cmd g p vs s v p' s')
  then have g: "g = spawn_function ei" by (simp add: spawn_functions_def split: if_splits)
  with 7(3) obtain a r where "spawn ei a (p, s) = (Ok r, (p', s'))"
    by (auto simp: spawn_function_def bind_state_eq_Ok split: option.splits)
  with 7(2) show ?case by (rule table_rel_spawn)
qed (simp_all add: table_rel_same)

section \<open>The main loop\<close>

lemma table_set_process:
  assumes "table_inv p" "m_pid d = m_pid (processes p ! k)" "m_index_stdout d = m_index_stdout (processes p ! k)"
    "m_index_stderr d = m_index_stderr (processes p ! k)"
  shows "table_inv (set_process k d p)" "table (set_process k d p) = table p"
proof -
  show "table_inv (set_process k d p)"
    using assms
    by (cases "k < length (processes p)")
      (auto simp: table_inv_def set_process_def nth_list_update process_indexes_def)
  show "table (set_process k d p) = table p"
    using assms(2)
    by (cases "k < length (processes p)"; intro table_eqI)
      (auto simp: set_process_def table_entry_def descriptor_def nth_list_update)
qed

text \<open>The streams of a process leave the list alone.\<close>

interpretation stream_client: port_client table_inv "\<lambda>p q. table p = table q" "\<lambda>_. None"
  by unfold_locales (simp_all add: table_same_descriptors)

lemma keeps_process_streams: "keeps table_inv (\<lambda>p q. table p = table q) (process_streams f k count)"
proof (rule keepsI)
  fix p s r p' s'
  assume p: "table_inv p" and r: "process_streams f k count (p, s) = (Ok r, (p', s'))"
  let ?err = "stream_step f (size_index (m_index_stderr (processes p ! k))) ''stderr'' (\<lambda>_. m_pid (processes p ! k))
      (\<lambda>p. (m_stream2 (processes p ! k), m_index_stream2 (processes p ! k)))
      (\<lambda>(t, i) p. set_process k ((processes p ! k)\<lparr>m_stream2 := t, m_index_stream2 := i\<rparr>) p)"
  let ?out = "stream_step f (size_index (m_index_stdout (processes p ! k))) ''stdout'' (\<lambda>_. m_pid (processes p ! k))
      (\<lambda>p. (m_stream1 (processes p ! k), m_index_stream1 (processes p ! k)))
      (\<lambda>(t, i) p. set_process k ((processes p ! k)\<lparr>m_stream1 := t, m_index_stream1 := i\<rparr>) p)"
  have "keeps table_inv (\<lambda>p q. table p = table q) (?err c)" "keeps table_inv (\<lambda>p q. table p = table q) (?out c)" for c
    by (rule stream_client.keeps_stream_step, auto simp: table_set_process)+
  then have "keeps table_inv (\<lambda>p q. table p = table q) (bind_state (?err count) (\<lambda>r. case r of
      Inl status \<Rightarrow> Pair (Ok (status, count))
    | Inr c \<Rightarrow> bind_state (?out c) (\<lambda>r. case r of
          Inl status \<Rightarrow> Pair (Ok (status, c)) | Inr c' \<Rightarrow> Pair (Ok (gepd_success, c')))))"
    by (auto intro!: stream_client.keeps_basic split: sum.splits)
  from keepsD [OF this p] r show "table_inv p' \<and> table p = table p'" by (simp add: process_streams_def Let_def)
qed

lemma process_reap_keeps:
  assumes "table_inv p" "k < length (processes p)" "process_reap k (p, s) = (Ok u, (p', s'))"
  shows "table_inv p' \<and> table p' = take k (table p) @ drop (Suc k) (table p)"
  using process_reap_ok(1) [OF assms] assms(1,2) by (simp add: table_inv_reaped table_reaped)

lemma table_rel_trans: "table_rel p q \<Longrightarrow> table_rel q r \<Longrightarrow> table_rel p r"
  by (simp add: table_rel_def)

lemma process_ended_keeps:
  assumes inv: "table_inv p" and itr: "itr < length (processes p)"
    and run: "bind_state (process_flush ei itr c) (\<lambda>(status, c2).
      if status \<noteq> gepd_success then Pair (Ok (Some status))
      else bind_state (process_reap itr) (\<lambda>_. k c2)) (p, s) = (Ok r, (p', s'))"
  shows "table_inv p' \<and> table_rel p p'
    \<or> (\<exists>c2 p3 s3. k c2 (p3, s3) = (Ok r, (p', s')) \<and> table_inv p3 \<and> table_rel p p3
        \<and> Suc (length (processes p3)) = length (processes p))"
proof -
  obtain st2 c2 p2 s2 where flush: "process_flush ei itr c (p, s) = (Ok (st2, c2), (p2, s2))"
    and rest: "(if st2 \<noteq> gepd_success then Pair (Ok (Some st2))
      else bind_state (process_reap itr) (\<lambda>_. k c2)) (p2, s2) = (Ok r, (p', s'))"
    using run by (auto simp: bind_state_eq_Ok)
  have p2: "table_inv p2" "table p = table p2"
    using keepsD [OF keeps_process_streams inv] flush by (auto simp: process_flush_def)
  then have len2: "length (processes p2) = length (processes p)" by (metis length_table)
  show ?thesis
  proof (cases "st2 = gepd_success")
    case True
    with rest obtain p3 s3 where reap: "process_reap itr (p2, s2) = (Ok (), (p3, s3))"
        and k: "k c2 (p3, s3) = (Ok r, (p', s'))"
      by (auto simp: bind_state_eq_Ok)
    have itr2: "itr < length (processes p2)" using itr len2 by simp
    have p3: "table_inv p3" "table p3 = take itr (table p2) @ drop (Suc itr) (table p2)"
      using process_reap_keeps [OF p2(1) itr2 reap] by auto
    have "length (table p3) = length (processes p2) - 1" unfolding p3(2) using itr2 by simp
    then have "Suc (length (processes p3)) = length (processes p)" using itr len2 by simp
    moreover have "table_change (table p2) (table p3)"
      unfolding p3(2) using itr2 by (simp add: table_change.ended)
    then have "table_rel p p3" using p2(2) by (simp add: table_rel_def)
    ultimately show ?thesis using k p3(1) by blast
  qed (use rest p2 in \<open>simp add: table_rel_same\<close>)
qed

lemma process_loop_keeps:
  assumes "process_loop ei n itr count (p, s) = (Ok r, (p', s'))" "table_inv p" "itr + n = length (processes p)"
  shows "table_inv p' \<and> table_rel p p'"
  using assms
proof (induction n arbitrary: itr count p s)
  case 0
  then show ?case by (simp add: table_rel_same)
next
  case (Suc n)
  note prems = Suc.prems
  show ?case
  proof (cases "count = 0")
    case False
    obtain status c p1 s1 where 1: "process_check ei itr count (p, s) = (Ok (status, c), (p1, s1))"
      and k1: "(if status = gepd_success then process_loop ei n (Suc itr) c
        else if status \<noteq> gepd_error_HUP then Pair (Ok (Some status))
        else bind_state (process_flush ei itr c) (\<lambda>(status, c2).
          if status \<noteq> gepd_success then Pair (Ok (Some status))
          else bind_state (process_reap itr) (\<lambda>_. process_loop ei n itr c2))) (p1, s1) = (Ok r, (p', s'))"
      using prems(1) False by (auto simp: bind_state_eq_Ok)
    have p1: "table_inv p1" "table p = table p1"
      using keepsD [OF keeps_process_streams prems(2)] 1 by (auto simp: process_check_def)
    then have len1: "length (processes p1) = length (processes p)" by (metis length_table)
    consider "status = gepd_success" | "(p1, s1) = (p', s')"
      | "bind_state (process_flush ei itr c) (\<lambda>(status, c2).
          if status \<noteq> gepd_success then Pair (Ok (Some status))
          else bind_state (process_reap itr) (\<lambda>_. process_loop ei n itr c2)) (p1, s1) = (Ok r, (p', s'))"
      using k1 by (auto split: if_splits)
    then show ?thesis
    proof cases
      case 1
      with k1 have "process_loop ei n (Suc itr) c (p1, s1) = (Ok r, (p', s'))" by simp
      from Suc.IH [OF this p1(1)] len1 prems(3) p1(2) show ?thesis by (simp add: table_rel_def)
    next
      case 2
      with p1 show ?thesis by (simp add: table_rel_same)
    next
      case 3
      have "itr < length (processes p1)" using prems(3) len1 by simp
      from process_ended_keeps [OF p1(1) this 3] consider "table_inv p'" "table_rel p1 p'"
        | c2 p3 s3 where "process_loop ei n itr c2 (p3, s3) = (Ok r, (p', s'))" "table_inv p3"
            "table_rel p1 p3" "Suc (length (processes p3)) = length (processes p1)"
        by blast
      then show ?thesis
      proof cases
        case 1
        with p1(2) show ?thesis by (simp add: table_rel_def)
      next
        case 2
        have "itr + n = length (processes p3)" using 2(4) prems(3) len1 by simp
        from Suc.IH [OF 2(1,2) this] 2(3) p1(2) show ?thesis
          using table_rel_trans table_rel_same by blast
      qed
    qed
  qed (use prems in \<open>simp add: table_rel_same\<close>)
qed

lemma main_loop_keeps:
  assumes "main_loop ei (p, s) = Some (Ok r, (p', s'))" "table_inv p"
  shows "table_inv p' \<and> table_rel p p'"
proof -
  have "table_inv (fst st) \<longrightarrow> (\<forall>r p' s'. out = (Ok r, (p', s')) \<longrightarrow> table_inv p' \<and> table_rel (fst st) p')"
    if "main_loop ei st = Some out" for ei st out
  proof (rule main_loop.raw_induct [OF _ that], goal_cases)
    case (1 loop ei st out)
    show ?case
    proof (intro impI allI)
      fix r p' s'
      assume p: "table_inv (fst st)" and out: "out = (Ok r, (p', s'))"
      obtain status count p1 s1 where w: "wait_loop ei (spawn_functions ei) st = Some (Ok (status, count), (p1, s1))"
        using 1(2) out by (auto split: option.splits prod.splits outcome.splits)
      have p1: "table_inv p1" "table_rel (fst st) p1"
        using spawn_client.wait_loop_keeps [of ei ei "fst st" "snd st"] w p by auto
      from 1(2) w out consider "(p1, s1) = (p', s')"
        | x p2 s2 where "process_events ei count (p1, s1) = (Ok x, (p2, s2))"
            "(case x of None \<Rightarrow> loop ei (p2, s2) | Some status \<Rightarrow> Some (Ok status, (p2, s2))) = Some (Ok r, (p', s'))"
        by (auto split: if_splits prod.splits outcome.splits option.splits)
      then show "table_inv p' \<and> table_rel (fst st) p'"
      proof cases
        case 2
        have p2: "table_inv p2" "table_rel p1 p2"
          using process_loop_keeps [OF _ p1(1)] 2(1) by (auto simp: process_events_def)
        have "table_inv p' \<and> table_rel p2 p'"
        proof (cases x)
          case None
          then have "loop ei (p2, s2) = Some (Ok r, (p', s'))" using 2(2) by simp
          from 1(1) [OF this] p2(1) show ?thesis by simp
        qed (use 2 p2 in \<open>simp add: table_rel_same\<close>)
        with p1(2) p2(2) show ?thesis using table_rel_trans by blast
      qed (use p1 in simp)
    qed
  qed
  with assms show ?thesis by fastforce
qed

section \<open>The beginning and the end\<close>

lemma store_standard_fd_fails:
  assumes "store_standard_fd n s = (Ok (Inl st), s')"
  shows "st \<noteq> gepd_success"
proof -
  obtain e where "st = gepd_errno_pipe e \<or> st = gepd_errno_dup e \<or> st = gepd_errno_close e"
    using assms by (auto simp: store_standard_fd_def or_fail_Ok)
  then show ?thesis
    using gepd_errno_pipe_map.conv_nonzero [of e] gepd_errno_dup_map.conv_nonzero [of e]
      gepd_errno_close_map.conv_nonzero [of e] by (metis exit_value.simps(1))
qed

lemma set_pollfd_entry: "set_pollfd i fd (p, s) = (Ok u, (p', s')) \<Longrightarrow> p' = set_cell i (entry fd) p"
  by (auto simp: set_pollfd_def rp_assign_def set_cell_def entry_def split: if_splits)

lemma m_size_set_cell [simp]: "m_size (fds (set_cell i c p)) = m_size (fds p)"
  by (simp add: set_cell_def)

lemma spawn_main_state_fields [simp]:
  "fds spawn_main_state = fds gepd_state" "nfds spawn_main_state = 0" "processes spawn_main_state = []"
  by (simp_all add: spawn_main_state_def port.defs gepd_state_def)

lemma gepd_init_table:
  assumes "gepd_init (spawn_main_state, s) = (Ok gepd_success, (p, s'))"
  shows "table_inv p" "processes p = []"
proof -
  have mv: "move_fds (spawn_main_state, s) = (Ok (), (spawn_main_state, s))" by (simp add: move_fds_def)
  obtain r1 s1 where r1: "store_standard_fd 1 s = (Ok r1, s1)"
    using assms mv by (auto simp: gepd_init_def bind_state_eq_Ok on_sys_Ok)
  then obtain a where a: "r1 = Inr a"
    using assms mv store_standard_fd_fails by (cases r1) (auto simp: gepd_init_def on_sys_def)
  obtain q1 s2 r2 s3 where q1: "set_pollfd INDEX_STDOUT a (spawn_main_state, s1) = (Ok (), (q1, s2))"
      and r2: "store_standard_fd 2 s2 = (Ok r2, s3)"
    using assms mv r1 a by (auto simp: gepd_init_def bind_state_eq_Ok on_sys_Ok)
  then obtain b where b: "r2 = Inr b"
    using assms mv r1 a store_standard_fd_fails by (cases r2) (auto simp: gepd_init_def on_sys_def)
  obtain q2 q3 s4 s5 where "set_pollfd INDEX_STDERR b (q1, s3) = (Ok (), (q2, s4))"
      "set_pollfd INDEX_ERLANG 3 (q2, s4) = (Ok (), (q3, s5))" "p = q3\<lparr>nfds := nfds q3 + 3\<rparr>"
    using assms mv r1 a q1 r2 b by (auto simp: gepd_init_def bind_state_eq_Ok on_sys_Ok)
  then have "p = (set_cell 2 (entry 3) (set_cell 1 (entry b) (set_cell 0 (entry a) spawn_main_state)))\<lparr>nfds := 3\<rparr>"
    using q1
    by (auto dest!: set_pollfd_entry simp: INDEX_STDOUT_def INDEX_STDERR_def INDEX_ERLANG_def set_cell_def)
  moreover have "rp_wf (fds gepd_state)" "m_size (fds gepd_state) = 32" "m_maxSize (fds gepd_state) = 524288"
    using gepd_state_wf(1) by (simp_all add: gepd_state_def gepd_array_def)
  ultimately show "table_inv p" "processes p = []"
    by (auto simp: table_inv_def set_cell_def rp_wf_def entry_def)
qed

lemma destroy_each_calls:
  assumes "destroy_each ds (p, s) = (Ok u, (p', s'))"
  shows "processes p' = processes p \<and> (\<exists>reports. length reports = length ds
    \<and> trace s' = trace s @ concat (map2 kill_calls (map m_pid ds) reports))"
  using assms
proof (induction ds arbitrary: p s)
  case (Cons d ds)
  obtain v p1 s1 where d: "process_destroy d (p, s) = (Ok v, (p1, s1))" "destroy_each ds (p1, s1) = (Ok u, (p', s'))"
    using Cons.prems by (auto simp: bind_state_eq_Ok)
  then obtain report where r: "trace s1 = trace s @ kill_calls (m_pid d) report" "processes p1 = processes p"
    using process_kill_trace by (fastforce simp: process_destroy_def on_sys_Ok)
  obtain reports where "length reports = length ds"
      "trace s' = trace s1 @ concat (map2 kill_calls (map m_pid ds) reports)" "processes p' = processes p1"
    using Cons.IH [OF d(2)] by blast
  with r show ?case by (intro conjI exI [of _ "report # reports"]) simp_all
qed simp


text \<open>A port with its two own pipes, whose \<open>poll\<close> is interrupted.\<close>

definition idle_sys :: sys where
  "idle_sys = sample_sys\<lparr>pipes := [Inr (10, 11), Inr (12, 13)], rets := [Inr 0, Inr 0, Inr 0, Inr 0],
     io := io_idle\<lparr>polls := [Poll_error EINTR]\<rparr>\<rparr>"

definition idle_state :: spawn_state where
  "idle_state = (set_cell 2 (entry 3) (set_cell 1 (entry 12) (set_cell 0 (entry 10) spawn_main_state)))\<lparr>nfds := 3\<rparr>"

definition idle_calls :: "syscall list" where
  "idle_calls = [Sys_pipe, Sys_dup2 11 1, Sys_close 11, Sys_pipe, Sys_dup2 13 2, Sys_close 13]"

lemma idle_init:
  "gepd_init (spawn_main_state, idle_sys)
    = (Ok gepd_success, (idle_state, idle_sys\<lparr>pipes := [], rets := [], trace := idle_calls\<rparr>))"
proof -
  have fd: "store_standard_fd 1 idle_sys = (Ok (Inr 10), idle_sys\<lparr>pipes := [Inr (12, 13)], rets := [Inr 0, Inr 0],
        trace := [Sys_pipe, Sys_dup2 11 1, Sys_close 11]\<rparr>)"
    "store_standard_fd 2 (idle_sys\<lparr>pipes := [Inr (12, 13)], rets := [Inr 0, Inr 0],
        trace := [Sys_pipe, Sys_dup2 11 1, Sys_close 11]\<rparr>)
      = (Ok (Inr 12), idle_sys\<lparr>pipes := [], rets := [], trace := idle_calls\<rparr>)"
    by (simp_all add: store_standard_fd_def or_fail_def c_pipe_def sys_int_def bind_state_def sys_log_def idle_sys_def
      sample_sys_def idle_calls_def)
  have wf: "rp_wf (fds (spawn_main_state :: spawn_state))" "m_size (fds gepd_state) = 32"
    using gepd_state_wf(1) by (simp_all add: gepd_state_def gepd_array_def)
  have "set_pollfd INDEX_STDOUT a (spawn_main_state, s) = (Ok (), (set_cell 0 (entry a) spawn_main_state, s))"
    "set_pollfd INDEX_STDERR b (set_cell 0 (entry a) spawn_main_state, s)
      = (Ok (), (set_cell 1 (entry b) (set_cell 0 (entry a) spawn_main_state), s))"
    "set_pollfd INDEX_ERLANG c (set_cell 1 (entry b) (set_cell 0 (entry a) spawn_main_state), s)
      = (Ok (), (set_cell 2 (entry c) (set_cell 1 (entry b) (set_cell 0 (entry a) spawn_main_state)), s))" for a b c s
    unfolding INDEX_STDOUT_def INDEX_STDERR_def INDEX_ERLANG_def entry_def
    by (rule set_pollfd_ok, use wf in \<open>simp_all add: rp_wf_set_cell\<close>)+
  then show ?thesis
    using fd by (simp add: gepd_init_def bind_state_def move_fds_def on_sys_def idle_state_def set_cell_def)
qed

lemma idle_main_loop:
  "main_loop ei (idle_state, idle_sys\<lparr>pipes := [], rets := [], trace := idle_calls\<rparr>)
    = Some (Ok gepd_poll_EINTR, (idle_state,
        sample_sys\<lparr>io := io_idle, trace := idle_calls\<rparr>))"
  by (subst main_loop.simps, subst wait_loop.simps)
    (simp add: wait_round_def Let_def bind_state_def poll_fds_def c_poll_def idle_sys_def idle_state_def
      gepd_errno_poll_def sample_sys_def io_idle_def)


text \<open>
  C20: \<open>spawn\<close> adds exactly the process that \<open>fork\<close> has made: if it returns in the parent, then either
  nothing of the table has changed and the result is one of the statuses, or the result is the new
  process, which has become the last one of the list with the read ends of the two pipes that were
  opened for it, and the invariant of the table holds again.
\<close>

theorem spawn_appends:
  assumes "table_inv p" and "spawn ei a (p, s) = (Ok r, (p', s'))"
  shows "p' = p \<and> r \<in> range spawn_value \<or>
    (\<exists>out err. take 2 (pipes s) = [Inr out, Inr err] \<and> r \<noteq> 0 \<and> table_inv p'
      \<and> table p' = table p @ [(nat r, fst out, fst err)])"
  using assms by (rule spawn_ok)

definition one_sys :: sys where
  "one_sys = sample_sys\<lparr>pipes := [Inr (20, 21), Inr (22, 23)], rets := [Inr 77, Inr 0, Inr 0]\<rparr>"

definition one_state :: spawn_state where
  "one_state = (set_cell 4 (entry 22) (set_cell 3 (entry 20) idle_state))
     \<lparr>nfds := 5, processes := [process_data_new 77 3 4]\<rparr>"

lemma idle_state_inv: "table_inv idle_state" "table idle_state = []"
proof -
  show "table_inv idle_state" using gepd_init_table(1) [OF idle_init] .
  show "table idle_state = []" by (simp add: table_def idle_state_def set_cell_def)
qed

lemma idle_state_fields: "nfds idle_state = 3" "processes idle_state = []" "m_size (fds idle_state) = 32"
  "rp_wf (fds idle_state)"
  using idle_state_inv(1) by (simp_all add: idle_state_def set_cell_def gepd_state_def gepd_array_def table_inv_def)

lemma one_spawned:
  "spawn ei exec_args (idle_state, one_sys) = (Ok 77, (one_state, one_sys\<lparr>pipes := [], rets := [],
     trace := [Sys_pipe, Sys_pipe, Sys_fork, Sys_close 21, Sys_close 23]\<rparr>))"
proof -
  have res: "reserve_fds 5 (idle_state, s) = (Ok True, (idle_state, s\<lparr>io := io s\<rparr>))" for s
    using idle_state_fields by (simp add: reserve_fds_def c_reserve_def rp_reserve_def)
  have "set_pollfd 3 a (idle_state, s) = (Ok (), (set_cell 3 (entry a) idle_state, s))"
    "set_pollfd 4 b (set_cell 3 (entry a) idle_state, s) = (Ok (), (set_cell 4 (entry b) (set_cell 3 (entry a) idle_state), s))"
    for a b s
    unfolding entry_def by (rule set_pollfd_ok, use idle_state_fields in \<open>simp_all add: rp_wf_set_cell\<close>)+
  then have "add_process 77 20 22 (idle_state, s) = (Ok 77, (one_state, s))" for s
    using res idle_state_fields(1,2)
    by (simp add: add_process_def Let_def bind_state_def one_state_def set_cell_def)
  then show ?thesis
    by (simp add: spawn_def exec_args_def protocol_sockets_def spawn_fork_def or_fail_def bind_state_def on_sys_def
      c_pipe_def sys_int_def sys_log_def one_sys_def sample_sys_def)
qed

theorem spawn_appends_witness: "table one_state = [(77, 20, 22)] \<and> table_inv one_state"
proof -
  have "nfds one_state \<noteq> nfds idle_state" unfolding idle_state_fields(1) by (simp add: one_state_def)
  then have "one_state \<noteq> idle_state" by (rule contrapos_nn) simp
  moreover have "take 2 (pipes one_sys) = [Inr (20, 21), Inr (22, 23)]" by (simp add: one_sys_def)
  ultimately show ?thesis
    using spawn_appends [OF idle_state_inv(1) one_spawned [of ei_format]] idle_state_inv(2) by auto
qed

text \<open>
  C19: Removing a process touches nothing of the others: when process \<open>k\<close> has ended, the program closes
  its two descriptors, kills it and waits for it (so that no zombie is left) and reports a status
  other than 0; afterwards the list is the old one without process \<open>k\<close>, every other process with
  its own descriptors, although their entries in the array have moved.
\<close>

theorem process_reap_deletes:
  assumes "table_inv p" and "k < length (table p)" and "table p ! k = (pid, out, err)"
    and "exits s = Inr w # es" and "exit_code w = Ok status"
  shows "\<exists>p'. process_reap k (p, s) = (Ok (), (p', s\<lparr>exits := es, trace := trace s @ [Sys_close out, Sys_close err]
      @ kill_calls pid (if status = 0 then [] else exit_report pid status)\<rparr>))
    \<and> table_inv p' \<and> table p' = take k (table p) @ drop (Suc k) (table p)"
proof -
  have k: "k < length (processes p)" using assms(2) by simp
  have e: "m_pid (processes p ! k) = pid" "descriptor p (3 + 2 * k) = out" "descriptor p (4 + 2 * k) = err"
    using assms(3) k by (simp_all add: table_entry_def)
  let ?s = "s\<lparr>trace := trace s @ [Sys_close out, Sys_close err]\<rparr>"
  have "process_kill (processes p ! k) ?s = (Ok (), ?s\<lparr>exits := es, trace := trace ?s
      @ kill_calls pid (if status = 0 then [] else exit_report pid status)\<rparr>)"
    using process_kill_ok [of ?s w es status "processes p ! k"] assms(4,5) e(1) by simp
  then show ?thesis
    using reap_prefix [OF assms(1) k, of s] table_inv_reaped [OF assms(1) k] table_reaped [OF k]
    by (simp add: e on_sys_def)
qed

theorem process_reap_deletes_witness:
  "\<exists>p'. process_reap 0 (one_state, sample_sys\<lparr>exits := [Inr (W_signaled 9)]\<rparr>)
      = (Ok (), (p', sample_sys\<lparr>trace := [Sys_close 20, Sys_close 22]
          @ kill_calls 77 (exit_report 77 137)\<rparr>)) \<and> table_inv p' \<and> table p' = []"
proof -
  have "nfds one_state \<noteq> nfds idle_state" unfolding idle_state_fields(1) by (simp add: one_state_def)
  then have "one_state \<noteq> idle_state" by (rule contrapos_nn) simp
  then have "table one_state = [(77, 20, 22)]" "table_inv one_state"
    using spawn_ok [OF idle_state_inv(1) one_spawned [of ei_format]] idle_state_inv(2) by (auto simp: one_sys_def)
  then show ?thesis
    using process_reap_deletes [of one_state 0 77 20 22 "sample_sys\<lparr>exits := [Inr (W_signaled 9)]\<rparr>" "W_signaled 9" "[]" 137]
    by (simp add: exit_code_def sample_sys_def)
qed

lemma spawn_errno_pipe_range: "11 \<le> spawn_value (spawn_errno_pipe e) \<and> spawn_value (spawn_errno_pipe e) \<le> 77"
  by (cases e) (simp_all add: spawn_errno_pipe_def)

text \<open>
  The failures of \<open>spawn\<close> look like a process: an unknown protocol and a pipe that cannot be opened
  leave the table alone and return the status as the result, a number from 11 to 77, which goes back
  in the same form as the identifier of a process.
\<close>

theorem spawn_failure_values:
  assumes "protocol_sockets (sa_protocol a) \<noteq> None" and "pipes s = Inl e # ps"
  shows "spawn ei (a\<lparr>sa_protocol := 0\<rparr>) (p, s) = (Ok 11, (p, s))
    \<and> spawn ei a (p, s) = (Ok (spawn_value (spawn_errno_pipe e)), (p, sys_log Sys_pipe (s\<lparr>pipes := ps\<rparr>)))
    \<and> 11 \<le> spawn_value (spawn_errno_pipe e) \<and> spawn_value (spawn_errno_pipe e) \<le> 77
    \<and> store_value T_int32 (V_int (spawn_value (spawn_errno_pipe e)))
        = [Encode (ei_long (spawn_value (spawn_errno_pipe e)))]"
  using assms spawn_errno_pipe_range [of e]
  by (auto simp: spawn_def protocol_sockets_def or_fail_def bind_state_def on_sys_def c_pipe_def store_value_def)

theorem spawn_failure_values_witness:
  "spawn ei_format exec_args (idle_state, sample_sys\<lparr>pipes := [Inl EMFILE]\<rparr>)
    = (Ok 15, (idle_state, sys_log Sys_pipe (sample_sys\<lparr>pipes := []\<rparr>)))"
  using spawn_failure_values [of exec_args "sample_sys\<lparr>pipes := [Inl EMFILE]\<rparr>" EMFILE "[]" ei_format idle_state]
  by (simp add: exec_args_def protocol_sockets_def spawn_errno_pipe_def)

end
