(* ===== verification/Spawn_Request.thy ===== *)
theory Spawn_Request
  imports Spawn Port_Correct
begin

text \<open>
  A request to spawn a process, from the Erlang side to the C++ function: the typed dispatch of the
  port composed with the function that the port declares.
\<close>

text \<open>The arguments of \<^verbatim>\<open>cloudi_core_i_os_spawn:spawn\<close>, and the terms that encode them.\<close>

record spawn_request =
  sp_protocol :: int
  sp_socket_path :: bytes
  sp_ports :: "u32 list"
  sp_rlimits :: bytes
  sp_user_i :: u64
  sp_user_str :: bytes
  sp_group_i :: u64
  sp_group_str :: bytes
  sp_nice :: int
  sp_chroot :: bytes
  sp_directory :: bytes
  sp_filename :: bytes
  sp_argv :: bytes
  sp_env :: bytes

definition spawn_terms :: "spawn_request \<Rightarrow> erl_argument list" where
  "spawn_terms q =
     [E_int (sp_protocol q), E_binary (sp_socket_path q), E_uint32s (sp_ports q), E_binary (sp_rlimits q),
      E_int (uint (sp_user_i q)), E_binary (sp_user_str q), E_int (uint (sp_group_i q)), E_binary (sp_group_str q),
      E_int (sp_nice q), E_binary (sp_chroot q), E_binary (sp_directory q), E_binary (sp_filename q),
      E_binary (sp_argv q), E_binary (sp_env q)]"

text \<open>What the function gets: the numbers, and pointers to the texts in the command buffer.\<close>

definition text_shown :: "byte realloc_ptr \<Rightarrow> nat \<times> nat \<Rightarrow> bytes \<Rightarrow> bool" where
  "text_shown buf x bs \<longleftrightarrow> snd x = length bs \<and> rp_get (fst x) (length bs) buf = Ok bs"

definition request_decoded :: "byte realloc_ptr \<Rightarrow> spawn_request \<Rightarrow> spawn_args \<Rightarrow> bool" where
  "request_decoded buf q a \<longleftrightarrow>
     sa_protocol a = sp_protocol q \<and> sa_user_i a = sp_user_i q \<and> sa_group_i a = sp_group_i q \<and> sa_nice a = sp_nice q
     \<and> text_shown buf (sa_socket_path a) (sp_socket_path q) \<and> text_shown buf (sa_rlimits a) (sp_rlimits q)
     \<and> text_shown buf (sa_user_str a) (sp_user_str q) \<and> text_shown buf (sa_group_str a) (sp_group_str q)
     \<and> text_shown buf (sa_chroot a) (sp_chroot q) \<and> text_shown buf (sa_directory a) (sp_directory q)
     \<and> text_shown buf (sa_filename a) (sp_filename q) \<and> text_shown buf (sa_argv a) (sp_argv q)
     \<and> text_shown buf (sa_env a) (sp_env q)
     \<and> snd (sa_ports a) = length (sp_ports q)
     \<and> rp_get (fst (sa_ports a)) (4 * length (sp_ports q)) buf = Ok (concat (map u32_bytes (sp_ports q)))"

lemma spawn_arguments_decoded:
  assumes "list_all2 argument_ok spawn_argv_types (spawn_terms q)" "length vs = 14"
    and "\<forall>k < 14. argument_shown buf (spawn_argv_types ! k) (spawn_terms q ! k) (vs ! k)"
  shows "\<exists>a. spawn_arguments vs = Some a \<and> request_decoded buf q a"
proof -
  have len: "length (sp_socket_path q) < 2 ^ 32" "length (sp_ports q) < 2 ^ 32" "length (sp_rlimits q) < 2 ^ 32"
      "length (sp_user_str q) < 2 ^ 32" "length (sp_group_str q) < 2 ^ 32" "length (sp_chroot q) < 2 ^ 32"
      "length (sp_directory q) < 2 ^ 32" "length (sp_filename q) < 2 ^ 32" "length (sp_argv q) < 2 ^ 32"
      "length (sp_env q) < 2 ^ 32"
    using assms(1) by (simp_all add: spawn_argv_types_def spawn_terms_def)
  have sh: "argument_shown buf (spawn_argv_types ! k) (spawn_terms q ! k) (vs ! k)" if "k < 14" for k
    using assms(3) that by blast
  show ?thesis
    using len sh [of 0] sh [of 1] sh [of 2] sh [of 3] sh [of 4] sh [of 5] sh [of 6] sh [of 7] sh [of 8] sh [of 9]
      sh [of 10] sh [of 11] sh [of 12] sh [of 13] assms(2)
    by (auto simp: spawn_argv_types_def spawn_terms_def spawn_arguments_def Let_def request_decoded_def
      text_shown_def unat_of_nat take_bit_nat_def)
qed

text \<open>
  C17: A request to spawn a process arrives as it was sent: whatever process the Erlang side asks for
  (every number in the range of its type), however the bytes are cut into chunks, the port runs
  \<open>spawn\<close> with exactly those numbers and with pointers to exactly those texts and port numbers, sends
  its result back as the answer to command 1, and leaves the input at the next command.
\<close>

theorem spawn_request_runs:
  assumes "command_arrives (encode_call 1 spawn_argv_types (spawn_terms q)) rest (erlang_buffer p) (io s)"
    and "plain_event r" and "list_all2 argument_ok spawn_argv_types (spawn_terms q)"
  shows "\<exists>buf w a. consume_erlang ei (spawn_functions ei) r (p, s)
      = bind_state (spawn ei a) (\<lambda>v. with_buffer (emit_cmd ei (store_return_value T_int32 1 (V_int v))))
          (p\<lparr>erlang_buffer := buf\<rparr>, s\<lparr>io := w\<rparr>)
    \<and> request_decoded buf q a \<and> stream (rd w 3) = rest"
proof -
  have f: "spawn_functions ei 1 = Some (spawn_function ei)" by (simp add: spawn_functions_def)
  have t: "argv_types (spawn_function ei) = spawn_argv_types" "return_type (spawn_function ei) = T_int32"
    by (simp_all add: spawn_function_def)
  have n: "length (spawn_terms q) = 14" by (simp add: spawn_terms_def)
  obtain buf w vs where c: "consume_erlang ei (spawn_functions ei) r (p, s)
      = bind_state (function_body (spawn_function ei) vs)
          (\<lambda>v. with_buffer (emit_cmd ei (store_return_value T_int32 1 v))) (p\<lparr>erlang_buffer := buf\<rparr>, s\<lparr>io := w\<rparr>)"
      "length vs = 14" "\<forall>k < 14. argument_shown buf (spawn_argv_types ! k) (spawn_terms q ! k) (vs ! k)"
      "stream (rd w 3) = rest"
    using consume_erlang_call [of 1 "spawn_function ei" "spawn_terms q" rest p s r "spawn_functions ei" ei]
      assms f unfolding t n by auto
  obtain a where a: "spawn_arguments vs = Some a" "request_decoded buf q a"
    using spawn_arguments_decoded [OF assms(3) c(2,3)] by blast
  have "bind_state (bind_state (spawn ei a) (\<lambda>r. Pair (Ok (V_int r)))) k st = bind_state (spawn ei a) (\<lambda>v. k (V_int v)) st"
    for k :: "port_value \<Rightarrow> exit_status spawn_call" and st
    by (auto simp: bind_state_def split: prod.splits outcome.splits)
  with a c show ?thesis
    by (intro exI [of _ buf] exI [of _ w] exI [of _ a]) (simp add: spawn_function_def)
qed

definition sample_spawn :: spawn_request where
  "sample_spawn = \<lparr>sp_protocol = 116, sp_socket_path = [0], sp_ports = [4000], sp_rlimits = [],
     sp_user_i = 0, sp_user_str = cstr ''web'' @ [0], sp_group_i = 0, sp_group_str = [0], sp_nice = -5,
     sp_chroot = [0], sp_directory = [0], sp_filename = cstr ''/run'' @ [0], sp_argv = [0], sp_env = [0]\<rparr>"

theorem spawn_request_runs_witness:
  "\<exists>buf w a. consume_erlang ei_format (spawn_functions ei_format) POLLIN (spawn_main_state,
      sample_sys\<lparr>io := io_idle\<lparr>rd := (\<lambda>_. [Rd_data (wire True (encode_call 1 spawn_argv_types (spawn_terms sample_spawn)))])\<rparr>\<rparr>)
    = bind_state (spawn ei_format a) (\<lambda>v. with_buffer (emit_cmd ei_format (store_return_value T_int32 1 (V_int v))))
        (spawn_main_state\<lparr>erlang_buffer := buf\<rparr>, sample_sys\<lparr>io := w\<rparr>)
    \<and> sa_protocol a = 116 \<and> sa_nice a = -5
    \<and> text_shown buf (sa_filename a) (cstr ''/run'' @ [0]) \<and> stream (rd w 3) = []"
proof -
  let ?msg = "encode_call 1 spawn_argv_types (spawn_terms sample_spawn)"
  let ?s = "sample_sys\<lparr>io := io_idle\<lparr>rd := (\<lambda>_. [Rd_data (wire True ?msg)])\<rparr>\<rparr>"
  have len: "length ?msg = 82"
    by (simp add: encode_call_def spawn_argv_types_def spawn_terms_def sample_spawn_def encode_uint8_def encode_uint32_def
      cstr_def)
  have buf: "erlang_buffer spawn_main_state = erlang_buffer gepd_state"
    by (simp add: spawn_main_state_def port.defs gepd_state_def)
  have "m_size (erlang_buffer gepd_state) = 32768" by (simp add: gepd_state_def gepd_array_def)
  then have "command_arrives ?msg [] (erlang_buffer spawn_main_state) (io ?s)"
    unfolding command_arrives_def buf using gepd_state_wf(2) len
    by (auto simp: can_reserve_def io_idle_def wire_def be32_bytes_def)
  moreover have "list_all2 argument_ok spawn_argv_types (spawn_terms sample_spawn)"
    by (simp add: spawn_argv_types_def spawn_terms_def sample_spawn_def int_type_def int_range_def cstr_def)
  ultimately obtain buf w a where "consume_erlang ei_format (spawn_functions ei_format) POLLIN (spawn_main_state, ?s)
      = bind_state (spawn ei_format a) (\<lambda>v. with_buffer (emit_cmd ei_format (store_return_value T_int32 1 (V_int v))))
          (spawn_main_state\<lparr>erlang_buffer := buf\<rparr>, ?s\<lparr>io := w\<rparr>)"
      "request_decoded buf sample_spawn a" "stream (rd w 3) = []"
    using spawn_request_runs [of sample_spawn "[]" spawn_main_state ?s POLLIN ei_format] plain_POLLIN by blast
  moreover from this(2) have "sa_protocol a = 116" "sa_nice a = -5" "text_shown buf (sa_filename a) (cstr ''/run'' @ [0])"
    by (simp_all add: request_decoded_def sample_spawn_def)
  moreover have "?s\<lparr>io := w\<rparr> = sample_sys\<lparr>io := w\<rparr>" by simp
  ultimately show ?thesis by metis
qed

end
