(* ===== verification/Thread_Object.thy ===== *)
theory Thread_Object
  imports State_Machine
begin

text \<open>
  One worker of the thread pool of the C++ services (\<open>ThreadObjectData\<close>): the thread that executes its
  queue and the thread that calls its methods, with the program positions of both, so that every
  interleaving of their accesses to the flags, the queue, the mutexes and the condition variables is an
  execution of the step relation \<open>thread_object_step\<close>. The invariant says who holds the queue's mutex, that the
  task being executed is still the first of the queue, that no wakeup is lost, and in which order tasks
  are executed.
\<close>

section \<open>State\<close>

text \<open>
  The positions of a call of \<open>ThreadFunctionObject::operator()\<close>: \<open>process\<close> of the task, the test of the
  stop flag, and \<open>ThreadPool::output\<close> with its loop on \<open>try_lock\<close>.
\<close>

datatype ('t, 'r) function_pc =
    Process 't
  | Stop_test 'r
  | Try_lock 'r
  | Not_owned 'r
  | Owned 'r
  | Output 'r
  | Unlock_output
  | Function_end

text \<open>
  The positions of \<open>ThreadObjectData::operator()\<close>. The two loops on \<open>m_queueConditional\<close> are the same code
  and are followed by the same test. A thread in \<open>Waiting\<close> sleeps on the condition variable, in \<open>Woken\<close>
  it has been woken and has to take the mutex again. \<open>Terminated\<close> is the \<open>lock_error\<close> of an \<open>unlock\<close> without
  the lock, that leaves the function of the thread.
\<close>

datatype ('t, 'r) worker_pc =
    Unstarted
  | Set_running
  | Clear_exited
  | Unlock_running
  | Lock_queue
  | Wait_test
  | Waiting
  | Woken
  | Running_test
  | Front
  | Unlock_queue 't
  | Function "('t, 'r) function_pc"
  | Relock_queue
  | Pop_front
  | Set_exited
  | Notify_destruction
  | Unlock_end
  | Finished
  | Terminated

text \<open>
  The positions of the methods \<open>wait_on_start\<close>, \<open>exit\<close>, \<open>wait_on_exit\<close> and \<open>push_back\<close>. \<open>Pushed\<close> carries the
  result of \<open>push_back\<close>; \<open>Waited\<close> is the return of \<open>wait_on_exit\<close> after its wait, whose time is subtracted from
  the timeout.
\<close>

datatype 't client_pc =
    Idle
  | Start_lock
  | Start_unlock
  | Exit_test
  | Exit_lock
  | Exit_set
  | Exit_unlock
  | Exit_notify
  | Wait_exit_test
  | Wait_exit_lock
  | Wait_exit_wait
  | Wait_exit_waiting
  | Wait_exit_woken bool
  | Wait_exit_unlock
  | Waited
  | Push_test 't
  | Push_lock 't
  | Push_empty 't
  | Push_item 't bool
  | Push_unlock bool
  | Push_notify bool
  | Pushed bool

datatype thread_owner = Worker | Client

text \<open>
  The members of \<open>ThreadObjectData\<close>; \<open>m_runningLock\<close> is whether that lock object owns \<open>m_runningMutex\<close>, and
  a mutex that is locked is \<open>Some\<close> of its owner. The history of the tasks is kept beside them:
  \<open>accepted\<close> are the tasks appended to the queue, \<open>started\<close> those whose execution began, \<open>finished\<close> those
  removed from the queue.
\<close>

record ('t, 'r, 'd) thread_object =
  m_data :: 'd
  m_running :: bool
  m_runningMutex :: bool
  m_runningLock :: bool
  m_exited :: bool
  m_queue :: "'t list"
  m_queueMutex :: "thread_owner option"
  worker :: "('t, 'r) worker_pc"
  client :: "'t client_pc"
  accepted :: "'t list"
  started :: "'t list"
  finished :: "'t list"

text \<open>The constructors: the lock of \<open>m_runningMutex\<close> is taken, and there is no thread yet.\<close>

definition ThreadObjectData :: "'d \<Rightarrow> ('t, 'r, 'd) thread_object" where
  "ThreadObjectData d =
     \<lparr>m_data = d, m_running = False, m_runningMutex = True, m_runningLock = True, m_exited = True,
      m_queue = [], m_queueMutex = None, worker = Unstarted, client = Idle,
      accepted = [], started = [], finished = []\<rparr>"

section \<open>Steps\<close>

text \<open>
  The moves of the worker; \<open>None\<close> is a position in which it cannot move on its own: it has no thread, it
  sleeps, or the mutex it wants is taken. A task that is executed moves by the steps of the pool.
\<close>

definition notify_destruction :: "'t client_pc \<Rightarrow> 't client_pc" where
  "notify_destruction c = (case c of Wait_exit_waiting \<Rightarrow> Wait_exit_woken True | _ \<Rightarrow> c)"

definition worker_move :: "('t, 'r, 'd) thread_object \<Rightarrow> ('t, 'r, 'd) thread_object option" where
  "worker_move s =
     (case worker s of
        Unstarted \<Rightarrow> None
      | Set_running \<Rightarrow> Some (s\<lparr>m_running := True, worker := Clear_exited\<rparr>)
      | Clear_exited \<Rightarrow> Some (s\<lparr>m_exited := False, worker := Unlock_running\<rparr>)
      | Unlock_running \<Rightarrow>
          if m_runningLock s
          then Some (s\<lparr>m_runningLock := False, m_runningMutex := False, worker := Lock_queue\<rparr>)
          else Some (s\<lparr>worker := Terminated\<rparr>)
      | Lock_queue \<Rightarrow>
          if m_queueMutex s = None then Some (s\<lparr>m_queueMutex := Some Worker, worker := Wait_test\<rparr>) else None
      | Wait_test \<Rightarrow>
          if m_running s \<and> m_queue s = [] then Some (s\<lparr>m_queueMutex := None, worker := Waiting\<rparr>)
          else Some (s\<lparr>worker := Running_test\<rparr>)
      | Waiting \<Rightarrow> None
      | Woken \<Rightarrow>
          if m_queueMutex s = None then Some (s\<lparr>m_queueMutex := Some Worker, worker := Wait_test\<rparr>) else None
      | Running_test \<Rightarrow> Some (s\<lparr>worker := (if m_running s then Front else Set_exited)\<rparr>)
      | Front \<Rightarrow> Some (s\<lparr>worker := Unlock_queue (hd (m_queue s))\<rparr>)
      | Unlock_queue t \<Rightarrow>
          Some (s\<lparr>m_queueMutex := None, started := started s @ [t], worker := Function (Process t)\<rparr>)
      | Function f \<Rightarrow> (case f of Function_end \<Rightarrow> Some (s\<lparr>worker := Relock_queue\<rparr>) | _ \<Rightarrow> None)
      | Relock_queue \<Rightarrow>
          if m_queueMutex s = None then Some (s\<lparr>m_queueMutex := Some Worker, worker := Pop_front\<rparr>) else None
      | Pop_front \<Rightarrow>
          Some (s\<lparr>m_queue := tl (m_queue s), finished := finished s @ [hd (m_queue s)], worker := Wait_test\<rparr>)
      | Set_exited \<Rightarrow> Some (s\<lparr>m_exited := True, worker := Notify_destruction\<rparr>)
      | Notify_destruction \<Rightarrow> Some (s\<lparr>client := notify_destruction (client s), worker := Unlock_end\<rparr>)
      | Unlock_end \<Rightarrow> Some (s\<lparr>m_queueMutex := None, worker := Finished\<rparr>)
      | Finished \<Rightarrow> None
      | Terminated \<Rightarrow> None)"

text \<open>The moves of the thread that calls the methods.\<close>

definition notify_queue :: "('t, 'r) worker_pc \<Rightarrow> ('t, 'r) worker_pc" where
  "notify_queue w = (case w of Waiting \<Rightarrow> Woken | _ \<Rightarrow> w)"

definition client_lock ::
  "'t client_pc \<Rightarrow> ('t, 'r, 'd) thread_object \<Rightarrow> ('t, 'r, 'd) thread_object option" where
  "client_lock c s =
     (if m_queueMutex s = None then Some (s\<lparr>m_queueMutex := Some Client, client := c\<rparr>) else None)"

definition client_unlock ::
  "'t client_pc \<Rightarrow> ('t, 'r, 'd) thread_object \<Rightarrow> ('t, 'r, 'd) thread_object option" where
  "client_unlock c s = Some (s\<lparr>m_queueMutex := None, client := c\<rparr>)"

definition wait_on_start_move :: "('t, 'r, 'd) thread_object \<Rightarrow> ('t, 'r, 'd) thread_object option" where
  "wait_on_start_move s =
     (case client s of
        Start_lock \<Rightarrow> if m_runningMutex s then None else Some (s\<lparr>m_runningMutex := True, client := Start_unlock\<rparr>)
      | Start_unlock \<Rightarrow> Some (s\<lparr>m_runningMutex := False, client := Idle\<rparr>)
      | _ \<Rightarrow> None)"

definition exit_move :: "('t, 'r, 'd) thread_object \<Rightarrow> ('t, 'r, 'd) thread_object option" where
  "exit_move s =
     (case client s of
        Exit_test \<Rightarrow> Some (s\<lparr>client := (if m_running s then Exit_lock else Idle)\<rparr>)
      | Exit_lock \<Rightarrow> client_lock Exit_set s
      | Exit_set \<Rightarrow> Some (s\<lparr>m_running := False, client := Exit_unlock\<rparr>)
      | Exit_unlock \<Rightarrow> client_unlock Exit_notify s
      | Exit_notify \<Rightarrow> Some (s\<lparr>worker := notify_queue (worker s), client := Idle\<rparr>)
      | _ \<Rightarrow> None)"

definition wait_on_exit_move :: "('t, 'r, 'd) thread_object \<Rightarrow> ('t, 'r, 'd) thread_object option" where
  "wait_on_exit_move s =
     (case client s of
        Wait_exit_test \<Rightarrow> Some (s\<lparr>client := (if m_exited s then Idle else Wait_exit_lock)\<rparr>)
      | Wait_exit_lock \<Rightarrow> client_lock Wait_exit_wait s
      | Wait_exit_wait \<Rightarrow> client_unlock Wait_exit_waiting s
      | Wait_exit_woken b \<Rightarrow> client_lock Wait_exit_unlock s
      | Wait_exit_unlock \<Rightarrow> client_unlock Waited s
      | _ \<Rightarrow> None)"

definition push_back_move :: "('t, 'r, 'd) thread_object \<Rightarrow> ('t, 'r, 'd) thread_object option" where
  "push_back_move s =
     (case client s of
        Push_test t \<Rightarrow> Some (s\<lparr>client := (if m_running s then Push_lock t else Pushed False)\<rparr>)
      | Push_lock t \<Rightarrow> client_lock (Push_empty t) s
      | Push_empty t \<Rightarrow> Some (s\<lparr>client := Push_item t (m_queue s = [])\<rparr>)
      | Push_item t b \<Rightarrow>
          Some (s\<lparr>m_queue := m_queue s @ [t], accepted := accepted s @ [t], client := Push_unlock b\<rparr>)
      | Push_unlock b \<Rightarrow> client_unlock (Push_notify b) s
      | Push_notify b \<Rightarrow>
          Some (s\<lparr>worker := (if b then notify_queue (worker s) else worker s), client := Pushed True\<rparr>)
      | _ \<Rightarrow> None)"

text \<open>
  The steps of one object. The clock wakes \<open>timed_wait\<close>, and both condition variables may wake a thread
  that was not notified. A call in \<open>Function\<close> changes the data of the thread; what it does with the pool is in
  the theory of the pool. A thread is created for an object that has none, or whose thread has ended, while
  no method runs.
\<close>

inductive thread_object_step :: "('t, 'r, 'd) thread_object \<Rightarrow> ('t, 'r, 'd) thread_object \<Rightarrow> bool" where
  worker_moves: "worker_move s = Some s' \<Longrightarrow> thread_object_step s s'"
| wait_on_start_moves: "wait_on_start_move s = Some s' \<Longrightarrow> thread_object_step s s'"
| exit_moves: "exit_move s = Some s' \<Longrightarrow> thread_object_step s s'"
| wait_on_exit_moves: "wait_on_exit_move s = Some s' \<Longrightarrow> thread_object_step s s'"
| push_back_moves: "push_back_move s = Some s' \<Longrightarrow> thread_object_step s s'"
| function_moves: "worker s = Function f \<Longrightarrow> f \<noteq> Function_end \<Longrightarrow> \<forall>t. f' \<noteq> Process t \<Longrightarrow>
    thread_object_step s (s\<lparr>worker := Function f', m_data := d\<rparr>)"
| spurious_wakeup: "worker s = Waiting \<Longrightarrow> thread_object_step s (s\<lparr>worker := Woken\<rparr>)"
| timed_out: "client s = Wait_exit_waiting \<Longrightarrow> thread_object_step s (s\<lparr>client := Wait_exit_woken False\<rparr>)"
| spawns: "worker s = Unstarted \<or> worker s = Finished \<Longrightarrow> client s = Idle \<Longrightarrow>
    thread_object_step s (s\<lparr>worker := Set_running\<rparr>)"
| calls_wait_on_start: "client s = Idle \<Longrightarrow> thread_object_step s (s\<lparr>client := Start_lock\<rparr>)"
| calls_exit: "client s = Idle \<Longrightarrow> thread_object_step s (s\<lparr>client := Exit_test\<rparr>)"
| calls_wait_on_exit: "client s = Idle \<Longrightarrow> thread_object_step s (s\<lparr>client := Wait_exit_test\<rparr>)"
| calls_push_back: "client s = Idle \<Longrightarrow> thread_object_step s (s\<lparr>client := Push_test t\<rparr>)"
| returns: "client s = Waited \<or> client s = Pushed b \<Longrightarrow> thread_object_step s (s\<lparr>client := Idle\<rparr>)"

definition new_object :: "('t, 'r, 'd) thread_object \<Rightarrow> bool" where
  "new_object s \<longleftrightarrow> (\<exists>d. s = ThreadObjectData d)"

section \<open>Invariant\<close>

text \<open>The positions in which a thread holds the mutex of the queue.\<close>

fun worker_holds :: "('t, 'r) worker_pc \<Rightarrow> bool" where
  "worker_holds Wait_test = True"
| "worker_holds Running_test = True"
| "worker_holds Front = True"
| "worker_holds (Unlock_queue t) = True"
| "worker_holds Pop_front = True"
| "worker_holds Set_exited = True"
| "worker_holds Notify_destruction = True"
| "worker_holds Unlock_end = True"
| "worker_holds _ = False"

fun client_holds :: "'t client_pc \<Rightarrow> bool" where
  "client_holds Exit_set = True"
| "client_holds Exit_unlock = True"
| "client_holds Wait_exit_wait = True"
| "client_holds Wait_exit_unlock = True"
| "client_holds (Push_empty t) = True"
| "client_holds (Push_item t b) = True"
| "client_holds (Push_unlock b) = True"
| "client_holds _ = False"

definition mutex_inv :: "('t, 'r, 'd) thread_object \<Rightarrow> bool" where
  "mutex_inv s \<longleftrightarrow>
     (m_queueMutex s = Some Worker \<longleftrightarrow> worker_holds (worker s)) \<and>
     (m_queueMutex s = Some Client \<longleftrightarrow> client_holds (client s))"

text \<open>
  The task that the worker executes: it is the first of the queue from the call of \<open>front\<close> to the call of
  \<open>pop_front\<close>, and the history of the tasks.
\<close>

fun executing :: "('t, 'r) worker_pc \<Rightarrow> bool" where
  "executing (Function f) = True"
| "executing Relock_queue = True"
| "executing Pop_front = True"
| "executing _ = False"

definition history_inv :: "('t, 'r, 'd) thread_object \<Rightarrow> bool" where
  "history_inv s \<longleftrightarrow>
     accepted s = finished s @ m_queue s \<and>
     started s = finished s @ (if executing (worker s) then [hd (m_queue s)] else []) \<and>
     (executing (worker s) \<or> worker s = Front \<longrightarrow> m_queue s \<noteq> []) \<and>
     (worker s = Running_test \<and> m_running s \<longrightarrow> m_queue s \<noteq> []) \<and>
     (\<forall>t. worker s = Unlock_queue t \<or> worker s = Function (Process t) \<longrightarrow>
        m_queue s \<noteq> [] \<and> hd (m_queue s) = t)"

text \<open>
  No wakeup is lost: while the worker sleeps although there is something to do, the other thread is about
  to notify it.
\<close>

definition wakeup_inv :: "('t, 'r, 'd) thread_object \<Rightarrow> bool" where
  "wakeup_inv s \<longleftrightarrow>
     (worker s = Waiting \<longrightarrow>
        (m_running s \<or> client s = Exit_unlock \<or> client s = Exit_notify) \<and>
        (m_queue s = [] \<or> client s = Push_unlock True \<or> client s = Push_notify True)) \<and>
     (\<forall>t b. client s = Push_item t b \<longrightarrow> (b \<longleftrightarrow> m_queue s = []))"

text \<open>The flags: the worker has left its loop only after \<open>m_running\<close> was cleared.\<close>

fun ending :: "('t, 'r) worker_pc \<Rightarrow> bool" where
  "ending Unstarted = True"
| "ending Set_exited = True"
| "ending Notify_destruction = True"
| "ending Unlock_end = True"
| "ending Finished = True"
| "ending _ = False"

fun has_exited :: "('t, 'r) worker_pc \<Rightarrow> bool" where
  "has_exited Unstarted = True"
| "has_exited Set_running = True"
| "has_exited Clear_exited = True"
| "has_exited Notify_destruction = True"
| "has_exited Unlock_end = True"
| "has_exited Finished = True"
| "has_exited _ = False"

fun starting :: "('t, 'r) worker_pc \<Rightarrow> bool" where
  "starting Unstarted = True"
| "starting Set_running = True"
| "starting Clear_exited = True"
| "starting Unlock_running = True"
| "starting _ = False"

definition flags_inv :: "('t, 'r, 'd) thread_object \<Rightarrow> bool" where
  "flags_inv s \<longleftrightarrow>
     (ending (worker s) \<longrightarrow> \<not> m_running s) \<and>
     (m_exited s \<longleftrightarrow> has_exited (worker s)) \<and>
     (client s = Wait_exit_woken True \<longrightarrow> worker s = Unlock_end \<or> worker s = Finished) \<and>
     (m_runningLock s \<longrightarrow> m_runningMutex s \<and> starting (worker s)) \<and>
     (worker s = Unstarted \<longrightarrow> m_runningLock s) \<and>
     (client s = Start_unlock \<longrightarrow> \<not> m_runningLock s) \<and>
     (m_runningMutex s \<longleftrightarrow> m_runningLock s \<or> client s = Start_unlock)"

definition thread_object_inv :: "('t, 'r, 'd) thread_object \<Rightarrow> bool" where
  "thread_object_inv s \<longleftrightarrow> mutex_inv s \<and> history_inv s \<and> wakeup_inv s \<and> flags_inv s"

lemmas thread_object_move_defs =
  worker_move_def wait_on_start_move_def exit_move_def wait_on_exit_move_def push_back_move_def
  client_lock_def client_unlock_def notify_queue_def notify_destruction_def

lemmas thread_object_inv_defs = mutex_inv_def history_inv_def wakeup_inv_def flags_inv_def

lemma new_object_inv: "new_object s \<Longrightarrow> thread_object_inv s"
  by (auto simp: new_object_def ThreadObjectData_def thread_object_inv_def thread_object_inv_defs)

text \<open>What a notification leaves as it is.\<close>

lemma notify_queue_simps [simp]:
  "worker_holds (notify_queue w) = worker_holds w"
  "executing (notify_queue w) = executing w"
  "ending (notify_queue w) = ending w"
  "has_exited (notify_queue w) = has_exited w"
  "starting (notify_queue w) = starting w"
  "notify_queue w \<noteq> Waiting"
  "notify_queue w = Unstarted \<longleftrightarrow> w = Unstarted"
  "notify_queue w = Front \<longleftrightarrow> w = Front"
  "notify_queue w = Running_test \<longleftrightarrow> w = Running_test"
  "notify_queue w = Unlock_queue t \<longleftrightarrow> w = Unlock_queue t"
  "notify_queue w = Function f \<longleftrightarrow> w = Function f"
  by (cases w; simp add: notify_queue_def)+

lemma notify_destruction_simps [simp]:
  "client_holds (notify_destruction c) = client_holds c"
  "notify_destruction c = Exit_unlock \<longleftrightarrow> c = Exit_unlock"
  "notify_destruction c = Exit_notify \<longleftrightarrow> c = Exit_notify"
  "notify_destruction c = Start_unlock \<longleftrightarrow> c = Start_unlock"
  "notify_destruction c = Push_unlock b \<longleftrightarrow> c = Push_unlock b"
  "notify_destruction c = Push_notify b \<longleftrightarrow> c = Push_notify b"
  "notify_destruction c = Push_item t b \<longleftrightarrow> c = Push_item t b"
  by (cases c; simp add: notify_destruction_def)+

lemma worker_move_mutex: "worker_move s = Some s' \<Longrightarrow> mutex_inv s \<Longrightarrow> mutex_inv s'"
  by (cases "worker s")
    (auto simp: worker_move_def mutex_inv_def split: if_splits function_pc.splits)

lemma worker_move_history: "worker_move s = Some s' \<Longrightarrow> history_inv s \<Longrightarrow> history_inv s'"
  by (cases "worker s")
    (auto simp: worker_move_def history_inv_def split: if_splits function_pc.splits)

lemma worker_holds_excludes: "mutex_inv s \<Longrightarrow> worker_holds (worker s) \<Longrightarrow> \<not> client_holds (client s)"
  by (auto simp: mutex_inv_def)

lemma client_holds_pcs:
  "\<not> client_holds c \<Longrightarrow> c \<noteq> Exit_unlock \<and> c \<noteq> Push_unlock b \<and> c \<noteq> Push_item t b \<and> c \<noteq> Exit_set"
  by auto

lemma worker_move_wakeup:
  assumes "worker_move s = Some s'" and "mutex_inv s" and "wakeup_inv s"
  shows "wakeup_inv s'"
  using assms client_holds_pcs [of "client s"] worker_holds_excludes [OF assms(2)]
  by (cases "worker s")
    (auto simp: worker_move_def wakeup_inv_def split: if_splits function_pc.splits)

lemma notify_destruction_woken:
  "notify_destruction c = Wait_exit_woken True \<Longrightarrow> c = Wait_exit_waiting \<or> c = Wait_exit_woken True"
  by (cases c) (simp_all add: notify_destruction_def)

lemma worker_move_flags: "worker_move s = Some s' \<Longrightarrow> flags_inv s \<Longrightarrow> flags_inv s'"
  by (cases "worker s")
    (auto simp: worker_move_def flags_inv_def split: if_splits function_pc.splits)

lemma worker_move_inv: "worker_move s = Some s' \<Longrightarrow> thread_object_inv s \<Longrightarrow> thread_object_inv s'"
  unfolding thread_object_inv_def
  using worker_move_mutex worker_move_history worker_move_wakeup worker_move_flags by blast

text \<open>The methods keep the invariant.\<close>

lemma history_inv_frame [simp]:
  "history_inv (s\<lparr>client := c\<rparr>) = history_inv s"
  "history_inv (s\<lparr>m_queueMutex := m\<rparr>) = history_inv s"
  "history_inv (s\<lparr>m_runningMutex := b\<rparr>) = history_inv s"
  "history_inv (s\<lparr>worker := notify_queue (worker s)\<rparr>) = history_inv s"
  by (simp_all add: history_inv_def)

lemma history_inv_stop: "history_inv s \<Longrightarrow> history_inv (s\<lparr>m_running := False\<rparr>)"
  by (simp add: history_inv_def)

lemma flags_inv_frame [simp]:
  "flags_inv (s\<lparr>m_queueMutex := m\<rparr>) = flags_inv s"
  "flags_inv (s\<lparr>m_queue := q\<rparr>) = flags_inv s"
  "flags_inv (s\<lparr>accepted := q\<rparr>) = flags_inv s"
  by (simp_all add: flags_inv_def)

lemma flags_inv_client:
  "flags_inv s \<Longrightarrow> client s \<noteq> Start_unlock \<Longrightarrow> c \<noteq> Start_unlock \<Longrightarrow> c \<noteq> Wait_exit_woken True \<Longrightarrow>
   flags_inv (s\<lparr>client := c\<rparr>)"
  by (simp add: flags_inv_def)

lemma flags_inv_stop: "flags_inv s \<Longrightarrow> flags_inv (s\<lparr>m_running := False\<rparr>)"
  by (simp add: flags_inv_def)

lemma flags_inv_notify: "flags_inv s \<Longrightarrow> flags_inv (s\<lparr>worker := notify_queue (worker s)\<rparr>)"
  by (cases "worker s") (auto simp: flags_inv_def notify_queue_def)

lemma flags_inv_wait_on_start:
  "flags_inv s \<Longrightarrow> \<not> m_runningMutex s \<Longrightarrow> client s = Start_lock \<Longrightarrow>
     flags_inv (s\<lparr>m_runningMutex := True, client := Start_unlock\<rparr>)"
  "flags_inv s \<Longrightarrow> client s = Start_unlock \<Longrightarrow> flags_inv (s\<lparr>m_runningMutex := False, client := Idle\<rparr>)"
  by (auto simp: flags_inv_def)

lemma wait_on_start_move_inv:
  "wait_on_start_move s = Some s' \<Longrightarrow> thread_object_inv s \<Longrightarrow> thread_object_inv s'"
  by (cases "client s")
    (auto simp: wait_on_start_move_def thread_object_inv_def mutex_inv_def wakeup_inv_def
       split: if_splits intro: flags_inv_wait_on_start)

lemma exit_move_mutex: "exit_move s = Some s' \<Longrightarrow> mutex_inv s \<Longrightarrow> mutex_inv s'"
  by (cases "client s")
    (auto simp: exit_move_def client_lock_def client_unlock_def mutex_inv_def split: if_splits)

lemma exit_move_history: "exit_move s = Some s' \<Longrightarrow> history_inv s \<Longrightarrow> history_inv s'"
  by (cases "client s")
    (auto simp: exit_move_def client_lock_def client_unlock_def intro: history_inv_stop split: if_splits)

lemma exit_move_wakeup: "exit_move s = Some s' \<Longrightarrow> wakeup_inv s \<Longrightarrow> wakeup_inv s'"
  by (cases "client s")
    (auto simp: exit_move_def client_lock_def client_unlock_def wakeup_inv_def split: if_splits)

lemma exit_move_flags: "exit_move s = Some s' \<Longrightarrow> flags_inv s \<Longrightarrow> flags_inv s'"
  by (cases "client s")
    (auto simp: exit_move_def client_lock_def client_unlock_def split: if_splits
       intro: flags_inv_client flags_inv_stop flags_inv_notify)

lemma exit_move_inv: "exit_move s = Some s' \<Longrightarrow> thread_object_inv s \<Longrightarrow> thread_object_inv s'"
  unfolding thread_object_inv_def
  using exit_move_mutex exit_move_history exit_move_wakeup exit_move_flags by blast

lemma wait_on_exit_move_inv:
  "wait_on_exit_move s = Some s' \<Longrightarrow> thread_object_inv s \<Longrightarrow> thread_object_inv s'"
  by (cases "client s")
    (auto simp: wait_on_exit_move_def client_lock_def client_unlock_def thread_object_inv_def
       mutex_inv_def wakeup_inv_def split: if_splits intro: flags_inv_client)

lemma push_back_move_mutex: "push_back_move s = Some s' \<Longrightarrow> mutex_inv s \<Longrightarrow> mutex_inv s'"
  by (cases "client s")
    (auto simp: push_back_move_def client_lock_def client_unlock_def mutex_inv_def split: if_splits)

lemma history_inv_push:
  "history_inv s \<Longrightarrow> history_inv (s\<lparr>m_queue := m_queue s @ [t], accepted := accepted s @ [t]\<rparr>)"
  by (cases "m_queue s") (auto simp: history_inv_def)

lemma push_back_move_history: "push_back_move s = Some s' \<Longrightarrow> history_inv s \<Longrightarrow> history_inv s'"
  by (cases "client s")
    (auto simp: push_back_move_def client_lock_def client_unlock_def split: if_splits
       intro: history_inv_push)

lemma push_back_move_wakeup: "push_back_move s = Some s' \<Longrightarrow> wakeup_inv s \<Longrightarrow> wakeup_inv s'"
  by (cases "client s")
    (auto simp: push_back_move_def client_lock_def client_unlock_def wakeup_inv_def split: if_splits)

lemma push_back_move_flags: "push_back_move s = Some s' \<Longrightarrow> flags_inv s \<Longrightarrow> flags_inv s'"
  by (cases "client s")
    (auto simp: push_back_move_def client_lock_def client_unlock_def split: if_splits
       intro: flags_inv_client flags_inv_notify)

lemma push_back_move_inv: "push_back_move s = Some s' \<Longrightarrow> thread_object_inv s \<Longrightarrow> thread_object_inv s'"
  unfolding thread_object_inv_def
  using push_back_move_mutex push_back_move_history push_back_move_wakeup push_back_move_flags by blast

text \<open>The steps of the environment keep the invariant.\<close>

lemma function_inv:
  "thread_object_inv s \<Longrightarrow> worker s = Function f \<Longrightarrow> \<forall>t. f' \<noteq> Process t \<Longrightarrow>
   thread_object_inv (s\<lparr>worker := Function f', m_data := d\<rparr>)"
  by (auto simp: thread_object_inv_def thread_object_inv_defs)

lemma spurious_inv: "thread_object_inv s \<Longrightarrow> worker s = Waiting \<Longrightarrow> thread_object_inv (s\<lparr>worker := Woken\<rparr>)"
  by (auto simp: thread_object_inv_def thread_object_inv_defs)

lemma flags_inv_spawns:
  "flags_inv s \<Longrightarrow> worker s = Unstarted \<or> worker s = Finished \<Longrightarrow> client s = Idle \<Longrightarrow>
   flags_inv (s\<lparr>worker := Set_running\<rparr>)"
  by (erule disjE) (simp_all add: flags_inv_def)

lemma spawns_inv:
  assumes "thread_object_inv s" and "worker s = Unstarted \<or> worker s = Finished" and "client s = Idle"
  shows "thread_object_inv (s\<lparr>worker := Set_running\<rparr>)"
  using assms(2) assms(1,3) flags_inv_spawns [OF _ assms(2,3)]
  by (elim disjE) (simp_all add: thread_object_inv_def mutex_inv_def history_inv_def wakeup_inv_def)

lemma client_inv:
  assumes "thread_object_inv s"
    and "\<not> client_holds (client s)" and "client s \<notin> {Start_unlock, Exit_notify, Push_notify True}"
    and "\<not> client_holds c" and "c \<notin> {Start_unlock, Wait_exit_woken True}"
  shows "thread_object_inv (s\<lparr>client := c\<rparr>)"
proof -
  have "mutex_inv (s\<lparr>client := c\<rparr>)"
    using assms by (simp add: thread_object_inv_def mutex_inv_def)
  moreover have "wakeup_inv (s\<lparr>client := c\<rparr>)"
    using assms client_holds_pcs [OF assms(2)] client_holds_pcs [OF assms(4)]
    by (simp add: thread_object_inv_def wakeup_inv_def)
  moreover have "flags_inv (s\<lparr>client := c\<rparr>)"
    by (rule flags_inv_client) (use assms in \<open>simp_all add: thread_object_inv_def\<close>)
  ultimately show ?thesis
    using assms(1) by (simp add: thread_object_inv_def)
qed

lemma thread_object_step_inv:
  assumes "thread_object_step s s'" and "thread_object_inv s"
  shows "thread_object_inv s'"
  using assms(1)
proof cases
  case (function_moves f f' d)
  then show ?thesis using function_inv [OF assms(2)] by blast
next
  case (returns b)
  then show ?thesis by (elim disjE) (simp_all add: client_inv [OF assms(2)])
qed (simp_all add: assms(2) spurious_inv spawns_inv client_inv
       worker_move_inv [OF _ assms(2)] wait_on_start_move_inv [OF _ assms(2)] exit_move_inv [OF _ assms(2)]
       wait_on_exit_move_inv [OF _ assms(2)] push_back_move_inv [OF _ assms(2)])

interpretation thread_object: invariant new_object thread_object_step thread_object_inv
  by unfold_locales (fact new_object_inv, fact thread_object_step_inv)

end
