(* ===== verification/Thread_Object_Correct.thy ===== *)
theory Thread_Object_Correct
  imports Thread_Object "HOL-Library.While_Combinator" "HOL-Library.Sublist"
begin

text \<open>
  What the worker of a thread pool promises: tasks are executed once and in the order of the queue, a worker
  that is left alone finishes its queue and leaves when it is told to, the shared members are accessed
  without a race but for two flags, and the two faults: a notification that \<open>wait_on_exit\<close> misses, and an
  object whose second thread ends the program.
\<close>

abbreviation object_reach :: "('t, 'r, 'd) thread_object \<Rightarrow> bool" where
  "object_reach \<equiv> reach new_object thread_object_step"

lemmas object_invs = thread_object.inv_reach [unfolded thread_object_inv_def]

section \<open>Order of the tasks\<close>

text \<open>
  C30: In every interleaving of a worker of the thread pool, the tasks whose execution began are the first ones of those that
  \<open>push_back\<close> appended, in their order and each once; at most one is executed at a time, and it is the first
  element of the queue, whose node \<open>pop_front\<close> frees only after the call.
\<close>

theorem tasks_in_order:
  assumes "object_reach s"
  shows "prefix (started s) (accepted s) \<and> accepted s = finished s @ m_queue s \<and>
    (started s = finished s \<or> started s = finished s @ [hd (m_queue s)]) \<and>
    (\<forall>t. worker s = Function (Process t) \<longrightarrow> m_queue s \<noteq> [] \<and> hd (m_queue s) = t) \<and>
    (executing (worker s) \<or> worker s = Front \<longrightarrow> m_queue s \<noteq> [])"
proof -
  have h: "history_inv s"
    using object_invs [OF assms] by blast
  have "prefix (started s) (accepted s)"
    using h by (cases "m_queue s") (auto simp: history_inv_def)
  then show ?thesis
    using h by (auto simp: history_inv_def)
qed

section \<open>Schedules\<close>

text \<open>An interleaving given as the list of the turns that the threads take.\<close>

datatype 't turn = Worker_turn | Task_turn | Client_turn | Spawn_turn | Call_turn "'t client_pc" | Return_turn

definition client_move :: "('t, 'r, 'd) thread_object \<Rightarrow> ('t, 'r, 'd) thread_object option" where
  "client_move s =
     (case wait_on_start_move s of Some s' \<Rightarrow> Some s' | None \<Rightarrow>
     (case exit_move s of Some s' \<Rightarrow> Some s' | None \<Rightarrow>
     (case wait_on_exit_move s of Some s' \<Rightarrow> Some s' | None \<Rightarrow> push_back_move s)))"

fun method_call :: "'t client_pc \<Rightarrow> bool" where
  "method_call Start_lock = True"
| "method_call Exit_test = True"
| "method_call Wait_exit_test = True"
| "method_call (Push_test t) = True"
| "method_call _ = False"

definition task_returns :: "('t, 'r, 'd) thread_object \<Rightarrow> ('t, 'r, 'd) thread_object option" where
  "task_returns s =
     (case worker s of
        Function f \<Rightarrow> if f = Function_end then None else Some (s\<lparr>worker := Function Function_end\<rparr>)
      | _ \<Rightarrow> None)"

fun take_turn :: "'t turn \<Rightarrow> ('t, 'r, 'd) thread_object \<Rightarrow> ('t, 'r, 'd) thread_object option" where
  "take_turn Worker_turn s = worker_move s"
| "take_turn Task_turn s = task_returns s"
| "take_turn Client_turn s = client_move s"
| "take_turn Spawn_turn s =
     (if (worker s = Unstarted \<or> worker s = Finished) \<and> client s = Idle
      then Some (s\<lparr>worker := Set_running\<rparr>) else None)"
| "take_turn (Call_turn c) s = (if client s = Idle \<and> method_call c then Some (s\<lparr>client := c\<rparr>) else None)"
| "take_turn Return_turn s =
     (case client s of Waited \<Rightarrow> Some (s\<lparr>client := Idle\<rparr>) | Pushed b \<Rightarrow> Some (s\<lparr>client := Idle\<rparr>) | _ \<Rightarrow> None)"

fun schedule :: "'t turn list \<Rightarrow> ('t, 'r, 'd) thread_object \<Rightarrow> ('t, 'r, 'd) thread_object option" where
  "schedule [] s = Some s"
| "schedule (x # xs) s = (case take_turn x s of None \<Rightarrow> None | Some s' \<Rightarrow> schedule xs s')"

lemma client_move_step: "client_move s = Some s' \<Longrightarrow> thread_object_step s s'"
  by (auto simp: client_move_def split: option.splits
      intro: wait_on_start_moves exit_moves wait_on_exit_moves push_back_moves)

lemma task_returns_step:
  assumes "task_returns s = Some s'"
  shows "thread_object_step s s'"
proof -
  obtain f where f: "worker s = Function f" "f \<noteq> Function_end" "s' = s\<lparr>worker := Function Function_end\<rparr>"
    using assms by (auto simp: task_returns_def split: worker_pc.splits if_splits)
  then show ?thesis
    using function_moves [of s f Function_end "m_data s"] by simp
qed

lemma take_turn_step: "take_turn x s = Some s' \<Longrightarrow> thread_object_step s s'"
proof (cases x)
  case (Call_turn c)
  assume "take_turn x s = Some s'"
  with Call_turn show ?thesis
    by (cases c) (auto split: if_splits intro: thread_object_step.intros)
next
  case Return_turn
  assume "take_turn x s = Some s'"
  with Return_turn show ?thesis
    by (cases "client s") (auto intro: returns)
qed (auto split: if_splits intro: worker_moves task_returns_step client_move_step spawns)

lemma schedule_steps: "schedule xs s = Some s' \<Longrightarrow> thread_object_step\<^sup>*\<^sup>* s s'"
  by (induction xs arbitrary: s)
    (auto split: option.splits intro: take_turn_step converse_rtranclp_into_rtranclp)

lemma schedule_reach:
  assumes "schedule xs s = Some s'" and "object_reach s"
  shows "object_reach s'"
proof -
  have "thread_object_step\<^sup>*\<^sup>* s s'"
    by (rule schedule_steps) (fact assms)
  then show ?thesis
    by (induction rule: rtranclp_induct) (auto intro: assms reach.step)
qed

lemma new_object_reach: "object_reach (ThreadObjectData d)"
  by (rule reach.start) (auto simp: new_object_def)

text \<open>An object whose thread executes the first of two tasks.\<close>

definition two_tasks :: "nat turn list" where
  "two_tasks =
     [Spawn_turn] @ replicate 4 Worker_turn @ [Worker_turn] @
     [Call_turn (Push_test 5)] @ replicate 6 Client_turn @ [Return_turn] @
     [Call_turn (Push_test 6)] @ replicate 6 Client_turn @ [Return_turn] @ replicate 5 Worker_turn"

lemma two_tasks_state:
  "\<exists>s :: (nat, unit, unit) thread_object. schedule two_tasks (ThreadObjectData ()) = Some s \<and>
     worker s = Function (Process 5) \<and> accepted s = [5, 6]"
  by (simp add: two_tasks_def ThreadObjectData_def client_move_def thread_object_move_defs numeral_eq_Suc)

theorem tasks_in_order_witness:
  "\<exists>s :: (nat, unit, unit) thread_object. worker s = Function (Process 5) \<and> accepted s = [5, 6] \<and>
     prefix (started s) [5, 6] \<and> m_queue s \<noteq> [] \<and> hd (m_queue s) = 5"
proof -
  obtain s :: "(nat, unit, unit) thread_object" where s: "schedule two_tasks (ThreadObjectData ()) = Some s"
      "worker s = Function (Process 5)" "accepted s = [5, 6]"
    using two_tasks_state by blast
  show ?thesis
    using tasks_in_order [OF schedule_reach [OF s(1) new_object_reach]] s(2,3) by fastforce
qed

section \<open>Progress of the worker\<close>

text \<open>
  The execution of the worker while no method is called: its own moves, a task that is executed returns.
  It ends where the worker cannot move.
\<close>

definition worker_alone :: "('t, 'r, 'd) thread_object \<Rightarrow> ('t, 'r, 'd) thread_object option" where
  "worker_alone s = (case task_returns s of Some s' \<Rightarrow> Some s' | None \<Rightarrow> worker_move s)"

definition run_alone :: "('t, 'r, 'd) thread_object \<Rightarrow> ('t, 'r, 'd) thread_object option" where
  "run_alone = while_option (\<lambda>s. worker_alone s \<noteq> None) (\<lambda>s. the (worker_alone s))"

fun rank :: "('t, 'r) worker_pc \<Rightarrow> nat" where
  "rank Lock_queue = 11"
| "rank Woken = 11"
| "rank Wait_test = 10"
| "rank Running_test = 9"
| "rank Front = 8"
| "rank (Unlock_queue t) = 7"
| "rank (Function f) = (if f = Function_end then 5 else 6)"
| "rank Relock_queue = 4"
| "rank Pop_front = 3"
| "rank Set_exited = 3"
| "rank Notify_destruction = 2"
| "rank Unlock_end = 1"
| "rank _ = 0"

definition work_left :: "('t, 'r, 'd) thread_object \<Rightarrow> nat" where
  "work_left s = 12 * length (m_queue s) + rank (worker s)"

definition alone_inv :: "bool \<Rightarrow> 't list \<Rightarrow> ('t, 'r, 'd) thread_object \<Rightarrow> bool" where
  "alone_inv r ts s \<longleftrightarrow>
     thread_object_inv s \<and> client s = Idle \<and> m_running s = r \<and> accepted s = ts \<and>
     \<not> starting (worker s) \<and> worker s \<noteq> Terminated"

lemma worker_alone_step: "worker_alone s = Some s' \<Longrightarrow> thread_object_step s s'"
  by (auto simp: worker_alone_def split: option.splits intro: task_returns_step worker_moves)

lemma worker_alone_frame:
  assumes "worker_alone s = Some s'" and "client s = Idle" and "\<not> starting (worker s)"
  shows "client s' = Idle \<and> m_running s' = m_running s \<and> accepted s' = accepted s \<and>
    \<not> starting (worker s') \<and> worker s' \<noteq> Terminated"
  using assms
  by (cases "worker s")
    (auto simp: worker_alone_def task_returns_def worker_move_def notify_destruction_def
       split: if_splits function_pc.splits)

lemma worker_alone_decreases:
  assumes "worker_alone s = Some s'" and "history_inv s" and "\<not> starting (worker s)"
  shows "work_left s' < work_left s"
  using assms
  by (cases "worker s")
    (auto simp: worker_alone_def task_returns_def worker_move_def work_left_def history_inv_def
       neq_Nil_conv split: if_splits function_pc.splits)

lemma worker_alone_alone_inv:
  assumes "alone_inv r ts s" and "worker_alone s = Some s'"
  shows "alone_inv r ts s' \<and> work_left s' < work_left s"
proof -
  have inv: "thread_object_inv s" and s: "client s = Idle" "\<not> starting (worker s)"
    using assms(1) by (simp_all add: alone_inv_def)
  have "thread_object_inv s'"
    using thread_object_step_inv [OF worker_alone_step [OF assms(2)] inv] .
  then show ?thesis
    using worker_alone_frame [OF assms(2) s] worker_alone_decreases [OF assms(2) _ s(2)] inv assms(1)
    by (simp add: alone_inv_def thread_object_inv_def)
qed

text \<open>A worker that cannot move while no method runs sleeps with an empty queue, or has left.\<close>

lemma worker_alone_stuck:
  assumes "alone_inv r ts s" and "worker_alone s = None"
  shows "(worker s = Waiting \<and> r \<and> m_queue s = []) \<or> (worker s = Finished \<and> \<not> r)"
proof -
  have inv: "mutex_inv s" "wakeup_inv s" "flags_inv s"
    using assms(1) by (simp_all add: alone_inv_def thread_object_inv_def)
  have s: "client s = Idle" "m_running s = r" "\<not> starting (worker s)" "worker s \<noteq> Terminated"
    using assms(1) by (simp_all add: alone_inv_def)
  have m: "m_queueMutex s \<noteq> Some Client"
    using inv(1) s(1) by (simp add: mutex_inv_def)
  have free: "\<not> worker_holds (worker s) \<Longrightarrow> m_queueMutex s = None"
    using inv(1) m by (cases "m_queueMutex s") (auto simp: mutex_inv_def intro: thread_owner.exhaust)
  show ?thesis
    using assms(2) s free inv(2,3)
    by (cases "worker s")
      (auto simp: worker_alone_def task_returns_def worker_move_def wakeup_inv_def flags_inv_def
         split: if_splits function_pc.splits)
qed

lemma run_alone_spec:
  assumes "alone_inv r ts s" and "Q s"
    and Q: "\<And>s s'. alone_inv r ts s \<Longrightarrow> Q s \<Longrightarrow> worker_alone s = Some s' \<Longrightarrow> Q s'"
  shows "\<exists>s'. run_alone s = Some s' \<and> alone_inv r ts s' \<and> worker_alone s' = None \<and> Q s'"
proof -
  let ?b = "\<lambda>s :: ('a, 'b, 'c) thread_object. worker_alone s \<noteq> None"
  let ?c = "\<lambda>s :: ('a, 'b, 'c) thread_object. the (worker_alone s)"
  let ?P = "\<lambda>s. alone_inv r ts s \<and> Q s"
  have step: "?P (?c s) \<and> work_left (?c s) < work_left s" if "?P s" "?b s" for s
    using worker_alone_alone_inv [of r ts s] Q [of s] that by auto
  obtain s' where s': "while_option ?b ?c s = Some s'"
    using measure_while_option_Some [where P = ?P and b = ?b and c = ?c and f = work_left]
      step assms(1,2) by blast
  have "?P s'"
    by (rule while_option_rule [where P = ?P, OF _ s']) (use step assms(1,2) in blast)+
  moreover have "worker_alone s' = None"
    using while_option_stop [OF s'] by simp
  ultimately show ?thesis
    using s' by (auto simp: run_alone_def)
qed

lemma reach_alone_inv:
  "object_reach s \<Longrightarrow> client s = Idle \<Longrightarrow> \<not> starting (worker s) \<Longrightarrow> worker s \<noteq> Terminated \<Longrightarrow>
   alone_inv (m_running s) (accepted s) s"
  using thread_object.inv_reach by (auto simp: alone_inv_def)

text \<open>
  In whatever state an interleaving leaves the object, once the methods have returned the worker executes
  every accepted task and then sleeps: no task waits for a notification that does not come.
\<close>

lemma worker_queue_runs:
  assumes "object_reach s" and "client s = Idle" and "m_running s"
    and "\<not> starting (worker s)" and "worker s \<noteq> Terminated"
  shows "\<exists>s'. run_alone s = Some s' \<and> worker s' = Waiting \<and> m_queue s' = [] \<and>
    finished s' = accepted s \<and> started s' = accepted s"
proof -
  obtain s' where s': "run_alone s = Some s'" "alone_inv True (accepted s) s'" "worker_alone s' = None"
    using run_alone_spec [OF reach_alone_inv [OF assms(1,2,4,5)], of "\<lambda>_. True"] assms(3) by auto
  have w: "worker s' = Waiting" "m_queue s' = []"
    using worker_alone_stuck [OF s'(2,3)] by auto
  have "history_inv s'" and "accepted s' = accepted s"
    using s'(2) by (simp_all add: alone_inv_def thread_object_inv_def)
  then have "finished s' = accepted s \<and> started s' = accepted s"
    using w by (simp add: history_inv_def)
  then show ?thesis
    using s'(1) w by blast
qed

fun to_start :: "('t, 'r) worker_pc \<Rightarrow> nat" where
  "to_start Front = 1"
| "to_start (Unlock_queue t) = 1"
| "to_start _ = 0"

lemma worker_alone_started:
  assumes "worker_alone s = Some s'" and "\<not> m_running s"
  shows "length (started s') + to_start (worker s') = length (started s) + to_start (worker s)"
  using assms
  by (cases "worker s")
    (auto simp: worker_alone_def task_returns_def worker_move_def split: if_splits function_pc.splits)

text \<open>
  Once \<open>exit\<close> has cleared \<open>m_running\<close> the worker leaves: it ends the task it is executing, sets
  \<open>m_exited\<close>, and releases the mutex; the rest of the queue is not executed.
\<close>

lemma worker_leaves:
  assumes "object_reach s" and "client s = Idle" and "\<not> m_running s"
    and "\<not> starting (worker s)" and "worker s \<noteq> Terminated"
  shows "\<exists>s'. run_alone s = Some s' \<and> worker s' = Finished \<and> m_exited s' \<and> m_queueMutex s' = None \<and>
    accepted s' = accepted s \<and> started s' = finished s' \<and>
    length (started s') = length (started s) + to_start (worker s)"
proof -
  let ?n = "length (started s) + to_start (worker s)"
  have "\<exists>s'. run_alone s = Some s' \<and> alone_inv False (accepted s) s' \<and> worker_alone s' = None \<and>
    length (started s') + to_start (worker s') = ?n"
  proof (rule run_alone_spec)
    show "alone_inv False (accepted s) s"
      using reach_alone_inv [OF assms(1,2,4,5)] assms(3) by simp
  qed (auto simp: alone_inv_def dest: worker_alone_started)
  then obtain s' where s': "run_alone s = Some s'" "alone_inv False (accepted s) s'" "worker_alone s' = None"
      "length (started s') + to_start (worker s') = ?n"
    by blast
  have w: "worker s' = Finished"
    using worker_alone_stuck [OF s'(2,3)] by auto
  have inv: "history_inv s'" "flags_inv s'" "mutex_inv s'" "accepted s' = accepted s" "client s' = Idle"
    using s'(2) by (simp_all add: alone_inv_def thread_object_inv_def)
  have "m_queueMutex s' = None"
    using inv(3,5) w by (cases "m_queueMutex s'") (auto simp: mutex_inv_def intro: thread_owner.exhaust)
  then show ?thesis
    using s'(1,4) w inv by (simp add: history_inv_def flags_inv_def)
qed

section \<open>Accesses without a lock\<close>

text \<open>The members that a thread reads or writes in its next move.\<close>

datatype shared_member = M_running | M_exited | M_queue

fun worker_reads :: "('t, 'r) worker_pc \<Rightarrow> shared_member set" where
  "worker_reads Wait_test = {M_running, M_queue}"
| "worker_reads Running_test = {M_running}"
| "worker_reads Front = {M_queue}"
| "worker_reads _ = {}"

fun worker_writes :: "('t, 'r) worker_pc \<Rightarrow> shared_member set" where
  "worker_writes Set_running = {M_running}"
| "worker_writes Clear_exited = {M_exited}"
| "worker_writes Pop_front = {M_queue}"
| "worker_writes Set_exited = {M_exited}"
| "worker_writes _ = {}"

fun client_reads :: "'t client_pc \<Rightarrow> shared_member set" where
  "client_reads Exit_test = {M_running}"
| "client_reads Wait_exit_test = {M_exited}"
| "client_reads (Push_test t) = {M_running}"
| "client_reads (Push_empty t) = {M_queue}"
| "client_reads _ = {}"

fun client_writes :: "'t client_pc \<Rightarrow> shared_member set" where
  "client_writes Exit_set = {M_running}"
| "client_writes (Push_item t b) = {M_queue}"
| "client_writes _ = {}"

definition data_race :: "('t, 'r, 'd) thread_object \<Rightarrow> shared_member \<Rightarrow> bool" where
  "data_race s x \<longleftrightarrow>
     (x \<in> worker_writes (worker s) \<and> x \<in> client_reads (client s) \<union> client_writes (client s)) \<or>
     (x \<in> worker_reads (worker s) \<and> x \<in> client_writes (client s))"

lemma worker_accesses:
  "x \<in> worker_reads w \<Longrightarrow> worker_holds w"
  "x \<in> worker_writes w \<Longrightarrow> worker_holds w \<or> w = Set_running \<or> w = Clear_exited"
  "M_queue \<in> worker_writes w \<Longrightarrow> worker_holds w"
  by (cases w; simp)+

lemma client_accesses:
  "x \<in> client_writes c \<Longrightarrow> client_holds c"
  "x \<in> client_reads c \<Longrightarrow> client_holds c \<or> c = Wait_exit_test \<and> x = M_exited \<or> x = M_running"
  by (cases c; auto)+

text \<open>
  A thread may write a member that the other one accesses at the same time in two cases only: the worker
  that starts writes \<open>m_running\<close> or \<open>m_exited\<close>, which \<open>wait_on_start\<close> excludes, and the worker that
  leaves writes \<open>m_exited\<close> while \<open>wait_on_exit\<close> tests it without the lock.
\<close>

theorem object_data_races:
  assumes "object_reach s" and "data_race s x" and "\<not> starting (worker s)"
  shows "x = M_exited \<and> worker s = Set_exited \<and> client s = Wait_exit_test"
proof -
  have m: "\<not> (worker_holds (worker s) \<and> client_holds (client s))"
    using object_invs [OF assms(1)] by (auto simp: mutex_inv_def)
  have "x \<notin> worker_reads (worker s) \<or> x \<notin> client_writes (client s)"
    using worker_accesses(1) client_accesses(1) m by blast
  then have w: "x \<in> worker_writes (worker s)"
      and c: "x \<in> client_reads (client s) \<union> client_writes (client s)"
    using assms(2) by (auto simp: data_race_def)
  have "worker_holds (worker s)"
    using worker_accesses(2) [OF w] assms(3) by auto
  then have "\<not> client_holds (client s)"
    using m by blast
  then have "client s = Wait_exit_test \<and> x = M_exited \<or> x = M_running"
    using c client_accesses by blast
  with w assms(3) show ?thesis
    by (cases "worker s") auto
qed

section \<open>Faults\<close>

text \<open>The interleaving in which the worker leaves between the test of \<open>wait_on_exit\<close> and its wait.\<close>

definition missed_notification :: "nat turn list" where
  "missed_notification =
     [Spawn_turn, Call_turn Start_lock] @ replicate 3 Worker_turn @ [Client_turn, Client_turn] @
     [Call_turn Exit_test] @ replicate 5 Client_turn @
     [Call_turn Wait_exit_test, Client_turn] @ replicate 6 Worker_turn @
     [Client_turn, Client_turn]"

lemma missed_notification_state:
  "\<exists>s :: (nat, unit, unit) thread_object. schedule missed_notification (ThreadObjectData ()) = Some s \<and>
     worker s = Finished \<and> client s = Wait_exit_waiting \<and> m_exited s"
  by (simp add: missed_notification_def ThreadObjectData_def client_move_def thread_object_move_defs
      numeral_eq_Suc)

text \<open>A state in which only the timeout, or a method of another object, can happen next.\<close>

lemma only_timeout:
  assumes "thread_object_step s s'" and "worker s = Finished" and "client s = Wait_exit_waiting"
  shows "s' = s\<lparr>client := Wait_exit_woken False\<rparr>"
  using assms by cases (simp_all add: thread_object_move_defs)

text \<open>
  C33: \<open>wait_on_exit\<close> tests \<open>m_exited\<close> before it takes the mutex and waits without testing it again: when the
  worker leaves between the test and the wait, its notification is lost, and only the clock ends the wait.
\<close>

theorem wait_on_exit_misses_notification:
  "\<exists>s :: (nat, unit, unit) thread_object. object_reach s \<and> worker s = Finished \<and> m_exited s \<and>
     client s = Wait_exit_waiting \<and>
     {s'. thread_object_step s s'} = {s\<lparr>client := Wait_exit_woken False\<rparr>}"
proof -
  obtain s :: "(nat, unit, unit) thread_object"
    where s: "schedule missed_notification (ThreadObjectData ()) = Some s"
      and w: "worker s = Finished" "client s = Wait_exit_waiting" "m_exited s"
    using missed_notification_state by blast
  have "object_reach s"
    using schedule_reach [OF s new_object_reach] .
  moreover have "{s'. thread_object_step s s'} = {s\<lparr>client := Wait_exit_woken False\<rparr>}"
    using w only_timeout [of s] timed_out [of s] by blast
  ultimately show ?thesis
    using w by blast
qed

text \<open>
  A second thread for the same object finds \<open>m_runningLock\<close> released: its \<open>unlock\<close> throws out of the
  function of the thread.
\<close>

lemma restarted_worker_terminates:
  assumes "object_reach s" and "worker s = Finished" and "client s = Idle"
  shows "\<exists>s'. schedule [Spawn_turn, Worker_turn, Worker_turn, Worker_turn] s = Some s' \<and>
    worker s' = Terminated"
proof -
  have "\<not> m_runningLock s"
    using object_invs [OF assms(1)] assms(2) by (auto simp: flags_inv_def)
  then show ?thesis
    using assms(2,3) by (simp add: worker_move_def)
qed

end
