(* ===== verification/Thread_Pool.thy ===== *)
theory Thread_Pool
  imports Thread_Object_Correct
begin

text \<open>
  The thread pool of the C++ services (\<open>ThreadPool\<close>): the thread that calls its methods and the workers
  of \<open>Thread_Object\<close>, as one step relation over all interleavings. The sizes are of type \<open>size_t\<close>, whose
  wrap-around is written out. The task's \<open>process\<close> is a parameter.
\<close>

section \<open>State\<close>

text \<open>
  The positions of the calling thread. \<open>configure\<close> carries the size that the constructor assigns to
  \<open>m_totalActive\<close> after it. \<open>Out_of_range\<close> is an access past the end of \<open>m_objects\<close>, \<open>Aborted\<close> a failed assertion, and
  \<open>Second_thread\<close> the creation of a thread on an object whose thread has not ended, where the model stops.
\<close>

datatype 't main_pc =
    Ready
  | Input 't
  | Input_push 't
  | Input_result bool
  | Configure nat "nat option"
  | Configure_spawn nat nat "nat option"
  | Configure_wait nat nat "nat option"
  | Configure_waiting nat nat "nat option"
  | Configure_end nat "nat option"
  | Exit_stop nat
  | Exit_objects nat nat
  | Exit_calling nat nat
  | Exit_wait nat nat
  | Exit_waiting nat nat
  | Exit_end
  | Out_of_range
  | Aborted
  | Second_thread

text \<open>
  The members of \<open>ThreadPool\<close>; \<open>m_threads\<close> has the length of \<open>m_objects\<close>, and whether it holds a thread is
  in the worker's position. The results given to \<open>m_outputObject\<close> and the tasks that \<open>input\<close> accepted, with the
  index of the worker, are recorded.
\<close>

record ('t, 'r, 'd) thread_pool =
  m_objects :: "('t, 'r, 'd) thread_object list"
  m_currentThread :: nat
  m_totalConfigured :: nat
  m_totalActive :: nat
  m_taskInputMutex :: bool
  m_taskOutputMutex :: "nat option"
  m_stop :: bool
  main :: "'t main_pc"
  outputs :: "(nat \<times> 'r) list"
  inputs :: "(nat \<times> 't) list"

definition ThreadPool :: "nat \<Rightarrow> nat \<Rightarrow> 'd \<Rightarrow> ('t, 'r, 'd) thread_pool" where
  "ThreadPool initialSize maxSize d =
     \<lparr>m_objects = replicate maxSize (ThreadObjectData d), m_currentThread = 0, m_totalConfigured = 0,
      m_totalActive = 0, m_taskInputMutex = False, m_taskOutputMutex = None, m_stop = False,
      main = Configure initialSize (Some initialSize), outputs = [], inputs = []\<rparr>"

section \<open>Steps\<close>

definition object_client :: "('t, 'r, 'd) thread_pool \<Rightarrow> nat \<Rightarrow> 't client_pc" where
  "object_client p i = client (m_objects p ! i)"

definition set_client ::
  "nat \<Rightarrow> 't client_pc \<Rightarrow> ('t, 'r, 'd) thread_pool \<Rightarrow> ('t, 'r, 'd) thread_pool" where
  "set_client i c p = p\<lparr>m_objects := (m_objects p)[i := (m_objects p ! i)\<lparr>client := c\<rparr>]\<rparr>"

text \<open>\<open>input\<close>: the call of \<open>push_back\<close> and what follows it.\<close>

definition input_begin :: "'t \<Rightarrow> ('t, 'r, 'd) thread_pool \<Rightarrow> ('t, 'r, 'd) thread_pool" where
  "input_begin t p =
     (if m_currentThread p < length (m_objects p)
      then set_client (m_currentThread p) (Push_test t) (p\<lparr>m_taskInputMutex := True, main := Input_push t\<rparr>)
      else p\<lparr>main := Out_of_range\<rparr>)"

definition next_thread :: "nat \<Rightarrow> nat \<Rightarrow> nat" where
  "next_thread current n = (if (current + 1) mod 2 ^ 64 = n then 0 else (current + 1) mod 2 ^ 64)"

definition input_end :: "'t \<Rightarrow> bool \<Rightarrow> ('t, 'r, 'd) thread_pool \<Rightarrow> ('t, 'r, 'd) thread_pool" where
  "input_end t b p =
     (set_client (m_currentThread p) Idle p)
       \<lparr>m_taskInputMutex := False,
        m_currentThread := (if b then next_thread (m_currentThread p) (m_totalActive p) else m_currentThread p),
        main := Input_result b,
        inputs := (if b then inputs p @ [(m_currentThread p, t)] else inputs p)\<rparr>"

text \<open>\<open>configure\<close>: the bound of the size, the creation of threads, the end.\<close>

definition configure_begin :: "nat \<Rightarrow> nat option \<Rightarrow> ('t, 'r, 'd) thread_pool \<Rightarrow> ('t, 'r, 'd) thread_pool" where
  "configure_begin count f p =
     (let count = (if count > length (m_objects p) then length (m_objects p) else count)
      in if count > m_totalConfigured p then p\<lparr>main := Configure_spawn (m_totalConfigured p) count f\<rparr>
         else p\<lparr>main := Configure_end count f\<rparr>)"

definition configure_spawn :: "nat \<Rightarrow> nat \<Rightarrow> nat option \<Rightarrow> ('t, 'r, 'd) thread_pool \<Rightarrow> ('t, 'r, 'd) thread_pool" where
  "configure_spawn i count f p =
     (if i < count then
        (if worker (m_objects p ! i) = Unstarted \<or> worker (m_objects p ! i) = Finished
         then p\<lparr>m_objects := (m_objects p)[i := (m_objects p ! i)\<lparr>worker := Set_running\<rparr>],
                main := Configure_spawn (i + 1) count f\<rparr>
         else p\<lparr>main := Second_thread\<rparr>)
      else p\<lparr>main := Configure_wait (m_totalConfigured p) count f\<rparr>)"

definition configure_wait :: "nat \<Rightarrow> nat \<Rightarrow> nat option \<Rightarrow> ('t, 'r, 'd) thread_pool \<Rightarrow> ('t, 'r, 'd) thread_pool" where
  "configure_wait i count f p =
     (if i < count then set_client i Start_lock (p\<lparr>main := Configure_waiting i count f\<rparr>)
      else p\<lparr>m_totalConfigured := count, main := Configure_end count f\<rparr>)"

definition configure_end :: "nat \<Rightarrow> nat option \<Rightarrow> ('t, 'r, 'd) thread_pool \<Rightarrow> ('t, 'r, 'd) thread_pool" where
  "configure_end count f p =
     p\<lparr>m_currentThread :=
         (if count < m_totalActive p \<and> m_currentThread p \<ge> count then 0 else m_currentThread p),
       m_totalActive := (case f of None \<Rightarrow> count | Some n \<Rightarrow> n),
       main := Ready\<rparr>"

text \<open>
  \<open>exit\<close>: every object is told to exit, and then waited for until the timeout, in milliseconds, is used up;
  \<open>elapsed\<close> is the time that the wait took.
\<close>

definition exit_wait_next :: "nat \<Rightarrow> nat \<Rightarrow> 't main_pc" where
  "exit_wait_next i t = (if t = 0 then Exit_end else Exit_wait (i + 1) t)"

definition exit_waiting ::
  "nat \<Rightarrow> nat \<Rightarrow> nat \<Rightarrow> ('t, 'r, 'd) thread_pool \<Rightarrow> ('t, 'r, 'd) thread_pool option" where
  "exit_waiting elapsed i t p =
     (case object_client p i of
        Idle \<Rightarrow> Some (p\<lparr>main := exit_wait_next i t\<rparr>)
      | Waited \<Rightarrow>
          Some (set_client i Idle (p\<lparr>main := exit_wait_next i (if elapsed < t then t - elapsed else 0)\<rparr>))
      | _ \<Rightarrow> None)"

definition main_move :: "nat \<Rightarrow> ('t, 'r, 'd) thread_pool \<Rightarrow> ('t, 'r, 'd) thread_pool option" where
  "main_move elapsed p =
     (case main p of
        Input t \<Rightarrow> Some (input_begin t p)
      | Input_push t \<Rightarrow>
          (case object_client p (m_currentThread p) of Pushed b \<Rightarrow> Some (input_end t b p) | _ \<Rightarrow> None)
      | Input_result b \<Rightarrow> Some (p\<lparr>main := Ready\<rparr>)
      | Configure count f \<Rightarrow> Some (configure_begin count f p)
      | Configure_spawn i count f \<Rightarrow> Some (configure_spawn i count f p)
      | Configure_wait i count f \<Rightarrow> Some (configure_wait i count f p)
      | Configure_waiting i count f \<Rightarrow>
          if object_client p i = Idle then Some (p\<lparr>main := Configure_wait (i + 1) count f\<rparr>) else None
      | Configure_end count f \<Rightarrow> Some (configure_end count f p)
      | Exit_stop t \<Rightarrow> Some (p\<lparr>m_stop := True, main := Exit_objects 0 t\<rparr>)
      | Exit_objects i t \<Rightarrow>
          if i < m_totalConfigured p then Some (set_client i Exit_test (p\<lparr>main := Exit_calling i t\<rparr>))
          else Some (p\<lparr>main := Exit_wait 0 t\<rparr>)
      | Exit_calling i t \<Rightarrow>
          if object_client p i = Idle then Some (p\<lparr>main := Exit_objects (i + 1) t\<rparr>) else None
      | Exit_wait i t \<Rightarrow>
          if i < m_totalConfigured p then Some (set_client i Wait_exit_test (p\<lparr>main := Exit_waiting i t\<rparr>))
          else Some (p\<lparr>main := Exit_end\<rparr>)
      | Exit_waiting i t \<Rightarrow> exit_waiting elapsed i t p
      | Exit_end \<Rightarrow>
          Some (p\<lparr>m_currentThread := 0, m_totalConfigured := 0, m_totalActive := 0, main := Ready\<rparr>)
      | _ \<Rightarrow> None)"

text \<open>
  The moves of \<open>ThreadFunctionObject::operator()\<close> after \<open>process\<close>, with \<open>ThreadPool::output\<close>, for worker \<open>i\<close>: the new
  position, the owner of \<open>m_taskOutputMutex\<close>, and the result given to \<open>m_outputObject\<close>.
\<close>

fun function_move :: "bool \<Rightarrow> nat \<Rightarrow> nat option \<Rightarrow> ('t, 'r) function_pc \<Rightarrow>
    (('t, 'r) function_pc \<times> nat option \<times> 'r list) option" where
  "function_move stop i m (Process t) = None"
| "function_move stop i m (Stop_test r) = Some (if stop then Function_end else Try_lock r, m, [])"
| "function_move stop i m (Try_lock r) = Some (if m = None then (Owned r, Some i, []) else (Not_owned r, m, []))"
| "function_move stop i m (Not_owned r) = Some (if stop then Function_end else Try_lock r, m, [])"
| "function_move stop i m (Owned r) = Some (if stop then Unlock_output else Output r, m, [])"
| "function_move stop i m (Output r) = Some (Unlock_output, m, [r])"
| "function_move stop i m Unlock_output = Some (Function_end, None, [])"
| "function_move stop i m Function_end = None"

fun_cases function_moveE: "function_move stop i m f = Some x"

text \<open>The moves of an object that are not the calling thread's beginning or return from a method.\<close>

inductive object_move :: "('t, 'r, 'd) thread_object \<Rightarrow> ('t, 'r, 'd) thread_object \<Rightarrow> bool" where
  worker: "worker_move s = Some s' \<Longrightarrow> object_move s s'"
| wait_on_start: "wait_on_start_move s = Some s' \<Longrightarrow> object_move s s'"
| exit: "exit_move s = Some s' \<Longrightarrow> object_move s s'"
| wait_on_exit: "wait_on_exit_move s = Some s' \<Longrightarrow> object_move s s'"
| push_back: "push_back_move s = Some s' \<Longrightarrow> object_move s s'"
| spurious: "worker s = Waiting \<Longrightarrow> object_move s (s\<lparr>worker := Woken\<rparr>)"
| timeout: "client s = Wait_exit_waiting \<Longrightarrow> object_move s (s\<lparr>client := Wait_exit_woken False\<rparr>)"

datatype 't pool_call = Call_input 't | Call_grow nat | Call_shrink nat | Call_exit nat

fun begin_call :: "'t pool_call \<Rightarrow> ('t, 'r, 'd) thread_pool \<Rightarrow> ('t, 'r, 'd) thread_pool" where
  "begin_call (Call_input t) p = p\<lparr>main := Input t\<rparr>"
| "begin_call (Call_grow n) p = p\<lparr>main := Configure ((m_totalActive p + n) mod 2 ^ 64) None\<rparr>"
| "begin_call (Call_shrink n) p =
     (if n \<le> m_totalActive p then p\<lparr>main := Configure (m_totalActive p - n) None\<rparr> else p\<lparr>main := Aborted\<rparr>)"
| "begin_call (Call_exit t) p = p\<lparr>main := Exit_stop t\<rparr>"

text \<open>
  The steps of the pool: \<open>allowed\<close> says which methods the program calls in which states, \<open>process\<close> which
  results \<open>process\<close> of a task may have. An exception that leaves the function of a thread ends the program.
\<close>

definition terminated :: "('t, 'r, 'd) thread_pool \<Rightarrow> bool" where
  "terminated p \<longleftrightarrow> (\<exists>s \<in> set (m_objects p). worker s = Terminated)"

inductive pool_step ::
  "('t pool_call \<Rightarrow> ('t, 'r, 'd) thread_pool \<Rightarrow> bool) \<Rightarrow> ('t \<Rightarrow> 'd \<Rightarrow> 'r \<Rightarrow> 'd \<Rightarrow> bool) \<Rightarrow>
   ('t, 'r, 'd) thread_pool \<Rightarrow> ('t, 'r, 'd) thread_pool \<Rightarrow> bool"
  for allowed process where
  method_called: "\<not> terminated p \<Longrightarrow> main p = Ready \<Longrightarrow> allowed c p \<Longrightarrow> pool_step allowed process p (begin_call c p)"
| main_moves: "\<not> terminated p \<Longrightarrow> main_move elapsed p = Some p' \<Longrightarrow> pool_step allowed process p p'"
| object_moves: "\<not> terminated p \<Longrightarrow> i < length (m_objects p) \<Longrightarrow> object_move (m_objects p ! i) s \<Longrightarrow>
    pool_step allowed process p (p\<lparr>m_objects := (m_objects p)[i := s]\<rparr>)"
| task_processes: "\<not> terminated p \<Longrightarrow> i < length (m_objects p) \<Longrightarrow> m_objects p ! i = s \<Longrightarrow>
    worker s = Function (Process t) \<Longrightarrow> process t (m_data s) r d \<Longrightarrow>
    pool_step allowed process p
      (p\<lparr>m_objects := (m_objects p)[i := s\<lparr>worker := Function (Stop_test r), m_data := d\<rparr>]\<rparr>)"
| task_moves: "\<not> terminated p \<Longrightarrow> i < length (m_objects p) \<Longrightarrow> m_objects p ! i = s \<Longrightarrow>
    worker s = Function f \<Longrightarrow> function_move (m_stop p) i (m_taskOutputMutex p) f = Some (f', m, out) \<Longrightarrow>
    pool_step allowed process p
      (p\<lparr>m_objects := (m_objects p)[i := s\<lparr>worker := Function f'\<rparr>],
         m_taskOutputMutex := m, outputs := outputs p @ map (Pair i) out\<rparr>)"

end
