(* ===== verification/Thread_Pool_Invariant.thy ===== *)
theory Thread_Pool_Invariant
  imports Thread_Pool
begin

text \<open>
  The invariant of the thread pool: for every position of the calling thread, which method of which object it
  is in, how far the life of every object has come, and the bounds of the counters. The moves of
  the workers and of the methods keep it.
\<close>

section \<open>Invariant\<close>

text \<open>Which method of an object the calling thread is in.\<close>

datatype call_phase = No_call | In_start | In_exit | In_wait | In_push | In_rejected

fun client_in :: "call_phase \<Rightarrow> 't client_pc \<Rightarrow> bool" where
  "client_in No_call c = (c = Idle)"
| "client_in In_start c = (c = Idle \<or> c = Start_lock \<or> c = Start_unlock)"
| "client_in In_exit c =
     (c = Idle \<or> c = Exit_test \<or> c = Exit_lock \<or> c = Exit_set \<or> c = Exit_unlock \<or> c = Exit_notify)"
| "client_in In_wait c =
     (case c of
        Idle \<Rightarrow> True | Wait_exit_test \<Rightarrow> True | Wait_exit_lock \<Rightarrow> True | Wait_exit_wait \<Rightarrow> True
      | Wait_exit_waiting \<Rightarrow> True | Wait_exit_woken b \<Rightarrow> True | Wait_exit_unlock \<Rightarrow> True | Waited \<Rightarrow> True
      | _ \<Rightarrow> False)"
| "client_in In_push c =
     (case c of
        Push_test t \<Rightarrow> True | Push_lock t \<Rightarrow> True | Push_empty t \<Rightarrow> True | Push_item t b \<Rightarrow> True
      | Push_unlock b \<Rightarrow> True | Push_notify b \<Rightarrow> True | Pushed b \<Rightarrow> True | _ \<Rightarrow> False)"
| "client_in In_rejected c = (case c of Push_test t \<Rightarrow> True | Pushed b \<Rightarrow> \<not> b | _ \<Rightarrow> False)"

fun phase :: "'t main_pc \<Rightarrow> bool \<Rightarrow> nat \<Rightarrow> nat \<Rightarrow> call_phase" where
  "phase (Input_push t) stop cur j = (if j = cur then (if stop then In_rejected else In_push) else No_call)"
| "phase (Configure_waiting i count f) stop cur j = (if j = i then In_start else No_call)"
| "phase (Exit_calling i t) stop cur j = (if j = i then In_exit else No_call)"
| "phase (Exit_waiting i t) stop cur j = (if j = i then In_wait else No_call)"
| "phase _ stop cur j = No_call"

text \<open>How far the life of an object has come.\<close>

datatype life_stage = New | Spawned | Coming | Up | Leaving | Down

text \<open>The stages in their order.\<close>

fun stage_rank :: "life_stage \<Rightarrow> nat" where
  "stage_rank New = 0"
| "stage_rank Spawned = 1"
| "stage_rank Coming = 2"
| "stage_rank Up = 3"
| "stage_rank Leaving = 4"
| "stage_rank Down = 5"

lemma stage_rank_inj: "stage_rank x = stage_rank y \<Longrightarrow> x = y"
  by (cases x; cases y) simp_all

instantiation life_stage :: linorder
begin

definition less_eq_life_stage :: "life_stage \<Rightarrow> life_stage \<Rightarrow> bool" where
  "less_eq_life_stage x y \<longleftrightarrow> stage_rank x \<le> stage_rank y"

definition less_life_stage :: "life_stage \<Rightarrow> life_stage \<Rightarrow> bool" where
  "less_life_stage x y \<longleftrightarrow> stage_rank x < stage_rank y"

instance
  by standard (auto simp: less_eq_life_stage_def less_life_stage_def intro: stage_rank_inj)

end

definition spawned :: "('t, 'r, 'd) thread_object \<Rightarrow> bool" where
  "spawned s \<longleftrightarrow>
     worker s \<noteq> Unstarted \<and> worker s \<noteq> Terminated \<and> (starting (worker s) \<longrightarrow> m_runningLock s) \<and>
     (m_running s \<or> worker s = Set_running)"

fun in_stage :: "life_stage \<Rightarrow> ('t, 'r, 'd) thread_object \<Rightarrow> bool" where
  "in_stage New s = (worker s = Unstarted)"
| "in_stage Spawned s = spawned s"
| "in_stage Coming s = (spawned s \<and> (client s = Idle \<longrightarrow> \<not> starting (worker s)))"
| "in_stage Up s = (spawned s \<and> \<not> starting (worker s))"
| "in_stage Leaving s =
     (\<not> starting (worker s) \<and> worker s \<noteq> Terminated \<and>
      (client s = Exit_unlock \<or> client s = Exit_notify \<or> client s = Idle \<longrightarrow> \<not> m_running s))"
| "in_stage Down s =
     (\<not> m_running s \<and> (starting (worker s) \<longrightarrow> worker s = Unstarted) \<and> worker s \<noteq> Terminated)"

fun stage :: "'t main_pc \<Rightarrow> bool \<Rightarrow> nat \<Rightarrow> nat \<Rightarrow> life_stage" where
  "stage (Configure_spawn i count f) stop n j = (if j < n then Up else if j < i then Spawned else New)"
| "stage (Configure_wait i count f) stop n j = (if j < i then Up else if j < count then Spawned else New)"
| "stage (Configure_waiting i count f) stop n j =
     (if j < i then Up else if j = i then Coming else if j < count then Spawned else New)"
| "stage (Exit_objects i t) stop n j = (if j < i then Down else if j < n then Up else Down)"
| "stage (Exit_calling i t) stop n j =
     (if j < i then Down else if j = i then Leaving else if j < n then Up else Down)"
| "stage _ stop n j = (if stop then Down else if j < n then Up else New)"

definition object_ok :: "call_phase \<Rightarrow> life_stage \<Rightarrow> ('t, 'r, 'd) thread_object \<Rightarrow> bool" where
  "object_ok ph st s \<longleftrightarrow> thread_object_inv s \<and> client_in ph (client s) \<and> in_stage st s"

text \<open>The counters and the position of the calling thread.\<close>

definition size_ok :: "nat \<Rightarrow> nat option \<Rightarrow> nat \<Rightarrow> bool" where
  "size_ok count f active \<longleftrightarrow> 0 < count \<and> (case f of None \<Rightarrow> 0 < active | Some k \<Rightarrow> k = count)"

fun main_ok :: "'t main_pc \<Rightarrow> bool \<Rightarrow> nat \<Rightarrow> nat \<Rightarrow> nat \<Rightarrow> bool" where
  "main_ok (Configure count f) stop len n active =
     (\<not> stop \<and> size_ok count f active \<and> (f = None \<or> count \<le> len))"
| "main_ok (Configure_spawn i count f) stop len n active =
     (\<not> stop \<and> size_ok count f active \<and> n \<le> i \<and> i \<le> count \<and> count \<le> len)"
| "main_ok (Configure_wait i count f) stop len n active =
     (\<not> stop \<and> size_ok count f active \<and> n \<le> i \<and> i \<le> count \<and> count \<le> len)"
| "main_ok (Configure_waiting i count f) stop len n active =
     (\<not> stop \<and> size_ok count f active \<and> n \<le> i \<and> i < count \<and> count \<le> len)"
| "main_ok (Configure_end count f) stop len n active = (\<not> stop \<and> size_ok count f active \<and> count \<le> n)"
| "main_ok (Exit_objects i t) stop len n active = (stop \<and> i \<le> n)"
| "main_ok (Exit_calling i t) stop len n active = (stop \<and> i < n)"
| "main_ok (Exit_wait i t) stop len n active = (stop \<and> i \<le> n)"
| "main_ok (Exit_waiting i t) stop len n active = (stop \<and> i < n)"
| "main_ok Exit_end stop len n active = stop"
| "main_ok (Exit_stop t) stop len n active = (stop \<longrightarrow> n = 0)"
| "main_ok Out_of_range stop len n active = False"
| "main_ok Aborted stop len n active = False"
| "main_ok Second_thread stop len n active = False"
| "main_ok _ stop len n active = (if stop then n = 0 else 0 < active)"

definition counters_ok :: "('t, 'r, 'd) thread_pool \<Rightarrow> bool" where
  "counters_ok p \<longleftrightarrow>
     0 < length (m_objects p) \<and> length (m_objects p) < 2 ^ 64 \<and>
     m_totalConfigured p \<le> length (m_objects p) \<and> m_totalActive p \<le> m_totalConfigured p \<and>
     (m_currentThread p = 0 \<or> m_currentThread p < m_totalActive p) \<and>
     main_ok (main p) (m_stop p) (length (m_objects p)) (m_totalConfigured p) (m_totalActive p)"

definition objects_ok :: "('t, 'r, 'd) thread_pool \<Rightarrow> bool" where
  "objects_ok p \<longleftrightarrow>
     (\<forall>j < length (m_objects p).
        object_ok (phase (main p) (m_stop p) (m_currentThread p) j)
          (stage (main p) (m_stop p) (m_totalConfigured p) j) (m_objects p ! j))"

definition pool_inv :: "('t, 'r, 'd) thread_pool \<Rightarrow> bool" where
  "pool_inv p \<longleftrightarrow> counters_ok p \<and> objects_ok p"

section \<open>Moves of the objects\<close>

text \<open>A stage that a method of the object does not leave.\<close>

fun compatible :: "call_phase \<Rightarrow> life_stage \<Rightarrow> bool" where
  "compatible ph Leaving = (ph = In_exit)"
| "compatible ph Coming = (ph = In_start)"
| "compatible ph Down = (ph \<noteq> In_push)"
| "compatible ph st = (ph \<noteq> In_exit \<and> ph \<noteq> In_rejected)"

lemma main_ok_compatible:
  "main_ok m stop len n active \<Longrightarrow> active \<le> n \<Longrightarrow> cur = 0 \<or> cur < active \<Longrightarrow>
   compatible (phase m stop cur j) (stage m stop n j)"
  by (cases m) auto

lemma object_move_step: "object_move s s' \<Longrightarrow> thread_object_step s s'"
  by (cases rule: object_move.cases) (auto intro: thread_object_step.intros)

lemma object_move_inv: "object_move s s' \<Longrightarrow> thread_object_inv s \<Longrightarrow> thread_object_inv s'"
  using object_move_step thread_object_step_inv by blast

lemma client_in_notify [simp]: "client_in ph (notify_destruction c) = client_in ph c"
  by (cases c; cases ph) (simp_all add: notify_destruction_def)

lemma worker_move_client:
  assumes "worker_move s = Some s'"
  shows "client s' = client s \<or> client s' = notify_destruction (client s)"
  using assms by (cases "worker s") (auto simp: worker_move_def split: if_splits function_pc.splits)

lemma object_move_client_in:
  assumes "object_move s s'" and "client_in ph (client s)" and "ph = In_rejected \<Longrightarrow> \<not> m_running s"
  shows "client_in ph (client s')"
  using assms(1)
proof cases
  case worker
  then show ?thesis using worker_move_client assms(2) client_in_notify by metis
next
  case wait_on_start
  then show ?thesis using assms(2)
    by (cases "client s"; cases ph) (auto simp: wait_on_start_move_def split: if_splits)
next
  case exit
  then show ?thesis using assms(2)
    by (cases "client s"; cases ph) (auto simp: exit_move_def client_lock_def client_unlock_def split: if_splits)
next
  case wait_on_exit
  then show ?thesis using assms(2)
    by (cases "client s"; cases ph)
      (auto simp: wait_on_exit_move_def client_lock_def client_unlock_def split: if_splits)
next
  case push_back
  then show ?thesis using assms(2,3)
    by (cases "client s"; cases ph)
      (auto simp: push_back_move_def client_lock_def client_unlock_def split: if_splits)
qed (use assms(2) in \<open>cases ph; simp\<close>)+

lemma notify_queue_Terminated [simp]:
  "notify_queue w = Terminated \<longleftrightarrow> w = Terminated" "notify_queue w = Set_running \<longleftrightarrow> w = Set_running"
  by (cases w; simp add: notify_queue_def)+

lemma worker_move_starting:
  assumes "worker_move s = Some s'" and "\<not> starting (worker s)"
  shows "\<not> starting (worker s') \<and> worker s' \<noteq> Terminated \<and> m_running s' = m_running s"
  using assms by (cases "worker s") (auto simp: worker_move_def split: if_splits function_pc.splits)

lemma worker_move_spawned: "worker_move s = Some s' \<Longrightarrow> spawned s \<Longrightarrow> spawned s'"
  by (cases "worker s") (auto simp: worker_move_def spawned_def split: if_splits function_pc.splits)

lemma worker_move_stage:
  assumes "worker_move s = Some s'" and "client_in ph (client s)" and "compatible ph st" and "in_stage st s"
  shows "in_stage st s'"
proof (cases st)
  case New
  then show ?thesis using assms(1,4) by (simp add: worker_move_def)
next
  case Spawned
  then show ?thesis using worker_move_spawned assms(1,4) by simp
next
  case Coming
  then have "client s' = client s"
    using assms(2,3) worker_move_client [OF assms(1)] by (auto simp: notify_destruction_def)
  then show ?thesis using Coming worker_move_spawned worker_move_starting assms(1,4) by auto
next
  case Up
  then show ?thesis using worker_move_spawned worker_move_starting assms(1,4) by auto
next
  case Leaving
  then have "client s' = client s"
    using assms(2,3) worker_move_client [OF assms(1)] by (auto simp: notify_destruction_def)
  then show ?thesis using Leaving worker_move_starting assms(1,4) by auto
next
  case Down
  then have "\<not> starting (worker s)"
    using assms(1,4) by (auto simp: worker_move_def)
  then show ?thesis using Down worker_move_starting assms(1,4) by auto
qed

lemma method_phases:
  "wait_on_start_move s = Some s' \<Longrightarrow> client_in ph (client s) \<Longrightarrow> ph = In_start"
  "exit_move s = Some s' \<Longrightarrow> client_in ph (client s) \<Longrightarrow> ph = In_exit"
  "wait_on_exit_move s = Some s' \<Longrightarrow> client_in ph (client s) \<Longrightarrow> ph = In_wait"
  "push_back_move s = Some s' \<Longrightarrow> client_in ph (client s) \<Longrightarrow> ph = In_push \<or> ph = In_rejected"
  by (cases ph; cases "client s";
      simp add: wait_on_start_move_def exit_move_def wait_on_exit_move_def push_back_move_def)+

lemma wait_on_start_move_stage:
  assumes "wait_on_start_move s = Some s'" and "flags_inv s" and "compatible In_start st" and "in_stage st s"
  shows "in_stage st s'"
  using assms
  by (cases st; cases "client s")
    (auto simp: wait_on_start_move_def flags_inv_def spawned_def split: if_splits)

lemma exit_move_stage:
  assumes "exit_move s = Some s'" and "compatible In_exit st" and "in_stage st s"
  shows "in_stage st s'"
  using assms
  by (cases st; cases "client s")
    (auto simp: exit_move_def client_lock_def client_unlock_def split: if_splits)

lemma wait_on_exit_move_stage:
  assumes "wait_on_exit_move s = Some s'" and "compatible In_wait st" and "in_stage st s"
  shows "in_stage st s'"
  using assms
  by (cases st; cases "client s")
    (auto simp: wait_on_exit_move_def client_lock_def client_unlock_def spawned_def split: if_splits)

lemma push_back_move_stage:
  assumes "push_back_move s = Some s'" and "compatible ph st" and "ph = In_push \<or> ph = In_rejected"
    and "in_stage st s"
  shows "in_stage st s'"
  using assms
  by (cases st; cases "client s")
    (auto simp: push_back_move_def client_lock_def client_unlock_def spawned_def split: if_splits)

lemma object_move_stage:
  assumes "object_move s s'" and "thread_object_inv s"
    and "client_in ph (client s)" and "compatible ph st" and "in_stage st s"
  shows "in_stage st s'"
  using assms(1)
proof cases
  case worker
  then show ?thesis using worker_move_stage assms(3-5) by blast
next
  case wait_on_start
  moreover have "flags_inv s"
    using assms(2) by (simp add: thread_object_inv_def)
  ultimately show ?thesis
    using wait_on_start_move_stage method_phases(1) assms(3-5) by blast
next
  case exit
  then show ?thesis using exit_move_stage method_phases(2) assms(3-5) by blast
next
  case wait_on_exit
  then show ?thesis using wait_on_exit_move_stage method_phases(3) assms(3-5) by blast
next
  case push_back
  then show ?thesis using push_back_move_stage method_phases(4) assms(3-5) by blast
next
  case spurious
  then show ?thesis using assms(5) by (cases st) (simp_all add: spawned_def)
next
  case timeout
  then show ?thesis using assms(3,4,5) by (cases st) (auto simp: spawned_def)
qed

lemma object_move_ok:
  assumes "object_move s s'" and "object_ok ph st s" and "compatible ph st"
  shows "object_ok ph st s'"
proof -
  have "\<not> m_running s" if "ph = In_rejected"
    using assms(2,3) that by (cases st) (auto simp: object_ok_def)
  then show ?thesis
    using assms object_move_inv object_move_client_in object_move_stage unfolding object_ok_def by blast
qed

lemma task_ok:
  assumes "object_ok ph st s" and "worker s = Function f" and "\<forall>t. f' \<noteq> Process t"
  shows "object_ok ph st (s\<lparr>worker := Function f', m_data := d\<rparr>)"
proof -
  have "in_stage st (s\<lparr>worker := Function f', m_data := d\<rparr>)"
    using assms(1,2) by (cases st) (simp_all add: object_ok_def spawned_def)
  then show ?thesis
    using assms function_inv [of s f f' d] by (simp add: object_ok_def)
qed

lemma objects_ok_update:
  assumes "objects_ok p" and "i < length (m_objects p)"
    and "object_ok (phase (main p) (m_stop p) (m_currentThread p) i)
      (stage (main p) (m_stop p) (m_totalConfigured p) i) s"
  shows "objects_ok (p\<lparr>m_objects := (m_objects p)[i := s]\<rparr>)"
  using assms by (auto simp: objects_ok_def nth_list_update)

end
