(* ===== verification/Thread_Pool_Correct.thy ===== *)
theory Thread_Pool_Correct
  imports Thread_Pool_Invariant
begin

text \<open>
  The thread pool as a whole, for a program that gives the constructor a size between one and the
  maximum, does not shrink the pool to nothing and does not resize it after \<open>exit\<close>: no access is out of
  range, no thread ends the program, tasks go to the workers in turn, and results are output by one worker at
  a time. For the other programs, the executions that leave the bounds.
\<close>

section \<open>Moves of the calling thread\<close>

abbreviation pool_phase :: "('t, 'r, 'd) thread_pool \<Rightarrow> nat \<Rightarrow> call_phase" where
  "pool_phase p \<equiv> phase (main p) (m_stop p) (m_currentThread p)"

abbreviation pool_stage :: "('t, 'r, 'd) thread_pool \<Rightarrow> nat \<Rightarrow> life_stage" where
  "pool_stage p \<equiv> stage (main p) (m_stop p) (m_totalConfigured p)"

lemma pool_invI:
  assumes "pool_inv p" and "length (m_objects p') = length (m_objects p)" and "counters_ok p'"
    and "\<And>j. j < length (m_objects p) \<Longrightarrow> object_ok (pool_phase p j) (pool_stage p j) (m_objects p ! j) \<Longrightarrow>
      object_ok (pool_phase p' j) (pool_stage p' j) (m_objects p' ! j)"
  shows "pool_inv p'"
  using assms by (simp add: pool_inv_def objects_ok_def)

lemma pool_inv_object:
  "pool_inv p \<Longrightarrow> j < length (m_objects p) \<Longrightarrow> object_ok (pool_phase p j) (pool_stage p j) (m_objects p ! j)"
  by (simp add: pool_inv_def objects_ok_def)

lemma length_set_client [simp]: "length (m_objects (set_client i c p)) = length (m_objects p)"
  "m_objects (set_client i c p) = [] \<longleftrightarrow> m_objects p = []"
  by (simp_all add: set_client_def)

lemma set_client_simps [simp]:
  "main (set_client i c p) = main p" "m_stop (set_client i c p) = m_stop p"
  "m_currentThread (set_client i c p) = m_currentThread p"
  "m_totalConfigured (set_client i c p) = m_totalConfigured p"
  "m_totalActive (set_client i c p) = m_totalActive p"
  "m_taskOutputMutex (set_client i c p) = m_taskOutputMutex p"
  "inputs (set_client i c p) = inputs p"
  by (simp_all add: set_client_def)

lemma nth_set_client:
  "j < length (m_objects p) \<Longrightarrow>
   m_objects (set_client i c p) ! j = (if j = i then (m_objects p ! j)\<lparr>client := c\<rparr> else m_objects p ! j)"
  by (auto simp: set_client_def nth_list_update)

text \<open>The beginning of a method of an object, and the return from it.\<close>

lemma object_ok_call:
  assumes "object_ok No_call st s" and "method_call c" and "client_in ph c" and "in_stage st' (s\<lparr>client := c\<rparr>)"
  shows "object_ok ph st' (s\<lparr>client := c\<rparr>)"
proof -
  have "thread_object_inv (s\<lparr>client := c\<rparr>)"
    by (rule client_inv) (use assms(1,2) in \<open>cases c; simp add: object_ok_def\<close>)+
  then show ?thesis
    using assms(3,4) by (simp add: object_ok_def)
qed

lemma object_ok_return:
  assumes "object_ok ph st s" and "client s = Waited \<or> client s = Pushed b" and "in_stage st (s\<lparr>client := Idle\<rparr>)"
  shows "object_ok No_call st (s\<lparr>client := Idle\<rparr>)"
proof -
  have "thread_object_inv (s\<lparr>client := Idle\<rparr>)"
    by (rule client_inv) (use assms(1,2) in \<open>auto simp: object_ok_def\<close>)
  then show ?thesis
    using assms(3) by (simp add: object_ok_def)
qed

lemma object_ok_Idle: "object_ok ph st s \<Longrightarrow> client s = Idle \<Longrightarrow> in_stage st' s \<Longrightarrow> object_ok No_call st' s"
  by (simp add: object_ok_def)

lemma Unstarted_flags: "thread_object_inv s \<Longrightarrow> worker s = Unstarted \<Longrightarrow> \<not> m_running s \<and> m_runningLock s"
  by (simp add: thread_object_inv_def flags_inv_def)

lemma object_ok_spawns: "object_ok No_call New s \<Longrightarrow> object_ok No_call Spawned (s\<lparr>worker := Set_running\<rparr>)"
  using spawns_inv [of s] Unstarted_flags [of s] by (simp add: object_ok_def spawned_def)

lemma input_begin_inv:
  assumes "pool_inv p" and "main p = Input t"
  shows "pool_inv (input_begin t p)"
proof -
  have c: "m_currentThread p < length (m_objects p)"
    using assms by (auto simp: pool_inv_def counters_ok_def)
  show ?thesis
  proof (rule pool_invI [OF assms(1)])
    show "counters_ok (input_begin t p)"
      using assms c by (auto simp: pool_inv_def counters_ok_def input_begin_def)
    show "object_ok (pool_phase (input_begin t p) j) (pool_stage (input_begin t p) j) (m_objects (input_begin t p) ! j)"
      if "j < length (m_objects p)" "object_ok (pool_phase p j) (pool_stage p j) (m_objects p ! j)" for j
      using that c assms(2)
      by (auto simp: input_begin_def nth_set_client intro!: object_ok_call) (auto simp: object_ok_def spawned_def)
  qed (use c in \<open>simp add: input_begin_def\<close>)
qed

lemma next_thread_bound:
  "current < active \<Longrightarrow> active < 2 ^ 64 \<Longrightarrow> next_thread current active = (current + 1) mod active \<and> next_thread current active < active"
  by (cases "current + 1 = active") (simp_all add: next_thread_def)

lemma input_end_inv:
  assumes "pool_inv p" and "main p = Input_push t" and "object_client p (m_currentThread p) = Pushed b"
  shows "pool_inv (input_end t b p)"
proof -
  have c: "m_currentThread p < length (m_objects p)" and k: "counters_ok p"
    using assms by (auto simp: pool_inv_def counters_ok_def)
  have b: "b \<Longrightarrow> \<not> m_stop p"
    using pool_inv_object [OF assms(1) c] assms(2,3) by (auto simp: object_ok_def object_client_def)
  show ?thesis
  proof (rule pool_invI [OF assms(1)])
    show "counters_ok (input_end t b p)"
      using k b assms(2) next_thread_bound [of "m_currentThread p" "m_totalActive p"]
      by (auto simp: counters_ok_def input_end_def)
    show "object_ok (pool_phase (input_end t b p) j) (pool_stage (input_end t b p) j) (m_objects (input_end t b p) ! j)"
      if "j < length (m_objects p)" "object_ok (pool_phase p j) (pool_stage p j) (m_objects p ! j)" for j
      using that assms(2,3)
      by (auto simp: input_end_def nth_set_client object_client_def intro!: object_ok_return)
        (auto simp: object_ok_def spawned_def)
  qed (simp add: input_end_def)
qed

lemma configure_begin_inv:
  assumes "pool_inv p" and "main p = Configure count f"
  shows "pool_inv (configure_begin count f p)"
  using assms
  by (intro pool_invI [OF assms(1)])
    (auto simp: configure_begin_def Let_def pool_inv_def counters_ok_def size_ok_def split: option.splits)

lemma configure_spawn_inv:
  assumes "pool_inv p" and "main p = Configure_spawn i count f"
  shows "pool_inv (configure_spawn i count f p)"
proof -
  have k: "counters_ok p" and i: "i \<le> count" "count \<le> length (m_objects p)" "m_totalConfigured p \<le> i"
    using assms by (auto simp: pool_inv_def counters_ok_def)
  have new: "worker (m_objects p ! i) = Unstarted" if "i < count"
    using pool_inv_object [OF assms(1), of i] assms(2) i that by (simp add: object_ok_def)
  show ?thesis
  proof (rule pool_invI [OF assms(1)])
    show "counters_ok (configure_spawn i count f p)"
      using k new assms(2) by (auto simp: counters_ok_def configure_spawn_def)
    show "object_ok (pool_phase (configure_spawn i count f p) j) (pool_stage (configure_spawn i count f p) j)
        (m_objects (configure_spawn i count f p) ! j)"
      if "j < length (m_objects p)" "object_ok (pool_phase p j) (pool_stage p j) (m_objects p ! j)" for j
      using that assms(2) i new object_ok_spawns [of "m_objects p ! i"]
      by (auto simp: configure_spawn_def nth_list_update less_Suc_eq split: if_splits)
  qed (simp add: configure_spawn_def)
qed

lemma configure_wait_inv:
  assumes "pool_inv p" and "main p = Configure_wait i count f"
  shows "pool_inv (configure_wait i count f p)"
proof -
  have k: "counters_ok p" and i: "i \<le> count" "count \<le> length (m_objects p)" "m_totalConfigured p \<le> i"
    using assms by (auto simp: pool_inv_def counters_ok_def)
  show ?thesis
  proof (rule pool_invI [OF assms(1)])
    show "counters_ok (configure_wait i count f p)"
      using k assms(2) by (auto simp: counters_ok_def configure_wait_def)
    show "object_ok (pool_phase (configure_wait i count f p) j) (pool_stage (configure_wait i count f p) j)
        (m_objects (configure_wait i count f p) ! j)"
      if "j < length (m_objects p)" "object_ok (pool_phase p j) (pool_stage p j) (m_objects p ! j)" for j
      using that assms(2) i k
      by (auto simp: configure_wait_def nth_set_client counters_ok_def intro!: object_ok_call split: if_splits)
        (auto simp: object_ok_def spawned_def)
  qed (simp add: configure_wait_def)
qed

lemma configure_waiting_inv:
  assumes "pool_inv p" and "main p = Configure_waiting i count f" and "object_client p i = Idle"
  shows "pool_inv (p\<lparr>main := Configure_wait (i + 1) count f\<rparr>)"
  using assms
  by (intro pool_invI [OF assms(1)])
    (auto simp: pool_inv_def counters_ok_def object_client_def object_ok_def split: if_splits)

lemma configure_end_inv:
  assumes "pool_inv p" and "main p = Configure_end count f"
  shows "pool_inv (configure_end count f p)"
  using assms
  by (intro pool_invI [OF assms(1)])
    (auto simp: configure_end_def pool_inv_def counters_ok_def size_ok_def split: option.splits)

lemma exit_stop_inv:
  assumes "pool_inv p" and "main p = Exit_stop t"
  shows "pool_inv (p\<lparr>m_stop := True, main := Exit_objects 0 t\<rparr>)"
  using assms
  by (intro pool_invI [OF assms(1)])
    (auto simp: pool_inv_def counters_ok_def object_ok_def Unstarted_flags split: if_splits)

lemma exit_objects_inv:
  assumes "pool_inv p" and "main p = Exit_objects i t" and "i < m_totalConfigured p"
  shows "pool_inv (set_client i Exit_test (p\<lparr>main := Exit_calling i t\<rparr>))"
proof (rule pool_invI [OF assms(1)])
  show "object_ok (pool_phase (set_client i Exit_test (p\<lparr>main := Exit_calling i t\<rparr>)) j)
      (pool_stage (set_client i Exit_test (p\<lparr>main := Exit_calling i t\<rparr>)) j)
      (m_objects (set_client i Exit_test (p\<lparr>main := Exit_calling i t\<rparr>)) ! j)"
    if "j < length (m_objects p)" "object_ok (pool_phase p j) (pool_stage p j) (m_objects p ! j)" for j
    using that assms(2,3)
    by (auto simp: nth_set_client intro!: object_ok_call split: if_splits)
      (auto simp: object_ok_def spawned_def)
qed (use assms in \<open>auto simp: pool_inv_def counters_ok_def\<close>)

lemma exit_objects_end_inv:
  assumes "pool_inv p" and "main p = Exit_objects i t" and "\<not> i < m_totalConfigured p"
  shows "pool_inv (p\<lparr>main := Exit_wait 0 t\<rparr>)"
  using assms
  by (intro pool_invI [OF assms(1)])
    (auto simp: pool_inv_def counters_ok_def split: if_splits)

lemma exit_calling_inv:
  assumes "pool_inv p" and "main p = Exit_calling i t" and "object_client p i = Idle"
  shows "pool_inv (p\<lparr>main := Exit_objects (i + 1) t\<rparr>)"
  using assms
  by (intro pool_invI [OF assms(1)])
    (auto simp: pool_inv_def counters_ok_def object_client_def object_ok_def split: if_splits)

lemma exit_wait_inv:
  assumes "pool_inv p" and "main p = Exit_wait i t" and "i < m_totalConfigured p"
  shows "pool_inv (set_client i Wait_exit_test (p\<lparr>main := Exit_waiting i t\<rparr>))"
proof (rule pool_invI [OF assms(1)])
  show "object_ok (pool_phase (set_client i Wait_exit_test (p\<lparr>main := Exit_waiting i t\<rparr>)) j)
      (pool_stage (set_client i Wait_exit_test (p\<lparr>main := Exit_waiting i t\<rparr>)) j)
      (m_objects (set_client i Wait_exit_test (p\<lparr>main := Exit_waiting i t\<rparr>)) ! j)"
    if "j < length (m_objects p)" "object_ok (pool_phase p j) (pool_stage p j) (m_objects p ! j)" for j
    using that assms
    by (auto simp: nth_set_client pool_inv_def counters_ok_def intro!: object_ok_call split: if_splits)
      (auto simp: object_ok_def)
qed (use assms in \<open>auto simp: pool_inv_def counters_ok_def\<close>)

lemma exit_wait_end_inv:
  assumes "pool_inv p" and "main p = Exit_wait i t" and "\<not> i < m_totalConfigured p"
  shows "pool_inv (p\<lparr>main := Exit_end\<rparr>)"
  using assms by (intro pool_invI [OF assms(1)]) (auto simp: pool_inv_def counters_ok_def)

lemma exit_waiting_inv:
  assumes "pool_inv p" and "main p = Exit_waiting i t" and "exit_waiting elapsed i t p = Some p'"
  shows "pool_inv p'"
proof -
  have k: "counters_ok p" and i: "i < m_totalConfigured p" "m_stop p"
    using assms by (auto simp: pool_inv_def counters_ok_def)
  define m where "m = main p'"
  have m: "m = Exit_end \<or> (\<exists>t'. m = Exit_wait (i + 1) t')"
    using assms(3)
    by (auto simp: m_def exit_waiting_def exit_wait_next_def split: client_pc.splits if_splits)
  consider "object_client p i = Idle" "p' = p\<lparr>main := m\<rparr>"
    | "object_client p i = Waited" "p' = set_client i Idle (p\<lparr>main := m\<rparr>)"
    using assms(3) by (auto simp: m_def exit_waiting_def split: client_pc.splits)
  then show ?thesis
  proof cases
    case 1
    then show ?thesis
      using m i k assms(2)
      by (intro pool_invI [OF assms(1)]) (auto simp: counters_ok_def object_client_def object_ok_def split: if_splits)
  next
    case 2
    show ?thesis
    proof (rule pool_invI [OF assms(1)])
      show "object_ok (pool_phase p' j) (pool_stage p' j) (m_objects p' ! j)"
        if "j < length (m_objects p)" "object_ok (pool_phase p j) (pool_stage p j) (m_objects p ! j)" for j
        using that 2 m i assms(2)
        by (auto simp: nth_set_client object_client_def intro!: object_ok_return [where ph = In_wait] split: if_splits)
          (auto simp: object_ok_def)
    qed (use 2 m i k in \<open>auto simp: counters_ok_def\<close>)
  qed
qed

lemma exit_end_inv:
  assumes "pool_inv p" and "main p = Exit_end"
  shows "pool_inv (p\<lparr>m_currentThread := 0, m_totalConfigured := 0, m_totalActive := 0, main := Ready\<rparr>)"
  using assms by (intro pool_invI [OF assms(1)]) (auto simp: pool_inv_def counters_ok_def)

lemma main_move_inv:
  assumes "pool_inv p" and "main_move elapsed p = Some p'"
  shows "pool_inv p'"
proof (cases "main p")
  case (Input_push t)
  then show ?thesis
    using assms input_end_inv by (auto simp: main_move_def split: client_pc.splits)
next
  case (Input_result b)
  then show ?thesis
    using assms by (intro pool_invI [OF assms(1)]) (auto simp: main_move_def pool_inv_def counters_ok_def)
qed (use assms input_begin_inv configure_begin_inv configure_spawn_inv configure_wait_inv configure_waiting_inv
      configure_end_inv exit_stop_inv exit_objects_inv exit_objects_end_inv exit_calling_inv exit_wait_inv
      exit_wait_end_inv exit_waiting_inv exit_end_inv in \<open>auto simp: main_move_def split: if_splits\<close>)

section \<open>Reachable states\<close>

text \<open>
  The programs that stay in bounds: the first size is between one and the maximum, the pool is
  neither grown past the range of \<open>size_t\<close> nor shrunk to nothing, and not resized after \<open>exit\<close>.
\<close>

definition proper_pool :: "('t, 'r, 'd) thread_pool \<Rightarrow> bool" where
  "proper_pool p \<longleftrightarrow>
     (\<exists>initialSize maxSize d. 0 < initialSize \<and> initialSize \<le> maxSize \<and> maxSize < 2 ^ 64 \<and>
        p = ThreadPool initialSize maxSize d)"

fun proper_call :: "'t pool_call \<Rightarrow> ('t, 'r, 'd) thread_pool \<Rightarrow> bool" where
  "proper_call (Call_input t) p = True"
| "proper_call (Call_grow n) p = (\<not> m_stop p \<and> m_totalActive p + n < 2 ^ 64)"
| "proper_call (Call_shrink n) p = (\<not> m_stop p \<and> n < m_totalActive p)"
| "proper_call (Call_exit t) p = True"

lemma new_object_ok: "object_ok No_call New (ThreadObjectData d)"
  using new_object_inv [of "ThreadObjectData d"] by (auto simp: object_ok_def new_object_def ThreadObjectData_def)

lemma proper_pool_inv: "proper_pool p \<Longrightarrow> pool_inv p"
  by (auto simp: proper_pool_def ThreadPool_def pool_inv_def counters_ok_def objects_ok_def size_ok_def new_object_ok)

lemma begin_call_inv:
  assumes "pool_inv p" and "main p = Ready" and "proper_call c p"
  shows "pool_inv (begin_call c p)"
  using assms
  by (cases c; intro pool_invI [OF assms(1)]) (auto simp: pool_inv_def counters_ok_def size_ok_def)

lemma counters_ok_objects:
  "length xs = length (m_objects p) \<Longrightarrow> counters_ok (p\<lparr>m_objects := xs\<rparr>) = counters_ok p"
  by (simp add: counters_ok_def del: length_greater_0_conv)

lemma pool_inv_frame [simp]:
  "pool_inv (p\<lparr>m_taskOutputMutex := m\<rparr>) = pool_inv p"
  "pool_inv (p\<lparr>outputs := os\<rparr>) = pool_inv p"
  by (simp_all add: pool_inv_def counters_ok_def objects_ok_def)

lemma object_update_inv:
  assumes "pool_inv p" and "i < length (m_objects p)" and "object_ok (pool_phase p i) (pool_stage p i) s"
  shows "pool_inv (p\<lparr>m_objects := (m_objects p)[i := s]\<rparr>)"
  using objects_ok_update [OF _ assms(2,3)] assms(1) by (simp add: pool_inv_def counters_ok_objects)

lemma pool_compatible:
  assumes "pool_inv p"
  shows "compatible (pool_phase p i) (pool_stage p i)"
  using assms unfolding pool_inv_def counters_ok_def by (intro main_ok_compatible) blast+

lemma function_move_Process: "function_move stop i m f = Some (f', m', out) \<Longrightarrow> f' \<noteq> Process t"
  by (elim function_moveE) (auto split: if_splits)

lemma pool_step_inv:
  assumes "pool_step proper_call process p p'" and "pool_inv p"
  shows "pool_inv p'"
  using assms(1)
proof cases
  case (method_called c)
  then show ?thesis using begin_call_inv assms(2) by blast
next
  case (main_moves elapsed)
  then show ?thesis using main_move_inv assms(2) by blast
next
  case (object_moves i s)
  then show ?thesis
    using object_update_inv [OF assms(2)] object_move_ok pool_inv_object [OF assms(2)] pool_compatible [OF assms(2)]
    by blast
next
  case (task_processes i s t r d)
  then have "object_ok (pool_phase p i) (pool_stage p i) (s\<lparr>worker := Function (Stop_test r), m_data := d\<rparr>)"
    using pool_inv_object [OF assms(2)] by (intro task_ok) auto
  then show ?thesis
    using object_update_inv [OF assms(2)] task_processes by blast
next
  case (task_moves i s f f' m out)
  let ?s = "s\<lparr>worker := Function f', m_data := m_data s\<rparr>"
  have "object_ok (pool_phase p i) (pool_stage p i) ?s"
    using pool_inv_object [OF assms(2)] task_moves(3-5) function_move_Process [OF task_moves(6)]
    by (intro task_ok) auto
  then have "pool_inv (p\<lparr>m_objects := (m_objects p)[i := ?s]\<rparr>)"
    using object_update_inv [OF assms(2)] task_moves(3) by blast
  then show ?thesis
    using task_moves(1) by simp
qed

interpretation thread_pool: invariant proper_pool "pool_step proper_call process" pool_inv for process
  by unfold_locales (fact proper_pool_inv, fact pool_step_inv)

text \<open>
  C29: No program that gives a thread pool a first size between one and its maximum, and neither shrinks it to
  nothing nor resizes it after \<open>exit\<close>, indexes \<open>m_objects\<close> out of range or fails an assertion, no thread ends the
  program, and the counters are in order: the next worker is an active one, unless \<open>exit\<close> has been called.
\<close>

theorem thread_pool_in_bounds:
  assumes "reach proper_pool (pool_step proper_call process) p"
  shows "main p \<noteq> Out_of_range \<and> main p \<noteq> Aborted \<and> main p \<noteq> Second_thread \<and> \<not> terminated p \<and>
    m_totalActive p \<le> m_totalConfigured p \<and> m_totalConfigured p \<le> length (m_objects p) \<and>
    (main p = Ready \<and> \<not> m_stop p \<longrightarrow> m_currentThread p < m_totalActive p)"
proof -
  have inv: "pool_inv p"
    using thread_pool.inv_reach [OF assms] .
  have "worker (m_objects p ! j) \<noteq> Terminated" if "j < length (m_objects p)" for j
    using pool_inv_object [OF inv that] by (cases "pool_stage p j") (auto simp: object_ok_def spawned_def)
  then have "\<not> terminated p"
    by (auto simp: terminated_def in_set_conv_nth)
  then show ?thesis
    using inv by (auto simp: pool_inv_def counters_ok_def)
qed

end
