(* ===== verification/Thread_Pool_Order.thy ===== *)
theory Thread_Pool_Order
  imports Thread_Pool_Correct
begin

text \<open>
  Where the tasks of a thread pool go: every object of the pool is in a state that the object's own step
  relation reaches, the tasks that \<open>input\<close> accepted are the tasks of the queues, given to the active workers in
  turn, and results are output by one worker at a time.
\<close>

section \<open>The objects of a pool\<close>

lemma thread_object_steps_reach:
  "thread_object_step\<^sup>*\<^sup>* s s' \<Longrightarrow> object_reach s \<Longrightarrow> object_reach s'"
  by (induction rule: rtranclp_induct) (auto intro: reach.step)

lemma set_client_step:
  assumes "j < length (m_objects p)" and "client (m_objects p ! i) = Idle" and "method_call c"
  shows "thread_object_step\<^sup>=\<^sup>= (m_objects p ! j) (m_objects (set_client i c p) ! j)"
proof (cases "j = i")
  case True
  then show ?thesis
    using assms by (cases c) (auto simp: nth_set_client intro: thread_object_step.intros)
qed (use assms in \<open>simp add: nth_set_client\<close>)

lemma set_client_return:
  assumes "j < length (m_objects p)" and "client (m_objects p ! i) = Waited \<or> client (m_objects p ! i) = Pushed b"
  shows "thread_object_step\<^sup>=\<^sup>= (m_objects p ! j) (m_objects (set_client i Idle p) ! j)"
  using assms by (cases "j = i") (auto simp: nth_set_client intro: returns)

lemma pool_inv_Idle:
  "pool_inv p \<Longrightarrow> pool_phase p j = No_call \<Longrightarrow> j < length (m_objects p) \<Longrightarrow> client (m_objects p ! j) = Idle"
  using pool_inv_object [of p j] by (simp add: object_ok_def)

lemma m_objects_set_client_main [simp]:
  "m_objects (set_client i c (p\<lparr>main := m\<rparr>)) = m_objects (set_client i c p)"
  "m_objects (set_client i c (p\<lparr>m_taskInputMutex := b\<rparr>)) = m_objects (set_client i c p)"
  by (simp_all add: set_client_def)

lemma main_move_objects:
  assumes "pool_inv p" and "main_move elapsed p = Some p'" and "j < length (m_objects p)"
  shows "thread_object_step\<^sup>=\<^sup>= (m_objects p ! j) (m_objects p' ! j)"
proof -
  have k: "counters_ok p"
    using assms(1) by (simp add: pool_inv_def)
  show ?thesis
  proof (cases "main p")
    case (Input t)
    then have "client (m_objects p ! m_currentThread p) = Idle"
      using k assms(1) by (intro pool_inv_Idle) (auto simp: counters_ok_def)
    then show ?thesis
      using set_client_step [OF assms(3), of "m_currentThread p" "Push_test t"] Input assms(2)
      by (auto simp: main_move_def input_begin_def split: if_splits)
  next
    case (Input_push t)
    then obtain b where "client (m_objects p ! m_currentThread p) = Pushed b" "p' = input_end t b p"
      using assms(2) by (auto simp: main_move_def object_client_def split: client_pc.splits)
    then show ?thesis
      using set_client_return [OF assms(3)] by (simp add: input_end_def)
  next
    case (Configure_spawn i count f)
    show ?thesis
    proof (cases "i < count \<and> j = i")
      case True
      have "client (m_objects p ! i) = Idle"
        using assms(1,3) Configure_spawn True by (intro pool_inv_Idle) auto
      then show ?thesis
        using True Configure_spawn assms(2,3) by (auto simp: main_move_def configure_spawn_def intro: spawns)
    qed (use Configure_spawn assms(2) in \<open>auto simp: main_move_def configure_spawn_def\<close>)
  next
    case (Configure_wait i count f)
    then have "client (m_objects p ! i) = Idle" if "i < count"
      using k assms(1) that by (intro pool_inv_Idle) (auto simp: counters_ok_def)
    then show ?thesis
      using set_client_step [OF assms(3), of i Start_lock] Configure_wait assms(2)
      by (auto simp: main_move_def configure_wait_def split: if_splits)
  next
    case (Exit_objects i t)
    then have "client (m_objects p ! i) = Idle" if "i < m_totalConfigured p"
      using k assms(1) that by (intro pool_inv_Idle) (auto simp: counters_ok_def)
    then show ?thesis
      using set_client_step [OF assms(3), of i Exit_test] Exit_objects assms(2) by (auto simp: main_move_def split: if_splits)
  next
    case (Exit_wait i t)
    then have "client (m_objects p ! i) = Idle" if "i < m_totalConfigured p"
      using k assms(1) that by (intro pool_inv_Idle) (auto simp: counters_ok_def)
    then show ?thesis
      using set_client_step [OF assms(3), of i Wait_exit_test] Exit_wait assms(2) by (auto simp: main_move_def split: if_splits)
  next
    case (Exit_waiting i t)
    then show ?thesis
      using set_client_return [OF assms(3), of i] assms(2)
      by (auto simp: main_move_def exit_waiting_def object_client_def split: client_pc.splits)
  qed (use assms(2) in \<open>auto simp: main_move_def configure_begin_def configure_end_def Let_def split: if_splits\<close>)
qed

lemma main_move_length: "main_move elapsed p = Some p' \<Longrightarrow> length (m_objects p') = length (m_objects p)"
  by (cases "main p")
    (auto simp: main_move_def input_begin_def input_end_def configure_begin_def configure_spawn_def
       configure_wait_def configure_end_def exit_waiting_def Let_def split: if_splits client_pc.splits)

lemma begin_call_objects [simp]: "m_objects (begin_call c p) = m_objects p"
  by (cases c) simp_all

lemma nth_update_step:
  assumes "thread_object_step (xs ! i) s" and "i < length xs"
  shows "thread_object_step\<^sup>=\<^sup>= (xs ! j) (xs[i := s] ! j)"
  using assms by (cases "j = i") simp_all

lemma pool_step_objects:
  assumes "pool_step proper_call process p p'" and "pool_inv p"
  shows "length (m_objects p') = length (m_objects p) \<and>
    (\<forall>j < length (m_objects p). thread_object_step\<^sup>=\<^sup>= (m_objects p ! j) (m_objects p' ! j))"
  using assms(1)
proof cases
  case (method_called c)
  then show ?thesis by simp
next
  case (main_moves elapsed)
  then show ?thesis using main_move_length main_move_objects [OF assms(2)] by blast
next
  case (object_moves i s)
  then have "thread_object_step (m_objects p ! i) s"
    using object_move_step by blast
  then show ?thesis using nth_update_step [of "m_objects p" i s] object_moves(1,3) by simp
next
  case (task_processes i s t r d)
  then have "thread_object_step (m_objects p ! i) (s\<lparr>worker := Function (Stop_test r), m_data := d\<rparr>)"
    using function_moves [of s "Process t" "Stop_test r" d] by simp
  from nth_update_step [OF this task_processes(3)] show ?thesis
    using task_processes(1) by simp
next
  case (task_moves i s f f' m out)
  have "f \<noteq> Function_end"
    using task_moves(6) by auto
  then have "thread_object_step (m_objects p ! i) (s\<lparr>worker := Function f'\<rparr>)"
    using function_moves [of s f f' "m_data s"] function_move_Process [OF task_moves(6)] task_moves(4,5) by simp
  from nth_update_step [OF this task_moves(3)] show ?thesis
    using task_moves(1) by simp
qed

text \<open>Every object of a pool is in a reachable state of its own step relation.\<close>

lemma pool_objects_reach:
  assumes "reach proper_pool (pool_step proper_call process) p"
  shows "\<forall>j < length (m_objects p). object_reach (m_objects p ! j)"
  using assms
proof (induction rule: reach.induct)
  case (start p)
  then show ?case by (auto simp: proper_pool_def ThreadPool_def new_object_reach)
next
  case (step p p')
  have o: "length (m_objects p') = length (m_objects p)"
      "\<And>j. j < length (m_objects p) \<Longrightarrow> thread_object_step\<^sup>=\<^sup>= (m_objects p ! j) (m_objects p' ! j)"
    using pool_step_objects [OF step.hyps(2) thread_pool.inv_reach [OF step.hyps(1)]] by blast+
  show ?case
  proof (intro allI impI)
    fix j
    assume "j < length (m_objects p')"
    then have j: "j < length (m_objects p)"
      using o(1) by simp
    have "object_reach (m_objects p ! j)"
      using step.IH j by simp
    then show "object_reach (m_objects p' ! j)"
      using o(2) [OF j] by (elim sup2E) (auto intro: reach.step)
  qed
qed

section \<open>The life of an object\<close>

lemma main_move_stage:
  assumes "pool_inv p" and "main_move elapsed p = Some p'"
  shows "pool_stage p j \<le> pool_stage p' j"
proof -
  have "counters_ok p" "counters_ok p'"
    using assms main_move_inv by (auto simp: pool_inv_def)
  then show ?thesis
    using assms(2)
    by (cases "main p")
      (auto simp: main_move_def input_begin_def input_end_def configure_begin_def configure_spawn_def
         configure_wait_def configure_end_def exit_waiting_def exit_wait_next_def counters_ok_def Let_def
         less_eq_life_stage_def split: if_splits client_pc.splits)
qed

text \<open>
  The life of an object only advances: it is created, its thread is spawned, waited for and running, told to
  leave and down, and no step goes back.
\<close>

lemma pool_life_advances:
  assumes "pool_step proper_call process p p'" and "pool_inv p"
  shows "pool_stage p j \<le> pool_stage p' j"
  using assms(1)
proof cases
  case (method_called c)
  then show ?thesis by (cases c) auto
next
  case (main_moves elapsed)
  then show ?thesis using main_move_stage assms(2) by blast
qed auto

text \<open>
  After \<open>exit\<close>, every worker that is left alone leaves, and \<open>input\<close> accepts nothing: no worker is running any more.
\<close>

lemma stopped_workers_leave:
  assumes "reach proper_pool (pool_step proper_call process) p" and "main p = Ready" and "m_stop p"
    and "j < length (m_objects p)"
  shows "\<not> m_running (m_objects p ! j) \<and> (worker (m_objects p ! j) = Unstarted \<or>
    (\<exists>s. run_alone (m_objects p ! j) = Some s \<and> worker s = Finished \<and> m_exited s))"
proof -
  have ok: "client (m_objects p ! j) = Idle" "in_stage Down (m_objects p ! j)"
    using pool_inv_object [OF thread_pool.inv_reach [OF assms(1)] assms(4)] assms(2,3) by (simp_all add: object_ok_def)
  show ?thesis
  proof (cases "worker (m_objects p ! j) = Unstarted")
    case False
    then show ?thesis
      using worker_leaves [of "m_objects p ! j"] pool_objects_reach [OF assms(1)] assms(4) ok by auto
  qed (use ok in simp)
qed

section \<open>The tasks of a pool\<close>

text \<open>The task that a running \<open>push_back\<close> has appended but not yet returned for.\<close>

fun pending :: "'t \<Rightarrow> 't client_pc \<Rightarrow> 't list" where
  "pending t (Push_unlock b) = [t]"
| "pending t (Push_notify b) = [t]"
| "pending t (Pushed b) = (if b then [t] else [])"
| "pending t _ = []"

fun carries :: "'t \<Rightarrow> 't client_pc \<Rightarrow> bool" where
  "carries t (Push_test t') = (t' = t)"
| "carries t (Push_lock t') = (t' = t)"
| "carries t (Push_empty t') = (t' = t)"
| "carries t (Push_item t' b) = (t' = t)"
| "carries t _ = True"

fun pushing :: "'t main_pc \<Rightarrow> 't client_pc \<Rightarrow> 't list" where
  "pushing (Input_push t) c = pending t c"
| "pushing _ c = []"

fun carried :: "'t main_pc \<Rightarrow> 't client_pc \<Rightarrow> bool" where
  "carried (Input_push t) c = carries t c"
| "carried _ c = True"

definition given :: "nat \<Rightarrow> (nat \<times> 't) list \<Rightarrow> 't list" where
  "given j xs = map snd (filter (\<lambda>x. fst x = j) xs)"

definition inputs_ok :: "'t main_pc \<Rightarrow> 't list \<Rightarrow> ('t, 'r, 'd) thread_object \<Rightarrow> bool" where
  "inputs_ok m xs s \<longleftrightarrow> accepted s = xs @ pushing m (client s) \<and> carried m (client s)"

definition inputs_inv :: "('t, 'r, 'd) thread_pool \<Rightarrow> bool" where
  "inputs_inv p \<longleftrightarrow>
     (\<forall>j < length (m_objects p). inputs_ok (main p) (given j (inputs p)) (m_objects p ! j))"

lemma given_append: "given j (xs @ [(i, t)]) = given j xs @ (if i = j then [t] else [])"
  by (simp add: given_def)

lemma pending_notify [simp]:
  "pending t (notify_destruction c) = pending t c" "carries t (notify_destruction c) = carries t c"
  by (cases c; simp add: notify_destruction_def)+

lemma worker_move_accepted: "worker_move s = Some s' \<Longrightarrow> accepted s' = accepted s"
  by (cases "worker s") (auto simp: worker_move_def split: if_splits function_pc.splits)

lemma object_move_accepted:
  assumes "object_move s s'" and "accepted s = xs @ pending t (client s)" and "carries t (client s)"
  shows "accepted s' = xs @ pending t (client s') \<and> carries t (client s')"
  using assms(1)
proof cases
  case worker
  then show ?thesis
    using worker_move_accepted [OF worker] worker_move_client [OF worker] assms(2,3) by auto
next
  case wait_on_start
  then show ?thesis using assms(2,3) by (cases "client s") (auto simp: wait_on_start_move_def split: if_splits)
next
  case exit
  then show ?thesis using assms(2,3)
    by (cases "client s") (auto simp: exit_move_def client_lock_def client_unlock_def split: if_splits)
next
  case wait_on_exit
  then show ?thesis using assms(2,3)
    by (cases "client s") (auto simp: wait_on_exit_move_def client_lock_def client_unlock_def split: if_splits)
next
  case push_back
  then show ?thesis using assms(2,3)
    by (cases "client s") (auto simp: push_back_move_def client_lock_def client_unlock_def split: if_splits)
qed (use assms(2,3) in auto)

lemma object_move_accepted_Idle:
  assumes "object_move s s'" and "client_in ph (client s)" and "ph \<notin> {In_push, In_rejected}"
  shows "accepted s' = accepted s"
  using assms(1)
proof cases
  case worker
  then show ?thesis by (rule worker_move_accepted)
next
  case wait_on_start
  then show ?thesis by (cases "client s") (auto simp: wait_on_start_move_def split: if_splits)
next
  case exit
  then show ?thesis
    by (cases "client s") (auto simp: exit_move_def client_lock_def client_unlock_def split: if_splits)
next
  case wait_on_exit
  then show ?thesis
    by (cases "client s") (auto simp: wait_on_exit_move_def client_lock_def client_unlock_def split: if_splits)
next
  case push_back
  then show ?thesis using method_phases(4) assms(2,3) by blast
qed auto

lemma nth_update: "j < length xs \<Longrightarrow> xs[i := x] ! j = (if j = i then x else xs ! j)"
  by (cases "j = i") simp_all

lemma main_move_accepted:
  assumes "pool_inv p" and "inputs_inv p" and "main_move elapsed p = Some p'"
  shows "inputs_inv p'"
proof (cases "main p")
  case (Input t)
  then have "client (m_objects p ! j) = Idle" if "j < length (m_objects p)" for j
    using pool_inv_Idle [OF assms(1)] that by simp
  with Input show ?thesis
    using assms(2,3)
    by (auto simp: main_move_def input_begin_def inputs_inv_def inputs_ok_def nth_set_client given_def)
next
  case (Input_push t)
  then obtain b where b: "client (m_objects p ! m_currentThread p) = Pushed b" "p' = input_end t b p"
    using assms(3) by (auto simp: main_move_def object_client_def split: client_pc.splits)
  have "client (m_objects p ! j) = Idle" if "j < length (m_objects p)" "j \<noteq> m_currentThread p" for j
    using pool_inv_Idle [OF assms(1)] that Input_push by simp
  then show ?thesis
    using assms(2) b Input_push
    by (auto simp: input_end_def inputs_inv_def inputs_ok_def nth_set_client given_append)
next
  case (Exit_waiting i t)
  then show ?thesis
    using assms(2,3)
    by (auto simp: main_move_def exit_waiting_def exit_wait_next_def inputs_inv_def inputs_ok_def nth_set_client
        split: client_pc.splits if_splits)
next
  case (Configure_spawn i count f)
  then show ?thesis
    using assms(2,3)
    by (auto simp: main_move_def configure_spawn_def inputs_inv_def inputs_ok_def nth_update split: if_splits)
qed (use assms(2,3) in \<open>auto simp: main_move_def configure_begin_def configure_wait_def configure_end_def
      inputs_inv_def inputs_ok_def nth_set_client Let_def split: if_splits\<close>)

lemma inputs_inv_update:
  assumes "inputs_inv p" and "i < length (m_objects p)"
    and "inputs_ok (main p) (given i (inputs p)) s"
  shows "inputs_inv (p\<lparr>m_objects := (m_objects p)[i := s]\<rparr>)"
  using assms by (auto simp: inputs_inv_def nth_list_update)

lemma object_move_inputs_ok:
  assumes "object_move s s'" and "inputs_ok m xs s" and "client_in (phase m stop cur j) (client s)"
  shows "inputs_ok m xs s'"
proof (cases "\<exists>t. m = Input_push t")
  case True
  then obtain t where m: "m = Input_push t"
    by blast
  then show ?thesis
    using object_move_accepted [OF assms(1), of xs t] assms(2) by (simp add: inputs_ok_def)
next
  case False
  then have "phase m stop cur j \<notin> {In_push, In_rejected}"
    by (cases m) auto
  from object_move_accepted_Idle [OF assms(1,3) this] show ?thesis
    using False assms(2) by (cases m) (simp_all add: inputs_ok_def)
qed

lemma inputs_inv_frame [simp]:
  "inputs_inv (p\<lparr>m_taskOutputMutex := m\<rparr>) = inputs_inv p"
  "inputs_inv (p\<lparr>outputs := os\<rparr>) = inputs_inv p"
  by (simp_all add: inputs_inv_def)

lemma pool_step_inputs:
  assumes "pool_step proper_call process p p'" and "pool_inv p" and "inputs_inv p"
  shows "inputs_inv p'"
  using assms(1)
proof cases
  case (method_called c)
  then show ?thesis
    using assms(3) by (cases c) (auto simp: inputs_inv_def inputs_ok_def)
next
  case (main_moves elapsed)
  then show ?thesis using main_move_accepted assms(2,3) by blast
next
  case (object_moves i s)
  have "inputs_ok (main p) (given i (inputs p)) (m_objects p ! i)"
    using assms(3) object_moves(3) by (simp add: inputs_inv_def)
  moreover have "client_in (pool_phase p i) (client (m_objects p ! i))"
    using pool_inv_object [OF assms(2) object_moves(3)] by (simp add: object_ok_def)
  ultimately show ?thesis
    using object_move_inputs_ok [OF object_moves(4)] inputs_inv_update [OF assms(3) object_moves(3)] object_moves(1)
    by blast
next
  case (task_processes i s t r d)
  have "inputs_ok (main p) (given i (inputs p)) (s\<lparr>worker := Function (Stop_test r), m_data := d\<rparr>)"
    using assms(3) task_processes(3,4) by (auto simp: inputs_inv_def inputs_ok_def)
  then show ?thesis
    using inputs_inv_update [OF assms(3) task_processes(3)] task_processes(1) by blast
next
  case (task_moves i s f f' m out)
  have "inputs_ok (main p) (given i (inputs p)) (s\<lparr>worker := Function f'\<rparr>)"
    using assms(3) task_moves(3,4) by (auto simp: inputs_inv_def inputs_ok_def)
  then show ?thesis
    using inputs_inv_update [OF assms(3) task_moves(3)] task_moves(1) by simp
qed

interpretation pool_inputs: invariant proper_pool "pool_step proper_call process" "\<lambda>p. pool_inv p \<and> inputs_inv p"
  for process
proof unfold_locales
  fix p :: "('a, 'b, 'c) thread_pool"
  assume p: "proper_pool p"
  then have "inputs_inv p"
    by (auto simp: proper_pool_def ThreadPool_def inputs_inv_def inputs_ok_def given_def ThreadObjectData_def)
  then show "pool_inv p \<and> inputs_inv p"
    using proper_pool_inv p by blast
qed (use pool_step_inv pool_step_inputs in blast)

text \<open>
  C28: What \<open>input\<close> of a thread pool accepted is executed: whenever no method runs and \<open>exit\<close> has not been called, every configured
  worker that is left alone executes exactly the tasks that were given to it, in the order in which
  \<open>input\<close> was called.
\<close>

theorem pool_executes_inputs:
  assumes "reach proper_pool (pool_step proper_call process) p" and "main p = Ready" and "\<not> m_stop p"
    and "j < m_totalConfigured p"
  shows "\<exists>s. run_alone (m_objects p ! j) = Some s \<and> worker s = Waiting \<and> m_queue s = [] \<and>
    started s = given j (inputs p) \<and> finished s = given j (inputs p)"
proof -
  have inv: "pool_inv p" "inputs_inv p"
    using pool_inputs.inv_reach [OF assms(1)] by blast+
  have j: "j < length (m_objects p)"
    using inv(1) assms(4) by (simp add: pool_inv_def counters_ok_def)
  have up: "client (m_objects p ! j) = Idle" "in_stage Up (m_objects p ! j)"
    using pool_inv_object [OF inv(1) j] assms(2-4) by (simp_all add: object_ok_def)
  have w: "\<not> starting (worker (m_objects p ! j))" "worker (m_objects p ! j) \<noteq> Terminated" "m_running (m_objects p ! j)"
    using up(2) by (auto simp: spawned_def)
  have "accepted (m_objects p ! j) = given j (inputs p)"
    using inv(2) j assms(2) by (simp add: inputs_inv_def inputs_ok_def)
  then show ?thesis
    using worker_queue_runs [OF _ up(1) w(3,1,2)] pool_objects_reach [OF assms(1)] j by auto
qed

section \<open>Turns of the workers\<close>

text \<open>A program that only calls \<open>input\<close>.\<close>

definition only_input :: "'t pool_call \<Rightarrow> ('t, 'r, 'd) thread_pool \<Rightarrow> bool" where
  "only_input c p \<longleftrightarrow> (case c of Call_input t \<Rightarrow> True | _ \<Rightarrow> False)"

lemma only_input_proper: "only_input c p \<Longrightarrow> proper_call c p"
  by (cases c) (simp_all add: only_input_def)

lemma pool_step_mono:
  assumes "pool_step allowed process p p'" and "\<And>c. allowed c p \<Longrightarrow> allowed' c p"
  shows "pool_step allowed' process p p'"
  using assms(1) by cases (use assms(2) in \<open>blast intro: pool_step.intros\<close>)+

fun robin_main :: "nat \<Rightarrow> 't main_pc \<Rightarrow> bool" where
  "robin_main n (Configure count f) = (f = Some n)"
| "robin_main n (Configure_spawn i count f) = (f = Some n)"
| "robin_main n (Configure_wait i count f) = (f = Some n)"
| "robin_main n (Configure_waiting i count f) = (f = Some n)"
| "robin_main n (Configure_end count f) = (f = Some n)"
| "robin_main n _ = False"

fun input_main :: "'t main_pc \<Rightarrow> bool" where
  "input_main Ready = True"
| "input_main (Input t) = True"
| "input_main (Input_push t) = True"
| "input_main (Input_result b) = True"
| "input_main _ = False"

definition in_turn :: "nat \<Rightarrow> (nat \<times> 't) list \<Rightarrow> bool" where
  "in_turn n xs \<longleftrightarrow> map fst xs = map (\<lambda>k. k mod n) [0..<length xs]"

definition robin_inv :: "nat \<Rightarrow> ('t, 'r, 'd) thread_pool \<Rightarrow> bool" where
  "robin_inv n p \<longleftrightarrow>
     (if robin_main n (main p) then inputs p = [] \<and> m_currentThread p = 0 \<and> m_totalActive p = 0
      else input_main (main p) \<and> m_totalActive p = n \<and> m_currentThread p = length (inputs p) mod n \<and>
        in_turn n (inputs p))"

lemma robin_inv_frame [simp]:
  "robin_inv n (p\<lparr>m_objects := xs\<rparr>) = robin_inv n p"
  "robin_inv n (p\<lparr>m_taskOutputMutex := m\<rparr>) = robin_inv n p"
  "robin_inv n (p\<lparr>outputs := os\<rparr>) = robin_inv n p"
  by (simp_all add: robin_inv_def)

lemma in_turn_append: "in_turn n xs \<Longrightarrow> in_turn n (xs @ [(length xs mod n, t)])"
  by (simp add: in_turn_def)

lemma input_end_robin:
  assumes "robin_inv n p" and "main p = Input_push t" and "0 < n" and "n < 2 ^ 64"
  shows "robin_inv n (input_end t b p)"
proof -
  have r: "m_totalActive p = n" "m_currentThread p = length (inputs p) mod n" "in_turn n (inputs p)"
    using assms(1,2) by (simp_all add: robin_inv_def)
  have "next_thread (length (inputs p) mod n) n = Suc (length (inputs p)) mod n"
    using next_thread_bound [of "length (inputs p) mod n" n] assms(3,4) by (simp add: mod_Suc_eq)
  then show ?thesis
    using r in_turn_append by (auto simp: robin_inv_def input_end_def)
qed

lemma main_move_robin:
  assumes "robin_inv n p" and "main_move elapsed p = Some p'" and "pool_inv p" and "0 < n" and "n < 2 ^ 64"
  shows "robin_inv n p'"
proof (cases "main p")
  case (Input t)
  moreover have "m_currentThread p < length (m_objects p)"
    using assms(3) Input by (auto simp: pool_inv_def counters_ok_def)
  ultimately show ?thesis
    using assms(1,2) by (auto simp: main_move_def input_begin_def robin_inv_def)
next
  case (Input_push t)
  then show ?thesis
    using input_end_robin [OF assms(1) Input_push assms(4,5)] assms(2)
    by (auto simp: main_move_def split: client_pc.splits)
next
  case (Configure_spawn i count f)
  moreover have "worker (m_objects p ! i) = Unstarted" if "i < count"
    using pool_inv_object [OF assms(3), of i] Configure_spawn that assms(3)
    by (simp add: object_ok_def pool_inv_def counters_ok_def)
  ultimately show ?thesis
    using assms(1,2) by (auto simp: main_move_def configure_spawn_def robin_inv_def split: if_splits)
qed (use assms(1,2) in \<open>auto simp: main_move_def configure_begin_def configure_wait_def configure_end_def
      robin_inv_def Let_def in_turn_def split: if_splits\<close>)

lemma pool_step_robin:
  assumes "pool_step only_input process p p'" and "pool_inv p" and "robin_inv n p" and "0 < n" and "n < 2 ^ 64"
  shows "robin_inv n p'"
  using assms(1)
proof cases
  case (method_called c)
  then show ?thesis
    using assms(3) by (cases c) (auto simp: only_input_def robin_inv_def)
next
  case (main_moves elapsed)
  then show ?thesis using main_move_robin assms(2-5) by blast
qed (use assms(3) in simp_all)

text \<open>
  C31: A program that only calls \<open>input\<close> gives its tasks to the workers of a pool of size \<open>n\<close> in turn: the
  \<open>k\<close>-th task that is accepted goes to the worker \<open>k mod n\<close>.
\<close>

theorem input_round_robin:
  assumes "0 < n" and "n \<le> maxSize" and "maxSize < 2 ^ 64"
    and "reach (\<lambda>p. p = ThreadPool n maxSize d) (pool_step only_input process) p"
  shows "map fst (inputs p) = map (\<lambda>k. k mod n) [0..<length (inputs p)]"
proof -
  have "pool_inv p \<and> robin_inv n p"
    using assms(4)
  proof (induction rule: reach.induct)
    case (start p)
    then have "proper_pool p"
      using assms(1-3) by (auto simp: proper_pool_def)
    then show ?case
      using proper_pool_inv start by (auto simp: ThreadPool_def robin_inv_def)
  next
    case (step p p')
    have "pool_step proper_call process p p'"
      using pool_step_mono [OF step.hyps(2)] only_input_proper by blast
    then show ?case
      using pool_step_inv pool_step_robin [OF step.hyps(2)] step.IH assms(1-3) by auto
  qed
  then show ?thesis
    by (auto simp: robin_inv_def in_turn_def split: if_splits)
qed

section \<open>Output\<close>

fun in_output :: "('t, 'r) worker_pc \<Rightarrow> bool" where
  "in_output (Function (Owned r)) = True"
| "in_output (Function (Output r)) = True"
| "in_output (Function Unlock_output) = True"
| "in_output _ = False"

definition output_inv :: "('t, 'r, 'd) thread_pool \<Rightarrow> bool" where
  "output_inv p \<longleftrightarrow>
     (\<forall>j < length (m_objects p). in_output (worker (m_objects p ! j)) \<longleftrightarrow> m_taskOutputMutex p = Some j)"

lemma notify_queue_in_output [simp]: "in_output (notify_queue w) = in_output w"
  by (cases w) (simp_all add: notify_queue_def)

lemma object_move_in_output:
  assumes "object_move s s'"
  shows "in_output (worker s') = in_output (worker s)"
  using assms
proof cases
  case worker
  then show ?thesis
    by (cases "worker s") (auto simp: worker_move_def split: if_splits function_pc.splits)
qed (auto simp: wait_on_start_move_def exit_move_def wait_on_exit_move_def push_back_move_def client_lock_def
       client_unlock_def split: client_pc.splits if_splits)

lemma main_move_in_output:
  assumes "main_move elapsed p = Some p'" and "j < length (m_objects p)"
  shows "in_output (worker (m_objects p' ! j)) = in_output (worker (m_objects p ! j)) \<and>
    m_taskOutputMutex p' = m_taskOutputMutex p"
  using assms
  by (cases "main p")
    (auto simp: main_move_def input_begin_def input_end_def configure_begin_def configure_spawn_def
       configure_wait_def configure_end_def exit_waiting_def nth_set_client nth_update Let_def
       split: if_splits client_pc.splits)

lemma output_inv_update:
  assumes "output_inv p" and "in_output (worker s) = in_output (worker (m_objects p ! i))"
  shows "output_inv (p\<lparr>m_objects := (m_objects p)[i := s]\<rparr>)"
  using assms by (auto simp: output_inv_def nth_update)

lemma function_move_output:
  assumes "function_move stop i m f = Some (f', m', out)" and "in_output (Function f) \<longleftrightarrow> m = Some i"
  shows "(in_output (Function f') \<longleftrightarrow> m' = Some i) \<and> (j \<noteq> i \<longrightarrow> (m' = Some j \<longleftrightarrow> m = Some j))"
  using assms by (elim function_moveE) (auto split: if_splits)

lemma pool_step_output:
  assumes "pool_step allowed process p p'" and "output_inv p"
  shows "output_inv p'"
  using assms(1)
proof cases
  case (method_called c)
  then show ?thesis using assms(2) by (cases c) (simp_all add: output_inv_def)
next
  case (main_moves elapsed)
  then show ?thesis
    using main_move_in_output [OF main_moves(2)] main_move_length [OF main_moves(2)] assms(2)
    by (simp add: output_inv_def)
next
  case (object_moves i s)
  then show ?thesis using output_inv_update [OF assms(2)] object_move_in_output by blast
next
  case (task_processes i s t r d)
  then show ?thesis
    using output_inv_update [OF assms(2), of "s\<lparr>worker := Function (Stop_test r), m_data := d\<rparr>" i] by simp
next
  case (task_moves i s f f' m out)
  have "in_output (Function f) \<longleftrightarrow> m_taskOutputMutex p = Some i"
    using assms(2) task_moves(3-5) by (auto simp: output_inv_def)
  from function_move_output [OF task_moves(6) this]
  show ?thesis
    using assms(2) task_moves(1) by (auto simp: output_inv_def nth_update)
qed

text \<open>The pools of every size, and the programs that call any method at any time.\<close>

definition any_pool :: "('t, 'r, 'd) thread_pool \<Rightarrow> bool" where
  "any_pool p \<longleftrightarrow> (\<exists>initialSize maxSize d. p = ThreadPool initialSize maxSize d)"

definition any_call :: "'t pool_call \<Rightarrow> ('t, 'r, 'd) thread_pool \<Rightarrow> bool" where
  "any_call c p = True"

interpretation pool_output: invariant any_pool "pool_step any_call process" output_inv for process
proof unfold_locales
  show "any_pool p \<Longrightarrow> output_inv p" for p :: "('a, 'b, 'c) thread_pool"
    by (auto simp: any_pool_def ThreadPool_def output_inv_def ThreadObjectData_def)
qed (fact pool_step_output)

text \<open>
  C32: Whatever the program does with a thread pool, two workers are never in the call of the output object at
  once.
\<close>

theorem output_exclusive:
  assumes "reach any_pool (pool_step any_call process) p"
    and "i < length (m_objects p)" and "worker (m_objects p ! i) = Function (Output r)"
    and "j < length (m_objects p)" and "worker (m_objects p ! j) = Function (Output r')"
  shows "i = j"
proof -
  have "output_inv p"
    using pool_output.inv_reach [OF assms(1)] .
  then have "m_taskOutputMutex p = Some i" "m_taskOutputMutex p = Some j"
    using assms(2-5) unfolding output_inv_def by (metis in_output.simps(2))+
  then show ?thesis
    by simp
qed

end
