(* ===== verification/Thread_Pool_Runs.thy ===== *)
theory Thread_Pool_Runs
  imports Thread_Pool_Order
begin

text \<open>
  Interleavings of a thread pool as lists of turns, and with them the programs that leave the bounds: a pool
  whose first size is above its maximum, and a pool that is shrunk to nothing. The same schedules give
  the states on which the theorems of the pool are evaluated.
\<close>

section \<open>Schedules\<close>

datatype ('t, 'r, 'd) pool_turn =
    Pool_call "'t pool_call"
  | Main_turn
  | Worker_of nat
  | Client_of nat
  | Process_of nat 'r 'd
  | Task_of nat

definition update_object ::
  "nat \<Rightarrow> ('t, 'r, 'd) thread_object option \<Rightarrow> ('t, 'r, 'd) thread_pool \<Rightarrow> ('t, 'r, 'd) thread_pool option" where
  "update_object i s p = map_option (\<lambda>s. p\<lparr>m_objects := (m_objects p)[i := s]\<rparr>) s"

definition process_object ::
  "nat \<Rightarrow> 'r \<Rightarrow> 'd \<Rightarrow> ('t, 'r, 'd) thread_pool \<Rightarrow> ('t, 'r, 'd) thread_pool option" where
  "process_object i r d p =
     (case worker (m_objects p ! i) of
        Function (Process t) \<Rightarrow>
          Some (p\<lparr>m_objects := (m_objects p)[i := (m_objects p ! i)\<lparr>worker := Function (Stop_test r), m_data := d\<rparr>]\<rparr>)
      | _ \<Rightarrow> None)"

definition task_object :: "nat \<Rightarrow> ('t, 'r, 'd) thread_pool \<Rightarrow> ('t, 'r, 'd) thread_pool option" where
  "task_object i p =
     (case worker (m_objects p ! i) of
        Function f \<Rightarrow>
          (case function_move (m_stop p) i (m_taskOutputMutex p) f of
             None \<Rightarrow> None
           | Some (f', m, out) \<Rightarrow>
               Some (p\<lparr>m_objects := (m_objects p)[i := (m_objects p ! i)\<lparr>worker := Function f'\<rparr>],
                       m_taskOutputMutex := m, outputs := outputs p @ map (Pair i) out\<rparr>))
      | _ \<Rightarrow> None)"

fun take_pool_turn :: "('t, 'r, 'd) pool_turn \<Rightarrow> ('t, 'r, 'd) thread_pool \<Rightarrow> ('t, 'r, 'd) thread_pool option" where
  "take_pool_turn (Pool_call c) p = (if main p = Ready then Some (begin_call c p) else None)"
| "take_pool_turn Main_turn p = main_move 0 p"
| "take_pool_turn (Worker_of i) p = update_object i (worker_move (m_objects p ! i)) p"
| "take_pool_turn (Client_of i) p = update_object i (client_move (m_objects p ! i)) p"
| "take_pool_turn (Process_of i r d) p = process_object i r d p"
| "take_pool_turn (Task_of i) p = task_object i p"

fun turn_index :: "('t, 'r, 'd) pool_turn \<Rightarrow> nat" where
  "turn_index (Worker_of i) = i"
| "turn_index (Client_of i) = i"
| "turn_index (Process_of i r d) = i"
| "turn_index (Task_of i) = i"
| "turn_index _ = 0"

fun turn_calls :: "('t, 'r, 'd) pool_turn \<Rightarrow> 't pool_call option" where
  "turn_calls (Pool_call c) = Some c"
| "turn_calls _ = None"

fun pool_schedule ::
  "('t, 'r, 'd) pool_turn list \<Rightarrow> ('t, 'r, 'd) thread_pool \<Rightarrow> ('t, 'r, 'd) thread_pool option" where
  "pool_schedule [] p = Some p"
| "pool_schedule (x # xs) p =
     (if terminated p \<or> turn_index x \<ge> length (m_objects p) then None
      else case take_pool_turn x p of None \<Rightarrow> None | Some p' \<Rightarrow> pool_schedule xs p')"

abbreviation any_result :: "'t \<Rightarrow> 'd \<Rightarrow> 'r \<Rightarrow> 'd \<Rightarrow> bool" where
  "any_result \<equiv> (\<lambda>_ _ _ _. True)"

lemma client_move_object: "client_move s = Some s' \<Longrightarrow> object_move s s'"
  by (auto simp: client_move_def split: option.splits intro: object_move.intros)

lemma pool_turn_step:
  assumes "take_pool_turn x p = Some p'" and "\<not> terminated p" and "turn_index x < length (m_objects p)"
    and "\<And>c. turn_calls x = Some c \<Longrightarrow> allowed c p"
  shows "pool_step allowed any_result p p'"
proof (cases x)
  case (Pool_call c)
  then show ?thesis
    using assms(1,2,4) by (auto split: if_splits intro: method_called)
next
  case Main_turn
  then show ?thesis
    using assms(1,2) main_moves [of p 0] by auto
next
  case (Worker_of i)
  then show ?thesis
    using assms(1-3) object_move.worker object_moves by (fastforce simp: update_object_def)
next
  case (Client_of i)
  then show ?thesis
    using assms(1-3) client_move_object object_moves by (fastforce simp: update_object_def)
next
  case (Process_of i r d)
  then show ?thesis
    using assms(1-3) task_processes [OF assms(2), of i]
    by (auto simp: process_object_def split: worker_pc.splits function_pc.splits)
next
  case (Task_of i)
  then show ?thesis
    using assms(1-3) task_moves [OF assms(2), of i]
    by (auto simp: task_object_def split: worker_pc.splits option.splits)
qed

lemma pool_schedule_reach:
  assumes "pool_schedule xs p = Some p'" and "reach start (pool_step allowed any_result) p"
    and "\<And>x c q. x \<in> set xs \<Longrightarrow> turn_calls x = Some c \<Longrightarrow> allowed c q"
  shows "reach start (pool_step allowed any_result) p'"
  using assms
proof (induction xs arbitrary: p)
  case (Cons x xs)
  obtain q where q: "take_pool_turn x p = Some q" "pool_schedule xs q = Some p'" "\<not> terminated p"
      "turn_index x < length (m_objects p)"
    using Cons.prems(1) by (auto split: if_splits option.splits)
  have "pool_step allowed any_result p q"
    by (rule pool_turn_step [OF q(1,3,4)]) (rule Cons.prems(3) [of x], simp_all)
  then have "reach start (pool_step allowed any_result) q"
    by (rule reach.step [OF Cons.prems(2)])
  then show ?case
    by (rule Cons.IH [OF q(2)]) (rule Cons.prems(3), simp_all)
qed simp

section \<open>Programs that leave the bounds\<close>

text \<open>The creation of the first thread, one call of \<open>input\<close> that is accepted, and the worker's way to the task.\<close>

definition first_thread :: "(nat, nat, unit) pool_turn list" where
  "first_thread =
     [Main_turn, Main_turn, Main_turn, Main_turn, Worker_of 0, Worker_of 0, Worker_of 0, Client_of 0, Client_of 0,
      Main_turn, Main_turn, Main_turn]"

definition first_input :: "(nat, nat, unit) pool_turn list" where
  "first_input =
     [Pool_call (Call_input 5), Main_turn, Client_of 0, Client_of 0, Client_of 0, Client_of 0, Client_of 0, Client_of 0,
      Main_turn, Main_turn]"

lemmas pool_run_defs =
  ThreadPool_def ThreadObjectData_def terminated_def update_object_def process_object_def task_object_def
  main_move_def input_begin_def input_end_def next_thread_def configure_begin_def configure_spawn_def configure_wait_def
  configure_end_def exit_waiting_def exit_wait_next_def object_client_def set_client_def client_move_def
  thread_object_move_defs

lemma first_thread_run:
  "pool_schedule first_thread (ThreadPool 1 1 ()) =
     Some \<lparr>m_objects = [\<lparr>m_data = (), m_running = True, m_runningMutex = False, m_runningLock = False, m_exited = False,
        m_queue = [], m_queueMutex = None, worker = Lock_queue, client = Idle, accepted = [], started = [], finished = []\<rparr>],
      m_currentThread = 0, m_totalConfigured = 1, m_totalActive = 1, m_taskInputMutex = False,
      m_taskOutputMutex = None, m_stop = False, main = Ready, outputs = [], inputs = []\<rparr>"
  by (simp add: first_thread_def pool_run_defs)

text \<open>
  The constructor bounds the number of threads by \<open>maxSize\<close> and then sets \<open>m_totalActive\<close> to the size it was
  given: with two as the size and one as the maximum, the second call of \<open>input\<close> is out of range.
\<close>

lemma oversized_run:
  "\<exists>p. pool_schedule (first_thread @ first_input @ [Pool_call (Call_input 6), Main_turn]) (ThreadPool 2 1 ()) = Some p \<and>
     main p = Out_of_range"
  by (simp add: first_thread_def first_input_def pool_run_defs)

lemma oversized_pool_out_of_range:
  "\<exists>p. reach (\<lambda>p. p = ThreadPool 2 1 ()) (pool_step only_input (any_result :: nat \<Rightarrow> unit \<Rightarrow> nat \<Rightarrow> unit \<Rightarrow> bool)) p \<and>
     main p = Out_of_range"
proof -
  obtain p where p: "pool_schedule (first_thread @ first_input @ [Pool_call (Call_input 6), Main_turn]) (ThreadPool 2 1 ()) = Some p"
      "main p = Out_of_range"
    using oversized_run by blast
  have "reach (\<lambda>p. p = ThreadPool 2 1 ()) (pool_step only_input any_result) p"
    by (rule pool_schedule_reach [OF p(1)])
      (auto simp: first_thread_def first_input_def only_input_def intro: reach.start)
  then show ?thesis
    using p(2) by blast
qed

text \<open>
  A pool that is shrunk to nothing, which the assertion of \<open>shrink\<close> allows, still gives its next task to the
  first worker; the test for the end of the turn, an equality, is then never true.
\<close>

definition input_or_shrink :: "'t pool_call \<Rightarrow> ('t, 'r, 'd) thread_pool \<Rightarrow> bool" where
  "input_or_shrink c p \<longleftrightarrow> (case c of Call_input t \<Rightarrow> True | Call_shrink n \<Rightarrow> True | _ \<Rightarrow> False)"

lemma shrunk_run:
  "\<exists>p. pool_schedule (first_thread @ [Pool_call (Call_shrink 1), Main_turn, Main_turn] @ first_input @
       [Pool_call (Call_input 6), Main_turn]) (ThreadPool 1 1 ()) = Some p \<and>
     main p = Out_of_range"
  by (simp add: first_thread_def first_input_def pool_run_defs)

lemma shrunk_pool_out_of_range:
  "\<exists>p. reach (\<lambda>p. p = ThreadPool 1 1 ()) (pool_step input_or_shrink (any_result :: nat \<Rightarrow> unit \<Rightarrow> nat \<Rightarrow> unit \<Rightarrow> bool)) p \<and>
     main p = Out_of_range"
proof -
  obtain p where p: "pool_schedule (first_thread @ [Pool_call (Call_shrink 1), Main_turn, Main_turn] @ first_input @
       [Pool_call (Call_input 6), Main_turn]) (ThreadPool 1 1 ()) = Some p" "main p = Out_of_range"
    using shrunk_run by blast
  have "reach (\<lambda>p. p = ThreadPool 1 1 ()) (pool_step input_or_shrink any_result) p"
    by (rule pool_schedule_reach [OF p(1)])
      (auto simp: first_thread_def first_input_def input_or_shrink_def intro: reach.start)
  then show ?thesis
    using p(2) by blast
qed

section \<open>States of a pool\<close>

text \<open>A pool of one worker that has accepted a task, and the same pool when the worker outputs its result.\<close>

definition task_output :: "(nat, nat, unit) pool_turn list" where
  "task_output =
     [Worker_of 0, Worker_of 0, Worker_of 0, Worker_of 0, Worker_of 0, Process_of 0 7 (), Task_of 0, Task_of 0, Task_of 0]"

lemma input_state:
  "\<exists>p. pool_schedule (first_thread @ first_input) (ThreadPool 1 1 ()) = Some p \<and> main p = Ready \<and> \<not> m_stop p \<and>
     m_totalConfigured p = 1 \<and> inputs p = [(0, 5)]"
  by (simp add: first_thread_def first_input_def pool_run_defs)

lemma output_state:
  "\<exists>p. pool_schedule (first_thread @ first_input @ task_output) (ThreadPool 1 1 ()) = Some p \<and>
     length (m_objects p) = 1 \<and> worker (m_objects p ! 0) = Function (Output 7)"
  by (simp add: first_thread_def first_input_def task_output_def pool_run_defs)

lemma input_reach:
  assumes "pool_schedule (first_thread @ first_input) (ThreadPool 1 1 ()) = Some p"
  shows "reach proper_pool (pool_step proper_call any_result) p"
    and "reach (\<lambda>p. p = ThreadPool 1 1 ()) (pool_step only_input any_result) p"
proof -
  have "proper_pool (ThreadPool 1 1 ())"
    unfolding proper_pool_def by (rule exI [of _ 1]) auto
  then show "reach proper_pool (pool_step proper_call any_result) p"
    by (intro pool_schedule_reach [OF assms]) (auto simp: first_thread_def first_input_def intro: reach.start)
  show "reach (\<lambda>p. p = ThreadPool 1 1 ()) (pool_step only_input any_result) p"
    by (rule pool_schedule_reach [OF assms])
      (auto simp: first_thread_def first_input_def only_input_def intro: reach.start)
qed

theorem thread_pool_in_bounds_witness:
  "\<exists>p :: (nat, nat, unit) thread_pool. inputs p = [(0, 5)] \<and> main p = Ready \<and> m_currentThread p < m_totalActive p"
proof -
  obtain p where p: "pool_schedule (first_thread @ first_input) (ThreadPool 1 1 ()) = Some p"
      "main p = Ready" "\<not> m_stop p" "inputs p = [(0, 5)]"
    using input_state by blast
  show ?thesis
    using thread_pool_in_bounds [OF input_reach(1) [OF p(1)]] p(2-4) by blast
qed

theorem pool_executes_inputs_witness:
  "\<exists>p :: (nat, nat, unit) thread_pool. inputs p = [(0, 5)] \<and>
     (\<exists>s. run_alone (m_objects p ! 0) = Some s \<and> finished s = [5])"
proof -
  obtain p where p: "pool_schedule (first_thread @ first_input) (ThreadPool 1 1 ()) = Some p"
      "main p = Ready" "\<not> m_stop p" "m_totalConfigured p = 1" "inputs p = [(0, 5)]"
    using input_state by blast
  have "given 0 (inputs p) = [5]"
    using p(5) by (simp add: given_def)
  then show ?thesis
    using pool_executes_inputs [OF input_reach(1) [OF p(1)] p(2,3), of 0] p(4,5) by auto
qed

theorem input_round_robin_witness:
  "\<exists>p :: (nat, nat, unit) thread_pool. inputs p = [(0, 5)] \<and> map fst (inputs p) = [0]"
proof -
  obtain p where p: "pool_schedule (first_thread @ first_input) (ThreadPool 1 1 ()) = Some p" "inputs p = [(0, 5)]"
    using input_state by blast
  show ?thesis
    using input_round_robin [OF _ _ _ input_reach(2) [OF p(1)]] p(2) by auto
qed

theorem output_exclusive_witness:
  "\<exists>(p :: (nat, nat, unit) thread_pool) j. length (m_objects p) = 1 \<and>
     worker (m_objects p ! j) = Function (Output 7) \<and> 0 = j"
proof -
  obtain p where p: "pool_schedule (first_thread @ first_input @ task_output) (ThreadPool 1 1 ()) = Some p"
      "length (m_objects p) = 1" "worker (m_objects p ! 0) = Function (Output 7)"
    using output_state by blast
  have "any_pool (ThreadPool 1 1 ())"
    unfolding any_pool_def by blast
  then have "reach any_pool (pool_step any_call any_result) p"
    by (intro pool_schedule_reach [OF p(1)]) (auto simp: any_call_def intro: reach.start)
  then show ?thesis
    using output_exclusive [of any_result p 0 7 0 7] p(2,3) by auto
qed

end
