(* ===== verification/Spec2Isabelle.thy ===== *)
theory Spec2Isabelle
  imports State_Machine Status_Codes Realloc_Ptr Os_Io Api_Io Lookup Ei Api_Send Api_Poll Api_Protocol Api_Dispatch
    Api_Calls Key_Value Api_Cxx Api_Objects Api_Ownership Api_Lifetime Service Count_Service Api_Frame Python_Binding Python_Correct Python_References Port_Types Sys Port Port_Correct Port_Limits Port_Client Copy_Ptr
    Os_Limits Os_Owner Spawn_Child Spawn_Exec Spawn Spawn_Table Spawn_Correct Spawn_Request
    Thread_Object Thread_Object_Correct Thread_Pool Thread_Pool_Invariant Thread_Pool_Correct Thread_Pool_Order Thread_Pool_Runs
begin

text \<open>
  A verification of the C and C++ code of CloudI: the service API for C and C++
  (\<^verbatim>\<open>src/src/api/c\<close>), its binding for Python (\<^verbatim>\<open>src/src/api/python/cloudi_py.cpp\<close>) and the program that starts the operating system processes of services
  (\<^verbatim>\<open>src/src/lib/cloudi_core/cxx_src\<close>), and the thread pool in which C++ services run their threads
  (\<^verbatim>\<open>src/src/tests/hexpi/cxx/thread_pool.hpp\<close>).

  \<^bold>\<open>The program.\<close> A service written in C or C++ runs as one or more processes that the Erlang core of
  CloudI starts through the port program \<^verbatim>\<open>cloudi_os_spawn\<close>. That program gets typed commands on
  descriptor 3 and answers on descriptor 4 (the library \<^verbatim>\<open>port.cpp\<close>); its one command forks, connects a
  socket for every thread of the service, sets limits, root directory, priority and owner, and executes the
  service, whose two output streams the program forwards line by line. The service links the API
  (\<^verbatim>\<open>cloudi.cpp\<close>), which talks to the Erlang core over those sockets: it subscribes to names, sends requests,
  and polls for messages, which it decodes and dispatches to callbacks. A service in Python uses the same code
  through an extension module, which releases the lock of the interpreter for every call of the API and takes
  it for every callback. A C++ service with several threads runs one task per thread in a pool of workers, each with a
  queue of its own. Both programs rest on the same two
  helper classes, \<^verbatim>\<open>realloc_ptr.hpp\<close> and \<^verbatim>\<open>copy_ptr.hpp\<close>, and share their numbers of statuses.

  \<^bold>\<open>Outcomes and the environment.\<close> Every operation returns an \<open>outcome\<close>: a value (\<open>Ok\<close>), a C++ exception or
  failed assertion (\<open>Raise\<close>), the end of the process (\<open>Exited\<close>), undefined behaviour such as an access outside
  a block or to memory that was never written (\<open>Undefined\<close>), or \<open>Blocked\<close> when a system call never
  answers. The system calls are answered from lists that are part of the state (what every \<open>read\<close>, \<open>write\<close>,
  \<open>poll\<close>, allocation, \<open>fork\<close>, \<open>connect\<close> and so on returns), so a theorem about all states is one about every
  behaviour of the system; what was written or called is recorded. Loops that end are functions with
  termination proofs; the ones that may run forever (polling, the wait loop, the main loop) are partial
  functions whose value is \<open>None\<close> if they do, and no fuel is used. The lock of the Python interpreter, and the
  references to functions that the binding owns, are part of the state too. The Erlang library \<open>ei\<close>, the user's
  callbacks, the environment variables and the user databases are parameters.

  \<^bold>\<open>Theories, from the bottom.\<close>
  \<^item> \<open>Prelude\<close>: outcomes, the composition of computations, memory blocks, bytes of words.
  \<^item> \<open>State_Machine\<close>: reachable states, and the contracts of a machine with an invariant (locale \<open>invariant\<close>) and of
    one whose commands are defined (locale \<open>command_machine\<close>, which gives the other), which the pointers, the
    API objects, the callback objects and the references of the Python binding are shown to keep.
  \<^item> \<open>Status_Codes\<close> (\<^verbatim>\<open>cloudi.h\<close>, \<^verbatim>\<open>port.hpp\<close>, the enumerations and \<open>errno\<close> translations): the contract of a
    translation is the locale \<open>errno_map\<close>, and the tables of the two programs agree.
  \<^item> \<open>Realloc_Ptr\<close> (\<^verbatim>\<open>realloc_ptr.hpp\<close>): every member of the growable array with \<open>size_t\<close> wrap-around; what
    \<open>reserve\<close> guarantees (the locale \<open>growable\<close>), and where the class leaves its limits. \<open>Buffers\<close> adds
    texts at an offset. \<open>Copy_Ptr\<close> (\<^verbatim>\<open>copy_ptr.hpp\<close>): no object is lost, freed twice or used after it was
    freed by programs that copy and assign such pointers.
  \<^item> \<open>Os_Io\<close>, \<open>Sys\<close>: the system calls, the read and write loops that both programs share (locale
    \<open>framed_reader\<close>), and the calls that a computation makes (\<open>logs\<close>).
  \<^item> \<open>Ei\<close>: messages as steps that encode terms and reserve room, for any encoder that keeps the documented
    sizes of terms; \<open>ei_format\<close> is one.
  \<^item> \<open>Api_Io\<close>, \<open>Lookup\<close>, \<open>Api_Send\<close>, \<open>Api_Poll\<close>, \<open>Api_Calls\<close>, \<open>Key_Value\<close> (\<^verbatim>\<open>cloudi.cpp\<close> in its order):
    framing, the callback table (locale \<open>callback_table\<close>), the calls that send a message, the receive loop
    and the callback, the calls that wait for an answer, the parsing of request information.
    \<open>Api_Protocol\<close> relates the decoder to the encoders of the Erlang side
    (\<^verbatim>\<open>cloudi_core_i_services_external.erl\<close>): every message is decoded to what was encoded, and the pending events
    of a frame are a refinement of applying them one by one. \<open>Api_Dispatch\<close> shows that a request is answered
    once and that a frame of events ends.
  \<^item> \<open>Api_Cxx\<close> (class \<open>CloudI::API\<close>): objects that share an instance through a count, and the members that
    call the C API; the count is exact, and a subscription keeps its own instance alive.
  \<^item> \<open>Api_Objects\<close> (\<^verbatim>\<open>cloudi.hpp\<close>): the classes of callback objects, the forms of \<open>subscribe\<close> that make them, the
    forms of the members for strings, and the exceptions; callback objects are in a memory with the count of
    their shared pointers. \<open>Api_Ownership\<close>: the steps of a C++ program and the invariant of its objects.
    \<open>Api_Lifetime\<close>: no object is used after it was deleted or deleted twice, a callback that unsubscribes itself keeps
    its object until it returns, and the calls implement those of \<open>Api_Cxx\<close>.
  \<^item> \<open>Api_Frame\<close>: a calculus of what a computation leaves alone; the C++ API never touches the state of the
    interpreter but through callbacks. \<open>Python_Binding\<close> (\<^verbatim>\<open>cloudi_py.cpp\<close>): the object, its methods and the class
    of callbacks. \<open>Python_Correct\<close>: the lock is kept by every method and callback, the value of a function is
    the answer of its request, a synchronous request returns its response, errors become exceptions, and where
    a value is read after it was freed. \<open>Python_References\<close>: the references that the binding owns are those of
    the subscribed functions, although they are counted without the lock.
  \<^item> \<open>Service\<close>: from a frame to the callback and from \<open>cloudi_return\<close> to a frame, for services of every language;
    \<open>Count_Service\<close> (\<open>request\<close> of \<^verbatim>\<open>tests/count/c/main.c\<close>): a service in C that answers with its counter.
  \<^item> This theory: a request that arrives on the socket is answered there with the value of a Python function,
    through the decoder, the table, the callback class and the encoder.
  \<^item> \<open>Port_Types\<close>, \<open>Port\<close> (\<^verbatim>\<open>port.cpp\<close>, \<^verbatim>\<open>cloudi_os_spawn_hrl.h\<close>): typed arguments and results, commands, the
    capture of streams and the wait loop. \<open>Port_Correct\<close>: a call arrives as it was encoded, unknown commands
    are answered, complete lines are forwarded; \<open>Port_Limits\<close>: where the stream buffers fail.
    \<open>Port_Client\<close>: the contract between the library and a program (locale \<open>port_client\<close>).
  \<^item> \<open>Os_Limits\<close> (\<^verbatim>\<open>cloudi_os_rlimit.cpp\<close>), \<open>Os_Owner\<close> (\<^verbatim>\<open>cloudi_os_owner.cpp\<close>): resource limits as a
    refinement of the request, and the order in which privileges are given up.
  \<^item> \<open>Spawn_Child\<close>, \<open>Spawn\<close> (\<^verbatim>\<open>cloudi_os_spawn.cpp\<close>): what the child does between \<open>fork\<close> and \<open>execve\<close>, the table
    of processes, the port function and \<open>main\<close>. \<open>Spawn_Exec\<close>: the tables of arguments, and that nothing is
    executed before the privileges are given up. \<open>Spawn_Table\<close> and \<open>Spawn_Correct\<close>: the table implements a
    list of processes, through the interpretation of \<open>port_client\<close>, and every process is killed and waited for
    when it is removed or the program ends. \<open>Spawn_Request\<close>: a request from the Erlang side to the call of
    \<open>spawn\<close>.

  \<^item> \<open>Thread_Object\<close> (class \<open>ThreadObjectData\<close> of \<^verbatim>\<open>thread_pool.hpp\<close>): a worker thread and the thread that calls the
    methods of its object, by their program positions, over all interleavings; the invariant of the mutex, the
    queue, the wakeups and the flags. \<open>Thread_Object_Correct\<close>: the order of the tasks, the worker's progress, the
    accesses that race, a lost notification. \<open>Thread_Pool\<close> (class \<open>ThreadPool\<close>): the methods of the pool and the
    output of results, as steps over the list of its objects. \<open>Thread_Pool_Invariant\<close>, \<open>Thread_Pool_Correct\<close>: the
    counters stay in bounds and no thread ends the program; \<open>Thread_Pool_Order\<close>: accepted tasks are executed
    in order by the workers in turn, with one output at a time; \<open>Thread_Pool_Runs\<close>: schedules, and the programs that
    leave the bounds. The steps of threads are sequentially consistent.

  \<^bold>\<open>Correspondence.\<close> A class or structure is a record with the names of its members, an enumeration a
  datatype, a member function or static function a definition of the same name (with a prefix where names
  repeat: \<open>rp_\<close> for \<open>realloc_ptr\<close>, \<open>cp_\<close> for \<open>copy_ptr\<close>, \<open>gepd_\<close> for \<open>GEPD\<close>, \<open>process_\<close> for \<open>process_data\<close>,
  \<open>API_\<close> for \<open>CloudI::API\<close>, \<open>_impl\<close> and \<open>_full\<close> for a name that ends in an underscore). A pointer into a
  buffer is an offset. Fixed-width integers are words where they are computed with; indexes and sizes are
  natural numbers with the wrap-around written out where it can happen.

  \<^bold>\<open>Bounds.\<close> The hypotheses on sizes are those of the formats: a frame is shorter than \<open>2 ^ 32\<close> bytes, a name at
  most 65535, a table of callbacks has fewer than \<open>2 ^ 64 - 1\<close> entries, an encoded term is at most the
  documented number of bytes longer than its contents.

  \<^bold>\<open>Not modelled.\<close> Of the Python binding, the tables and the initialisation of the module and the branch for
  versions before 3.3; what CPython makes of the arguments of a method is a parameter. The
  code and the destructors of the function objects of a C++ program are the program's. Backtraces, \<open>perror\<close>
  messages, the buffering modes of the standard streams, signal handlers and \<open>atexit\<close> have no effect on
  what is stated. Two threads never share an instance, so there is no concurrency inside one. Of a thread pool, a
  second thread on an object whose first thread has not ended, and weaker memory orders than sequential consistency.
  The tasks of the services that use the pool are their own; of the counter written in C, its \<open>main\<close> and
  what it prints. The Erlang core,
  the other language APIs and vendored libraries are separate programs; of the Erlang side, only the
  encoders of the messages that this code decodes are modelled.
\<close>

section \<open>From a request to its answer\<close>

lemma sent_locked [simp]: "sent (released w) = sent w" "sent (acquired w) = sent w"
  by (simp_all add: sent_def released_def acquired_def fun_eq_iff)


text \<open>A frame with a request for the pattern \<^verbatim>\<open>/p/x\<close> and a service that has subscribed it with the function 7.\<close>

definition service_request :: bytes where
  "service_request = send_out MESSAGE_SEND_SYNC (cstr ''/p/x'') (cstr ''/p/x'') [] [1, 2] 5000 0 (replicate 16 3) [131, 97, 1]"

definition service_instance :: cloudi_instance_t where
  "service_instance = (sample_received (service_request @ events_out []))
     \<lparr>lookup := [cstr ''/p/x'' \<mapsto> queue_new (callback_function_object 7)]\<rparr>"

definition service_os :: os where
  "service_os = released (python_idle\<lparr>wr := [Wr_count 999]\<rparr>)"


end
